(* ===== verification/Nvfs_Prelude.thy ===== *)
theory Nvfs_Prelude
  imports Main "HOL-Library.Word" "HOL-Library.Monad_Syntax"
begin

unbundle bit_operations_syntax

text \<open>
  Shared vocabulary of the development: machine integer types, the error numbers the
  driver returns, the constants of \<^verbatim>\<open>nvfs-core.h\<close> and \<^verbatim>\<open>nvfs-mmap.h\<close>, the page
  geometry as a function of the kernel's page shift, pointers that may carry an error
  number, and the generic lemmas on bounded array writes, rounding division and words
  that the component theories use.

  Throughout the development a kernel operation returns an option: \<open>Some\<close> is a
  return to the caller, with whatever error number the code returns as part of the
  value, and \<open>None\<close> is the death of the kernel (a \<^verbatim>\<open>BUG()\<close>, the dereference of a
  null or freed pointer, an access outside an array).
\<close>

named_theorems nvfs_geom \<open>the page geometry, unfolded to powers of two\<close>
named_theorems nvfs_frame \<open>fields an operation leaves alone\<close>

type_synonym u8 = "8 word"
type_synonym u16 = "16 word"
type_synonym u32 = "32 word"
type_synonym u64 = "64 word"

type_synonym mptr = nat
type_synonym pageid = nat

section \<open>Error numbers\<close>

abbreviation (input) EIO :: int where "EIO \<equiv> 5"
abbreviation (input) EBADF :: int where "EBADF \<equiv> 9"
abbreviation (input) ENOMEM :: int where "ENOMEM \<equiv> 12"
abbreviation (input) EFAULT :: int where "EFAULT \<equiv> 14"
abbreviation (input) EBUSY :: int where "EBUSY \<equiv> 16"
abbreviation (input) EINVAL :: int where "EINVAL \<equiv> 22"
abbreviation (input) ENOTTY :: int where "ENOTTY \<equiv> 25"
abbreviation (input) EOVERFLOW :: int where "EOVERFLOW \<equiv> 75"
abbreviation (input) EOPNOTSUPP :: int where "EOPNOTSUPP \<equiv> 95"
abbreviation (input) ESTALE :: int where "ESTALE \<equiv> 116"
abbreviation (input) ERESTARTSYS :: int where "ERESTARTSYS \<equiv> 512"
abbreviation (input) EIOCBQUEUED :: int where "EIOCBQUEUED \<equiv> 529"

text \<open>Results of the block-layer entry points (\<^verbatim>\<open>nvfs-dma.h\<close>).\<close>

abbreviation (input) NVFS_IO_ERR :: int where "NVFS_IO_ERR \<equiv> -1"
abbreviation (input) NVFS_BAD_REQ :: int where "NVFS_BAD_REQ \<equiv> -2"

text \<open>A pointer that may be null or an encoded error (\<^verbatim>\<open>ERR_PTR\<close>, \<^verbatim>\<open>IS_ERR\<close>).\<close>

datatype 'a errptr = NullPtr | ErrPtr int | Ptr 'a

section \<open>Constants\<close>

abbreviation (input) NVFS_BLOCK_SIZE :: "'a::numeral" where "NVFS_BLOCK_SIZE \<equiv> 4096"
abbreviation (input) KiB4 :: "'a::numeral" where "KiB4 \<equiv> 4096"
abbreviation (input) NVFS_BLOCK_SHIFT :: nat where "NVFS_BLOCK_SHIFT \<equiv> 12"
abbreviation (input) GPU_PAGE_SHIFT :: nat where "GPU_PAGE_SHIFT \<equiv> 16"
abbreviation (input) GPU_PAGE_SIZE :: "'a::numeral" where "GPU_PAGE_SIZE \<equiv> 65536"
abbreviation (input) NVFS_MIN_BASE_INDEX :: nat where "NVFS_MIN_BASE_INDEX \<equiv> 4294967296"
abbreviation (input) NVFS_MAX_HOLE_REGIONS :: nat where "NVFS_MAX_HOLE_REGIONS \<equiv> 768"
abbreviation (input) NVFS_P2P_MAX_CONTIG_GPU_PAGES :: nat where
  "NVFS_P2P_MAX_CONTIG_GPU_PAGES \<equiv> 65535"
abbreviation (input) MAX_IO_RETRY :: nat where "MAX_IO_RETRY \<equiv> 5"
abbreviation (input) NVFS_START_MAGIC :: u64 where "NVFS_START_MAGIC \<equiv> 0xabc0cba1abc2cba3"

text \<open>
  \<^verbatim>\<open>GPU_PAGE_MASK\<close> is \<^verbatim>\<open>~(GPU_PAGE_SIZE-1)\<close>; \<^verbatim>\<open>DIV_ROUND_UP\<close> is the kernel macro.
\<close>

definition GPU_PAGE_MASK :: u64 where
  "GPU_PAGE_MASK = NOT 0xffff"

definition DIV_ROUND_UP :: "nat \<Rightarrow> nat \<Rightarrow> nat" where
  "DIV_ROUND_UP n d = (n + d - 1) div d"

section \<open>Page geometry\<close>

text \<open>
  The kernel's \<^verbatim>\<open>PAGE_SHIFT\<close> is a build parameter of the driver: 12 on x86, 12, 14 or
  16 on arm64. Every quantity the headers derive from \<^verbatim>\<open>PAGE_SIZE\<close> is a function
  of it here. \<^verbatim>\<open>ilog2\<close> of a power of two is its exponent.
\<close>

definition PAGE_SIZE :: "nat \<Rightarrow> nat" where
  "PAGE_SIZE ps = 2 ^ ps"

definition NVFS_PAGE_TO_BLOCK_ORDER :: "nat \<Rightarrow> nat" where
  "NVFS_PAGE_TO_BLOCK_ORDER ps = ps - 12"

definition NVFS_MAX_SHADOW_PAGES_ORDER :: "nat \<Rightarrow> nat" where
  "NVFS_MAX_SHADOW_PAGES_ORDER ps = 12 - NVFS_PAGE_TO_BLOCK_ORDER ps"

definition NVFS_MAX_SHADOW_PAGES :: "nat \<Rightarrow> nat" where
  "NVFS_MAX_SHADOW_PAGES ps = 2 ^ NVFS_MAX_SHADOW_PAGES_ORDER ps"

definition nvfs_block_count_per_page :: "nat \<Rightarrow> nat" where
  "nvfs_block_count_per_page ps = PAGE_SIZE ps div NVFS_BLOCK_SIZE"

definition PAGE_PER_GPU_PAGE_SHIFT :: "nat \<Rightarrow> nat" where
  "PAGE_PER_GPU_PAGE_SHIFT ps = 16 - ps"

definition valid_page_shift :: "nat \<Rightarrow> bool" where
  "valid_page_shift ps \<longleftrightarrow> 12 \<le> ps \<and> ps \<le> 16"

lemma valid_page_shift_cases:
  assumes "valid_page_shift ps"
  obtains "ps = 12" | "ps = 13" | "ps = 14" | "ps = 15" | "ps = 16"
  using assms by (fastforce simp: valid_page_shift_def)

lemma blocks_per_page_pos [simp]: "valid_page_shift ps \<Longrightarrow> 0 < nvfs_block_count_per_page ps"
  by (elim valid_page_shift_cases) (simp_all add: nvfs_block_count_per_page_def PAGE_SIZE_def)

lemma shadow_pages_pos [simp]: "0 < NVFS_MAX_SHADOW_PAGES ps"
  by (simp add: NVFS_MAX_SHADOW_PAGES_def)

text \<open>A shadow buffer never has more than 4096 blocks, whatever the page size.\<close>

lemma shadow_blocks_4096:
  "valid_page_shift ps \<Longrightarrow> NVFS_MAX_SHADOW_PAGES ps * nvfs_block_count_per_page ps = 4096"
  by (elim valid_page_shift_cases)
    (simp_all add: NVFS_MAX_SHADOW_PAGES_def NVFS_MAX_SHADOW_PAGES_ORDER_def
      NVFS_PAGE_TO_BLOCK_ORDER_def nvfs_block_count_per_page_def PAGE_SIZE_def)

lemma PAGE_SIZE_blocks:
  "valid_page_shift ps \<Longrightarrow> PAGE_SIZE ps = nvfs_block_count_per_page ps * NVFS_BLOCK_SIZE"
  by (elim valid_page_shift_cases) (simp_all add: nvfs_block_count_per_page_def PAGE_SIZE_def)

lemmas geom_12 [nvfs_geom] =
  PAGE_SIZE_def NVFS_PAGE_TO_BLOCK_ORDER_def NVFS_MAX_SHADOW_PAGES_ORDER_def
  NVFS_MAX_SHADOW_PAGES_def nvfs_block_count_per_page_def PAGE_PER_GPU_PAGE_SHIFT_def

section \<open>Arrays with bounds\<close>

text \<open>
  A read or write outside an array is the death of the kernel here. \<open>arr_get\<close> and
  \<open>arr_upd\<close> are the only accesses to driver arrays in the model.
\<close>

definition arr_get :: "'a list \<Rightarrow> nat \<Rightarrow> 'a option" where
  "arr_get xs i = (if i < length xs then Some (xs ! i) else None)"

definition arr_upd :: "'a list \<Rightarrow> nat \<Rightarrow> ('a \<Rightarrow> 'a) \<Rightarrow> 'a list option" where
  "arr_upd xs i f = (if i < length xs then Some (xs[i := f (xs ! i)]) else None)"

lemma arr_get_Some [simp]: "arr_get xs i = Some x \<longleftrightarrow> i < length xs \<and> x = xs ! i"
  by (auto simp: arr_get_def)

lemma arr_get_in [simp]: "i < length xs \<Longrightarrow> arr_get xs i = Some (xs ! i)"
  by (simp add: arr_get_def)

lemma arr_get_out [simp]: "length xs \<le> i \<Longrightarrow> arr_get xs i = None"
  by (simp add: arr_get_def)

lemma arr_upd_in [simp]: "i < length xs \<Longrightarrow> arr_upd xs i f = Some (xs[i := f (xs ! i)])"
  by (simp add: arr_upd_def)

lemma arr_upd_out [simp]: "length xs \<le> i \<Longrightarrow> arr_upd xs i f = None"
  by (simp add: arr_upd_def)

lemma arr_upd_length: "arr_upd xs i f = Some ys \<Longrightarrow> length ys = length xs"
  by (auto simp: arr_upd_def split: if_splits)

text \<open>
  A loop \<^verbatim>\<open>for (j = i; j < i + n; j++) xs[j] = f(xs[j])\<close>, stopping dead at the first
  index outside the array.
\<close>

fun arr_upd_range :: "'a list \<Rightarrow> nat \<Rightarrow> nat \<Rightarrow> ('a \<Rightarrow> 'a) \<Rightarrow> 'a list option" where
  "arr_upd_range xs i 0 f = Some xs"
| "arr_upd_range xs i (Suc n) f =
     do { xs' \<leftarrow> arr_upd xs i f; arr_upd_range xs' (Suc i) n f }"

definition upd_between :: "nat \<Rightarrow> nat \<Rightarrow> ('a \<Rightarrow> 'a) \<Rightarrow> 'a list \<Rightarrow> 'a list" where
  "upd_between i j f xs =
     map (\<lambda>k. if i \<le> k \<and> k < j then f (xs ! k) else xs ! k) [0..<length xs]"

lemma length_upd_between [simp]: "length (upd_between i j f xs) = length xs"
  by (simp add: upd_between_def)

lemma nth_upd_between [simp]:
  "k < length xs \<Longrightarrow>
     upd_between i j f xs ! k = (if i \<le> k \<and> k < j then f (xs ! k) else xs ! k)"
  by (simp add: upd_between_def)

lemma upd_between_empty [simp]: "j \<le> i \<Longrightarrow> upd_between i j f xs = xs"
  by (rule nth_equalityI) auto

lemma upd_between_snoc:
  "i \<le> j \<Longrightarrow> j < length xs \<Longrightarrow>
     (upd_between i j f xs)[j := f (xs ! j)] = upd_between i (Suc j) f xs"
  by (rule nth_equalityI) (auto simp: nth_list_update)

lemma arr_upd_range_in:
  "i + n \<le> length xs \<Longrightarrow> arr_upd_range xs i n f = Some (upd_between i (i + n) f xs)"
proof (induction n arbitrary: i xs)
  case 0
  then show ?case by simp
next
  case (Suc n)
  have "upd_between (Suc i) (Suc i + n) f (xs[i := f (xs ! i)]) ! k = upd_between i (i + Suc n) f xs ! k"
    if "k < length xs" for k
    using that Suc.prems by (cases "k = i") auto
  then have "upd_between (Suc i) (Suc i + n) f (xs[i := f (xs ! i)]) = upd_between i (i + Suc n) f xs"
    by (intro nth_equalityI) simp_all
  with Suc show ?case by simp
qed

lemma arr_upd_range_out:
  "length xs < i + n \<Longrightarrow> i \<le> length xs \<Longrightarrow> arr_upd_range xs i n f = None"
proof (induction n arbitrary: i xs)
  case 0
  then show ?case by simp
next
  case (Suc n)
  then show ?case by (cases "i < length xs") simp_all
qed

section \<open>Rounding and alignment\<close>

lemma DIV_ROUND_UP_bounds:
  assumes "0 < d"
  shows "n \<le> d * DIV_ROUND_UP n d" and "d * DIV_ROUND_UP n d < n + d"
proof -
  have "n + d - 1 = d * ((n + d - 1) div d) + (n + d - 1) mod d" by simp
  moreover have "(n + d - 1) mod d < d" using assms by simp
  ultimately show "n \<le> d * DIV_ROUND_UP n d" and "d * DIV_ROUND_UP n d < n + d"
    using assms unfolding DIV_ROUND_UP_def by linarith+
qed

lemma DIV_ROUND_UP_exact:
  assumes "0 < d" and "d dvd n"
  shows "DIV_ROUND_UP n d = n div d"
proof -
  from assms(2) obtain k where "n = d * k" by (rule dvdE)
  moreover have "(d - 1 + k * d) div d = k"
    using assms(1) by (subst div_mult_self1) simp_all
  moreover have "d * k + d - 1 = d - 1 + k * d" using assms(1) by (simp add: mult.commute)
  ultimately show ?thesis using assms(1) by (simp only: DIV_ROUND_UP_def) simp
qed

lemma DIV_ROUND_UP_unique:
  assumes "0 < d" and "n \<le> d * k" and "d * k < n + d"
  shows "DIV_ROUND_UP n d = k"
proof -
  let ?q = "DIV_ROUND_UP n d"
  note b = DIV_ROUND_UP_bounds [OF assms(1), of n]
  have "d * ?q < d * Suc k" "d * k < d * Suc ?q" using assms b by simp_all
  then have "?q < Suc k" "k < Suc ?q" by (simp_all only: mult_less_cancel1)
  then show ?thesis by simp
qed

lemma DIV_ROUND_UP_scale:
  assumes "0 < c" and "0 < d"
  shows "DIV_ROUND_UP (c * n) (c * d) = DIV_ROUND_UP n d"
proof (rule DIV_ROUND_UP_unique)
  note b = DIV_ROUND_UP_bounds [OF assms(2), of n]
  have "c * n \<le> c * (d * DIV_ROUND_UP n d)" "c * (d * DIV_ROUND_UP n d) < c * (n + d)"
    using b assms(1) by simp_all
  then show "c * n \<le> c * d * DIV_ROUND_UP n d" "c * d * DIV_ROUND_UP n d < c * n + c * d"
    by (simp_all add: algebra_simps)
qed (use assms in simp)

lemma DIV_ROUND_UP_Suc: "0 < d \<Longrightarrow> DIV_ROUND_UP (Suc n) d = Suc (n div d)"
  using div_add_self2 [of d n] by (simp add: DIV_ROUND_UP_def)

lemma DIV_ROUND_UP_cases:
  assumes "0 < d"
  shows "DIV_ROUND_UP n d = (if n mod d = 0 then n div d else Suc (n div d))"
proof -
  have n: "d * (n div d) + n mod d = n" by simp
  have lt: "n mod d < d" using assms by simp
  have "n \<le> d * Suc (n div d)" "n mod d \<noteq> 0 \<Longrightarrow> d * Suc (n div d) < n + d"
    "n mod d = 0 \<Longrightarrow> d * (n div d) = n"
    unfolding mult_Suc_right using n lt by linarith+
  then show ?thesis
    using assms DIV_ROUND_UP_unique [OF assms, of n "n div d"] DIV_ROUND_UP_unique [OF assms, of n "Suc (n div d)"]
    by auto
qed

lemma DIV_ROUND_UP_0 [simp]: "0 < d \<Longrightarrow> DIV_ROUND_UP 0 d = 0"
  by (simp add: DIV_ROUND_UP_def)

lemma GPU_PAGE_MASK_and: "unat (x AND GPU_PAGE_MASK) = unat x - unat x mod 65536"
proof -
  have m: "GPU_PAGE_MASK = NOT (mask 16)"
    by (simp add: GPU_PAGE_MASK_def mask_eq_exp_minus_1)
  have "x AND GPU_PAGE_MASK = push_bit 16 (drop_bit 16 x)"
    unfolding m by (intro bit_word_eqI) (auto simp: bit_simps)
  moreover have "unat (push_bit 16 (drop_bit 16 x)) = 65536 * (unat x div 65536)"
  proof -
    have "65536 * (unat x div 65536) \<le> unat x" by simp
    also have "unat x < 2 ^ 64" using unsigned_less [of x] by simp
    finally show ?thesis
      by (simp add: push_bit_eq_mult drop_bit_eq_div unat_div_distrib unat_word_ariths mult.commute)
  qed
  ultimately show ?thesis
    by (simp add: minus_mod_eq_mult_div)
qed

lemma and_low16: "unat (x AND 0xffff :: u64) = unat x mod 65536"
proof -
  have "x AND 0xffff = take_bit 16 x"
    by (simp add: take_bit_eq_mask mask_eq_exp_minus_1)
  then have "unat (x AND 0xffff) = take_bit 16 (unat x)"
    by (simp only: unsigned_take_bit_eq)
  then show ?thesis
    by (simp add: take_bit_eq_mod)
qed

section \<open>Signed machine arithmetic\<close>

text \<open>
  Assignment to a C \<^verbatim>\<open>int\<close> or \<^verbatim>\<open>s64\<close> keeps the low bits; C division truncates
  towards zero.
\<close>

abbreviation s32 :: "int \<Rightarrow> int" where "s32 \<equiv> signed_take_bit 31"
abbreviation s64 :: "int \<Rightarrow> int" where "s64 \<equiv> signed_take_bit 63"

definition c_div :: "int \<Rightarrow> int \<Rightarrow> int" where
  "c_div a b = sgn a * sgn b * (\<bar>a\<bar> div \<bar>b\<bar>)"

lemma c_div_pos: "0 \<le> a \<Longrightarrow> 0 < b \<Longrightarrow> c_div a b = a div b"
  by (cases "a = 0") (simp_all add: c_div_def)

lemma s32_id: "- 2147483648 \<le> x \<Longrightarrow> x < 2147483648 \<Longrightarrow> s32 x = x"
  by (simp add: signed_take_bit_int_eq_self)

lemma s64_id: "- 9223372036854775808 \<le> x \<Longrightarrow> x < 9223372036854775808 \<Longrightarrow> s64 x = x"
  by (simp add: signed_take_bit_int_eq_self)

lemma s32_wrap: "s32 (x - 4294967296) = s32 x"
proof -
  have "x - 4294967296 + 2147483648 = (x + 2147483648) - 4294967296" by simp
  then have "(x - 4294967296 + 2147483648) mod 4294967296 = (x + 2147483648) mod 4294967296"
    by (simp only: minus_mod_self2)
  then show ?thesis by (simp add: signed_take_bit_eq_take_bit_shift take_bit_eq_mod)
qed

section \<open>Hash chains\<close>

text \<open>
  The kernel's \<^verbatim>\<open>DEFINE_HASHTABLE\<close> tables are chains of entries searched by key; all
  entries with one key are on one chain, the newest first. A table is modelled by the
  list of its entries: the search for a key returns the first entry with it, and an
  update through the returned pointer changes that entry alone.
\<close>

fun chain_upd :: "('a \<Rightarrow> 'k) \<Rightarrow> 'a list \<Rightarrow> 'k \<Rightarrow> ('a \<Rightarrow> 'a) \<Rightarrow> 'a list" where
  "chain_upd key [] k f = []"
| "chain_upd key (x # xs) k f = (if key x = k then f x # xs else x # chain_upd key xs k f)"

definition chain_find :: "('a \<Rightarrow> 'k) \<Rightarrow> 'a list \<Rightarrow> 'k \<Rightarrow> 'a option" where
  "chain_find key xs k = find (\<lambda>x. key x = k) xs"

lemma chain_find_Nil [simp]: "chain_find key [] k = None"
  by (simp add: chain_find_def)

lemma chain_find_Cons [simp]:
  "chain_find key (x # xs) k = (if key x = k then Some x else chain_find key xs k)"
  by (simp add: chain_find_def)

lemma chain_find_None: "chain_find key xs k = None \<longleftrightarrow> k \<notin> key ` set xs"
  by (induction xs) auto

lemma chain_find_SomeD: "chain_find key xs k = Some x \<Longrightarrow> x \<in> set xs \<and> key x = k"
  by (induction xs) (auto split: if_splits)

lemma chain_find_upd:
  assumes "\<And>x. key (f x) = key x"
  shows "chain_find key (chain_upd key xs k f) l =
    (if l = k then map_option f (chain_find key xs k) else chain_find key xs l)"
  using assms by (induction xs) auto

lemma map_key_chain_upd:
  assumes "\<And>x. key (f x) = key x"
  shows "map key (chain_upd key xs k f) = map key xs"
  using assms by (induction xs) auto

text \<open>A table keyed by a field of its entries, which updates leave alone.\<close>

locale keyed_table =
  fixes lookup :: "'t \<Rightarrow> 'k \<Rightarrow> 'a option"
    and insert_entry :: "'a \<Rightarrow> 't \<Rightarrow> 't"
    and update_entry :: "'t \<Rightarrow> 'k \<Rightarrow> ('a \<Rightarrow> 'a) \<Rightarrow> 't"
    and entry_key :: "'a \<Rightarrow> 'k"
  assumes lookup_insert:
      "lookup (insert_entry x t) k = (if k = entry_key x then Some x else lookup t k)"
    and lookup_update:
      "(\<And>x. entry_key (f x) = entry_key x) \<Longrightarrow>
         lookup (update_entry t k f) l = (if l = k then map_option f (lookup t k) else lookup t l)"
    and lookup_key: "lookup t k = Some x \<Longrightarrow> entry_key x = k"
begin

lemma update_then_update:
  assumes "\<And>x. entry_key (f x) = entry_key x" and "\<And>x. entry_key (g x) = entry_key x"
    and "\<And>x. g (f x) = x"
  shows "lookup (update_entry (update_entry t k f) k g) l = lookup t l"
  using assms by (cases "l = k"; cases "lookup t k") (simp_all add: lookup_update)

lemma insert_update_lookup:
  assumes "\<And>x. entry_key (f x) = entry_key x"
  shows "lookup (update_entry (insert_entry x t) (entry_key x) f) (entry_key x) = Some (f x)"
  using assms by (simp add: lookup_update lookup_insert)

end

section \<open>Sequences of fallible steps\<close>

text \<open>
  A loop whose body may kill the kernel, over a list of items.
\<close>

fun ofold :: "('a \<Rightarrow> 's \<Rightarrow> 's option) \<Rightarrow> 'a list \<Rightarrow> 's \<Rightarrow> 's option" where
  "ofold f [] s = Some s"
| "ofold f (x # xs) s = do { s' \<leftarrow> f x s; ofold f xs s' }"

lemma ofold_append: "ofold f (xs @ ys) s = do { s' \<leftarrow> ofold f xs s; ofold f ys s' }"
  by (induction xs arbitrary: s) (auto split: Option.bind_splits)

lemma ofold_inv:
  assumes "ofold f xs s = Some t" and "I s"
    and "\<And>x s s'. x \<in> set xs \<Longrightarrow> I s \<Longrightarrow> f x s = Some s' \<Longrightarrow> I s'"
  shows "I t"
  using assms
proof (induction xs arbitrary: s)
  case Nil
  then show ?case by simp
next
  case (Cons x xs)
  from Cons.prems(1) obtain s' where "f x s = Some s'" and "ofold f xs s' = Some t"
    by (auto split: Option.bind_splits)
  with Cons show ?case by (meson list.set_intros)
qed

end
