(* ===== verification/Nvfs_Types.thy ===== *)
theory Nvfs_Types
  imports Nvfs_Prelude
begin

text \<open>
  The driver's data: the enumerations and structures of \<^verbatim>\<open>nvfs-mmap.h\<close> and
  \<^verbatim>\<open>nvfs-core.h\<close>, field by field. Sizes and addresses that user space supplies are
  64-bit words; array indices and counts, which the code keeps far below any overflow,
  are natural numbers; \<^verbatim>\<open>atomic_t\<close> counters and return values are integers.
  Structures of the kernel and of the GPU driver (\<^verbatim>\<open>struct page\<close>, \<^verbatim>\<open>struct pci_dev\<close>,
  the peer-to-peer page table and DMA mapping of \<^verbatim>\<open>nv-p2p.h\<close>) appear with the
  fields the driver reads.
\<close>

section \<open>Enumerations\<close>

datatype nvfs_block_state =
    NVFS_IO_FREE | NVFS_IO_ALLOC | NVFS_IO_INIT | NVFS_IO_QUEUED
  | NVFS_IO_DMA_START | NVFS_IO_DONE | NVFS_IO_DMA_ERROR

datatype nvfs_io_state =
    IO_FREE | IO_INIT | IO_READY | IO_IN_PROGRESS | IO_TERMINATE_REQ | IO_TERMINATED
  | IO_CALLBACK_REQ | IO_CALLBACK_END | IO_UNPIN_PAGES_ALREADY_INVOKED

datatype nvfs_metastate =
    NVFS_IO_META_CLEAN | NVFS_IO_META_SPARSE | NVFS_IO_META_DIED

text \<open>
  The operation of a request: 0, 1, or another value of the three-bit \<^verbatim>\<open>optype\<close> of a batch
  entry, which the code compares with the first two only.
\<close>

datatype nvfs_op = READ | WRITE | OP_OTHER

text \<open>
  The code compares I/O states by their numbers (\<^verbatim>\<open>io_state > IO_INIT\<close>), so the
  enumeration is linearly ordered by them.
\<close>

fun io_state_code :: "nvfs_io_state \<Rightarrow> nat" where
  "io_state_code IO_FREE = 0"
| "io_state_code IO_INIT = 1"
| "io_state_code IO_READY = 2"
| "io_state_code IO_IN_PROGRESS = 3"
| "io_state_code IO_TERMINATE_REQ = 4"
| "io_state_code IO_TERMINATED = 5"
| "io_state_code IO_CALLBACK_REQ = 6"
| "io_state_code IO_CALLBACK_END = 7"
| "io_state_code IO_UNPIN_PAGES_ALREADY_INVOKED = 8"

lemma io_state_code_inj [simp]: "io_state_code a = io_state_code b \<longleftrightarrow> a = b"
  by (cases a; cases b) simp_all

instantiation nvfs_io_state :: linorder
begin

definition less_eq_nvfs_io_state :: "nvfs_io_state \<Rightarrow> nvfs_io_state \<Rightarrow> bool" where
  "less_eq_nvfs_io_state a b \<longleftrightarrow> io_state_code a \<le> io_state_code b"

definition less_nvfs_io_state :: "nvfs_io_state \<Rightarrow> nvfs_io_state \<Rightarrow> bool" where
  "less_nvfs_io_state a b \<longleftrightarrow> io_state_code a < io_state_code b"

instance
proof
  fix a b c :: nvfs_io_state
  show "(a < b) = (a \<le> b \<and> \<not> b \<le> a)"
    by (auto simp: less_eq_nvfs_io_state_def less_nvfs_io_state_def)
  show "a \<le> a" by (simp add: less_eq_nvfs_io_state_def)
  show "a \<le> b \<Longrightarrow> b \<le> c \<Longrightarrow> a \<le> c" by (simp add: less_eq_nvfs_io_state_def)
  show "a \<le> b \<Longrightarrow> b \<le> a \<Longrightarrow> a = b"
    by (metis antisym io_state_code_inj less_eq_nvfs_io_state_def)
  show "a \<le> b \<or> b \<le> a" by (auto simp: less_eq_nvfs_io_state_def)
qed

end

lemma io_state_gt_INIT [simp]: "IO_INIT < st \<longleftrightarrow> st \<noteq> IO_FREE \<and> st \<noteq> IO_INIT"
  by (cases st) (simp_all add: less_nvfs_io_state_def)

lemma io_state_gt_IN_PROGRESS:
  "IO_IN_PROGRESS < st \<longleftrightarrow> st \<notin> {IO_FREE, IO_INIT, IO_READY, IO_IN_PROGRESS}"
  by (cases st) (simp_all add: less_nvfs_io_state_def)

fun nvfs_io_state_status :: "nvfs_io_state \<Rightarrow> string" where
  "nvfs_io_state_status IO_FREE = ''FREE''"
| "nvfs_io_state_status IO_INIT = ''INIT''"
| "nvfs_io_state_status IO_READY = ''READY''"
| "nvfs_io_state_status IO_IN_PROGRESS = ''IN_PROGRESS''"
| "nvfs_io_state_status IO_TERMINATE_REQ = ''TERMINATE_REQ''"
| "nvfs_io_state_status IO_TERMINATED = ''TERMINATED''"
| "nvfs_io_state_status IO_CALLBACK_REQ = ''CALLBACK_REQ''"
| "nvfs_io_state_status IO_CALLBACK_END = ''CALLBACK_END''"
| "nvfs_io_state_status IO_UNPIN_PAGES_ALREADY_INVOKED = ''UNPIN_PAGES_ALREADY_INVOKED''"

section \<open>Kernel and GPU driver structures\<close>

text \<open>
  A \<^verbatim>\<open>struct page\<close> with the index the driver stores in it and whether it has an
  address-space mapping; a PCI device with its bus (domain number and bus number), if
  it has one; the page table and DMA mapping that the GPU driver hands out.
\<close>

record kpage =
  page_index :: nat
  page_mapping :: bool

record pci_dev =
  pci_bus :: "(u32 \<times> u8) option"
  devfn :: u8

record p2p_page_table =
  version_compatible :: bool
  page_size_64k :: bool
  pt_entries :: nat
  pt_physical :: "u64 list"
  gpu_uuid :: "u64 option"

record p2p_dma_mapping =
  dm_entries :: nat
  dma_addresses :: "u64 list"

section \<open>Structures of the driver\<close>

record pci_dev_mapping =
  dma_mapping :: "p2p_dma_mapping option"
  mapped_dev :: pci_dev
  n_dma_chunks :: nat

record nvfs_gpu_args =
  page_table :: "p2p_page_table option"
  gpuvaddr :: u64
  gpu_buf_len :: u64
  end_fence_page :: "pageid option"
  offset_in_page :: nat
  io_state :: nvfs_io_state
  dma_mapping_in_progress :: nat
  is_bounce_buffer :: bool
  use_legacy_p2p_allocation :: bool
  n_phys_chunks :: nat
  pdevinfo :: u64
  gpu_hash_index :: u32
  buckets :: "pci_dev_mapping list"

record nvfs_io_metadata =
  nvfs_start_magic :: u64
  nvfs_state :: nvfs_block_state
  md_page :: "pageid option"

text \<open>
  \<^verbatim>\<open>nvfs_io_t\<close>: the request in flight on a group. \<^verbatim>\<open>io_fd\<close> is the file descriptor
  whose reference the request holds, \<open>ki_write\<close> the \<^verbatim>\<open>IOCB_WRITE\<close> flag of its kiocb.
\<close>

record nvfs_io =
  cpuvaddr :: u64
  io_length :: u64
  io_ret :: int
  fd_offset :: int
  gpu_page_offset :: nat
  end_fence_value :: u64
  io_fd :: int
  io_op :: nvfs_op
  io_sync :: bool
  io_hipri :: bool
  check_sparse :: bool
  rw_stats_enabled :: bool
  cur_gpu_base_index :: nat
  nvfs_active_blocks_start :: nat
  nvfs_active_blocks_end :: nat
  io_meta :: nvfs_metastate
  retrycnt :: nat
  ki_write :: bool
  rdma_seg_offset :: nat
  use_rkeys :: bool

record nvfs_rdma_info =
  rdma_version :: u8
  rdma_flags :: u8
  lid :: u16
  qp_num :: u32
  rem_vaddr :: u64
  rdma_size :: u32
  rkey :: u32
  gid0 :: u64
  gid1 :: u64
  dc_key :: u32

record nvfs_io_mgroup =
  mg_ref :: int
  dma_ref :: int
  cpu_base_vaddr :: u64
  base_index :: nat
  nvfs_blocks_count :: nat
  nvfs_ppages :: "pageid option list option"
  nvfs_metadata :: "nvfs_io_metadata list option"
  gpu_info :: nvfs_gpu_args
  nvfsio :: nvfs_io
  rdma_info :: nvfs_rdma_info
  fault_injected :: bool

text \<open>
  The page shared with user space: completion fence, result, state and the table of
  holes of a sparse read.
\<close>

record nvfs_io_hole =
  hole_start :: nat
  npages :: nat

record nvfs_io_sparse_data =
  sparse_magic :: u64
  nvfs_meta_version :: nat
  nholes :: nat
  start_fd_offset :: int
  hole :: "nvfs_io_hole list"

record nvfs_ioctl_metapage =
  end_fence_val :: u64
  mp_result :: int
  mp_state :: nvfs_metastate
  sparse_data :: nvfs_io_sparse_data

section \<open>Zeroed structures\<close>

text \<open>What \<^verbatim>\<open>kzalloc\<close> and \<^verbatim>\<open>memset(..., 0, ...)\<close> leave in the structures.\<close>

definition zero_nvfs_io :: nvfs_io where
  "zero_nvfs_io = \<lparr> cpuvaddr = 0, io_length = 0, io_ret = 0, fd_offset = 0,
     gpu_page_offset = 0, end_fence_value = 0, io_fd = 0, io_op = READ, io_sync = False,
     io_hipri = False, check_sparse = False, rw_stats_enabled = False,
     cur_gpu_base_index = 0, nvfs_active_blocks_start = 0, nvfs_active_blocks_end = 0,
     io_meta = NVFS_IO_META_CLEAN, retrycnt = 0, ki_write = False, rdma_seg_offset = 0,
     use_rkeys = False \<rparr>"

definition zero_rdma_info :: nvfs_rdma_info where
  "zero_rdma_info = \<lparr> rdma_version = 0, rdma_flags = 0, lid = 0, qp_num = 0, rem_vaddr = 0,
     rdma_size = 0, rkey = 0, gid0 = 0, gid1 = 0, dc_key = 0 \<rparr>"

definition zero_gpu_args :: nvfs_gpu_args where
  "zero_gpu_args = \<lparr> page_table = None, gpuvaddr = 0, gpu_buf_len = 0, end_fence_page = None,
     offset_in_page = 0, io_state = IO_FREE, dma_mapping_in_progress = 0,
     is_bounce_buffer = False, use_legacy_p2p_allocation = False, n_phys_chunks = 0,
     pdevinfo = 0, gpu_hash_index = 0, buckets = [] \<rparr>"

definition zero_metadata :: nvfs_io_metadata where
  "zero_metadata = \<lparr> nvfs_start_magic = 0, nvfs_state = NVFS_IO_FREE, md_page = None \<rparr>"

definition zero_mgroup :: nvfs_io_mgroup where
  "zero_mgroup = \<lparr> mg_ref = 0, dma_ref = 0, cpu_base_vaddr = 0, base_index = 0,
     nvfs_blocks_count = 0, nvfs_ppages = None, nvfs_metadata = None,
     gpu_info = zero_gpu_args, nvfsio = zero_nvfs_io, rdma_info = zero_rdma_info,
     fault_injected = False \<rparr>"

end
