(* ===== verification/Nvfs_Stat.thy ===== *)
theory Nvfs_Stat
  imports Nvfs_Types
begin

text \<open>
  The statistics of \<^verbatim>\<open>nvfs-stat.c\<close> and \<^verbatim>\<open>nvfs-stat.h\<close>: the named counters, the
  bandwidth and latency windows of one second, and the per-GPU table of pinned memory.
  \<^verbatim>\<open>atomic_t\<close> counters are 32 bits wide and \<^verbatim>\<open>atomic64_t\<close> counters 64 bits; every store
  wraps accordingly. The clock is an argument: the two readings an update takes.
\<close>

section \<open>Counters\<close>

datatype nvfs_counter =
    nvfs_n_reads | nvfs_n_reads_ok | nvfs_n_read_err | nvfs_n_read_iostate_err
  | nvfs_n_read_bytes | nvfs_read_throughput | nvfs_read_bytes_per_sec
  | nvfs_read_ops_per_sec | nvfs_read_latency_per_sec | nvfs_avg_read_latency
  | nvfs_batch_ops_per_sec | nvfs_batch_submit_latency_per_sec
  | nvfs_batch_submit_avg_latency
  | nvfs_n_batches | nvfs_n_batches_ok | nvfs_n_batch_err
  | nvfs_n_reads_sparse_files | nvfs_n_reads_sparse_io | nvfs_n_reads_sparse_region
  | nvfs_n_reads_sparse_pages
  | nvfs_n_writes | nvfs_n_writes_ok | nvfs_n_write_err | nvfs_n_write_iostate_err
  | nvfs_n_write_bytes | nvfs_write_throughput | nvfs_write_bytes_per_sec
  | nvfs_write_ops_per_sec | nvfs_write_latency_per_sec | nvfs_avg_write_latency
  | nvfs_n_mmap | nvfs_n_mmap_ok | nvfs_n_mmap_err | nvfs_n_munmap
  | nvfs_n_maps | nvfs_n_maps_ok | nvfs_n_map_err | nvfs_n_free | nvfs_n_callbacks
  | nvfs_n_delayed_frees
  | nvfs_n_active_shadow_buf_sz | nvfs_n_op_reads | nvfs_n_op_writes | nvfs_n_op_maps
  | nvfs_n_op_process | nvfs_n_op_batches | prev_batch_submit_avg_latency
  | nvfs_n_err_mix_cpu_gpu | nvfs_n_err_sg_err | nvfs_n_err_dma_map | nvfs_n_err_dma_ref
  | prev_read_throughput | prev_write_throughput | prev_read_latency | prev_write_latency
  | nvfs_n_pg_cache | nvfs_n_pg_cache_fail | nvfs_n_pg_cache_eio

record nvfs_gpu_stat =
  gs_uuid :: u64
  active_bar_memory_pinned :: int
  active_bounce_buffer_memory :: int
  max_bar_memory_pinned :: int
  gs_gpu_index :: u32

record nvfs_stats =
  counter :: "nvfs_counter \<Rightarrow> int"
  gpu_stat_hash :: "nvfs_gpu_stat list"

definition set_counter :: "nvfs_counter \<Rightarrow> int \<Rightarrow> nvfs_stats \<Rightarrow> nvfs_stats" where
  "set_counter c v s = s\<lparr>counter := (counter s)(c := v)\<rparr>"

lemma counter_set [simp]: "counter (set_counter c v s) d = (if d = c then v else counter s d)"
  by (simp add: set_counter_def)

lemma gpu_hash_set_counter [simp]: "gpu_stat_hash (set_counter c v s) = gpu_stat_hash s"
  by (simp add: set_counter_def)

definition nvfs_stat :: "nvfs_counter \<Rightarrow> nvfs_stats \<Rightarrow> nvfs_stats" where
  "nvfs_stat c s = set_counter c (s32 (counter s c + 1)) s"

definition nvfs_stat_d :: "nvfs_counter \<Rightarrow> nvfs_stats \<Rightarrow> nvfs_stats" where
  "nvfs_stat_d c s = set_counter c (s32 (counter s c - 1)) s"

definition nvfs_stat_reset :: "nvfs_counter \<Rightarrow> nvfs_stats \<Rightarrow> nvfs_stats" where
  "nvfs_stat_reset c s = set_counter c 0 s"

definition nvfs_stat64_reset :: "nvfs_counter \<Rightarrow> nvfs_stats \<Rightarrow> nvfs_stats" where
  "nvfs_stat64_reset c s = set_counter c 0 s"

definition nvfs_stat64 :: "nvfs_counter \<Rightarrow> nvfs_stats \<Rightarrow> nvfs_stats" where
  "nvfs_stat64 c s = set_counter c (s64 (counter s c + 1)) s"

definition nvfs_stat64_add :: "int \<Rightarrow> nvfs_counter \<Rightarrow> nvfs_stats \<Rightarrow> nvfs_stats" where
  "nvfs_stat64_add i c s = set_counter c (s64 (counter s c + i)) s"

definition nvfs_stat64_sub :: "int \<Rightarrow> nvfs_counter \<Rightarrow> nvfs_stats \<Rightarrow> nvfs_stats" where
  "nvfs_stat64_sub i c s = set_counter c (s64 (counter s c - i)) s"

definition atomic_set :: "nvfs_counter \<Rightarrow> int \<Rightarrow> nvfs_stats \<Rightarrow> nvfs_stats" where
  "atomic_set c v s = set_counter c (s32 v) s"

definition atomic64_set :: "nvfs_counter \<Rightarrow> int \<Rightarrow> nvfs_stats \<Rightarrow> nvfs_stats" where
  "atomic64_set c v s = set_counter c (s64 v) s"

lemmas stat_ops =
  nvfs_stat_def nvfs_stat_d_def nvfs_stat_reset_def nvfs_stat64_reset_def nvfs_stat64_def
  nvfs_stat64_add_def nvfs_stat64_sub_def atomic_set_def atomic64_set_def

section \<open>Bandwidth and latency windows\<close>

definition BYTES_TO_MB :: "int \<Rightarrow> int" where
  "BYTES_TO_MB b = drop_bit 20 b"

definition div64_safe :: "u64 \<Rightarrow> u64 \<Rightarrow> u64" where
  "div64_safe dividend nr = (if nr \<noteq> 0 then dividend div nr else 0)"

definition nvfs_update_read_throughput :: "int \<Rightarrow> int \<Rightarrow> u64 \<Rightarrow> nvfs_stats \<Rightarrow> nvfs_stats" where
  "nvfs_update_read_throughput now now' total_bytes s =
     (if counter s prev_read_throughput = 0 then
        nvfs_stat64_add (sint total_bytes) nvfs_read_bytes_per_sec
          (atomic_set prev_read_throughput now s)
      else
        let delta = s32 (now - counter s prev_read_throughput);
            s1 = nvfs_stat64_add (sint total_bytes) nvfs_read_bytes_per_sec s
        in if delta > 1000 then
             let throughput = s32 (c_div (BYTES_TO_MB (counter s1 nvfs_read_bytes_per_sec))
                                     (c_div delta 1000));
                 s2 = atomic_set nvfs_read_throughput throughput s1;
                 s3 = nvfs_stat64_reset nvfs_read_bytes_per_sec s2
             in atomic_set prev_read_throughput now' s3
           else s1)"

definition nvfs_update_write_throughput :: "int \<Rightarrow> int \<Rightarrow> u64 \<Rightarrow> nvfs_stats \<Rightarrow> nvfs_stats" where
  "nvfs_update_write_throughput now now' total_bytes s =
     (if counter s prev_write_throughput = 0 then
        nvfs_stat64_add (sint total_bytes) nvfs_write_bytes_per_sec
          (atomic_set prev_write_throughput now s)
      else
        let delta = s32 (now - counter s prev_write_throughput);
            s1 = nvfs_stat64_add (sint total_bytes) nvfs_write_bytes_per_sec s
        in if delta > 1000 then
             let throughput = s32 (c_div (BYTES_TO_MB (counter s1 nvfs_write_bytes_per_sec))
                                     (c_div delta 1000));
                 s2 = atomic_set nvfs_write_throughput throughput s1;
                 s3 = nvfs_stat64_reset nvfs_write_bytes_per_sec s2
             in atomic_set prev_write_throughput now' s3
           else s1)"

definition nvfs_update_read_latency :: "int \<Rightarrow> int \<Rightarrow> u64 \<Rightarrow> nvfs_stats \<Rightarrow> nvfs_stats" where
  "nvfs_update_read_latency now now' avg_latency s =
     (if counter s prev_read_latency = 0 then
        nvfs_stat64_add (sint avg_latency) nvfs_read_latency_per_sec
          (nvfs_stat nvfs_read_ops_per_sec (atomic64_set prev_read_latency now s))
      else
        let delta = s32 (now - counter s prev_read_latency);
            s2 = nvfs_stat nvfs_read_ops_per_sec
                   (nvfs_stat64_add (sint avg_latency) nvfs_read_latency_per_sec s)
        in if delta > 1000000 then
             let average_latency =
                   uint (div64_safe (word_of_int (counter s2 nvfs_read_latency_per_sec))
                           (word_of_int (counter s2 nvfs_read_ops_per_sec)));
                 s3 = atomic_set nvfs_avg_read_latency average_latency s2;
                 s4 = nvfs_stat64_reset nvfs_read_latency_per_sec s3;
                 s5 = nvfs_stat_reset nvfs_read_ops_per_sec s4
             in atomic64_set prev_read_latency now' s5
           else s2)"

definition nvfs_update_batch_latency :: "int \<Rightarrow> int \<Rightarrow> u64 \<Rightarrow> nvfs_stats \<Rightarrow> nvfs_stats" where
  "nvfs_update_batch_latency now now' avg_latency s =
     (if counter s prev_batch_submit_avg_latency = 0 then
        nvfs_stat64_add (sint avg_latency) nvfs_batch_submit_latency_per_sec
          (nvfs_stat nvfs_batch_ops_per_sec (atomic64_set prev_batch_submit_avg_latency now s))
      else
        let delta = s32 (now - counter s prev_batch_submit_avg_latency);
            s2 = nvfs_stat nvfs_batch_ops_per_sec
                   (nvfs_stat64_add (sint avg_latency) nvfs_batch_submit_latency_per_sec s)
        in if delta > 1000000 then
             let average_latency =
                   uint (div64_safe (word_of_int (counter s2 nvfs_batch_submit_latency_per_sec))
                           (word_of_int (counter s2 nvfs_batch_ops_per_sec)));
                 s3 = atomic_set nvfs_batch_submit_avg_latency average_latency s2;
                 s4 = nvfs_stat64_reset nvfs_batch_submit_latency_per_sec s3;
                 s5 = nvfs_stat_reset nvfs_batch_ops_per_sec s4
             in atomic64_set prev_batch_submit_avg_latency now' s5
           else s2)"

definition nvfs_update_write_latency :: "int \<Rightarrow> int \<Rightarrow> u64 \<Rightarrow> nvfs_stats \<Rightarrow> nvfs_stats" where
  "nvfs_update_write_latency now now' avg_latency s =
     (if counter s prev_write_latency = 0 then
        nvfs_stat64_add (sint avg_latency) nvfs_write_latency_per_sec
          (nvfs_stat nvfs_write_ops_per_sec (atomic64_set prev_write_latency now s))
      else
        let delta = s32 (now - counter s prev_write_latency);
            s2 = nvfs_stat nvfs_write_ops_per_sec
                   (nvfs_stat64_add (sint avg_latency) nvfs_write_latency_per_sec s)
        in if delta > 1000000 then
             let average_latency =
                   uint (div64_safe (word_of_int (counter s2 nvfs_write_latency_per_sec))
                           (word_of_int (counter s2 nvfs_write_ops_per_sec)));
                 s3 = atomic_set nvfs_avg_write_latency average_latency s2;
                 s4 = nvfs_stat64_reset nvfs_write_latency_per_sec s3;
                 s5 = nvfs_stat_reset nvfs_write_ops_per_sec s4
             in atomic64_set prev_write_latency now' s5
           else s2)"

section \<open>Memory pinned per GPU\<close>

definition nvfs_get_gpustat_unlocked :: "nvfs_stats \<Rightarrow> u64 \<Rightarrow> nvfs_gpu_stat option" where
  "nvfs_get_gpustat_unlocked s gpu_uuid_hash = chain_find gs_uuid (gpu_stat_hash s) gpu_uuid_hash"

definition hash_add_gpustat :: "nvfs_gpu_stat \<Rightarrow> nvfs_stats \<Rightarrow> nvfs_stats" where
  "hash_add_gpustat g s = s\<lparr>gpu_stat_hash := g # gpu_stat_hash s\<rparr>"

definition upd_gpustat ::
    "nvfs_stats \<Rightarrow> u64 \<Rightarrow> (nvfs_gpu_stat \<Rightarrow> nvfs_gpu_stat) \<Rightarrow> nvfs_stats" where
  "upd_gpustat s uuid f = s\<lparr>gpu_stat_hash := chain_upd gs_uuid (gpu_stat_hash s) uuid f\<rparr>"

definition sub_pinned :: "nvfs_gpu_args \<Rightarrow> nvfs_gpu_stat \<Rightarrow> nvfs_gpu_stat" where
  "sub_pinned gi g =
     (if is_bounce_buffer gi
      then g\<lparr>active_bounce_buffer_memory :=
               s64 (active_bounce_buffer_memory g - sint (gpu_buf_len gi))\<rparr>
      else g\<lparr>active_bar_memory_pinned :=
               s64 (active_bar_memory_pinned g - sint (gpu_buf_len gi))\<rparr>)"

definition add_pinned :: "nvfs_gpu_args \<Rightarrow> nvfs_gpu_stat \<Rightarrow> nvfs_gpu_stat" where
  "add_pinned gi g =
     (if is_bounce_buffer gi
      then g\<lparr>active_bounce_buffer_memory :=
               s64 (active_bounce_buffer_memory g + sint (gpu_buf_len gi))\<rparr>
      else g\<lparr>active_bar_memory_pinned :=
               s64 (active_bar_memory_pinned g + sint (gpu_buf_len gi))\<rparr>)"

text \<open>
  The comparison with the maximum is between an unsigned and a signed 64-bit value, which
  C makes unsigned.
\<close>

definition raise_max :: "nvfs_gpu_stat \<Rightarrow> nvfs_gpu_stat" where
  "raise_max g =
     (let active_memory = word_of_int (active_bar_memory_pinned g) :: u64
      in if active_memory > word_of_int (max_bar_memory_pinned g)
         then g\<lparr>max_bar_memory_pinned := sint active_memory\<rparr> else g)"

definition nvfs_update_free_gpustat :: "nvfs_gpu_args \<Rightarrow> nvfs_stats \<Rightarrow> nvfs_stats option" where
  "nvfs_update_free_gpustat gi s =
     (case page_table gi of
        None \<Rightarrow> Some s
      | Some pt \<Rightarrow>
          (case gpu_uuid pt of
             None \<Rightarrow> Some s
           | Some uuid \<Rightarrow>
               (case nvfs_get_gpustat_unlocked s uuid of
                  None \<Rightarrow> None
                | Some _ \<Rightarrow> Some (upd_gpustat s uuid (sub_pinned gi)))))"

definition nvfs_update_alloc_gpustat ::
    "bool \<Rightarrow> nvfs_gpu_args \<Rightarrow> nvfs_stats \<Rightarrow> nvfs_stats" where
  "nvfs_update_alloc_gpustat kzalloc_ok gi s =
     (case page_table gi of
        None \<Rightarrow> s
      | Some pt \<Rightarrow>
          (case gpu_uuid pt of
             None \<Rightarrow> s
           | Some uuid \<Rightarrow>
               let upd = (\<lambda>s. upd_gpustat s uuid (\<lambda>g. raise_max (add_pinned gi g)))
               in case nvfs_get_gpustat_unlocked s uuid of
                    Some _ \<Rightarrow> upd s
                  | None \<Rightarrow>
                      if kzalloc_ok
                      then upd (hash_add_gpustat
                             \<lparr> gs_uuid = uuid, active_bar_memory_pinned = 0,
                               active_bounce_buffer_memory = 0, max_bar_memory_pinned = 0,
                               gs_gpu_index = gpu_hash_index gi \<rparr> s)
                      else s))"

definition nvfs_reset_gpuinfo_stats :: "nvfs_stats \<Rightarrow> nvfs_stats" where
  "nvfs_reset_gpuinfo_stats s =
     s\<lparr>gpu_stat_hash := map (\<lambda>g. g\<lparr>max_bar_memory_pinned := 0\<rparr>) (gpu_stat_hash s)\<rparr>"

definition nvfs_stat_init :: "nvfs_stats \<Rightarrow> nvfs_stats" where
  "nvfs_stat_init s = s\<lparr>gpu_stat_hash := []\<rparr>"

definition nvfs_stat_destroy :: "nvfs_stats \<Rightarrow> nvfs_stats" where
  "nvfs_stat_destroy s = s\<lparr>gpu_stat_hash := []\<rparr>"

text \<open>
  \<^verbatim>\<open>nvfs_stats_reset\<close>, without its last call, which belongs to the peer-affinity table of
  \<^verbatim>\<open>nvfs-pci.c\<close>.
\<close>

definition reset_counters :: "nvfs_counter list" where
  "reset_counters =
     [nvfs_n_reads, nvfs_n_reads_ok, nvfs_n_read_err, nvfs_n_read_bytes,
      nvfs_n_read_iostate_err, nvfs_read_throughput, nvfs_avg_read_latency,
      nvfs_n_reads_sparse_files, nvfs_n_reads_sparse_io, nvfs_n_reads_sparse_region,
      nvfs_n_reads_sparse_pages, nvfs_n_writes, nvfs_n_writes_ok, nvfs_n_write_err,
      nvfs_n_write_bytes, nvfs_n_write_iostate_err, nvfs_write_throughput,
      nvfs_avg_write_latency, nvfs_n_mmap, nvfs_n_mmap_ok, nvfs_n_munmap, nvfs_n_mmap_err,
      nvfs_n_err_mix_cpu_gpu, nvfs_n_err_sg_err, nvfs_n_err_dma_map, nvfs_n_err_dma_ref,
      nvfs_n_maps, nvfs_n_maps_ok, nvfs_n_map_err, nvfs_n_free, nvfs_n_callbacks,
      nvfs_n_delayed_frees, nvfs_n_batches, nvfs_n_batches_ok, nvfs_n_batch_err,
      nvfs_batch_submit_avg_latency, nvfs_batch_ops_per_sec, nvfs_n_op_batches,
      nvfs_read_ops_per_sec, nvfs_write_ops_per_sec, nvfs_read_latency_per_sec,
      nvfs_write_latency_per_sec, nvfs_n_pg_cache, nvfs_n_pg_cache_fail,
      nvfs_n_pg_cache_eio]"

definition nvfs_stats_reset :: "nvfs_stats \<Rightarrow> nvfs_stats" where
  "nvfs_stats_reset s = nvfs_reset_gpuinfo_stats (fold nvfs_stat64_reset reset_counters s)"

section \<open>The table of GPUs is a keyed table\<close>

interpretation gpu_table: keyed_table nvfs_get_gpustat_unlocked hash_add_gpustat upd_gpustat gs_uuid
  by unfold_locales
    (auto simp: nvfs_get_gpustat_unlocked_def hash_add_gpustat_def upd_gpustat_def
      chain_find_upd dest: chain_find_SomeD)

section \<open>What a latency window reports\<close>

text \<open>
  The three latency statistics (reads, writes, batch submissions) share one contract: an
  update opens a window, adds a sample to the open window, or adds the sample and closes
  it. \<open>samples\<close> feeds a list of timed samples to an update.
\<close>

fun samples :: "(int \<Rightarrow> int \<Rightarrow> u64 \<Rightarrow> nvfs_stats \<Rightarrow> nvfs_stats) \<Rightarrow> (int \<times> u64) list \<Rightarrow> nvfs_stats \<Rightarrow> nvfs_stats" where
  "samples upd [] s = s"
| "samples upd ((now, x) # ls) s = samples upd ls (upd now now x s)"

lemma div64_safe_small:
  assumes "0 \<le> l" and "l < 2147483648" and "0 < n" and "n < 2147483648"
  shows "uint (div64_safe (word_of_int l) (word_of_int n)) = l div n"
proof -
  have l: "uint (word_of_int l :: u64) = l" and n: "uint (word_of_int n :: u64) = n"
    using assms by (simp_all add: uint_word_of_int_eq take_bit_int_eq_self)
  from n assms(3) have "(word_of_int n :: u64) \<noteq> 0" by auto
  then show ?thesis by (simp add: div64_safe_def uint_div l n)
qed

lemma zdiv_le_dividend: "0 \<le> l \<Longrightarrow> 0 < n \<Longrightarrow> l div n \<le> (l :: int)"
  by (cases "l = 0") (auto intro: order_trans [OF zdiv_mono2 [of l 1 n]])

locale latency_window =
  fixes upd :: "int \<Rightarrow> int \<Rightarrow> u64 \<Rightarrow> nvfs_stats \<Rightarrow> nvfs_stats"
    and prev avg ops lat :: nvfs_counter
  assumes distinct_counters: "distinct [prev, avg, ops, lat]"
    and accumulate:
      "counter s prev \<noteq> 0 \<Longrightarrow> s32 (now - counter s prev) \<le> 1000000 \<Longrightarrow>
         upd now now' x s = nvfs_stat ops (nvfs_stat64_add (sint x) lat s)"
    and close_window:
      "counter s prev \<noteq> 0 \<Longrightarrow> 1000000 < s32 (now - counter s prev) \<Longrightarrow>
         upd now now' x s =
           (let s2 = nvfs_stat ops (nvfs_stat64_add (sint x) lat s)
            in atomic64_set prev now' (nvfs_stat_reset ops (nvfs_stat64_reset lat (atomic_set avg
                 (uint (div64_safe (word_of_int (counter s2 lat)) (word_of_int (counter s2 ops)))) s2))))"
begin

lemma accumulate_counters:
  assumes "counter s prev \<noteq> 0" and "s32 (now - counter s prev) \<le> 1000000"
  shows "counter (upd now now' x s) prev = counter s prev"
    and "counter (upd now now' x s) avg = counter s avg"
    and "counter (upd now now' x s) ops = s32 (counter s ops + 1)"
    and "counter (upd now now' x s) lat = s64 (counter s lat + sint x)"
  using assms distinct_counters by (auto simp: accumulate stat_ops)

lemma samples_accumulate:
  assumes "counter s prev \<noteq> 0"
    and "\<forall>(now, x) \<in> set ls. 0 \<le> now - counter s prev \<and> now - counter s prev \<le> 1000000 \<and> 0 \<le> sint x"
    and "0 \<le> counter s ops" and "counter s ops + int (length ls) < 2147483648"
    and "0 \<le> counter s lat" and "counter s lat + (\<Sum>(now, x) \<leftarrow> ls. sint x) < 9223372036854775808"
  shows "counter (samples upd ls s) prev = counter s prev"
    and "counter (samples upd ls s) ops = counter s ops + int (length ls)"
    and "counter (samples upd ls s) lat = counter s lat + (\<Sum>(now, x) \<leftarrow> ls. sint x)"
proof -
  have "counter (samples upd ls s) prev = counter s prev \<and>
      counter (samples upd ls s) ops = counter s ops + int (length ls) \<and>
      counter (samples upd ls s) lat = counter s lat + (\<Sum>(now, x) \<leftarrow> ls. sint x)"
    using assms
  proof (induction ls arbitrary: s)
    case Nil
    then show ?case by simp
  next
    case (Cons l ls)
    obtain now x where l: "l = (now, x)" by (cases l)
    let ?s = "upd now now x s"
    from Cons.prems l have w: "s32 (now - counter s prev) \<le> 1000000"
      by (simp add: s32_id)
    have nn: "0 \<le> (\<Sum>(now, x) \<leftarrow> ls. sint x)"
      using Cons.prems(2) by (intro sum_list_nonneg) auto
    have c: "counter ?s prev = counter s prev" "counter ?s ops = counter s ops + 1"
      "counter ?s lat = counter s lat + sint x"
      using Cons.prems l w nn by (simp_all add: accumulate_counters s32_id s64_id)
    show ?case
      using Cons.IH [of ?s] Cons.prems l c by (auto simp: algebra_simps)
  qed
  then show "counter (samples upd ls s) prev = counter s prev"
    and "counter (samples upd ls s) ops = counter s ops + int (length ls)"
    and "counter (samples upd ls s) lat = counter s lat + (\<Sum>(now, x) \<leftarrow> ls. sint x)"
    by simp_all
qed

lemma closing_average:
  assumes "counter s prev \<noteq> 0" and "1000000 < s32 (now - counter s prev)"
    and "0 \<le> counter s ops" and "counter s ops + 1 < 2147483648"
    and "0 \<le> counter s lat" and "0 \<le> sint x" and "counter s lat + sint x < 2147483648"
  shows "counter (upd now now' x s) avg = (counter s lat + sint x) div (counter s ops + 1)"
    and "counter (upd now now' x s) lat = 0" and "counter (upd now now' x s) ops = 0"
proof -
  let ?l = "counter s lat + sint x" and ?n = "counter s ops + 1"
  have q: "uint (div64_safe (word_of_int ?l) (word_of_int ?n)) = ?l div ?n"
    using assms by (intro div64_safe_small) simp_all
  have "0 \<le> ?l div ?n" using assms by (simp add: pos_imp_zdiv_nonneg_iff)
  moreover have "?l div ?n \<le> ?l" using assms by (intro zdiv_le_dividend) simp_all
  ultimately show "counter (upd now now' x s) avg = ?l div ?n"
    and "counter (upd now now' x s) lat = 0" and "counter (upd now now' x s) ops = 0"
    using assms distinct_counters q
    by (auto simp: close_window stat_ops Let_def s32_id s64_id simp del: of_int_add)
qed

lemma window_mean:
  assumes "counter s prev \<noteq> 0" and "counter s ops = 0" and "counter s lat = 0"
    and "\<forall>(now, x) \<in> set ls. 0 \<le> now - counter s prev \<and> now - counter s prev \<le> 1000000 \<and> 0 \<le> sint x"
    and "1000000 < now - counter s prev" and "now - counter s prev < 2147483648" and "0 \<le> sint x"
    and "(\<Sum>(now, x) \<leftarrow> ls. sint x) + sint x < 2147483648" and "int (length ls) + 1 < 2147483648"
  shows "counter (upd now now' x (samples upd ls s)) avg =
    ((\<Sum>(now, x) \<leftarrow> ls. sint x) + sint x) div (int (length ls) + 1)"
proof -
  let ?s = "samples upd ls s"
  have nn: "0 \<le> (\<Sum>(now, x) \<leftarrow> ls. sint x)"
    using assms(4) by (intro sum_list_nonneg) auto
  have c: "counter ?s prev = counter s prev" "counter ?s ops = int (length ls)"
    "counter ?s lat = (\<Sum>(now, x) \<leftarrow> ls. sint x)"
    using assms nn by (simp_all add: samples_accumulate)
  then show ?thesis
    using closing_average [of ?s now x now'] assms nn by (simp add: s32_id)
qed

end

interpretation read_window: latency_window nvfs_update_read_latency
    prev_read_latency nvfs_avg_read_latency nvfs_read_ops_per_sec nvfs_read_latency_per_sec
  by unfold_locales (auto simp: nvfs_update_read_latency_def Let_def)

interpretation write_window: latency_window nvfs_update_write_latency
    prev_write_latency nvfs_avg_write_latency nvfs_write_ops_per_sec nvfs_write_latency_per_sec
  by unfold_locales (auto simp: nvfs_update_write_latency_def Let_def)

interpretation batch_window: latency_window nvfs_update_batch_latency
    prev_batch_submit_avg_latency nvfs_batch_submit_avg_latency nvfs_batch_ops_per_sec
    nvfs_batch_submit_latency_per_sec
  by unfold_locales (auto simp: nvfs_update_batch_latency_def Let_def)

section \<open>Properties\<close>

definition in_s64 :: "int \<Rightarrow> bool" where
  "in_s64 x \<longleftrightarrow> - 9223372036854775808 \<le> x \<and> x < 9223372036854775808"

definition gpustat_wf :: "nvfs_stats \<Rightarrow> bool" where
  "gpustat_wf s \<longleftrightarrow> distinct (map gs_uuid (gpu_stat_hash s)) \<and>
     (\<forall>g \<in> set (gpu_stat_hash s). in_s64 (active_bar_memory_pinned g) \<and>
        in_s64 (active_bounce_buffer_memory g) \<and> in_s64 (max_bar_memory_pinned g))"

text \<open>What the table says is pinned on a GPU: registered and bounce-buffer bytes.\<close>

definition pinned_on :: "nvfs_stats \<Rightarrow> u64 \<Rightarrow> int \<times> int" where
  "pinned_on s uuid = (case nvfs_get_gpustat_unlocked s uuid of
     None \<Rightarrow> (0, 0) | Some g \<Rightarrow> (active_bar_memory_pinned g, active_bounce_buffer_memory g))"

lemma in_s64_signed [simp]: "in_s64 (s64 x)"
  using signed_take_bit_int_greater_eq_minus_exp [of 63 x] signed_take_bit_int_less_exp [of 63 x]
  by (simp add: in_s64_def)

lemma in_s64_sint [simp]: "in_s64 (sint (w :: u64))"
proof -
  have "sint w = s64 (uint w)" by (simp add: sint_uint)
  then show ?thesis by (simp only: in_s64_signed)
qed

lemma s64_add_sub: "in_s64 a \<Longrightarrow> s64 (s64 (a + b) - b) = a"
proof -
  assume a: "in_s64 a"
  have "s64 (s64 (a + b) - b) = s64 a"
    by (metis add_diff_cancel_right' signed_take_bit_diff signed_take_bit_signed_take_bit min.idem)
  with a show ?thesis by (simp add: in_s64_def s64_id)
qed

lemma gs_uuid_pinned [simp]:
  "gs_uuid (sub_pinned gi g) = gs_uuid g" "gs_uuid (add_pinned gi g) = gs_uuid g"
  "gs_uuid (raise_max g) = gs_uuid g"
  by (simp_all add: sub_pinned_def add_pinned_def raise_max_def Let_def)

lemma raise_max_pinned [simp]:
  "active_bar_memory_pinned (raise_max g) = active_bar_memory_pinned g"
  "active_bounce_buffer_memory (raise_max g) = active_bounce_buffer_memory g"
  by (simp_all add: raise_max_def Let_def)

lemma pinned_add_sub:
  assumes "in_s64 (active_bar_memory_pinned g)" and "in_s64 (active_bounce_buffer_memory g)"
  shows "active_bar_memory_pinned (sub_pinned gi (raise_max (add_pinned gi g))) = active_bar_memory_pinned g"
    and "active_bounce_buffer_memory (sub_pinned gi (raise_max (add_pinned gi g))) = active_bounce_buffer_memory g"
  using assms by (simp_all add: sub_pinned_def add_pinned_def s64_add_sub)

lemma lookup_in_wf:
  "gpustat_wf s \<Longrightarrow> nvfs_get_gpustat_unlocked s uuid = Some g \<Longrightarrow>
     in_s64 (active_bar_memory_pinned g) \<and> in_s64 (active_bounce_buffer_memory g)"
  by (auto simp: gpustat_wf_def nvfs_get_gpustat_unlocked_def dest!: chain_find_SomeD)

text \<open>
  C21. Pinning a GPU buffer and releasing it is neutral for the per-GPU accounting: when the
  entry for the GPU can be allocated, the release finds it (it does not run into its
  \<^verbatim>\<open>BUG_ON\<close>) and, for every GPU, leaves the registered and bounce-buffer totals as
  they were before the pinning, even across a 64-bit wrap.
\<close>

theorem gpustat_alloc_free:
  assumes "gpustat_wf s"
  shows "\<exists>s'. nvfs_update_free_gpustat gi (nvfs_update_alloc_gpustat True gi s) = Some s' \<and>
    (\<forall>uuid. pinned_on s' uuid = pinned_on s uuid)"
proof (cases "\<exists>pt uuid. page_table gi = Some pt \<and> gpu_uuid pt = Some uuid")
  case False
  then show ?thesis
    by (auto simp: nvfs_update_free_gpustat_def nvfs_update_alloc_gpustat_def split: option.splits)
next
  case True
  then obtain pt uuid where pt: "page_table gi = Some pt" "gpu_uuid pt = Some uuid" by blast
  show ?thesis
    using lookup_in_wf [OF assms, of uuid] pt
    by (cases "nvfs_get_gpustat_unlocked s uuid")
      (auto simp: nvfs_update_free_gpustat_def nvfs_update_alloc_gpustat_def pinned_on_def Let_def
        gpu_table.lookup_update gpu_table.lookup_insert pinned_add_sub in_s64_def
        split: option.splits)
qed

definition ex_gpu_args :: nvfs_gpu_args where
  "ex_gpu_args = zero_gpu_args\<lparr>gpu_buf_len := 65536, page_table :=
     Some \<lparr> version_compatible = True, page_size_64k = True, pt_entries = 1,
            pt_physical = [0x100000], gpu_uuid = Some 7 \<rparr>\<rparr>"

definition zero_stats :: nvfs_stats where
  "zero_stats = \<lparr> counter = (\<lambda>_. 0), gpu_stat_hash = [] \<rparr>"

theorem gpustat_alloc_free_witness:
  "gpustat_wf zero_stats \<and>
   (\<exists>s'. nvfs_update_free_gpustat ex_gpu_args (nvfs_update_alloc_gpustat True ex_gpu_args zero_stats) = Some s' \<and>
     (\<forall>uuid. pinned_on s' uuid = pinned_on zero_stats uuid))"
proof -
  have "gpustat_wf zero_stats" by (simp add: gpustat_wf_def zero_stats_def)
  then show ?thesis using gpustat_alloc_free [of zero_stats ex_gpu_args] by blast
qed

text \<open>
  When the allocation of the table entry of a GPU fails, pinning goes on without it, and
  the release of that buffer finds no entry and hits its \<^verbatim>\<open>BUG_ON\<close>.
\<close>

theorem gpustat_alloc_failure_kills_free:
  assumes "page_table gi = Some pt" and "gpu_uuid pt = Some uuid"
    and "nvfs_get_gpustat_unlocked s uuid = None"
  shows "nvfs_update_free_gpustat gi (nvfs_update_alloc_gpustat False gi s) = None"
  using assms by (simp add: nvfs_update_free_gpustat_def nvfs_update_alloc_gpustat_def Let_def)

theorem gpustat_alloc_failure_kills_free_witness:
  "nvfs_update_free_gpustat ex_gpu_args (nvfs_update_alloc_gpustat False ex_gpu_args zero_stats) = None"
  using gpustat_alloc_failure_kills_free [of ex_gpu_args "the (page_table ex_gpu_args)" 7 zero_stats]
  by (simp add: ex_gpu_args_def zero_stats_def nvfs_get_gpustat_unlocked_def)

text \<open>
  The read latency the driver reports is the mean of the window: after the samples \<open>ls\<close>
  that fall within one second of the start of an empty window, a sample \<open>x\<close> that arrives
  after more than a second publishes the integer mean of all of them.
\<close>

theorem read_latency_is_mean:
  assumes "counter s prev_read_latency \<noteq> 0"
    and "counter s nvfs_read_ops_per_sec = 0" and "counter s nvfs_read_latency_per_sec = 0"
    and "\<forall>(t, y) \<in> set ls. 0 \<le> t - counter s prev_read_latency \<and>
           t - counter s prev_read_latency \<le> 1000000 \<and> 0 \<le> sint y"
    and "1000000 < now - counter s prev_read_latency"
    and "now - counter s prev_read_latency < 2147483648" and "0 \<le> sint x"
    and "(\<Sum>(t, y) \<leftarrow> ls. sint y) + sint x < 2147483648" and "int (length ls) + 1 < 2147483648"
  shows "counter (nvfs_update_read_latency now now' x (samples nvfs_update_read_latency ls s))
      nvfs_avg_read_latency =
    ((\<Sum>(t, y) \<leftarrow> ls. sint y) + sint x) div (int (length ls) + 1)"
  using assms by (rule read_window.window_mean)

definition ex_window :: nvfs_stats where
  "ex_window = set_counter prev_read_latency 5000000 zero_stats"

theorem read_latency_is_mean_witness:
  "counter (nvfs_update_read_latency 6500000 6500000 30
      (samples nvfs_update_read_latency [(5100000, 10), (5200000, 20)] ex_window))
     nvfs_avg_read_latency = 20"
  using read_latency_is_mean [of ex_window "[(5100000, 10), (5200000, 20)]" 6500000 30 6500000]
  by (simp add: ex_window_def zero_stats_def)

text \<open>
  The elapsed time of a latency window is kept in a 32-bit \<^verbatim>\<open>int\<close> of microseconds. When
  the previous window is between about 36 and 71 minutes old (\<open>2^31\<close> to \<open>2^32\<close>
  microseconds), the elapsed time turns negative: the sample is added to the stale window
  and the published average is not refreshed, although far more than a second has passed.
\<close>

theorem read_latency_stale_window:
  assumes "counter s prev_read_latency \<noteq> 0"
    and "2147483648 \<le> now - counter s prev_read_latency"
    and "now - counter s prev_read_latency < 4294967296"
  shows "counter (nvfs_update_read_latency now now' x s) nvfs_avg_read_latency =
      counter s nvfs_avg_read_latency \<and>
    counter (nvfs_update_read_latency now now' x s) prev_read_latency = counter s prev_read_latency"
proof -
  let ?d = "now - counter s prev_read_latency"
  have "s32 ?d = s32 (?d - 4294967296)"
    by (simp only: s32_wrap)
  also have "\<dots> = ?d - 4294967296" using assms by (intro s32_id) simp_all
  finally have "s32 ?d \<le> 1000000" using assms by simp
  with assms(1) show ?thesis by (simp_all add: read_window.accumulate_counters)
qed

theorem read_latency_stale_window_witness:
  "counter (nvfs_update_read_latency 3005000000 3005000000 30 ex_window) nvfs_avg_read_latency = 0"
  using read_latency_stale_window [of ex_window 3005000000 3005000000 30]
  by (simp add: ex_window_def zero_stats_def)

end
