(* ===== verification/Nvfs_Mod.thy ===== *)
theory Nvfs_Mod
  imports Nvfs_Prelude
begin

text \<open>
  The table of storage modules of \<^verbatim>\<open>nvfs-dma.c\<close> and its probing and cleanup in
  \<^verbatim>\<open>nvfs-mod.c\<close>: for every vendor module the driver looks up a pair of exported
  symbols, takes a reference on both and registers its DMA operations. The kernel's
  symbol table and the vendor's answer to the registration are parameters; the reference
  counts of the symbols and the operations registered with each vendor are state.
\<close>

datatype dma_ops =
    nvfs_dev_dma_rw_ops | nvfs_nvme_dma_rw_ops | nvfs_sfxv_dma_rw_ops
  | nvfs_nvmesh_dma_rw_ops | nvfs_ibm_scale_rdma_ops | nvfs_nvme_dma_rw_blk_iter_ops

text \<open>A null function pointer is \<open>False\<close> in \<open>reg_func\<close> and \<open>dreg_func\<close>.\<close>

record module_entry =
  is_mod :: bool
  found :: bool
  mod_name :: string
  mod_version :: "string option"
  reg_ksym :: "string option"
  reg_func :: bool
  dreg_ksym :: "string option"
  dreg_func :: bool
  mod_ops :: "dma_ops option"

text \<open>
  \<open>iter_api\<close> and \<open>kern_rdma\<close> are the build options
  \<^verbatim>\<open>HAVE_BLK_RQ_DMA_MAP_ITER_START\<close> and \<^verbatim>\<open>NVFS_ENABLE_KERN_RDMA_SUPPORT\<close>.
\<close>

record mod_env =
  iter_api :: bool
  kern_rdma :: bool
  symbol_exists :: "string \<Rightarrow> bool"
  register_ret :: "string \<Rightarrow> bool \<Rightarrow> dma_ops option \<Rightarrow> int"

record symtab =
  symrefs :: "string \<Rightarrow> int"
  registered :: "string \<Rightarrow> dma_ops option"

definition mod_row :: "string \<Rightarrow> string \<Rightarrow> string \<Rightarrow> dma_ops \<Rightarrow> module_entry" where
  "mod_row name reg dreg ops_ptr =
     \<lparr> is_mod = True, found = False, mod_name = name, mod_version = None,
       reg_ksym = Some reg, reg_func = False, dreg_ksym = Some dreg, dreg_func = False,
       mod_ops = Some ops_ptr \<rparr>"

definition modules_list :: "mod_env \<Rightarrow> module_entry list" where
  "modules_list e =
     [if iter_api e
      then mod_row ''nvme'' ''nvme_v2_register_nvfs_dma_ops''
             ''nvme_v2_unregister_nvfs_dma_ops'' nvfs_nvme_dma_rw_blk_iter_ops
      else mod_row ''nvme'' ''nvme_v1_register_nvfs_dma_ops''
             ''nvme_v1_unregister_nvfs_dma_ops'' nvfs_nvme_dma_rw_ops,
      mod_row ''nvme_rdma'' ''nvme_rdma_v1_register_nvfs_dma_ops''
        ''nvme_rdma_v1_unregister_nvfs_dma_ops'' nvfs_nvme_dma_rw_ops,
      mod_row ''sfxvdriver'' ''sfxv_v1_register_nvfs_dma_ops''
        ''sfxv_v1_unregister_nvfs_dma_ops'' nvfs_sfxv_dma_rw_ops,
      mod_row ''nvmeib_common'' ''nvmesh_v1_register_nvfs_dma_ops''
        ''nvmesh_v1_unregister_nvfs_dma_ops'' nvfs_nvmesh_dma_rw_ops,
      mod_row ''lnet'' ''lustre_v1_register_nvfs_dma_ops''
        ''lustre_v1_unregister_nvfs_dma_ops'' nvfs_dev_dma_rw_ops,
      mod_row ''beegfs'' ''beegfs_v1_register_nvfs_dma_ops''
        ''beegfs_v1_unregister_nvfs_dma_ops'' nvfs_dev_dma_rw_ops,
      \<lparr> is_mod = True, found = True, mod_name = ''wekafsio'', mod_version = Some ''1'',
        reg_ksym = None, reg_func = False, dreg_ksym = None, dreg_func = False,
        mod_ops = None \<rparr>] @
     (if kern_rdma e
      then [mod_row ''mmfslinux'' ''ibm_scale_v1_register_nvfs_dma_ops''
              ''ibm_scale_v1_unregister_nvfs_dma_ops'' nvfs_ibm_scale_rdma_ops]
      else []) @
     [mod_row ''rpcrdma'' ''rpcrdma_register_nvfs_dma_ops''
        ''rpcrdma_unregister_nvfs_dma_ops'' nvfs_dev_dma_rw_ops,
      mod_row ''scatefs'' ''scatefs_register_nvfs_dma_ops''
        ''scatefs_unregister_nvfs_dma_ops'' nvfs_dev_dma_rw_ops,
      (mod_row ''scsi_mod'' ''scsi_v1_register_dma_scsi_ops''
        ''scsi_v1_unregister_dma_scsi_ops'' nvfs_dev_dma_rw_ops)
          \<lparr>is_mod := False, mod_version := Some ''0''\<rparr>]"

text \<open>\<^verbatim>\<open>__symbol_get\<close> takes a reference when the symbol exists; \<^verbatim>\<open>__symbol_put\<close> drops one.\<close>

definition symbol_get :: "mod_env \<Rightarrow> string \<Rightarrow> symtab \<Rightarrow> bool \<times> symtab" where
  "symbol_get e ksym t =
     (if symbol_exists e ksym
      then (True, t\<lparr>symrefs := (symrefs t)(ksym := symrefs t ksym + 1)\<rparr>)
      else (False, t))"

definition symbol_put :: "string \<Rightarrow> symtab \<Rightarrow> symtab" where
  "symbol_put ksym t = t\<lparr>symrefs := (symrefs t)(ksym := symrefs t ksym - 1)\<rparr>"

text \<open>
  The call of the registration function: version 2 of the interface for NVMe on kernels
  with the iterator API, version 1 otherwise. A vendor that accepts holds the operations.
\<close>

definition call_reg_func :: "mod_env \<Rightarrow> module_entry \<Rightarrow> string \<Rightarrow> symtab \<Rightarrow> int \<times> symtab" where
  "call_reg_func e m reg t =
     (let v2 = iter_api e \<and> mod_name m = ''nvme'';
          ret = register_ret e reg v2 (mod_ops m)
      in (ret, if ret = 0 then t\<lparr>registered := (registered t)(reg := mod_ops m)\<rparr> else t))"

definition call_dreg_func :: "string \<Rightarrow> symtab \<Rightarrow> symtab" where
  "call_dreg_func reg t = t\<lparr>registered := (registered t)(reg := None)\<rparr>"

text \<open>One iteration of the loop of \<^verbatim>\<open>probe_module_list\<close>, with the value of \<open>ret\<close> it leaves.\<close>

definition probe_entry :: "mod_env \<Rightarrow> int \<Rightarrow> module_entry \<Rightarrow> symtab \<Rightarrow> int \<times> module_entry \<times> symtab" where
  "probe_entry e ret m t =
     (case (reg_ksym m, dreg_ksym m) of
        (Some reg, Some dreg) \<Rightarrow>
          if found m then (ret, m, t)
          else
            let (got, t1) = symbol_get e reg t; m1 = m\<lparr>reg_func := got\<rparr>
            in if \<not> got then (ret, m1, t1)
               else
                 let (gotd, t2) = symbol_get e dreg t1; m2 = m1\<lparr>dreg_func := gotd\<rparr>
                 in if \<not> gotd then (ret, m2\<lparr>reg_func := False, found := False\<rparr>, symbol_put reg t2)
                    else
                      let (r, t3) = call_reg_func e m2 reg t2
                      in if r \<noteq> 0
                         then (0, m2\<lparr>dreg_func := False, reg_func := False, found := False\<rparr>,
                               symbol_put reg (symbol_put dreg t3))
                         else (r, m2\<lparr>found := True\<rparr>, t3)
      | _ \<Rightarrow> (ret, m, t))"

fun probe_loop :: "mod_env \<Rightarrow> int \<Rightarrow> module_entry list \<Rightarrow> symtab \<Rightarrow> int \<times> module_entry list \<times> symtab" where
  "probe_loop e ret [] t = (ret, [], t)"
| "probe_loop e ret (m # ms) t =
     (let (ret', m', t') = probe_entry e ret m t; (ret'', ms', t'') = probe_loop e ret' ms t'
      in (ret'', m' # ms', t''))"

definition probe_module_list :: "mod_env \<Rightarrow> module_entry list \<Rightarrow> symtab \<Rightarrow> int \<times> module_entry list \<times> symtab" where
  "probe_module_list e ms t = probe_loop e 0 ms t"

definition cleanup_entry :: "module_entry \<Rightarrow> symtab \<Rightarrow> module_entry \<times> symtab" where
  "cleanup_entry m t =
     (case (reg_ksym m, dreg_ksym m) of
        (Some reg, Some dreg) \<Rightarrow>
          if found m
          then (m\<lparr>found := False, dreg_func := False, reg_func := False\<rparr>,
                symbol_put reg (symbol_put dreg (call_dreg_func reg t)))
          else (m, t)
      | _ \<Rightarrow> (m, t))"

fun cleanup_module_list :: "module_entry list \<Rightarrow> symtab \<Rightarrow> module_entry list \<times> symtab" where
  "cleanup_module_list [] t = ([], t)"
| "cleanup_module_list (m # ms) t =
     (let (m', t') = cleanup_entry m t; (ms', t'') = cleanup_module_list ms t'
      in (m' # ms', t''))"

definition nvfs_blk_register_dma_ops where
  "nvfs_blk_register_dma_ops = probe_module_list"

definition nvfs_blk_unregister_dma_ops where
  "nvfs_blk_unregister_dma_ops = cleanup_module_list"

section \<open>Invariant\<close>

text \<open>
  An entry with symbols is found exactly when the driver holds both of its function
  pointers, and never holds one alone.
\<close>

definition entry_wf :: "module_entry \<Rightarrow> bool" where
  "entry_wf m \<longleftrightarrow>
     (if reg_ksym m \<noteq> None \<and> dreg_ksym m \<noteq> None
      then reg_func m = found m \<and> dreg_func m = found m
      else \<not> reg_func m \<and> \<not> dreg_func m)"

definition entry_refs :: "string \<Rightarrow> module_entry \<Rightarrow> int" where
  "entry_refs ksym m =
     (if reg_func m \<and> reg_ksym m = Some ksym then 1 else 0) +
     (if dreg_func m \<and> dreg_ksym m = Some ksym then 1 else 0)"

definition held_refs :: "string \<Rightarrow> module_entry list \<Rightarrow> int" where
  "held_refs ksym ms = sum_list (map (entry_refs ksym) ms)"

lemmas mod_defs = probe_entry_def cleanup_entry_def symbol_get_def symbol_put_def
  call_reg_func_def call_dreg_func_def Let_def

lemma probe_entry_ret:
  "probe_entry e ret m t = (ret', m', t') \<Longrightarrow> ret = 0 \<Longrightarrow> ret' = 0"
  by (auto simp: mod_defs split: option.splits if_splits)

lemma probe_entry_wf:
  "probe_entry e ret m t = (ret', m', t') \<Longrightarrow> entry_wf m \<Longrightarrow> entry_wf m'"
  by (auto simp: mod_defs entry_wf_def split: option.splits if_splits)

lemma probe_entry_refs:
  assumes "probe_entry e ret m t = (ret', m', t')" and "entry_wf m"
  shows "symrefs t' ksym - entry_refs ksym m' = symrefs t ksym - entry_refs ksym m"
  using assms by (auto simp: mod_defs entry_wf_def entry_refs_def split: option.splits if_splits)

lemma cleanup_entry_refs:
  assumes "cleanup_entry m t = (m', t')" and "entry_wf m"
  shows "symrefs t' ksym - entry_refs ksym m' = symrefs t ksym - entry_refs ksym m"
    and "entry_refs ksym m' = 0" and "entry_wf m'"
  using assms by (auto simp: mod_defs entry_wf_def entry_refs_def split: option.splits if_splits)

lemma probe_loop_inv:
  assumes "probe_loop e ret ms t = (ret', ms', t')" and "\<forall>m \<in> set ms. entry_wf m"
  shows "(ret = 0 \<longrightarrow> ret' = 0) \<and> length ms' = length ms \<and> (\<forall>m \<in> set ms'. entry_wf m) \<and>
    symrefs t' ksym - held_refs ksym ms' = symrefs t ksym - held_refs ksym ms"
  using assms
proof (induction ms arbitrary: ret t ms' ret' t')
  case Nil
  then show ?case by (simp add: held_refs_def)
next
  case (Cons m ms)
  obtain r1 m1 t1 where 1: "probe_entry e ret m t = (r1, m1, t1)" by (metis prod_cases3)
  obtain r2 ms2 t2 where 2: "probe_loop e r1 ms t1 = (r2, ms2, t2)" by (metis prod_cases3)
  from Cons.prems 1 2 have eqs: "ms' = m1 # ms2" "t' = t2" "ret' = r2" by simp_all
  from Cons.IH [OF 2] Cons.prems(2) probe_entry_refs [OF 1, of ksym] probe_entry_wf [OF 1]
    probe_entry_ret [OF 1]
  show ?case by (auto simp: eqs held_refs_def)
qed

lemma cleanup_list_inv:
  assumes "cleanup_module_list ms t = (ms', t')" and "\<forall>m \<in> set ms. entry_wf m"
  shows "length ms' = length ms \<and> (\<forall>m \<in> set ms'. entry_wf m) \<and> held_refs ksym ms' = 0 \<and>
    symrefs t' ksym = symrefs t ksym - held_refs ksym ms"
  using assms
proof (induction ms arbitrary: t ms' t')
  case Nil
  then show ?case by (simp add: held_refs_def)
next
  case (Cons m ms)
  obtain m1 t1 where 1: "cleanup_entry m t = (m1, t1)" by fastforce
  obtain ms2 t2 where 2: "cleanup_module_list ms t1 = (ms2, t2)" by fastforce
  from Cons.prems 1 2 have eqs: "ms' = m1 # ms2" "t' = t2" by simp_all
  from Cons.IH [OF 2] Cons.prems(2) cleanup_entry_refs(1,2) [OF 1, of ksym] cleanup_entry_refs(3) [OF 1]
  show ?case by (auto simp: eqs held_refs_def)
qed

section \<open>Properties\<close>

text \<open>
  C22. Module references are balanced: starting from a well-formed table, probing always
  reports success, and a cleanup after it gives back every symbol reference, so that each
  symbol's count is what it was less what the table held before, and the table holds none.
  That probing always returns 0 is what the code does: the error of an entry is printed and dropped. The description of the
  function in \<^verbatim>\<open>docs/analyse/nvfs-mod.c.md\<close>, by which it can return the error of the last module, is wrong.
\<close>

theorem probe_cleanup_balanced:
  assumes "\<forall>m \<in> set ms. entry_wf m"
    and "probe_module_list e ms t = (ret, ms1, t1)" and "cleanup_module_list ms1 t1 = (ms2, t2)"
  shows "ret = 0 \<and> symrefs t2 ksym = symrefs t ksym - held_refs ksym ms \<and> held_refs ksym ms2 = 0 \<and>
    length ms2 = length ms \<and> (\<forall>m \<in> set ms2. entry_wf m)"
proof -
  from assms(2) have p: "probe_loop e 0 ms t = (ret, ms1, t1)" by (simp add: probe_module_list_def)
  note probe_loop_inv [OF p assms(1), of ksym]
  moreover from this have "\<forall>m \<in> set ms1. entry_wf m" by simp
  note cleanup_list_inv [OF assms(3) this, of ksym]
  ultimately show ?thesis by auto
qed

definition ex_mod_env :: mod_env where
  "ex_mod_env = \<lparr> iter_api = False, kern_rdma = False,
     symbol_exists = (\<lambda>s. s \<noteq> ''lustre_v1_unregister_nvfs_dma_ops'' \<and> s \<noteq> ''rpcrdma_register_nvfs_dma_ops''),
     register_ret = (\<lambda>s v2 ops. if s = ''beegfs_v1_register_nvfs_dma_ops'' then -16 else 0) \<rparr>"

definition ex_symtab :: symtab where
  "ex_symtab = \<lparr> symrefs = (\<lambda>_. 3), registered = (\<lambda>_. None) \<rparr>"

lemma modules_list_wf: "\<forall>m \<in> set (modules_list e). entry_wf m"
  by (auto simp: modules_list_def mod_row_def entry_wf_def)

lemma modules_list_unheld: "held_refs ksym (modules_list e) = 0"
  by (simp add: modules_list_def mod_row_def held_refs_def entry_refs_def)

theorem probe_cleanup_balanced_witness:
  "\<exists>ret ms1 t1 ms2 t2. probe_module_list ex_mod_env (modules_list ex_mod_env) ex_symtab = (ret, ms1, t1) \<and>
     cleanup_module_list ms1 t1 = (ms2, t2) \<and>
     ret = 0 \<and> symrefs t2 ''nvme_v1_register_nvfs_dma_ops'' = 3"
proof -
  obtain ret ms1 t1 where p: "probe_module_list ex_mod_env (modules_list ex_mod_env) ex_symtab = (ret, ms1, t1)"
    by (metis prod_cases3)
  obtain ms2 t2 where c: "cleanup_module_list ms1 t1 = (ms2, t2)" by fastforce
  from probe_cleanup_balanced [OF modules_list_wf p c] p c show ?thesis
    by (auto simp: modules_list_unheld ex_symtab_def)
qed

end
