(* ===== verification/Nvfs_State.thy ===== *)
theory Nvfs_State
  imports Nvfs_Stat Nvfs_Mod
begin

text \<open>
  The state the driver shares between its entry points and the environment it runs in.

  \<open>kstate\<close> holds the shadow buffer groups by address (an address with no group is
  unallocated or freed memory), the hash table of groups (\<^verbatim>\<open>nvfs_io_mgroup_hash\<close>), the
  kernel pages with the reference counts the driver moves, the user-visible completion
  pages, the per-CPU operation counters, the module table, the statistics, and a log of the
  calls the driver makes into the GPU driver and of the files and waiters it releases.

  \<open>kenv\<close> is everything the driver asks of the kernel and of the GPU driver, as data that
  every operation takes as an argument: the page shift, the context an entry point runs
  in, whether an allocation succeeds and at which address, what \<^verbatim>\<open>pin_user_pages_fast\<close> and
  the \<^verbatim>\<open>nvidia_p2p\<close> calls return, and which injected faults fire (the faults that are
  raised at several places are told apart by the place).
\<close>

datatype nvfs_fault =
    nvfs_dma_error | nvfs_rw_verify_area_error | nvfs_end_fence_get_user_pages_fast_error
  | nvfs_invalid_p2p_get_page | nvfs_io_transit_state_fail nvfs_io_state nvfs_io_state
  | nvfs_pin_shadow_pages_error | nvfs_vm_insert_page_error nat

datatype alloc_site =
  AllocMgroup | AllocPpages | AllocMetadata | AllocGpuStat | AllocPciMapping | AllocPagePtrs | AllocBatch

datatype kevent =
    EvGetPages u64 u64 | EvGetPagesPersistent u64 u64 | EvPutPages u64 | EvPutPagesPersistent u64
  | EvDmaMap pci_dev | EvDmaUnmap pci_dev | EvFreeDmaMapping pci_dev | EvPeerUsage u32 pci_dev
  | EvFreePageTable | EvWakeUp mptr | EvFdGet int | EvFdPut int | EvStartWrite | EvEndWrite

record kenv =
  page_shift :: nat
  possible_cpus :: "nat list"
  this_cpu :: nat
  pf_exiting :: bool
  in_interrupt :: bool
  may_sleep :: bool
  should_fail :: "nvfs_fault \<Rightarrow> bool"
  kalloc_ok :: "alloc_site \<Rightarrow> bool"
  kzalloc_mgroup :: mptr
  random_u32 :: "nat \<Rightarrow> u32"
  alloc_page :: "nat \<Rightarrow> pageid option"
  vm_insert_page :: "nat \<Rightarrow> int"
  pin_user_pages_fast :: "u64 \<Rightarrow> nat \<Rightarrow> int \<times> pageid list"
  page_to_pfn :: "pageid \<Rightarrow> nat"
  nvfs_use_legacy_p2p_allocation :: bool
  nvfs_peer_stats_enabled :: bool
  p2p_get_pages :: "u64 \<Rightarrow> u64 \<Rightarrow> int \<times> p2p_page_table option"
  p2p_put_pages :: "u64 \<Rightarrow> int"
  p2p_dma_map_pages :: "pci_dev \<Rightarrow> p2p_page_table option \<Rightarrow> int \<times> p2p_dma_mapping option"
  p2p_dma_unmap_pages :: "pci_dev \<Rightarrow> int"
  get_gpu_hash_index :: "u64 \<Rightarrow> u32"

record kstate =
  mgroups :: "mptr \<Rightarrow> nvfs_io_mgroup option"
  nvfs_io_mgroup_hash :: "mptr list"
  kpages :: "pageid \<Rightarrow> kpage"
  page_refs :: "pageid \<Rightarrow> int"
  metapages :: "pageid \<Rightarrow> nvfs_ioctl_metapage"
  nvfs_n_ops :: "nat \<Rightarrow> int"
  kmodules :: "module_entry list"
  ksymtab :: symtab
  kstats :: nvfs_stats
  klog :: "kevent list"

section \<open>Small state operations\<close>

definition kstat :: "(nvfs_stats \<Rightarrow> nvfs_stats) \<Rightarrow> kstate \<Rightarrow> kstate" where
  "kstat f s = s\<lparr>kstats := f (kstats s)\<rparr>"

definition klog_event :: "kevent \<Rightarrow> kstate \<Rightarrow> kstate" where
  "klog_event ev s = s\<lparr>klog := ev # klog s\<rparr>"

definition upd_mgroup :: "mptr \<Rightarrow> (nvfs_io_mgroup \<Rightarrow> nvfs_io_mgroup) \<Rightarrow> kstate \<Rightarrow> kstate option" where
  "upd_mgroup p f s =
     (case mgroups s p of None \<Rightarrow> None | Some m \<Rightarrow> Some (s\<lparr>mgroups := (mgroups s)(p \<mapsto> f m)\<rparr>))"

definition upd_gpu :: "mptr \<Rightarrow> (nvfs_gpu_args \<Rightarrow> nvfs_gpu_args) \<Rightarrow> kstate \<Rightarrow> kstate option" where
  "upd_gpu p f s = upd_mgroup p (\<lambda>m. m\<lparr>gpu_info := f (gpu_info m)\<rparr>) s"

definition upd_io :: "mptr \<Rightarrow> (nvfs_io \<Rightarrow> nvfs_io) \<Rightarrow> kstate \<Rightarrow> kstate option" where
  "upd_io p f s = upd_mgroup p (\<lambda>m. m\<lparr>nvfsio := f (nvfsio m)\<rparr>) s"

definition set_io_state :: "mptr \<Rightarrow> nvfs_io_state \<Rightarrow> kstate \<Rightarrow> kstate option" where
  "set_io_state p st s = upd_gpu p (\<lambda>g. g\<lparr>io_state := st\<rparr>) s"

definition get_io_state :: "mptr \<Rightarrow> kstate \<Rightarrow> nvfs_io_state option" where
  "get_io_state p s = map_option (\<lambda>m. io_state (gpu_info m)) (mgroups s p)"

definition get_page :: "pageid \<Rightarrow> kstate \<Rightarrow> kstate" where
  "get_page pg s = s\<lparr>page_refs := (page_refs s)(pg := page_refs s pg + 1)\<rparr>"

definition put_page :: "pageid \<Rightarrow> kstate \<Rightarrow> kstate" where
  "put_page pg s = s\<lparr>page_refs := (page_refs s)(pg := page_refs s pg - 1)\<rparr>"

definition NVFS_PAGE_INDEX :: "kstate \<Rightarrow> pageid \<Rightarrow> nat" where
  "NVFS_PAGE_INDEX s pg = page_index (kpages s pg)"

text \<open>
  \<^verbatim>\<open>atomic_cmpxchg\<close> on the I/O state of a group: the value found, and the state after.
\<close>

definition cmpxchg_io_state ::
    "mptr \<Rightarrow> nvfs_io_state \<Rightarrow> nvfs_io_state \<Rightarrow> kstate \<Rightarrow> (nvfs_io_state \<times> kstate) option" where
  "cmpxchg_io_state p old new s =
     do { st \<leftarrow> get_io_state p s;
          if st = old then do { s' \<leftarrow> set_io_state p new s; Some (st, s') }
          else Some (st, s) }"

section \<open>Operation counts\<close>

definition nvfs_count_ops :: "kenv \<Rightarrow> kstate \<Rightarrow> int" where
  "nvfs_count_ops e s =
     (let total_ops = sum_list (map (nvfs_n_ops s) (possible_cpus e))
      in if total_ops < 0 then 0 else total_ops)"

definition nvfs_get_ops :: "kenv \<Rightarrow> kstate \<Rightarrow> kstate" where
  "nvfs_get_ops e s =
     s\<lparr>nvfs_n_ops := (nvfs_n_ops s)(this_cpu e := nvfs_n_ops s (this_cpu e) + 1)\<rparr>"

definition nvfs_put_ops :: "kenv \<Rightarrow> kstate \<Rightarrow> kstate" where
  "nvfs_put_ops e s =
     s\<lparr>nvfs_n_ops := (nvfs_n_ops s)(this_cpu e := nvfs_n_ops s (this_cpu e) - 1)\<rparr>"

definition unregister_dma_ops :: "kstate \<Rightarrow> kstate" where
  "unregister_dma_ops s =
     (let (ms, t) = nvfs_blk_unregister_dma_ops (kmodules s) (ksymtab s)
      in s\<lparr>kmodules := ms, ksymtab := t\<rparr>)"

section \<open>Lemmas\<close>

lemma mgroups_frame [simp, nvfs_frame]:
  "mgroups (kstat f s) = mgroups s" "mgroups (klog_event ev s) = mgroups s"
  "mgroups (get_page pg s) = mgroups s" "mgroups (put_page pg s) = mgroups s"
  "mgroups (nvfs_get_ops e s) = mgroups s" "mgroups (nvfs_put_ops e s) = mgroups s"
  "mgroups (unregister_dma_ops s) = mgroups s"
  by (simp_all add: kstat_def klog_event_def get_page_def put_page_def nvfs_get_ops_def
      nvfs_put_ops_def unregister_dma_ops_def split: prod.splits)

lemma hash_frame [simp, nvfs_frame]:
  "nvfs_io_mgroup_hash (kstat f s) = nvfs_io_mgroup_hash s"
  "nvfs_io_mgroup_hash (klog_event ev s) = nvfs_io_mgroup_hash s"
  "nvfs_io_mgroup_hash (get_page pg s) = nvfs_io_mgroup_hash s"
  "nvfs_io_mgroup_hash (put_page pg s) = nvfs_io_mgroup_hash s"
  "nvfs_io_mgroup_hash (nvfs_get_ops e s) = nvfs_io_mgroup_hash s"
  "nvfs_io_mgroup_hash (nvfs_put_ops e s) = nvfs_io_mgroup_hash s"
  "nvfs_io_mgroup_hash (unregister_dma_ops s) = nvfs_io_mgroup_hash s"
  by (simp_all add: kstat_def klog_event_def get_page_def put_page_def nvfs_get_ops_def
      nvfs_put_ops_def unregister_dma_ops_def split: prod.splits)

lemma kpages_frame [simp, nvfs_frame]:
  "kpages (kstat f s) = kpages s" "kpages (klog_event ev s) = kpages s"
  "kpages (get_page pg s) = kpages s" "kpages (put_page pg s) = kpages s"
  "kpages (nvfs_get_ops e s) = kpages s" "kpages (nvfs_put_ops e s) = kpages s"
  "kpages (unregister_dma_ops s) = kpages s"
  by (simp_all add: kstat_def klog_event_def get_page_def put_page_def nvfs_get_ops_def
      nvfs_put_ops_def unregister_dma_ops_def split: prod.splits)

lemma n_ops_frame [simp, nvfs_frame]:
  "nvfs_n_ops (kstat f s) = nvfs_n_ops s" "nvfs_n_ops (klog_event ev s) = nvfs_n_ops s"
  "nvfs_n_ops (get_page pg s) = nvfs_n_ops s" "nvfs_n_ops (put_page pg s) = nvfs_n_ops s"
  "nvfs_n_ops (unregister_dma_ops s) = nvfs_n_ops s"
  by (simp_all add: kstat_def klog_event_def get_page_def put_page_def
      unregister_dma_ops_def split: prod.splits)

lemma upd_mgroup_Some:
  "upd_mgroup p f s = Some s' \<longleftrightarrow>
     (\<exists>m. mgroups s p = Some m \<and> s' = s\<lparr>mgroups := (mgroups s)(p \<mapsto> f m)\<rparr>)"
  by (auto simp: upd_mgroup_def split: option.splits)

lemma upd_mgroup_live [simp]:
  "mgroups s p = Some m \<Longrightarrow> upd_mgroup p f s = Some (s\<lparr>mgroups := (mgroups s)(p \<mapsto> f m)\<rparr>)"
  by (simp add: upd_mgroup_def)

lemma upd_mgroup_dead [simp]: "mgroups s p = None \<Longrightarrow> upd_mgroup p f s = None"
  by (simp add: upd_mgroup_def)

lemmas upd_defs = upd_gpu_def upd_io_def set_io_state_def get_io_state_def

text \<open>
  The sum of the per-CPU counters does not depend on which CPU counts: a request that
  starts on one CPU and completes on another leaves the total as it was, although neither
  counter returns to its value.
\<close>

lemma sum_list_upd:
  assumes "distinct xs" and "c \<in> set xs"
  shows "sum_list (map (f(c := f c + (d :: int))) xs) = sum_list (map f xs) + d"
  using assms
proof (induction xs)
  case Nil
  then show ?case by simp
next
  case (Cons x xs)
  show ?case
  proof (cases "x = c")
    case True
    with Cons.prems have "c \<notin> set xs" by simp
    then have "map (f(c := f c + d)) xs = map f xs" by (intro map_cong) auto
    with True show ?thesis by (simp only: list.map sum_list.Cons) simp
  next
    case False
    with Cons show ?thesis by simp
  qed
qed

definition ops_total :: "kenv \<Rightarrow> kstate \<Rightarrow> int" where
  "ops_total e s = sum_list (map (nvfs_n_ops s) (possible_cpus e))"

definition cpus_ok :: "kenv \<Rightarrow> bool" where
  "cpus_ok e \<longleftrightarrow> distinct (possible_cpus e) \<and> this_cpu e \<in> set (possible_cpus e)"

lemma ops_total_get [simp]: "cpus_ok e \<Longrightarrow> ops_total e (nvfs_get_ops e s) = ops_total e s + 1"
  by (simp add: ops_total_def nvfs_get_ops_def cpus_ok_def sum_list_upd)

lemma ops_total_put [simp]: "cpus_ok e \<Longrightarrow> ops_total e (nvfs_put_ops e s) = ops_total e s - 1"
  using sum_list_upd [of "possible_cpus e" "this_cpu e" "nvfs_n_ops s" "-1"]
  by (simp add: ops_total_def nvfs_put_ops_def cpus_ok_def)

lemma count_ops_total: "nvfs_count_ops e s = max 0 (ops_total e s)"
  by (simp add: nvfs_count_ops_def ops_total_def Let_def)

section \<open>A concrete environment\<close>

text \<open>
  A machine with 4 KiB pages and one CPU whose allocations and calls succeed, for the
  concrete instances of the properties: a shadow buffer of sixteen pages at user address
  \<open>0x10000\<close>, held by the pages 500 to 515, and a GPU buffer of one 64 KiB page.
\<close>

definition ex_page_table :: p2p_page_table where
  "ex_page_table = \<lparr> version_compatible = True, page_size_64k = True, pt_entries = 1,
     pt_physical = [0x100000], gpu_uuid = Some 7 \<rparr>"

definition ex_env :: kenv where
  "ex_env = \<lparr> page_shift = 12, possible_cpus = [0], this_cpu = 0, pf_exiting = False,
     in_interrupt = False, may_sleep = True, should_fail = (\<lambda>_. False), kalloc_ok = (\<lambda>_. True),
     kzalloc_mgroup = 100, random_u32 = (\<lambda>k. of_nat k), alloc_page = (\<lambda>j. Some (500 + j)),
     vm_insert_page = (\<lambda>_. 0),
     pin_user_pages_fast = (\<lambda>a n. (int n, map (\<lambda>j. 500 + j) [0 ..< n])),
     page_to_pfn = (\<lambda>p. p), nvfs_use_legacy_p2p_allocation = True, nvfs_peer_stats_enabled = False,
     p2p_get_pages = (\<lambda>a n. (0, Some ex_page_table)), p2p_put_pages = (\<lambda>_. 0),
     p2p_dma_map_pages = (\<lambda>d pt. (0, Some \<lparr> dm_entries = 1, dma_addresses = [0x200000] \<rparr>)),
     p2p_dma_unmap_pages = (\<lambda>_. 0), get_gpu_hash_index = (\<lambda>_. 3) \<rparr>"

definition zero_metapage :: nvfs_ioctl_metapage where
  "zero_metapage = \<lparr> end_fence_val = 0, mp_result = 0, mp_state = NVFS_IO_META_CLEAN,
     sparse_data = \<lparr> sparse_magic = 0, nvfs_meta_version = 0, nholes = 0, start_fd_offset = 0,
       hole = replicate 768 \<lparr> hole_start = 0, npages = 0 \<rparr> \<rparr> \<rparr>"

definition empty_kstate :: kstate where
  "empty_kstate = \<lparr> mgroups = Map.empty, nvfs_io_mgroup_hash = [],
     kpages = (\<lambda>_. \<lparr> page_index = 0, page_mapping = False \<rparr>), page_refs = (\<lambda>_. 1),
     metapages = (\<lambda>_. zero_metapage), nvfs_n_ops = (\<lambda>_. 1), kmodules = [],
     ksymtab = \<lparr> symrefs = (\<lambda>_. 0), registered = (\<lambda>_. None) \<rparr>, kstats = zero_stats, klog = [] \<rparr>"

end
