(* ===== verification/Nvfs_Mgroup.thy ===== *)
theory Nvfs_Mgroup
  imports Nvfs_State
begin

text \<open>
  The life of a shadow buffer group: the reference count and the hash table of
  \<^verbatim>\<open>nvfs-mmap.c\<close> (\<^verbatim>\<open>nvfs_mgroup_get\<close>, \<^verbatim>\<open>nvfs_mgroup_put\<close>, \<^verbatim>\<open>nvfs_mgroup_free\<close>) and the release
  of the GPU side that the last reference triggers (\<^verbatim>\<open>nvfs_unpin_gpu_pages\<close> and
  \<^verbatim>\<open>nvfs_free_gpu_info\<close> of \<^verbatim>\<open>nvfs-core.c\<close>). A freed group is an address with no group:
  every later access through a stale pointer is the death of the kernel.
\<close>

section \<open>Releasing the GPU side\<close>

text \<open>The loop over the DMA mappings of a group, which returns at the first failing unmap.\<close>

fun unmap_buckets :: "kenv \<Rightarrow> mptr \<Rightarrow> pci_dev_mapping list \<Rightarrow> kstate \<Rightarrow> (int \<times> kstate) option" where
  "unmap_buckets e p [] s = Some (0, s)"
| "unmap_buckets e p (b # bs) s =
     do { m \<leftarrow> mgroups s p;
          if dma_mapping b = None \<or> dma_mapping_in_progress (gpu_info m) \<noteq> 0 then None
          else let ret = p2p_dma_unmap_pages e (mapped_dev b);
                   s1 = klog_event (EvDmaUnmap (mapped_dev b)) s
               in if ret \<noteq> 0 then Some (ret, s1)
                  else do { s2 \<leftarrow> upd_gpu p (\<lambda>g. g\<lparr>buckets := bs\<rparr>) s1;
                            unmap_buckets e p bs s2 } }"

definition nvfs_unpin_gpu_pages :: "kenv \<Rightarrow> mptr \<Rightarrow> kstate \<Rightarrow> (int \<times> kstate) option" where
  "nvfs_unpin_gpu_pages e p s =
     do { m \<leftarrow> mgroups s p;
          let gpu_page_start = gpuvaddr (gpu_info m) AND GPU_PAGE_MASK;
          (ret, s1) \<leftarrow> unmap_buckets e p (buckets (gpu_info m)) s;
          if ret \<noteq> 0 then Some (ret, s1)
          else if page_table (gpu_info m) \<noteq> None \<and> gpu_page_start \<noteq> 0 then
            do { st \<leftarrow> nvfs_update_free_gpustat (gpu_info m) (kstats s1);
                 let s2 = s1\<lparr>kstats := st\<rparr>;
                 let ret = p2p_put_pages e gpu_page_start;
                 Some (ret, klog_event
                   (if use_legacy_p2p_allocation (gpu_info m) then EvPutPages gpu_page_start
                    else EvPutPagesPersistent gpu_page_start) s2) }
          else Some (0, s1) }"

definition nvfs_free_put_endfence_page :: "mptr \<Rightarrow> kstate \<Rightarrow> kstate option" where
  "nvfs_free_put_endfence_page p s =
     do { m \<leftarrow> mgroups s p;
          case end_fence_page (gpu_info m) of
            None \<Rightarrow> Some s
          | Some pg \<Rightarrow> upd_gpu p (\<lambda>g. g\<lparr>end_fence_page := None\<rparr>) (put_page pg s) }"

text \<open>
  The second count is taken under the module mutex; nothing can change in between here.
\<close>

definition nvfs_free_gpu_info :: "kenv \<Rightarrow> mptr \<Rightarrow> bool \<Rightarrow> kstate \<Rightarrow> (int \<times> kstate) option" where
  "nvfs_free_gpu_info e p from_dma s =
     do { s1 \<leftarrow> set_io_state p IO_UNPIN_PAGES_ALREADY_INVOKED s;
          (ret, s2) \<leftarrow> nvfs_unpin_gpu_pages e p s1;
          s3 \<leftarrow> nvfs_free_put_endfence_page p s2;
          let s4 = nvfs_put_ops e s3;
          Some (0, if nvfs_count_ops e s4 = 0 \<and> \<not> from_dma then unregister_dma_ops s4 else s4) }"

section \<open>References\<close>

definition nvfs_mgroup_get_ref :: "mptr \<Rightarrow> kstate \<Rightarrow> kstate option" where
  "nvfs_mgroup_get_ref p s = upd_mgroup p (\<lambda>m. m\<lparr>mg_ref := mg_ref m + 1\<rparr>) s"

definition nvfs_mgroup_put_ref :: "mptr \<Rightarrow> kstate \<Rightarrow> (bool \<times> kstate) option" where
  "nvfs_mgroup_put_ref p s =
     do { m \<leftarrow> mgroups s p;
          s' \<leftarrow> upd_mgroup p (\<lambda>m. m\<lparr>mg_ref := mg_ref m - 1\<rparr>) s;
          Some (mg_ref m - 1 = 0, s') }"

fun hash_search :: "kstate \<Rightarrow> mptr list \<Rightarrow> nat \<Rightarrow> mptr option option" where
  "hash_search s [] b = Some None"
| "hash_search s (p # ps) b =
     do { m \<leftarrow> mgroups s p; if base_index m = b then Some (Some p) else hash_search s ps b }"

definition nvfs_mgroup_get_unlocked :: "nat \<Rightarrow> kstate \<Rightarrow> (mptr option \<times> kstate) option" where
  "nvfs_mgroup_get_unlocked b s =
     do { r \<leftarrow> hash_search s (nvfs_io_mgroup_hash s) b;
          case r of
            None \<Rightarrow> Some (None, s)
          | Some p \<Rightarrow> do { s' \<leftarrow> nvfs_mgroup_get_ref p s; Some (Some p, s') } }"

definition nvfs_mgroup_get :: "nat \<Rightarrow> kstate \<Rightarrow> (mptr option \<times> kstate) option" where
  "nvfs_mgroup_get b s = nvfs_mgroup_get_unlocked b s"

text \<open>
  The pages of the group are visited with stride \<^verbatim>\<open>nvfs_block_count_per_page\<close> over the block
  numbers, that is once for every page number below the rounded-up quotient.
\<close>

definition put_ppage :: "pageid option list \<Rightarrow> nat \<Rightarrow> kstate \<Rightarrow> kstate option" where
  "put_ppage pps j s =
     do { q \<leftarrow> arr_get pps j;
          case q of None \<Rightarrow> Some s | Some pg \<Rightarrow> Some (put_page pg s) }"

definition mgroup_release :: "kenv \<Rightarrow> mptr \<Rightarrow> kstate \<Rightarrow> kstate option" where
  "mgroup_release e p s =
     do { let s2 = s\<lparr>nvfs_io_mgroup_hash := removeAll p (nvfs_io_mgroup_hash s)\<rparr>;
          m \<leftarrow> mgroups s2 p;
          let s3 = (if io_state (gpu_info m) > IO_INIT then kstat (nvfs_stat_d nvfs_n_op_maps) s2 else s2);
          s4 \<leftarrow> (case nvfs_ppages m of
                   None \<Rightarrow> Some s3
                 | Some pps \<Rightarrow>
                     ofold (put_ppage pps)
                       [0 ..< DIV_ROUND_UP (nvfs_blocks_count m) (nvfs_block_count_per_page (page_shift e))] s3);
          Some (s4\<lparr>mgroups := (mgroups s4)(p := None)\<rparr>) }"

definition nvfs_mgroup_free :: "kenv \<Rightarrow> mptr \<Rightarrow> bool \<Rightarrow> kstate \<Rightarrow> kstate option" where
  "nvfs_mgroup_free e p from_dma s =
     do { st \<leftarrow> get_io_state p s;
          (ret, s1) \<leftarrow> (if st > IO_INIT then nvfs_free_gpu_info e p from_dma s else Some (0, s));
          if ret \<noteq> 0 then Some s1 else mgroup_release e p s1 }"

definition nvfs_mgroup_put_internal :: "kenv \<Rightarrow> mptr \<Rightarrow> bool \<Rightarrow> kstate \<Rightarrow> kstate option" where
  "nvfs_mgroup_put_internal e p from_dma s =
     do { (last, s') \<leftarrow> nvfs_mgroup_put_ref p s;
          if last then nvfs_mgroup_free e p from_dma s' else Some s' }"

definition nvfs_mgroup_put :: "kenv \<Rightarrow> mptr \<Rightarrow> kstate \<Rightarrow> kstate option" where
  "nvfs_mgroup_put e p s = nvfs_mgroup_put_internal e p False s"

definition nvfs_mgroup_put_dma :: "kenv \<Rightarrow> mptr \<Rightarrow> kstate \<Rightarrow> kstate option" where
  "nvfs_mgroup_put_dma e p s = nvfs_mgroup_put_internal e p True s"

definition nvfs_mgroup_unpin_shadow_pages :: "kenv \<Rightarrow> mptr \<Rightarrow> kstate \<Rightarrow> kstate option" where
  "nvfs_mgroup_unpin_shadow_pages e p s = nvfs_mgroup_put e p s"

definition nvfs_mgroup_init :: "kstate \<Rightarrow> kstate" where
  "nvfs_mgroup_init s = s\<lparr>nvfs_io_mgroup_hash := []\<rparr>"

section \<open>The contract of a reference-counted store\<close>

definition mg_refs :: "kstate \<Rightarrow> mptr \<Rightarrow> int option" where
  "mg_refs s p = map_option mg_ref (mgroups s p)"

text \<open>
  What the rest of the driver relies on: taking a reference counts up, dropping one of
  several counts down and touches no other object, dropping the last one frees the
  object, and an operation on a freed object does not return.
\<close>

fun times :: "nat \<Rightarrow> ('s \<Rightarrow> 's option) \<Rightarrow> 's \<Rightarrow> 's option" where
  "times 0 f s = Some s"
| "times (Suc n) f s = do { s' \<leftarrow> f s; times n f s' }"

locale refcounted_store =
  fixes refs :: "'s \<Rightarrow> 'p \<Rightarrow> int option"
    and get_obj put_obj :: "'p \<Rightarrow> 's \<Rightarrow> 's option"
  assumes get_live: "refs s p = Some n \<Longrightarrow> \<exists>s'. get_obj p s = Some s' \<and> refs s' = (refs s)(p \<mapsto> n + 1)"
    and put_shared: "refs s p = Some n \<Longrightarrow> n \<noteq> 1 \<Longrightarrow>
        \<exists>s'. put_obj p s = Some s' \<and> refs s' = (refs s)(p \<mapsto> n - 1)"
    and put_last: "refs s p = Some 1 \<Longrightarrow> put_obj p s = Some s' \<Longrightarrow> refs s' = (refs s)(p := None)"
    and put_dead: "refs s p = None \<Longrightarrow> put_obj p s = None"
begin

lemma puts_shared:
  assumes "refs s p = Some n" and "int k < n"
  shows "\<exists>s'. times k (put_obj p) s = Some s' \<and> refs s' = (refs s)(p \<mapsto> n - int k)"
  using assms
proof (induction k arbitrary: s n)
  case 0
  then show ?case by (simp add: fun_upd_idem)
next
  case (Suc k)
  from put_shared [OF Suc.prems(1)] Suc.prems(2) obtain s1
    where 1: "put_obj p s = Some s1" "refs s1 = (refs s)(p \<mapsto> n - 1)" by auto
  with Suc.IH [of s1 "n - 1"] Suc.prems(2) show ?case
    by (auto simp: fun_eq_iff algebra_simps)
qed

lemma gets:
  assumes "refs s p = Some n"
  shows "\<exists>s'. times k (get_obj p) s = Some s' \<and> refs s' = (refs s)(p \<mapsto> n + int k)"
  using assms
proof (induction k arbitrary: s n)
  case 0
  then show ?case by (simp add: fun_upd_idem)
next
  case (Suc k)
  from get_live [OF Suc.prems] obtain s1
    where 1: "get_obj p s = Some s1" "refs s1 = (refs s)(p \<mapsto> n + 1)" by auto
  with Suc.IH [of s1 "n + 1"] show ?case by (auto simp: fun_eq_iff algebra_simps)
qed

lemma gets_puts_balanced:
  assumes "refs s p = Some n" and "0 < n"
  shows "\<exists>s1 s2. times k (get_obj p) s = Some s1 \<and> times k (put_obj p) s1 = Some s2 \<and> refs s2 = refs s"
proof -
  from gets [OF assms(1), of k] obtain s1
    where 1: "times k (get_obj p) s = Some s1" "refs s1 = (refs s)(p \<mapsto> n + int k)" by auto
  then have "refs s1 p = Some (n + int k)" by simp
  from puts_shared [OF this, of k] assms(2) obtain s2
    where "times k (put_obj p) s1 = Some s2" "refs s2 = (refs s1)(p \<mapsto> n)" by auto
  moreover have "(refs s1)(p \<mapsto> n) = refs s" using 1 assms(1) by auto
  ultimately show ?thesis using 1 by auto
qed

lemma times_add: "times (k + l) f s = do { s' \<leftarrow> times k f s; times l f s' }"
  by (induction k arbitrary: s) (auto split: Option.bind_splits)

text \<open>One release more than there are references is a use after free.\<close>

lemma puts_too_many:
  assumes "refs s p = Some n" and "0 < n" and "n < int k"
  shows "times k (put_obj p) s = None"
proof -
  obtain j where j: "n = int (Suc j)" using assms(2) by (metis gr0_conv_Suc zero_less_imp_eq_int)
  from assms(3) j obtain l where k: "k = j + Suc (Suc l)"
    by (metis add_Suc_right add.commute less_natE of_nat_less_iff)
  from puts_shared [OF assms(1), of j] j obtain s1
    where 1: "times j (put_obj p) s = Some s1" "refs s1 p = Some 1" by auto
  have "times (Suc (Suc l)) (put_obj p) s1 = None"
  proof (cases "put_obj p s1")
    case None
    then show ?thesis by simp
  next
    case (Some s2)
    from put_last [OF 1(2) this] have "refs s2 p = None" by simp
    with Some show ?thesis by (simp add: put_dead)
  qed
  with 1 k show ?thesis by (simp only: times_add) simp
qed

end

section \<open>What the operations change\<close>

text \<open>\<open>gpu_only p s s'\<close>: of the groups, only the GPU arguments of \<open>p\<close> may differ.\<close>

definition gpu_only :: "mptr \<Rightarrow> kstate \<Rightarrow> kstate \<Rightarrow> bool" where
  "gpu_only p s s' \<longleftrightarrow> nvfs_io_mgroup_hash s' = nvfs_io_mgroup_hash s \<and> kpages s' = kpages s \<and>
     (\<exists>m g. mgroups s p = Some m \<and> mgroups s' = (mgroups s)(p \<mapsto> m\<lparr>gpu_info := g\<rparr>))"

lemma gpu_only_refl: "mgroups s p = Some m \<Longrightarrow> gpu_only p s s"
  by (auto simp: gpu_only_def fun_eq_iff intro!: exI [of _ "gpu_info m"])

lemma gpu_only_trans [trans]: "gpu_only p s t \<Longrightarrow> gpu_only p t u \<Longrightarrow> gpu_only p s u"
  by (fastforce simp: gpu_only_def)

lemma gpu_only_upd: "upd_gpu p f s = Some s' \<Longrightarrow> gpu_only p s s'"
  by (auto simp: gpu_only_def upd_gpu_def upd_mgroup_Some)

lemma gpu_only_frame:
  assumes "gpu_only p s t"
  shows "gpu_only p s (kstat f t)" "gpu_only p s (klog_event ev t)" "gpu_only p s (get_page pg t)"
    "gpu_only p s (put_page pg t)" "gpu_only p s (nvfs_get_ops e t)" "gpu_only p s (nvfs_put_ops e t)"
    "gpu_only p s (unregister_dma_ops t)" "gpu_only p s (t\<lparr>kstats := st\<rparr>)"
  using assms by (simp_all add: gpu_only_def)

lemma gpu_only_live: "gpu_only p s t \<Longrightarrow> \<exists>m. mgroups t p = Some m"
  by (auto simp: gpu_only_def)

lemma unmap_buckets_gpu_only:
  "unmap_buckets e p bs s = Some (ret, s') \<Longrightarrow> mgroups s p = Some m \<Longrightarrow> gpu_only p s s'"
proof (induction bs arbitrary: s m)
  case Nil
  then show ?case by (auto intro: gpu_only_refl)
next
  case (Cons b bs)
  let ?s1 = "klog_event (EvDmaUnmap (mapped_dev b)) s"
  from Cons.prems(2) have 1: "gpu_only p s ?s1" by (intro gpu_only_frame gpu_only_refl)
  show ?case
  proof (cases "p2p_dma_unmap_pages e (mapped_dev b) = 0")
    case False
    with Cons.prems 1 show ?thesis by (auto split: if_splits)
  next
    case True
    with Cons.prems obtain s2 where s2: "upd_gpu p (\<lambda>g. g\<lparr>buckets := bs\<rparr>) ?s1 = Some s2"
      and rest: "unmap_buckets e p bs s2 = Some (ret, s')"
      by (auto simp: bind_eq_Some_conv split: if_splits)
    from gpu_only_upd [OF s2] have 2: "gpu_only p ?s1 s2" .
    from gpu_only_live [OF this] obtain m2 where "mgroups s2 p = Some m2" by blast
    from Cons.IH [OF rest this] 1 2 show ?thesis by (blast intro: gpu_only_trans)
  qed
qed

lemma unpin_gpu_pages_gpu_only:
  assumes "nvfs_unpin_gpu_pages e p s = Some (ret, s')"
  shows "gpu_only p s s'"
proof -
  from assms obtain m where m: "mgroups s p = Some m"
    by (auto simp: nvfs_unpin_gpu_pages_def bind_eq_Some_conv Let_def)
  from assms m obtain r s1 where 1: "unmap_buckets e p (buckets (gpu_info m)) s = Some (r, s1)"
    by (auto simp: nvfs_unpin_gpu_pages_def bind_eq_Some_conv Let_def)
  note g = unmap_buckets_gpu_only [OF 1 m]
  from assms m 1 g show ?thesis
    by (auto simp: nvfs_unpin_gpu_pages_def Let_def bind_eq_Some_conv split: if_splits
        intro: gpu_only_frame)
qed

lemma endfence_gpu_only:
  assumes "nvfs_free_put_endfence_page p s = Some s'"
  shows "gpu_only p s s'"
proof -
  from assms obtain m where m: "mgroups s p = Some m"
    by (auto simp: nvfs_free_put_endfence_page_def bind_eq_Some_conv Let_def)
  show ?thesis
  proof (cases "end_fence_page (gpu_info m)")
    case None
    with assms m show ?thesis by (auto simp: nvfs_free_put_endfence_page_def intro: gpu_only_refl)
  next
    case (Some pg)
    with assms m have "upd_gpu p (\<lambda>g. g\<lparr>end_fence_page := None\<rparr>) (put_page pg s) = Some s'"
      by (simp add: nvfs_free_put_endfence_page_def)
    from gpu_only_upd [OF this] show ?thesis by (simp add: gpu_only_def)
  qed
qed

lemma free_gpu_info_gpu_only:
  assumes "nvfs_free_gpu_info e p from_dma s = Some (ret, s')"
  shows "gpu_only p s s' \<and> ret = 0"
proof -
  from assms obtain s1 r s2 s3 where
    1: "set_io_state p IO_UNPIN_PAGES_ALREADY_INVOKED s = Some s1" and
    2: "nvfs_unpin_gpu_pages e p s1 = Some (r, s2)" and
    3: "nvfs_free_put_endfence_page p s2 = Some s3" and
    4: "ret = 0" "s' = nvfs_put_ops e s3 \<or> s' = unregister_dma_ops (nvfs_put_ops e s3)"
    by (auto simp: nvfs_free_gpu_info_def Let_def bind_eq_Some_conv split: if_splits)
  from 1 have "gpu_only p s s1" by (auto simp: set_io_state_def intro: gpu_only_upd)
  also from 2 have "gpu_only p s1 s2" by (rule unpin_gpu_pages_gpu_only)
  also from 3 have "gpu_only p s2 s3" by (rule endfence_gpu_only)
  finally show ?thesis using 4 by (auto intro: gpu_only_frame)
qed

lemma put_ppages_frame:
  "ofold (put_ppage pps) js s = Some s' \<Longrightarrow>
     mgroups s' = mgroups s \<and> nvfs_io_mgroup_hash s' = nvfs_io_mgroup_hash s \<and> kpages s' = kpages s"
  by (induction js arbitrary: s)
    (auto simp: put_ppage_def bind_eq_Some_conv split: option.splits)

lemma mgroup_release_effect:
  assumes "mgroup_release e p s = Some s'"
  shows "mgroups s' = (mgroups s)(p := None) \<and> kpages s' = kpages s \<and>
    nvfs_io_mgroup_hash s' = removeAll p (nvfs_io_mgroup_hash s)"
  using assms
  by (auto simp: mgroup_release_def Let_def bind_eq_Some_conv dest!: put_ppages_frame
      split: option.splits if_splits)

lemma mgroup_free_effect:
  assumes "nvfs_mgroup_free e p from_dma s = Some s'"
  shows "mgroups s' = (mgroups s)(p := None) \<and> kpages s' = kpages s \<and>
    nvfs_io_mgroup_hash s' = removeAll p (nvfs_io_mgroup_hash s)"
proof -
  from assms obtain m where m: "mgroups s p = Some m"
    by (auto simp: nvfs_mgroup_free_def get_io_state_def bind_eq_Some_conv)
  with assms obtain r s1 where
    1: "(if io_state (gpu_info m) > IO_INIT then nvfs_free_gpu_info e p from_dma s else Some (0, s)) = Some (r, s1)"
    and r: "(if r \<noteq> 0 then Some s1 else mgroup_release e p s1) = Some s'"
    by (auto simp: nvfs_mgroup_free_def get_io_state_def bind_eq_Some_conv)
  have g: "gpu_only p s s1 \<and> r = 0"
    using 1 m free_gpu_info_gpu_only by (auto split: if_splits intro: gpu_only_refl)
  with r mgroup_release_effect [of e p s1 s'] show ?thesis by (auto simp: gpu_only_def)
qed

section \<open>The groups are a reference-counted store\<close>

lemma put_shared_effect:
  assumes "mgroups s p = Some m" and "mg_ref m \<noteq> 1"
  shows "nvfs_mgroup_put_internal e p from_dma s =
    Some (s\<lparr>mgroups := (mgroups s)(p \<mapsto> m\<lparr>mg_ref := mg_ref m - 1\<rparr>)\<rparr>)"
  using assms by (simp add: nvfs_mgroup_put_internal_def nvfs_mgroup_put_ref_def)

lemma put_last_effect:
  assumes "mgroups s p = Some m" and "mg_ref m = 1"
    and "nvfs_mgroup_put_internal e p from_dma s = Some s'"
  shows "mgroups s' = (mgroups s)(p := None) \<and> kpages s' = kpages s \<and>
    nvfs_io_mgroup_hash s' = removeAll p (nvfs_io_mgroup_hash s)"
  using assms mgroup_free_effect [of e p from_dma _ s']
  by (auto simp: nvfs_mgroup_put_internal_def nvfs_mgroup_put_ref_def)

lemma put_dead: "mgroups s p = None \<Longrightarrow> nvfs_mgroup_put_internal e p from_dma s = None"
  by (simp add: nvfs_mgroup_put_internal_def nvfs_mgroup_put_ref_def)

lemma refcounted_put:
  "refcounted_store mg_refs nvfs_mgroup_get_ref (\<lambda>p. nvfs_mgroup_put_internal e p from_dma)"
proof
  fix s p n
  assume "mg_refs s p = Some n"
  then obtain m where m: "mgroups s p = Some m" "mg_ref m = n" by (auto simp: mg_refs_def)
  then show "\<exists>s'. nvfs_mgroup_get_ref p s = Some s' \<and> mg_refs s' = (mg_refs s)(p \<mapsto> n + 1)"
    by (auto simp: nvfs_mgroup_get_ref_def mg_refs_def fun_eq_iff)
  show "\<exists>s'. nvfs_mgroup_put_internal e p from_dma s = Some s' \<and> mg_refs s' = (mg_refs s)(p \<mapsto> n - 1)"
    if "n \<noteq> 1"
    using m that by (auto simp: put_shared_effect mg_refs_def fun_eq_iff)
next
  fix s p s'
  assume "mg_refs s p = Some 1" and "nvfs_mgroup_put_internal e p from_dma s = Some s'"
  then show "mg_refs s' = (mg_refs s)(p := None)"
    by (auto simp: mg_refs_def fun_eq_iff dest!: put_last_effect)
next
  fix s p
  assume "mg_refs s p = None"
  then show "nvfs_mgroup_put_internal e p from_dma s = None"
    by (auto simp: mg_refs_def put_dead)
qed

interpretation mgroup_refs: refcounted_store mg_refs nvfs_mgroup_get_ref "nvfs_mgroup_put e"
  for e
  unfolding nvfs_mgroup_put_def by (rule refcounted_put)

interpretation mgroup_refs_dma: refcounted_store mg_refs nvfs_mgroup_get_ref "nvfs_mgroup_put_dma e"
  for e
  unfolding nvfs_mgroup_put_dma_def by (rule refcounted_put)

section \<open>The hash table invariant\<close>

text \<open>
  Every live group is in the table exactly once, no two have the same base index, and
  every reference count is positive.
\<close>

definition hash_wf :: "kstate \<Rightarrow> bool" where
  "hash_wf s \<longleftrightarrow> distinct (nvfs_io_mgroup_hash s) \<and>
     set (nvfs_io_mgroup_hash s) = dom (mgroups s) \<and>
     (\<forall>p q m n. mgroups s p = Some m \<longrightarrow> mgroups s q = Some n \<longrightarrow>
        base_index m = base_index n \<longrightarrow> p = q) \<and>
     (\<forall>p m. mgroups s p = Some m \<longrightarrow> 0 < mg_ref m)"

lemma hash_search_live:
  assumes "\<And>q. q \<in> set ps \<Longrightarrow> mgroups s q \<noteq> None"
  shows "(hash_search s ps b = Some None \<and> (\<forall>q \<in> set ps. \<forall>m. mgroups s q = Some m \<longrightarrow> base_index m \<noteq> b)) \<or>
    (\<exists>p m. hash_search s ps b = Some (Some p) \<and> p \<in> set ps \<and> mgroups s p = Some m \<and> base_index m = b)"
  using assms
proof (induction ps)
  case Nil
  then show ?case by simp
next
  case (Cons q ps)
  then obtain m where "mgroups s q = Some m" by (metis list.set_intros(1) not_Some_eq)
  with Cons show ?case by auto
qed

lemma mgroup_get_miss:
  assumes "hash_wf s" and "\<And>p m. mgroups s p = Some m \<Longrightarrow> base_index m \<noteq> b"
  shows "nvfs_mgroup_get_unlocked b s = Some (None, s)"
proof -
  have "\<And>q. q \<in> set (nvfs_io_mgroup_hash s) \<Longrightarrow> mgroups s q \<noteq> None"
    using assms(1) by (auto simp: hash_wf_def)
  from hash_search_live [OF this, of "nvfs_io_mgroup_hash s" b] assms(2)
  have "hash_search s (nvfs_io_mgroup_hash s) b = Some None" by blast
  then show ?thesis by (simp add: nvfs_mgroup_get_unlocked_def)
qed

lemma mgroup_get_hit:
  assumes "hash_wf s" and "mgroups s p = Some m" and "base_index m = b"
  shows "nvfs_mgroup_get_unlocked b s =
    Some (Some p, s\<lparr>mgroups := (mgroups s)(p \<mapsto> m\<lparr>mg_ref := mg_ref m + 1\<rparr>)\<rparr>)"
proof -
  have "\<And>q. q \<in> set (nvfs_io_mgroup_hash s) \<Longrightarrow> mgroups s q \<noteq> None"
    and p: "p \<in> set (nvfs_io_mgroup_hash s)"
    using assms by (auto simp: hash_wf_def)
  from hash_search_live [OF this(1)] p assms obtain q n where
    "hash_search s (nvfs_io_mgroup_hash s) b = Some (Some q)" "mgroups s q = Some n" "base_index n = b"
    by blast
  moreover from this assms have "q = p" by (auto simp: hash_wf_def)
  ultimately show ?thesis
    using assms(2) by (simp add: nvfs_mgroup_get_unlocked_def nvfs_mgroup_get_ref_def)
qed

lemma mgroup_get_cases:
  assumes "hash_wf s"
  obtains (miss) "nvfs_mgroup_get_unlocked b s = Some (None, s)"
      and "\<And>p m. mgroups s p = Some m \<Longrightarrow> base_index m \<noteq> b"
    | (hit) p m where "mgroups s p = Some m" and "base_index m = b"
      and "nvfs_mgroup_get_unlocked b s =
        Some (Some p, s\<lparr>mgroups := (mgroups s)(p \<mapsto> m\<lparr>mg_ref := mg_ref m + 1\<rparr>)\<rparr>)"
  using mgroup_get_miss [OF assms] mgroup_get_hit [OF assms] by metis

lemma put_after_get:
  assumes "mgroups s p = Some m" and "0 < mg_ref m"
  shows "nvfs_mgroup_put_internal e p from_dma
    (s\<lparr>mgroups := (mgroups s)(p \<mapsto> m\<lparr>mg_ref := mg_ref m + 1\<rparr>)\<rparr>) = Some s"
proof -
  let ?s = "s\<lparr>mgroups := (mgroups s)(p \<mapsto> m\<lparr>mg_ref := mg_ref m + 1\<rparr>)\<rparr>"
  have "nvfs_mgroup_put_internal e p from_dma ?s = Some (?s\<lparr>mgroups := (mgroups ?s)(p \<mapsto> m)\<rparr>)"
    using assms put_shared_effect [of ?s p "m\<lparr>mg_ref := mg_ref m + 1\<rparr>" e from_dma] by simp
  moreover have "?s\<lparr>mgroups := (mgroups ?s)(p \<mapsto> m)\<rparr> = s"
    using assms(1) by (simp add: fun_upd_idem)
  ultimately show ?thesis by simp
qed

text \<open>The end of a visit: the group is given back with the references it had.\<close>

lemma put_visited:
  assumes "mgroups s p = Some m" and "0 < mg_ref m" and "mg_ref m' = mg_ref m + 1"
  shows "nvfs_mgroup_put e p (s\<lparr>mgroups := (mgroups s)(p \<mapsto> m')\<rparr>) =
    Some (s\<lparr>mgroups := (mgroups s)(p \<mapsto> m'\<lparr>mg_ref := mg_ref m\<rparr>)\<rparr>)"
  using put_shared_effect [of "s\<lparr>mgroups := (mgroups s)(p \<mapsto> m')\<rparr>" p m' e False] assms
  by (simp add: nvfs_mgroup_put_def)

lemma hash_wf_upd:
  assumes "hash_wf s" and "mgroups s p = Some m" and "base_index m' = base_index m" and "0 < mg_ref m'"
  shows "hash_wf (s\<lparr>mgroups := (mgroups s)(p \<mapsto> m')\<rparr>)"
proof -
  have 1: "distinct (nvfs_io_mgroup_hash s)" "set (nvfs_io_mgroup_hash s) = dom (mgroups s)"
    and 2: "\<And>p q m n. mgroups s p = Some m \<Longrightarrow> mgroups s q = Some n \<Longrightarrow> base_index m = base_index n \<Longrightarrow> p = q"
    and 3: "\<And>p m. mgroups s p = Some m \<Longrightarrow> 0 < mg_ref m"
    using assms(1) by (auto simp: hash_wf_def)
  have "q = r" if "((mgroups s)(p \<mapsto> m')) q = Some n" "((mgroups s)(p \<mapsto> m')) r = Some l"
    "base_index n = base_index l" for q r n l
  proof -
    have "\<exists>n0. mgroups s q = Some n0 \<and> base_index n0 = base_index n"
      using that(1) assms(2,3) by (cases "q = p") auto
    moreover have "\<exists>l0. mgroups s r = Some l0 \<and> base_index l0 = base_index l"
      using that(2) assms(2,3) by (cases "r = p") auto
    ultimately show ?thesis using 2 that(3) by metis
  qed
  moreover have "0 < mg_ref n" if "((mgroups s)(p \<mapsto> m')) q = Some n" for q n
    using that 3 [of q n] assms(4) by (cases "q = p") auto
  moreover have "dom ((mgroups s)(p \<mapsto> m')) = dom (mgroups s)" using assms(2) by auto
  ultimately show ?thesis using 1 unfolding hash_wf_def by (simp del: fun_upd_apply)
qed

lemma hash_wf_remove:
  assumes "hash_wf s" and "mgroups s' = (mgroups s)(p := None)"
    and "nvfs_io_mgroup_hash s' = removeAll p (nvfs_io_mgroup_hash s)"
  shows "hash_wf s'"
  using assms unfolding hash_wf_def
  by (auto simp: distinct_removeAll split: if_splits)

lemma hash_wf_same:
  "hash_wf s \<Longrightarrow> mgroups s' = mgroups s \<Longrightarrow> nvfs_io_mgroup_hash s' = nvfs_io_mgroup_hash s \<Longrightarrow> hash_wf s'"
  by (simp add: hash_wf_def)

lemma hash_wf_put:
  assumes "hash_wf s" and "nvfs_mgroup_put_internal e p from_dma s = Some s'"
  shows "hash_wf s'"
proof (cases "mgroups s p")
  case None
  with assms put_dead show ?thesis by auto
next
  case (Some m)
  show ?thesis
  proof (cases "mg_ref m = 1")
    case True
    from put_last_effect [OF Some True assms(2)] hash_wf_remove [OF assms(1)] show ?thesis by blast
  next
    case False
    from assms(1) Some have "0 < mg_ref m" by (auto simp: hash_wf_def)
    with False assms put_shared_effect [OF Some False] hash_wf_upd [OF assms(1) Some]
    show ?thesis by auto
  qed
qed

lemma hash_wf_get:
  assumes "hash_wf s" and "nvfs_mgroup_get_unlocked b s = Some (r, s')"
  shows "hash_wf s'"
  using assms(1)
proof (cases rule: mgroup_get_cases [of s b])
  case miss
  with assms show ?thesis by simp
next
  case (hit p m)
  from assms(1) hit have "0 < mg_ref m" by (auto simp: hash_wf_def)
  with hit assms(2) hash_wf_upd [OF assms(1) hit(1)] show ?thesis by auto
qed

lemma hash_wf_gpu_only:
  assumes "gpu_only p s s'" and "hash_wf s"
  shows "hash_wf s'"
proof -
  from assms(1) obtain m g where m: "mgroups s p = Some m"
    "mgroups s' = (mgroups s)(p \<mapsto> m\<lparr>gpu_info := g\<rparr>)" "nvfs_io_mgroup_hash s' = nvfs_io_mgroup_hash s"
    by (auto simp: gpu_only_def)
  from assms(2) m(1) have "0 < mg_ref m" by (auto simp: hash_wf_def)
  with hash_wf_upd [OF assms(2) m(1), of "m\<lparr>gpu_info := g\<rparr>"] m show ?thesis
    by (auto elim: hash_wf_same)
qed

section \<open>Properties\<close>

text \<open>
  C14. Looking a group up by its base index and dropping the reference again is neutral. In a
  well-formed table the lookup never dereferences freed memory; it finds a group exactly
  when a live one has that index, hands out that group with one more reference and
  changes nothing else; and the matching put gives back the very state before the lookup. This holds in
  every I/O state of the group. The comment in \<^verbatim>\<open>nvfs_mgroup_get_unlocked\<close> says that a group whose buffer is released gets
  no further reference and that no new I/O ever gets hold of it, but the code only logs its state.
\<close>

theorem mgroup_lookup_correct:
  assumes "hash_wf s"
  shows "(\<forall>p m. mgroups s p = Some m \<and> base_index m = b \<longrightarrow>
      (\<exists>s1. nvfs_mgroup_get b s = Some (Some p, s1) \<and> mg_refs s1 = (mg_refs s)(p \<mapsto> mg_ref m + 1) \<and>
        nvfs_mgroup_put e p s1 = Some s \<and> hash_wf s1)) \<and>
    ((\<forall>p m. mgroups s p = Some m \<longrightarrow> base_index m \<noteq> b) \<longrightarrow> nvfs_mgroup_get b s = Some (None, s))"
proof (intro conjI allI impI)
  fix p m
  assume m: "mgroups s p = Some m \<and> base_index m = b"
  with assms have pos: "0 < mg_ref m" by (auto simp: hash_wf_def)
  let ?s = "s\<lparr>mgroups := (mgroups s)(p \<mapsto> m\<lparr>mg_ref := mg_ref m + 1\<rparr>)\<rparr>"
  have g: "nvfs_mgroup_get b s = Some (Some p, ?s)"
    using mgroup_get_hit [OF assms] m by (simp add: nvfs_mgroup_get_def)
  then have "hash_wf ?s" using hash_wf_get [OF assms] by (simp add: nvfs_mgroup_get_def)
  with g put_after_get [of s p m e False] m pos
  show "\<exists>s1. nvfs_mgroup_get b s = Some (Some p, s1) \<and> mg_refs s1 = (mg_refs s)(p \<mapsto> mg_ref m + 1) \<and>
        nvfs_mgroup_put e p s1 = Some s \<and> hash_wf s1"
    by (auto simp: nvfs_mgroup_put_def mg_refs_def fun_eq_iff)
next
  assume "\<forall>p m. mgroups s p = Some m \<longrightarrow> base_index m \<noteq> b"
  then show "nvfs_mgroup_get b s = Some (None, s)"
    using mgroup_get_miss [OF assms] by (simp add: nvfs_mgroup_get_def)
qed

definition ex_group :: nvfs_io_mgroup where
  "ex_group = zero_mgroup\<lparr>mg_ref := 1, base_index := 4294967296, cpu_base_vaddr := 0x10000,
     nvfs_blocks_count := 16, nvfs_ppages := Some (map (\<lambda>j. Some (500 + j)) [0 ..< 16]),
     nvfs_metadata := Some (map (\<lambda>j. \<lparr> nvfs_start_magic = NVFS_START_MAGIC,
       nvfs_state = NVFS_IO_ALLOC, md_page = Some (500 + j) \<rparr>) [0 ..< 16])\<rparr>"

definition ex_state :: kstate where
  "ex_state = empty_kstate\<lparr>mgroups := [100 \<mapsto> ex_group], nvfs_io_mgroup_hash := [100]\<rparr>"

lemma ex_state_wf: "hash_wf ex_state"
  by (auto simp: hash_wf_def ex_state_def empty_kstate_def ex_group_def split: if_splits)

lemma ex_state_group: "mgroups ex_state 100 = Some ex_group"
  by (simp add: ex_state_def)

theorem mgroup_lookup_correct_witness:
  "\<exists>s1. nvfs_mgroup_get 4294967296 ex_state = Some (Some 100, s1) \<and>
     nvfs_mgroup_put ex_env 100 s1 = Some ex_state"
  using mgroup_lookup_correct [OF ex_state_wf, of 4294967296 ex_env] ex_state_group
  by (force simp: ex_group_def)

text \<open>
  C15. The last reference frees the group for good: afterwards its address is unallocated, a
  lookup of its base index finds nothing, the table is still well formed, every other
  group is untouched, and one more put on the stale pointer does not return.
\<close>

theorem mgroup_last_put_frees:
  assumes "hash_wf s" and "mgroups s p = Some m" and "mg_ref m = 1"
    and "nvfs_mgroup_put e p s = Some s'"
  shows "mgroups s' = (mgroups s)(p := None) \<and> hash_wf s' \<and>
    nvfs_mgroup_get (base_index m) s' = Some (None, s') \<and> nvfs_mgroup_put e p s' = None"
proof -
  from assms(4) have put: "nvfs_mgroup_put_internal e p False s = Some s'" by (simp add: nvfs_mgroup_put_def)
  note eff = put_last_effect [OF assms(2,3) put]
  have wf: "hash_wf s'" by (rule hash_wf_put [OF assms(1) put])
  have "base_index n \<noteq> base_index m" if "mgroups s' q = Some n" for q n
    using that eff assms(1,2) unfolding hash_wf_def by (auto split: if_splits)
  from mgroup_get_miss [OF wf this] eff wf show ?thesis
    by (simp add: nvfs_mgroup_get_def nvfs_mgroup_put_def put_dead)
qed

theorem mgroup_last_put_frees_witness:
  "\<exists>s'. nvfs_mgroup_put ex_env 100 ex_state = Some s' \<and> mgroups s' 100 = None \<and>
     nvfs_mgroup_put ex_env 100 s' = None"
proof -
  have "nvfs_mgroup_put ex_env 100 ex_state \<noteq> None"
    by (simp add: nvfs_mgroup_put_def nvfs_mgroup_put_internal_def nvfs_mgroup_put_ref_def
        nvfs_mgroup_free_def get_io_state_def mgroup_release_def ex_state_def ex_group_def
        zero_mgroup_def zero_gpu_args_def ex_env_def Let_def put_ppage_def DIV_ROUND_UP_def
        nvfs_geom upt_rec)
  then obtain s' where s': "nvfs_mgroup_put ex_env 100 ex_state = Some s'" by blast
  from mgroup_last_put_frees [OF ex_state_wf ex_state_group _ s'] s' show ?thesis
    by (auto simp: ex_group_def)
qed

text \<open>
  This needs the last put to run undivided. Its decrement and the removal from the table are separate, and the lookup takes its reference without a test for 0: a
  lookup between the two hands out a group that is then freed.
\<close>

lemma get_during_last_put:
  assumes "hash_wf s" and "mgroups s p = Some m" and "mg_ref m = 1" and "nvfs_mgroup_put_ref p s = Some (dead, s1)"
    and "nvfs_mgroup_get (base_index m) s1 = Some (r, s2)" and "nvfs_mgroup_free e p from_dma s2 = Some s3"
  shows "dead \<and> r = Some p \<and> mgroups s3 p = None"
proof -
  have s1: "dead" "mgroups s1 = (mgroups s)(p \<mapsto> m\<lparr>mg_ref := 0\<rparr>)" "nvfs_io_mgroup_hash s1 = nvfs_io_mgroup_hash s"
    using assms(2-4) by (auto simp: nvfs_mgroup_put_ref_def)
  have live: "mgroups s1 q \<noteq> None" if "q \<in> set (nvfs_io_mgroup_hash s1)" for q
    using that assms(1) s1 by (auto simp: hash_wf_def)
  have p: "p \<in> set (nvfs_io_mgroup_hash s1)" using assms(1,2) s1(3) by (auto simp: hash_wf_def)
  have only: "q = p" if "mgroups s1 q = Some n" "base_index n = base_index m" for q n
    using that assms(1,2) s1(2) unfolding hash_wf_def by (auto split: if_splits)
  have "hash_search s1 (nvfs_io_mgroup_hash s1) (base_index m) = Some (Some p)"
  proof -
    have m1: "mgroups s1 p = Some (m\<lparr>mg_ref := 0\<rparr>)" "base_index (m\<lparr>mg_ref := 0\<rparr>) = base_index m" using s1(2) by simp_all
    show ?thesis
      using hash_search_live [of "nvfs_io_mgroup_hash s1" s1 "base_index m", OF live] only p m1 by blast
  qed
  then have "r = Some p" using assms(5) by (auto simp: nvfs_mgroup_get_def nvfs_mgroup_get_unlocked_def bind_eq_Some_conv)
  moreover have "mgroups s3 p = None" using mgroup_free_effect [OF assms(6)] by simp
  ultimately show ?thesis using s1(1) by blast
qed

end
