(* ===== verification/Nvfs_IoState.thy ===== *)
theory Nvfs_IoState
  imports Nvfs_Mgroup
begin

text \<open>
  The I/O state machine of a group: \<^verbatim>\<open>nvfs_transit_state\<close> and
  \<^verbatim>\<open>nvfs_io_terminate_requested\<close> of \<^verbatim>\<open>nvfs-core.c\<close>, and the unmapping of a shadow buffer,
  \<^verbatim>\<open>nvfs_vma_close\<close> of \<^verbatim>\<open>nvfs-mmap.c\<close>, which drives it.
\<close>

section \<open>Transitions\<close>

definition try_transit ::
    "kenv \<Rightarrow> mptr \<Rightarrow> nvfs_io_state \<Rightarrow> nvfs_io_state \<Rightarrow> kstate \<Rightarrow> (bool \<times> kstate) option" where
  "try_transit e p from to s =
     (if should_fail e (nvfs_io_transit_state_fail from to) then
        if from = IO_INIT \<and> to = IO_FREE
        then do { s1 \<leftarrow> upd_mgroup p (\<lambda>m. m\<lparr>fault_injected := True\<rparr>) s;
                  s2 \<leftarrow> nvfs_mgroup_put e p s1;
                  Some (False, s2) }
        else Some (False, s)
      else do { (old, s1) \<leftarrow> cmpxchg_io_state p from to s; Some (old = from, s1) })"

text \<open>
  After a failed transition the code prints the state it leaves behind, which reads the
  group once more, also where it has just dropped a reference on it.
\<close>

definition nvfs_transit_state ::
    "kenv \<Rightarrow> mptr \<Rightarrow> bool \<Rightarrow> nvfs_io_state \<Rightarrow> nvfs_io_state \<Rightarrow> kstate \<Rightarrow> (bool \<times> kstate) option" where
  "nvfs_transit_state e p sync from to s =
     do { (io_transit, s1) \<leftarrow> try_transit e p from to s;
          if io_transit then Some (True, s1)
          else do {
            (old, s2) \<leftarrow> (if sync then cmpxchg_io_state p IO_TERMINATE_REQ IO_TERMINATED s1
                          else do { st \<leftarrow> get_io_state p s1; Some (st, s1) });
            s3 \<leftarrow> (if sync \<and> old = IO_TERMINATE_REQ
                   then nvfs_mgroup_put e p (klog_event (EvWakeUp p) s2)
                   else do { s3 \<leftarrow> set_io_state p IO_CALLBACK_END s2;
                             Some (klog_event (EvWakeUp p) s3) });
            st \<leftarrow> get_io_state p s3;
            Some (False, s3) } }"

definition nvfs_io_terminate_requested :: "mptr \<Rightarrow> bool \<Rightarrow> kstate \<Rightarrow> (bool \<times> kstate) option" where
  "nvfs_io_terminate_requested p callback s =
     do { let tstate = (if callback then IO_CALLBACK_END else IO_TERMINATED);
          (o1, s1) \<leftarrow> cmpxchg_io_state p IO_FREE IO_TERMINATED s;
          if o1 = IO_FREE then Some (False, s1)
          else do {
            (o2, s2) \<leftarrow> cmpxchg_io_state p IO_INIT tstate s1;
            if o2 = IO_INIT then Some (False, s2)
            else do {
              (o3, s3) \<leftarrow> cmpxchg_io_state p IO_READY tstate s2;
              if o3 = IO_READY then Some (False, s3)
              else if callback then
                do { (o4, s4) \<leftarrow> cmpxchg_io_state p IO_IN_PROGRESS IO_CALLBACK_REQ s3;
                     if o4 = IO_IN_PROGRESS then Some (True, s4)
                     else do {
                       (o5, s5) \<leftarrow> cmpxchg_io_state p IO_TERMINATE_REQ IO_CALLBACK_REQ s4;
                       if o5 = IO_TERMINATE_REQ then Some (True, s5)
                       else do { st \<leftarrow> get_io_state p s5;
                                 Some (st = IO_TERMINATE_REQ \<or> st = IO_CALLBACK_REQ, s5) } } }
              else
                do { (o4, s4) \<leftarrow> cmpxchg_io_state p IO_IN_PROGRESS IO_TERMINATE_REQ s3;
                     if o4 = IO_IN_PROGRESS then Some (True, s4)
                     else do { st \<leftarrow> get_io_state p s4;
                               Some (st = IO_TERMINATE_REQ \<or> st = IO_CALLBACK_REQ, s4) } } } } }"

text \<open>
  What a termination request does to a state it finds undisturbed, as a table: the new
  state and whether the requester must wait.
\<close>

fun terminate_table :: "bool \<Rightarrow> nvfs_io_state \<Rightarrow> nvfs_io_state \<times> bool" where
  "terminate_table callback IO_FREE = (IO_TERMINATED, False)"
| "terminate_table callback IO_INIT = (if callback then IO_CALLBACK_END else IO_TERMINATED, False)"
| "terminate_table callback IO_READY = (if callback then IO_CALLBACK_END else IO_TERMINATED, False)"
| "terminate_table callback IO_IN_PROGRESS = (if callback then IO_CALLBACK_REQ else IO_TERMINATE_REQ, True)"
| "terminate_table callback IO_TERMINATE_REQ = (if callback then IO_CALLBACK_REQ else IO_TERMINATE_REQ, True)"
| "terminate_table callback IO_CALLBACK_REQ = (IO_CALLBACK_REQ, True)"
| "terminate_table callback IO_TERMINATED = (IO_TERMINATED, False)"
| "terminate_table callback IO_CALLBACK_END = (IO_CALLBACK_END, False)"
| "terminate_table callback IO_UNPIN_PAGES_ALREADY_INVOKED = (IO_UNPIN_PAGES_ALREADY_INVOKED, False)"

definition with_io_state :: "nvfs_io_state \<Rightarrow> nvfs_io_mgroup \<Rightarrow> nvfs_io_mgroup" where
  "with_io_state st m = m\<lparr>gpu_info := (gpu_info m)\<lparr>io_state := st\<rparr>\<rparr>"

lemma with_io_state_simps [simp]:
  "io_state (gpu_info (with_io_state st m)) = st" "mg_ref (with_io_state st m) = mg_ref m"
  "base_index (with_io_state st m) = base_index m" "nvfs_metadata (with_io_state st m) = nvfs_metadata m"
  "nvfsio (with_io_state st m) = nvfsio m" "with_io_state st' (with_io_state st m) = with_io_state st' m"
  "buckets (gpu_info (with_io_state st m)) = buckets (gpu_info m)"
  "page_table (gpu_info (with_io_state st m)) = page_table (gpu_info m)"
  "fault_injected (with_io_state st m) = fault_injected m"
  by (simp_all add: with_io_state_def)

lemma with_io_state_idem [simp]: "io_state (gpu_info m) = st \<Longrightarrow> with_io_state st m = m"
  by (simp add: with_io_state_def)

lemma cmpxchg_live:
  "mgroups s p = Some m \<Longrightarrow> cmpxchg_io_state p old new s =
     Some (io_state (gpu_info m),
       if io_state (gpu_info m) = old then s\<lparr>mgroups := (mgroups s)(p \<mapsto> with_io_state new m)\<rparr> else s)"
  by (simp add: cmpxchg_io_state_def upd_defs with_io_state_def)

lemma kstate_mgroups_idem [simp]: "mgroups s p = Some m \<Longrightarrow> s\<lparr>mgroups := (mgroups s)(p \<mapsto> m)\<rparr> = s"
  by (simp add: fun_upd_idem)

lemma terminate_requested_live:
  assumes "mgroups s p = Some m"
  shows "nvfs_io_terminate_requested p callback s =
    Some (snd (terminate_table callback (io_state (gpu_info m))),
      s\<lparr>mgroups := (mgroups s)(p \<mapsto> with_io_state (fst (terminate_table callback (io_state (gpu_info m)))) m)\<rparr>)"
  using assms
  by (cases "io_state (gpu_info m)"; cases callback)
    (simp_all add: nvfs_io_terminate_requested_def cmpxchg_live get_io_state_def Let_def)

lemma transit_ok:
  assumes "mgroups s p = Some m" and "io_state (gpu_info m) = from"
    and "\<not> should_fail e (nvfs_io_transit_state_fail from to)"
  shows "nvfs_transit_state e p sync from to s =
    Some (True, s\<lparr>mgroups := (mgroups s)(p \<mapsto> with_io_state to m)\<rparr>)"
  using assms by (simp add: nvfs_transit_state_def try_transit_def cmpxchg_live)

lemma transit_fail_end:
  assumes "mgroups s p = Some m" and "io_state (gpu_info m) \<noteq> from"
    and "\<not> should_fail e (nvfs_io_transit_state_fail from to)"
    and "\<not> (sync \<and> io_state (gpu_info m) = IO_TERMINATE_REQ)"
  shows "nvfs_transit_state e p sync from to s =
    Some (False, klog_event (EvWakeUp p) (s\<lparr>mgroups := (mgroups s)(p \<mapsto> with_io_state IO_CALLBACK_END m)\<rparr>))"
proof -
  have "set_io_state p IO_CALLBACK_END s = Some (s\<lparr>mgroups := (mgroups s)(p \<mapsto> with_io_state IO_CALLBACK_END m)\<rparr>)"
    using assms(1) by (simp add: upd_defs with_io_state_def)
  then show ?thesis
    using assms
    by (cases sync) (auto simp: nvfs_transit_state_def try_transit_def cmpxchg_live get_io_state_def)
qed

lemma transit_fail_terminated:
  assumes "mgroups s p = Some m" and "io_state (gpu_info m) = IO_TERMINATE_REQ" and "from \<noteq> IO_TERMINATE_REQ"
    and "\<not> should_fail e (nvfs_io_transit_state_fail from to)"
  shows "nvfs_transit_state e p True from to s =
    do { s3 \<leftarrow> nvfs_mgroup_put e p (klog_event (EvWakeUp p)
           (s\<lparr>mgroups := (mgroups s)(p \<mapsto> with_io_state IO_TERMINATED m)\<rparr>));
         st \<leftarrow> get_io_state p s3; Some (False, s3) }"
  using assms by (simp add: nvfs_transit_state_def try_transit_def cmpxchg_live)

section \<open>Unmapping a shadow buffer\<close>

record vm_area =
  vm_start :: u64
  vm_end :: u64
  vm_pgoff :: u64
  vm_flags :: u64
  vm_private_data :: "mptr option"

text \<open>The part of \<^verbatim>\<open>nvfs_vma_close\<close> before its label \<open>done\<close>.\<close>

definition vma_close_terminate :: "kenv \<Rightarrow> mptr \<Rightarrow> nvfs_io_mgroup \<Rightarrow> kstate \<Rightarrow> kstate option" where
  "vma_close_terminate e p m s =
     (if io_state (gpu_info m) > IO_INIT then
        if fault_injected m \<or> io_state (gpu_info m) = IO_CALLBACK_END then Some s
        else do {
          (w, s1) \<leftarrow> nvfs_io_terminate_requested p False s;
          st \<leftarrow> get_io_state p s1;
          if st \<noteq> IO_TERMINATED then Some s1
          else nvfs_mgroup_unpin_shadow_pages e p (kstat (nvfs_stat64 nvfs_n_free) s1) }
      else Some s)"

definition nvfs_vma_close :: "kenv \<Rightarrow> vm_area \<Rightarrow> kstate \<Rightarrow> (vm_area \<times> kstate) option" where
  "nvfs_vma_close e vma s =
     (case vm_private_data vma of
        None \<Rightarrow> Some (vma, s)
      | Some p \<Rightarrow> do {
          m \<leftarrow> mgroups s p;
          s1 \<leftarrow> vma_close_terminate e p m s;
          m1 \<leftarrow> mgroups s1 p;
          if mg_ref m1 < 1 then None
          else do {
            s2 \<leftarrow> nvfs_mgroup_put e p s1;
            let s3 = kstat (nvfs_stat64_sub (uint (vm_end vma - vm_start vma)) nvfs_n_active_shadow_buf_sz) s2;
            Some (vma\<lparr>vm_private_data := None\<rparr>, kstat (nvfs_stat64 nvfs_n_munmap) s3) } })"

text \<open>
  The other operations of \<^verbatim>\<open>nvfs_mmap_ops\<close>: a split or a move of the mapping is refused, a
  duplicate (on fork) loses its group, a fault on it is ignored.
\<close>

definition nvfs_vma_split :: int where "nvfs_vma_split = - ENOMEM"

definition nvfs_vma_mremap :: int where "nvfs_vma_mremap = - ENOMEM"

definition nvfs_vma_open :: "vm_area \<Rightarrow> vm_area" where
  "nvfs_vma_open vma = vma\<lparr>vm_private_data := None\<rparr>"

definition nvfs_vma_fault :: int where "nvfs_vma_fault = 0"

definition nvfs_page_mkwrite :: int where "nvfs_page_mkwrite = 0"

definition nvfs_pfn_mkwrite :: int where "nvfs_pfn_mkwrite = 0"

section \<open>A release that goes through\<close>

text \<open>
  What the release of the GPU side of a group relies on: the GPU driver unmaps every
  recorded DMA mapping, no mapping is being made, and the GPU has its statistics entry.
\<close>

definition gpu_releasable :: "kenv \<Rightarrow> nvfs_stats \<Rightarrow> nvfs_gpu_args \<Rightarrow> bool" where
  "gpu_releasable e st g \<longleftrightarrow>
     (\<forall>b \<in> set (buckets g). dma_mapping b \<noteq> None \<and> p2p_dma_unmap_pages e (mapped_dev b) = 0) \<and>
     dma_mapping_in_progress g = 0 \<and> gpuvaddr g AND GPU_PAGE_MASK \<noteq> 0 \<and>
     (\<exists>pt uuid. page_table g = Some pt \<and> gpu_uuid pt = Some uuid \<and> nvfs_get_gpustat_unlocked st uuid \<noteq> None)"

definition release_log :: "nvfs_gpu_args \<Rightarrow> kevent list" where
  "release_log g =
     (if use_legacy_p2p_allocation g then EvPutPages (gpuvaddr g AND GPU_PAGE_MASK)
      else EvPutPagesPersistent (gpuvaddr g AND GPU_PAGE_MASK))
     # rev (map (\<lambda>b. EvDmaUnmap (mapped_dev b)) (buckets g))"

text \<open>
  \<open>gpu_step p m evs s s'\<close>: the group \<open>p\<close>, \<open>m\<close> before, has changed in its GPU arguments
  only, and there neither in its I/O state nor in its completion page; \<open>evs\<close> was logged.
\<close>

definition gpu_step :: "mptr \<Rightarrow> nvfs_io_mgroup \<Rightarrow> kevent list \<Rightarrow> kstate \<Rightarrow> kstate \<Rightarrow> bool" where
  "gpu_step p m evs s s' \<longleftrightarrow>
     (\<exists>g. mgroups s' = (mgroups s)(p \<mapsto> m\<lparr>gpu_info := g\<rparr>) \<and>
        end_fence_page g = end_fence_page (gpu_info m) \<and> io_state g = io_state (gpu_info m)) \<and>
     nvfs_io_mgroup_hash s' = nvfs_io_mgroup_hash s \<and> page_refs s' = page_refs s \<and>
     nvfs_n_ops s' = nvfs_n_ops s \<and> klog s' = evs @ klog s"

lemma unmap_buckets_ok:
  assumes "mgroups s p = Some m" and "dma_mapping_in_progress (gpu_info m) = 0"
    and "\<forall>b \<in> set bs. dma_mapping b \<noteq> None \<and> p2p_dma_unmap_pages e (mapped_dev b) = 0"
  shows "\<exists>s'. unmap_buckets e p bs s = Some (0, s') \<and> kstats s' = kstats s \<and>
    gpu_step p m (rev (map (\<lambda>b. EvDmaUnmap (mapped_dev b)) bs)) s s'"
  using assms
proof (induction bs arbitrary: s m)
  case Nil
  then show ?case by (auto simp: gpu_step_def fun_eq_iff intro!: exI [of _ "gpu_info m"])
next
  case (Cons b bs)
  let ?m = "m\<lparr>gpu_info := (gpu_info m)\<lparr>buckets := bs\<rparr>\<rparr>"
  let ?s = "klog_event (EvDmaUnmap (mapped_dev b)) s\<lparr>mgroups := (mgroups s)(p \<mapsto> ?m)\<rparr>"
  have "unmap_buckets e p (b # bs) s = unmap_buckets e p bs ?s"
    using Cons.prems by (auto simp: upd_gpu_def)
  moreover have "mgroups ?s p = Some ?m" "dma_mapping_in_progress (gpu_info ?m) = 0"
    "\<forall>b \<in> set bs. dma_mapping b \<noteq> None \<and> p2p_dma_unmap_pages e (mapped_dev b) = 0"
    using Cons.prems by simp_all
  note Cons.IH [OF this]
  ultimately show ?case
    by (auto simp: gpu_step_def klog_event_def fun_eq_iff)
qed

lemma unpin_gpu_pages_ok:
  assumes "mgroups s p = Some m" and "gpu_releasable e (kstats s) (gpu_info m)"
  shows "\<exists>ret s'. nvfs_unpin_gpu_pages e p s = Some (ret, s') \<and> gpu_step p m (release_log (gpu_info m)) s s'"
proof -
  obtain pt uuid gs where pt: "page_table (gpu_info m) = Some pt" "gpu_uuid pt = Some uuid"
    "nvfs_get_gpustat_unlocked (kstats s) uuid = Some gs"
    using assms(2) by (auto simp: gpu_releasable_def)
  have st: "nvfs_update_free_gpustat (gpu_info m) (kstats s) =
      Some (upd_gpustat (kstats s) uuid (sub_pinned (gpu_info m)))"
    using pt by (simp add: nvfs_update_free_gpustat_def)
  obtain s1 where s1: "unmap_buckets e p (buckets (gpu_info m)) s = Some (0, s1)" "kstats s1 = kstats s"
    "gpu_step p m (rev (map (\<lambda>b. EvDmaUnmap (mapped_dev b)) (buckets (gpu_info m)))) s s1"
    using unmap_buckets_ok [OF assms(1), of "buckets (gpu_info m)" e] assms(2)
    by (auto simp: gpu_releasable_def)
  then show ?thesis
    using assms pt st
    by (auto simp: nvfs_unpin_gpu_pages_def gpu_releasable_def klog_event_def release_log_def Let_def
        gpu_step_def)
qed

lemma ops_total_cong: "nvfs_n_ops s = nvfs_n_ops t \<Longrightarrow> ops_total e s = ops_total e t"
  by (simp add: ops_total_def)

lemma unregister_frame [simp]:
  "page_refs (unregister_dma_ops s) = page_refs s" "klog (unregister_dma_ops s) = klog s"
  "metapages (unregister_dma_ops s) = metapages s"
  by (simp_all add: unregister_dma_ops_def split: prod.splits)

text \<open>How often a page occurs in the page array of a group, plus the completion page.\<close>

definition page_uses :: "pageid \<Rightarrow> pageid option list \<Rightarrow> int" where
  "page_uses pg pps = int (count_list pps (Some pg))"

lemma endfence_ok:
  assumes "mgroups s p = Some m"
  shows "\<exists>g' s3. nvfs_free_put_endfence_page p s = Some s3 \<and>
    mgroups s3 = (mgroups s)(p \<mapsto> m\<lparr>gpu_info := g'\<rparr>) \<and> io_state g' = io_state (gpu_info m) \<and>
    nvfs_io_mgroup_hash s3 = nvfs_io_mgroup_hash s \<and> klog s3 = klog s \<and> nvfs_n_ops s3 = nvfs_n_ops s \<and>
    page_refs s3 = (\<lambda>pg. page_refs s pg - (if end_fence_page (gpu_info m) = Some pg then 1 else 0))"
proof (cases "end_fence_page (gpu_info m)")
  case None
  with assms show ?thesis
    by (intro exI [of _ "gpu_info m"]) (auto simp: nvfs_free_put_endfence_page_def fun_upd_idem)
next
  case (Some pg)
  with assms show ?thesis
    by (intro exI [of _ "(gpu_info m)\<lparr>end_fence_page := None\<rparr>"])
      (simp add: nvfs_free_put_endfence_page_def upd_gpu_def put_page_def, auto)
qed

lemma free_gpu_info_ok:
  assumes "mgroups s p = Some m" and "gpu_releasable e (kstats s) (gpu_info m)" and "cpus_ok e"
  shows "\<exists>g s'. nvfs_free_gpu_info e p from_dma s = Some (0, s') \<and>
    mgroups s' = (mgroups s)(p \<mapsto> m\<lparr>gpu_info := g\<rparr>) \<and> io_state g = IO_UNPIN_PAGES_ALREADY_INVOKED \<and>
    nvfs_io_mgroup_hash s' = nvfs_io_mgroup_hash s \<and> klog s' = release_log (gpu_info m) @ klog s \<and>
    page_refs s' = (\<lambda>pg. page_refs s pg - (if end_fence_page (gpu_info m) = Some pg then 1 else 0)) \<and>
    ops_total e s' = ops_total e s - 1"
proof -
  let ?m = "with_io_state IO_UNPIN_PAGES_ALREADY_INVOKED m"
  let ?s1 = "s\<lparr>mgroups := (mgroups s)(p \<mapsto> ?m)\<rparr>"
  have 1: "set_io_state p IO_UNPIN_PAGES_ALREADY_INVOKED s = Some ?s1"
    using assms(1) by (simp add: upd_defs with_io_state_def)
  have rel: "gpu_releasable e (kstats ?s1) (gpu_info ?m)" and rlog: "release_log (gpu_info ?m) = release_log (gpu_info m)"
    using assms(2) by (simp_all add: gpu_releasable_def with_io_state_def release_log_def)
  obtain ret s2 g where 2: "nvfs_unpin_gpu_pages e p ?s1 = Some (ret, s2)"
    "mgroups s2 = (mgroups s)(p \<mapsto> m\<lparr>gpu_info := g\<rparr>)" "klog s2 = release_log (gpu_info m) @ klog s"
    "nvfs_io_mgroup_hash s2 = nvfs_io_mgroup_hash s" "page_refs s2 = page_refs s" "nvfs_n_ops s2 = nvfs_n_ops s"
    and g: "end_fence_page g = end_fence_page (gpu_info m)" "io_state g = IO_UNPIN_PAGES_ALREADY_INVOKED"
    using unpin_gpu_pages_ok [of ?s1 p ?m e] rel rlog by (auto simp: with_io_state_def gpu_step_def)
  obtain g' s3 where 3: "nvfs_free_put_endfence_page p s2 = Some s3"
    "mgroups s3 = (mgroups s)(p \<mapsto> m\<lparr>gpu_info := g'\<rparr>)" "io_state g' = IO_UNPIN_PAGES_ALREADY_INVOKED"
    "nvfs_io_mgroup_hash s3 = nvfs_io_mgroup_hash s" "klog s3 = release_log (gpu_info m) @ klog s"
    "page_refs s3 = (\<lambda>pg. page_refs s pg - (if end_fence_page (gpu_info m) = Some pg then 1 else 0))"
    "nvfs_n_ops s3 = nvfs_n_ops s"
    using endfence_ok [of s2 p "m\<lparr>gpu_info := g\<rparr>"] g 2 by auto
  have "ops_total e (nvfs_put_ops e s3) = ops_total e s - 1"
    using ops_total_put [OF assms(3), of s3] ops_total_cong [OF 3(7)] by simp
  with 1 2 3 show ?thesis
    by (simp add: nvfs_free_gpu_info_def Let_def ops_total_def)
      (auto simp: nvfs_put_ops_def)
qed

lemma put_ppages_ok:
  assumes "j \<le> length pps"
  shows "\<exists>s'. ofold (put_ppage pps) [0 ..< j] s = Some s' \<and>
    page_refs s' = (\<lambda>pg. page_refs s pg - page_uses pg (take j pps)) \<and>
    mgroups s' = mgroups s \<and> nvfs_io_mgroup_hash s' = nvfs_io_mgroup_hash s \<and>
    klog s' = klog s \<and> nvfs_n_ops s' = nvfs_n_ops s"
  using assms
proof (induction j)
  case 0
  then show ?case by (simp add: page_uses_def)
next
  case (Suc j)
  then obtain s1 where 1: "ofold (put_ppage pps) [0 ..< j] s = Some s1"
    "page_refs s1 = (\<lambda>pg. page_refs s pg - page_uses pg (take j pps))"
    "mgroups s1 = mgroups s" "nvfs_io_mgroup_hash s1 = nvfs_io_mgroup_hash s"
    "klog s1 = klog s" "nvfs_n_ops s1 = nvfs_n_ops s" by auto
  have "put_ppage pps j s1 = Some (case pps ! j of None \<Rightarrow> s1 | Some pg \<Rightarrow> put_page pg s1)"
    using Suc.prems by (simp add: put_ppage_def split: option.splits)
  with 1 have "ofold (put_ppage pps) [0 ..< Suc j] s =
      Some (case pps ! j of None \<Rightarrow> s1 | Some pg \<Rightarrow> put_page pg s1)"
    by (simp add: ofold_append)
  with Suc.prems 1 show ?case
    by (cases "pps ! j")
      (auto simp: put_page_def page_uses_def take_Suc_conv_app_nth)
qed

text \<open>The page array of a group has one entry per page its blocks reach into.\<close>

definition ppages_wf :: "kenv \<Rightarrow> nvfs_io_mgroup \<Rightarrow> bool" where
  "ppages_wf e m \<longleftrightarrow> (\<exists>pps. nvfs_ppages m = Some pps \<and>
     length pps = DIV_ROUND_UP (nvfs_blocks_count m) (nvfs_block_count_per_page (page_shift e)))"

definition group_page_uses :: "nvfs_io_mgroup \<Rightarrow> pageid \<Rightarrow> int" where
  "group_page_uses m pg = (case nvfs_ppages m of None \<Rightarrow> 0 | Some pps \<Rightarrow> page_uses pg pps) +
     (if end_fence_page (gpu_info m) = Some pg then 1 else 0)"

lemma mgroup_release_ok:
  assumes "mgroups s p = Some m" and "ppages_wf e m"
  shows "\<exists>s' pps. nvfs_ppages m = Some pps \<and> mgroup_release e p s = Some s' \<and> mgroups s' = (mgroups s)(p := None) \<and>
    nvfs_io_mgroup_hash s' = removeAll p (nvfs_io_mgroup_hash s) \<and> klog s' = klog s \<and>
    nvfs_n_ops s' = nvfs_n_ops s \<and> page_refs s' = (\<lambda>pg. page_refs s pg - page_uses pg pps)"
proof -
  from assms(2) obtain pps where pps: "nvfs_ppages m = Some pps"
    "length pps = DIV_ROUND_UP (nvfs_blocks_count m) (nvfs_block_count_per_page (page_shift e))"
    by (auto simp: ppages_wf_def)
  let ?s2 = "s\<lparr>nvfs_io_mgroup_hash := removeAll p (nvfs_io_mgroup_hash s)\<rparr>"
  define s3 where "s3 = (if io_state (gpu_info m) > IO_INIT then kstat (nvfs_stat_d nvfs_n_op_maps) ?s2 else ?s2)"
  have s3: "mgroups s3 = mgroups s" "nvfs_io_mgroup_hash s3 = removeAll p (nvfs_io_mgroup_hash s)"
    "klog s3 = klog s" "nvfs_n_ops s3 = nvfs_n_ops s" "page_refs s3 = page_refs s"
    by (simp_all add: s3_def kstat_def)
  have rel: "mgroup_release e p s =
      do { s4 \<leftarrow> ofold (put_ppage pps) [0 ..< length pps] s3; Some (s4\<lparr>mgroups := (mgroups s4)(p := None)\<rparr>) }"
    using assms(1) pps unfolding s3_def by (simp add: mgroup_release_def Let_def)
  show ?thesis
    using put_ppages_ok [of "length pps" pps s3] pps(1) s3 by (auto simp: rel)
qed

lemma mgroup_free_ok:
  assumes "mgroups s p = Some m" and "ppages_wf e m" and "io_state (gpu_info m) > IO_INIT"
    and "gpu_releasable e (kstats s) (gpu_info m)" and "cpus_ok e"
  shows "\<exists>s'. nvfs_mgroup_free e p from_dma s = Some s' \<and> klog s' = release_log (gpu_info m) @ klog s \<and>
    page_refs s' = (\<lambda>pg. page_refs s pg - group_page_uses m pg) \<and> ops_total e s' = ops_total e s - 1"
proof -
  obtain g s1 where 1: "nvfs_free_gpu_info e p from_dma s = Some (0, s1)"
    "mgroups s1 = (mgroups s)(p \<mapsto> m\<lparr>gpu_info := g\<rparr>)"
    "klog s1 = release_log (gpu_info m) @ klog s"
    "page_refs s1 = (\<lambda>pg. page_refs s pg - (if end_fence_page (gpu_info m) = Some pg then 1 else 0))"
    "ops_total e s1 = ops_total e s - 1"
    using free_gpu_info_ok [OF assms(1,4,5), of from_dma] by auto
  have "mgroups s1 p = Some (m\<lparr>gpu_info := g\<rparr>)" "ppages_wf e (m\<lparr>gpu_info := g\<rparr>)"
    using 1(2) assms(2) by (simp_all add: ppages_wf_def)
  from mgroup_release_ok [OF this] obtain s' pps where 2: "nvfs_ppages m = Some pps"
    "mgroup_release e p s1 = Some s'" "klog s' = klog s1" "nvfs_n_ops s' = nvfs_n_ops s1"
    "page_refs s' = (\<lambda>pg. page_refs s1 pg - page_uses pg pps)" by auto
  have "nvfs_mgroup_free e p from_dma s = Some s'"
    using assms(1,3) 1(1) 2(2) by (simp add: nvfs_mgroup_free_def get_io_state_def)
  moreover have "ops_total e s' = ops_total e s - 1" using ops_total_cong [OF 2(4)] 1(5) by simp
  ultimately show ?thesis
    using 1 2 by (auto simp: group_page_uses_def algebra_simps)
qed

section \<open>Properties\<close>

text \<open>
  A termination request, with its chain of compare-and-exchange operations, acts on an
  undisturbed group exactly as the table says: an idle group is terminated at once (by the
  callback as \<^verbatim>\<open>IO_CALLBACK_END\<close>, except that an unmapped group always becomes
  \<^verbatim>\<open>IO_TERMINATED\<close>), an I/O in flight is asked to stop and must be waited for, the callback
  takes over a request of \<^verbatim>\<open>munmap\<close> but not the other way round, and final states stay.
\<close>

theorem terminate_requested_table:
  assumes "mgroups s p = Some m"
  shows "nvfs_io_terminate_requested p callback s =
    Some (snd (terminate_table callback (io_state (gpu_info m))),
      s\<lparr>mgroups := (mgroups s)(p \<mapsto> with_io_state (fst (terminate_table callback (io_state (gpu_info m)))) m)\<rparr>)"
  using assms by (rule terminate_requested_live)

theorem terminate_requested_table_witness:
  "\<exists>s'. nvfs_io_terminate_requested 100 True ex_state = Some (False, s') \<and>
     get_io_state 100 s' = Some IO_TERMINATED"
  using terminate_requested_table [OF ex_state_group, of True]
  by (simp add: ex_group_def zero_mgroup_def zero_gpu_args_def get_io_state_def)

lemma munmap_outcome:
  assumes "hash_wf s" and "vm_private_data vma = Some p" and "mgroups s p = Some m"
    and "io_state (gpu_info m) = IO_READY" and "mg_ref m = 2" and "\<not> fault_injected m"
    and "ppages_wf e m" and "gpu_releasable e (kstats s) (gpu_info m)" and "cpus_ok e"
  shows "\<exists>vma' s'. nvfs_vma_close e vma s = Some (vma', s') \<and> vm_private_data vma' = None \<and>
    mgroups s' = (mgroups s)(p := None) \<and> hash_wf s' \<and> klog s' = release_log (gpu_info m) @ klog s \<and>
    page_refs s' = (\<lambda>pg. page_refs s pg - group_page_uses m pg) \<and> ops_total e s' = ops_total e s - 1"
proof -
  let ?m1 = "(with_io_state IO_TERMINATED m)\<lparr>mg_ref := 1\<rparr>"
  define s1 where "s1 = kstat (nvfs_stat64 nvfs_n_free) (s\<lparr>mgroups := (mgroups s)(p \<mapsto> with_io_state IO_TERMINATED m)\<rparr>)"
  define s2 where "s2 = s1\<lparr>mgroups := (mgroups s1)(p \<mapsto> ?m1)\<rparr>"
  have s1p: "mgroups s1 p = Some (with_io_state IO_TERMINATED m)" by (simp add: s1_def)
  have vct: "vma_close_terminate e p m s = Some s2"
    using assms(3-6) put_shared_effect [OF s1p, of e False]
    by (simp add: vma_close_terminate_def terminate_requested_live get_io_state_def s2_def
        nvfs_mgroup_unpin_shadow_pages_def nvfs_mgroup_put_def s1_def [symmetric])
  have s2: "mgroups s2 p = Some ?m1" "mgroups s2 = (mgroups s)(p \<mapsto> ?m1)" "nvfs_io_mgroup_hash s2 = nvfs_io_mgroup_hash s"
    "klog s2 = klog s" "page_refs s2 = page_refs s" "nvfs_n_ops s2 = nvfs_n_ops s"
    by (simp_all add: s2_def s1_def kstat_def fun_eq_iff)
  have st: "gpu_releasable e (kstats s2) (gpu_info ?m1)" "release_log (gpu_info ?m1) = release_log (gpu_info m)"
    "group_page_uses ?m1 = group_page_uses m" "ppages_wf e ?m1"
    using assms(7,8)
    by (auto simp: gpu_releasable_def s2_def s1_def kstat_def with_io_state_def stat_ops release_log_def
        group_page_uses_def ppages_wf_def set_counter_def nvfs_get_gpustat_unlocked_def fun_eq_iff)
  let ?s2' = "s2\<lparr>mgroups := (mgroups s2)(p \<mapsto> ?m1\<lparr>mg_ref := 0\<rparr>)\<rparr>"
  have "ops_total e ?s2' = ops_total e s" using s2(6) by (simp add: ops_total_def)
  then obtain s3 where free: "nvfs_mgroup_free e p False ?s2' = Some s3"
    "klog s3 = release_log (gpu_info m) @ klog s"
    "page_refs s3 = (\<lambda>pg. page_refs s pg - group_page_uses m pg)" "ops_total e s3 = ops_total e s - 1"
    using mgroup_free_ok [of ?s2' p "?m1\<lparr>mg_ref := 0\<rparr>" e False] st assms(9) s2
    by (auto simp: ppages_wf_def group_page_uses_def fun_eq_iff)
  have put: "nvfs_mgroup_put_internal e p False s2 = Some s3"
    using s2(1) free(1) by (simp add: nvfs_mgroup_put_internal_def nvfs_mgroup_put_ref_def)
  note eff = put_last_effect [OF s2(1) _ put]
  have wf2: "hash_wf s2"
    using hash_wf_upd [OF assms(1,3), of ?m1] s2 by (auto elim: hash_wf_same)
  then have wf3: "hash_wf s3" using hash_wf_put put by blast
  have 1: "nvfs_vma_close e vma s = Some (vma\<lparr>vm_private_data := None\<rparr>,
      kstat (nvfs_stat64 nvfs_n_munmap) (kstat
        (nvfs_stat64_sub (uint (vm_end vma - vm_start vma)) nvfs_n_active_shadow_buf_sz) s3))"
    using assms(2,3) vct s2(1) put by (simp add: nvfs_vma_close_def nvfs_mgroup_put_def Let_def)
  have "mgroups s3 = (mgroups s)(p := None)" using eff s2(2) by (simp add: fun_eq_iff)
  moreover have "ops_total e (kstat f (kstat g s3)) = ops_total e s - 1" for f g
    using free(4) by (simp add: ops_total_def)
  ultimately show ?thesis
    using wf3 free by (simp add: 1) (auto simp: kstat_def elim: hash_wf_same)
qed

text \<open>
  C13. Unmapping an idle, mapped shadow buffer releases everything it holds. When the group
  is ready, the mapping and the pinning hold its only two references and the GPU driver
  co-operates, \<^verbatim>\<open>nvfs_vma_close\<close> frees the group and detaches the mapping from it, unmaps every
  DMA mapping and then returns the pinned GPU pages, drops one reference of every page of
  the buffer and of the completion page, gives up the operation count of the group and
  leaves the hash table well formed.
\<close>

theorem munmap_idle_releases_all:
  assumes "hash_wf s" and "vm_private_data vma = Some p" and "mgroups s p = Some m"
    and "io_state (gpu_info m) = IO_READY" and "mg_ref m = 2" and "\<not> fault_injected m"
    and "ppages_wf e m" and "gpu_releasable e (kstats s) (gpu_info m)" and "cpus_ok e"
  shows "\<exists>vma' s'. nvfs_vma_close e vma s = Some (vma', s') \<and> vm_private_data vma' = None \<and>
    mgroups s' = (mgroups s)(p := None) \<and> hash_wf s' \<and> klog s' = release_log (gpu_info m) @ klog s \<and>
    page_refs s' = (\<lambda>pg. page_refs s pg - group_page_uses m pg) \<and> ops_total e s' = ops_total e s - 1"
  using assms by (rule munmap_outcome)

text \<open>A group that is mapped and ready: one DMA mapping, the GPU page and the completion page pinned.\<close>

definition ex_dev :: pci_dev where
  "ex_dev = \<lparr> pci_bus = Some (0, 0x3b), devfn = 0 \<rparr>"

definition ex_ready_gpu :: nvfs_gpu_args where
  "ex_ready_gpu = zero_gpu_args\<lparr>page_table := Some ex_page_table, gpuvaddr := 0x20000,
     gpu_buf_len := 0x10000, end_fence_page := Some 900, io_state := IO_READY, n_phys_chunks := 1,
     use_legacy_p2p_allocation := True,
     buckets := [\<lparr> dma_mapping = Some \<lparr> dm_entries = 1, dma_addresses = [0x200000] \<rparr>,
                   mapped_dev = ex_dev, n_dma_chunks = 1 \<rparr>]\<rparr>"

definition ex_ready_group :: nvfs_io_mgroup where
  "ex_ready_group = ex_group\<lparr>mg_ref := 2, gpu_info := ex_ready_gpu\<rparr>"

definition ex_ready_state :: kstate where
  "ex_ready_state = ex_state\<lparr>mgroups := [100 \<mapsto> ex_ready_group],
     kstats := nvfs_update_alloc_gpustat True ex_ready_gpu zero_stats\<rparr>"

definition ex_vma :: vm_area where
  "ex_vma = \<lparr> vm_start = 0x10000, vm_end = 0x20000, vm_pgoff = 0, vm_flags = 0xff,
     vm_private_data = Some 100 \<rparr>"

lemma ex_ready_wf: "hash_wf ex_ready_state"
  by (auto simp: hash_wf_def ex_ready_state_def ex_state_def ex_ready_group_def split: if_splits)

lemma ex_ready_releasable: "gpu_releasable ex_env (kstats ex_ready_state) ex_ready_gpu"
  by (auto simp: gpu_releasable_def ex_ready_state_def ex_ready_gpu_def ex_env_def ex_page_table_def zero_gpu_args_def
      nvfs_update_alloc_gpustat_def zero_stats_def nvfs_get_gpustat_unlocked_def hash_add_gpustat_def
      upd_gpustat_def GPU_PAGE_MASK_def Let_def)

lemma ex_env_cpus: "cpus_ok ex_env"
  by (simp add: cpus_ok_def ex_env_def)

lemma ex_ready_ppages: "ppages_wf ex_env ex_ready_group"
  by (simp add: ppages_wf_def ex_ready_group_def ex_group_def DIV_ROUND_UP_def ex_env_def nvfs_geom)

theorem munmap_idle_releases_all_witness:
  "\<exists>vma' s'. nvfs_vma_close ex_env ex_vma ex_ready_state = Some (vma', s') \<and> mgroups s' 100 = None \<and>
     klog s' = [EvPutPages 0x20000, EvDmaUnmap ex_dev] \<and> page_refs s' 900 = 0 \<and> page_refs s' 515 = 0"
proof -
  have "mgroups ex_ready_state 100 = Some ex_ready_group" "vm_private_data ex_vma = Some 100"
    "gpu_info ex_ready_group = ex_ready_gpu" "mg_ref ex_ready_group = 2" "\<not> fault_injected ex_ready_group"
    "io_state ex_ready_gpu = IO_READY" "klog ex_ready_state = []"
    "release_log ex_ready_gpu = [EvPutPages 0x20000, EvDmaUnmap ex_dev]"
    "page_refs ex_ready_state 900 - group_page_uses ex_ready_group 900 = 0"
    "page_refs ex_ready_state 515 - group_page_uses ex_ready_group 515 = 0"
    by (simp_all add: ex_ready_state_def ex_vma_def ex_ready_group_def ex_ready_gpu_def ex_group_def
        zero_mgroup_def ex_state_def empty_kstate_def release_log_def GPU_PAGE_MASK_def
        group_page_uses_def page_uses_def zero_gpu_args_def upt_rec)
  with munmap_idle_releases_all [OF ex_ready_wf, of ex_vma 100 ex_ready_group ex_env]
    ex_ready_releasable ex_env_cpus ex_ready_ppages
  show ?thesis by (auto simp: fun_eq_iff)
qed

text \<open>
  C19. Unmapping a shadow buffer while an I/O is in flight does not pull it away: with the
  reference of the I/O beside those of the mapping and the pinning, \<^verbatim>\<open>nvfs_vma_close\<close> asks the
  I/O to terminate, drops the reference of the mapping only, and makes no call to the GPU
  driver; the group stays allocated and in the table.
\<close>

theorem munmap_during_io_defers:
  assumes "vm_private_data vma = Some p" and "mgroups s p = Some m"
    and "io_state (gpu_info m) = IO_IN_PROGRESS" and "1 < mg_ref m" and "\<not> fault_injected m"
  shows "\<exists>vma' s'. nvfs_vma_close e vma s = Some (vma', s') \<and> vm_private_data vma' = None \<and>
    mgroups s' = (mgroups s)(p \<mapsto> (with_io_state IO_TERMINATE_REQ m)\<lparr>mg_ref := mg_ref m - 1\<rparr>) \<and>
    nvfs_io_mgroup_hash s' = nvfs_io_mgroup_hash s \<and> klog s' = klog s \<and> page_refs s' = page_refs s"
proof -
  let ?s = "s\<lparr>mgroups := (mgroups s)(p \<mapsto> with_io_state IO_TERMINATE_REQ m)\<rparr>"
  have "vma_close_terminate e p m s = Some ?s"
    using assms by (simp add: vma_close_terminate_def terminate_requested_live get_io_state_def)
  moreover have "nvfs_mgroup_put_internal e p False ?s = Some (?s\<lparr>mgroups := (mgroups ?s)
      (p \<mapsto> (with_io_state IO_TERMINATE_REQ m)\<lparr>mg_ref := mg_ref m - 1\<rparr>)\<rparr>)"
    using assms(4) put_shared_effect [of ?s p "with_io_state IO_TERMINATE_REQ m" e False] by simp
  ultimately show ?thesis
    using assms by (simp add: nvfs_vma_close_def nvfs_mgroup_put_def Let_def kstat_def)
qed

definition ex_busy_state :: kstate where
  "ex_busy_state = ex_ready_state\<lparr>mgroups := [100 \<mapsto> (with_io_state IO_IN_PROGRESS ex_ready_group)\<lparr>mg_ref := 3\<rparr>]\<rparr>"

theorem munmap_during_io_defers_witness:
  "\<exists>vma' s'. nvfs_vma_close ex_env ex_vma ex_busy_state = Some (vma', s') \<and>
     mg_refs s' 100 = Some 2 \<and> get_io_state 100 s' = Some IO_TERMINATE_REQ"
proof -
  let ?m = "(with_io_state IO_IN_PROGRESS ex_ready_group)\<lparr>mg_ref := 3\<rparr>"
  have "mgroups ex_busy_state 100 = Some ?m" "vm_private_data ex_vma = Some 100"
    "\<not> fault_injected ?m" "1 < mg_ref ?m" "io_state (gpu_info ?m) = IO_IN_PROGRESS"
    by (simp_all add: ex_busy_state_def ex_vma_def ex_ready_group_def ex_group_def zero_mgroup_def)
  from munmap_during_io_defers [OF this(2,1,5,4,3), of ex_env] show ?thesis
    by (auto simp: mg_refs_def get_io_state_def)
qed

text \<open>
  C24. A synchronous I/O that finishes after its buffer was unmapped reads freed memory. When
  \<^verbatim>\<open>munmap\<close> has requested the termination and the reference of the pinning is the last one,
  the failed transition back to ready moves the group to \<^verbatim>\<open>IO_TERMINATED\<close>, frees it with that
  last reference and then reads its state for the log message.
\<close>

theorem sync_io_after_munmap_reads_freed_group:
  assumes "mgroups s p = Some m" and "io_state (gpu_info m) = IO_TERMINATE_REQ" and "mg_ref m = 1"
    and "\<not> should_fail e (nvfs_io_transit_state_fail IO_IN_PROGRESS IO_READY)"
  shows "nvfs_transit_state e p True IO_IN_PROGRESS IO_READY s = None"
proof -
  let ?s = "klog_event (EvWakeUp p) (s\<lparr>mgroups := (mgroups s)(p \<mapsto> with_io_state IO_TERMINATED m)\<rparr>)"
  have "mgroups ?s p = Some (with_io_state IO_TERMINATED m)" "mg_ref (with_io_state IO_TERMINATED m) = 1"
    using assms(3) by simp_all
  note dead = put_last_effect [OF this, of e False]
  have "mgroups s' p = None" if "nvfs_mgroup_put e p ?s = Some s'" for s'
    using dead [of s'] that by (simp add: nvfs_mgroup_put_def)
  then show ?thesis
    using transit_fail_terminated [OF assms(1,2) _ assms(4)]
    by (cases "nvfs_mgroup_put e p ?s") (simp_all add: get_io_state_def)
qed

definition ex_unmapped_state :: kstate where
  "ex_unmapped_state = ex_ready_state\<lparr>mgroups :=
     [100 \<mapsto> (with_io_state IO_TERMINATE_REQ ex_ready_group)\<lparr>mg_ref := 1\<rparr>]\<rparr>"

theorem sync_io_after_munmap_reads_freed_group_witness:
  "nvfs_transit_state ex_env 100 True IO_IN_PROGRESS IO_READY ex_unmapped_state = None"
  by (rule sync_io_after_munmap_reads_freed_group
      [of _ _ "(with_io_state IO_TERMINATE_REQ ex_ready_group)\<lparr>mg_ref := 1\<rparr>"])
    (simp_all add: ex_unmapped_state_def ex_env_def)

text \<open>
  A second I/O on a busy shadow buffer poisons it. Its attempt to move the group from
  ready to in progress fails, as it must, but leaves the group in \<^verbatim>\<open>IO_CALLBACK_END\<close>, as if the
  GPU buffer had been freed; the attempt of the first I/O to return to ready then fails too,
  and the group never becomes ready again, although no callback ever ran.
\<close>

theorem second_io_poisons_group:
  assumes "mgroups s p = Some m" and "io_state (gpu_info m) = IO_IN_PROGRESS"
    and "\<forall>from to. \<not> should_fail e (nvfs_io_transit_state_fail from to)"
  shows "\<exists>s1 s2. nvfs_transit_state e p sync2 IO_READY IO_IN_PROGRESS s = Some (False, s1) \<and>
    get_io_state p s1 = Some IO_CALLBACK_END \<and>
    nvfs_transit_state e p sync1 IO_IN_PROGRESS IO_READY s1 = Some (False, s2) \<and>
    get_io_state p s2 = Some IO_CALLBACK_END"
proof -
  let ?s1 = "klog_event (EvWakeUp p) (s\<lparr>mgroups := (mgroups s)(p \<mapsto> with_io_state IO_CALLBACK_END m)\<rparr>)"
  have 1: "nvfs_transit_state e p sync2 IO_READY IO_IN_PROGRESS s = Some (False, ?s1)"
    using assms by (intro transit_fail_end) simp_all
  have "mgroups ?s1 p = Some (with_io_state IO_CALLBACK_END m)" by simp
  from transit_fail_end [OF this, of IO_IN_PROGRESS e IO_READY sync1] assms(3) 1
  show ?thesis by (auto simp: get_io_state_def)
qed

theorem second_io_poisons_group_witness:
  "\<exists>s1 s2. nvfs_transit_state ex_env 100 True IO_READY IO_IN_PROGRESS ex_busy_state = Some (False, s1) \<and>
     nvfs_transit_state ex_env 100 True IO_IN_PROGRESS IO_READY s1 = Some (False, s2) \<and>
     get_io_state 100 s2 = Some IO_CALLBACK_END"
  using second_io_poisons_group [of ex_busy_state 100 "(with_io_state IO_IN_PROGRESS ex_ready_group)\<lparr>mg_ref := 3\<rparr>"
      ex_env True True]
  by (auto simp: ex_busy_state_def ex_env_def)

end
