(* ===== verification/Nvfs_Blocks.thy ===== *)
theory Nvfs_Blocks
  imports Nvfs_Mgroup
begin

text \<open>
  The 4 KiB blocks of a shadow buffer and their states: \<^verbatim>\<open>nvfs_mgroup_fill_mpages\<close>, which
  queues the blocks of a request, \<^verbatim>\<open>nvfs_mgroup_check_and_set\<close>, which settles them when the
  request completes and reports the holes of a sparse file to user space,
  \<^verbatim>\<open>__nvfs_mgroup_from_page\<close> and its callers, which find the group of a page, and the DMA
  state of the blocks a driver maps (all of \<^verbatim>\<open>nvfs-mmap.c\<close>), with
  \<^verbatim>\<open>nvfs_io_map_sparse_data\<close> of \<^verbatim>\<open>nvfs-core.c\<close>.
\<close>

section \<open>Queueing the blocks of a request\<close>

definition set_blk :: "nvfs_block_state \<Rightarrow> nvfs_io_metadata \<Rightarrow> nvfs_io_metadata" where
  "set_blk st b = b\<lparr>nvfs_state := st\<rparr>"

definition nvfs_mgroup_fill_mpage ::
    "pageid option \<Rightarrow> nvfs_io_metadata \<Rightarrow> nvfs_io_metadata option" where
  "nvfs_mgroup_fill_mpage page b =
     (if page = None \<or> nvfs_start_magic b \<noteq> NVFS_START_MAGIC \<or>
         (nvfs_state b \<noteq> NVFS_IO_INIT \<and> nvfs_state b \<noteq> NVFS_IO_DONE) \<or> md_page b \<noteq> page
      then None else Some (set_blk NVFS_IO_QUEUED b))"

definition fill_block ::
    "nat \<Rightarrow> pageid option list \<Rightarrow> nat \<Rightarrow> nvfs_io_metadata list \<Rightarrow> nvfs_io_metadata list option" where
  "fill_block bpp pps j md =
     do { page \<leftarrow> arr_get pps (j div bpp);
          b \<leftarrow> arr_get md j;
          b' \<leftarrow> nvfs_mgroup_fill_mpage page b;
          Some (md[j := b']) }"

text \<open>
  The checks on the offset inside the first GPU page, when there is one: the block offset,
  or \<open>None\<close> for the early \<^verbatim>\<open>return -EIO\<close>.
\<close>

definition fill_blockoff :: "nvfs_io_mgroup \<Rightarrow> nat \<Rightarrow> nat option" where
  "fill_blockoff m nr_blocks =
     (let off = gpu_page_offset (nvfsio m)
      in if off = 0 then Some 0
         else if off > GPU_PAGE_SIZE - KiB4 then None
         else if off mod KiB4 \<noteq> 0 then None
         else if off + nr_blocks * NVFS_BLOCK_SIZE > GPU_PAGE_SIZE then None
         else let blockoff = off div NVFS_BLOCK_SIZE
              in if blockoff + nr_blocks > nvfs_blocks_count m then None else Some blockoff)"

definition fill_groups :: "kenv \<Rightarrow> nvfs_io_mgroup \<Rightarrow> nat \<Rightarrow> (int \<times> nvfs_io_mgroup) option" where
  "fill_groups e m nr_blocks =
     (let bpp = nvfs_block_count_per_page (page_shift e)
      in if nr_blocks > nvfs_blocks_count m then Some (- EIO, m)
         else case fill_blockoff m nr_blocks of
                None \<Rightarrow> Some (- EIO, m)
              | Some blockoff \<Rightarrow> do {
                  md \<leftarrow> nvfs_metadata m;
                  md1 \<leftarrow> arr_upd_range md 0 blockoff (set_blk NVFS_IO_INIT);
                  pps \<leftarrow> nvfs_ppages m;
                  md2 \<leftarrow> ofold (fill_block bpp pps) [blockoff ..< blockoff + nr_blocks] md1;
                  let j = blockoff + nr_blocks;
                  md3 \<leftarrow> arr_upd_range md2 j (nvfs_blocks_count m - j) (set_blk NVFS_IO_INIT);
                  Some (0, m\<lparr>nvfs_metadata := Some md3,
                    nvfsio := (nvfsio m)\<lparr>nvfs_active_blocks_start := blockoff,
                      nvfs_active_blocks_end := (if j > 0 then j - 1 else 0),
                      cpuvaddr := cpuvaddr (nvfsio m) + of_nat (blockoff * NVFS_BLOCK_SIZE)\<rparr>\<rparr>) })"

definition nvfs_mgroup_fill_mpages :: "kenv \<Rightarrow> mptr \<Rightarrow> nat \<Rightarrow> kstate \<Rightarrow> (int \<times> kstate) option" where
  "nvfs_mgroup_fill_mpages e p nr_blocks s =
     do { m \<leftarrow> mgroups s p;
          (ret, m') \<leftarrow> fill_groups e m nr_blocks;
          Some (ret, s\<lparr>mgroups := (mgroups s)(p \<mapsto> m')\<rparr>) }"

section \<open>Settling the blocks of a request\<close>

text \<open>
  The local variables of \<^verbatim>\<open>nvfs_mgroup_check_and_set\<close> that its loop changes, with the
  arrays it writes: the block table, the sparse table of the completion page (\<^verbatim>\<open>sparse_ptr\<close>,
  absent while null) and the \<^verbatim>\<open>check_sparse\<close> flag of the request.
\<close>

record cas_vars =
  c_md :: "nvfs_io_metadata list"
  c_sparse :: "nvfs_io_sparse_data option"
  c_check_sparse :: bool
  c_last_sparse :: int
  c_nholes :: int
  c_limit :: int
  c_ret :: int

definition nvfs_io_map_sparse_data :: "kstate \<Rightarrow> nvfs_io_mgroup \<Rightarrow> nvfs_io_sparse_data option" where
  "nvfs_io_map_sparse_data s m =
     do { pg \<leftarrow> end_fence_page (gpu_info m);
          Some ((sparse_data (metapages s pg))\<lparr>sparse_magic := NVFS_START_MAGIC,
                  nvfs_meta_version := 1, nholes := 0\<rparr>) }"

definition nvfs_io_unmap_sparse_data ::
    "pageid \<Rightarrow> nvfs_io_sparse_data \<Rightarrow> nvfs_metastate \<Rightarrow> kstate \<Rightarrow> kstate" where
  "nvfs_io_unmap_sparse_data pg sp st s =
     s\<lparr>metapages := (metapages s)(pg := (metapages s pg)\<lparr>sparse_data := sp, mp_state := st\<rparr>)\<rparr>"

definition upd_hole ::
    "nvfs_io_sparse_data \<Rightarrow> int \<Rightarrow> (nvfs_io_hole \<Rightarrow> nvfs_io_hole) \<Rightarrow> nvfs_io_sparse_data option" where
  "upd_hole sp k f =
     (if k < 0 then None
      else do { hs \<leftarrow> arr_upd (hole sp) (nat k) f; Some (sp\<lparr>hole := hs\<rparr>) })"

text \<open>The recording of block \<open>i\<close> as a hole, given the table.\<close>

definition cas_hole :: "nat \<Rightarrow> nat \<Rightarrow> nvfs_io_sparse_data \<Rightarrow> cas_vars \<Rightarrow> cas_vars option" where
  "cas_hole start i sp c =
     (if c_last_sparse c < 0 \<or> c_last_sparse c + 1 \<noteq> int i then
        if c_limit c \<noteq> 0 then Some (c\<lparr>c_last_sparse := int i\<rparr>)
        else if c_nholes c + 1 \<ge> int NVFS_MAX_HOLE_REGIONS then
          Some (c\<lparr>c_limit := (int i - int start) * NVFS_BLOCK_SIZE, c_last_sparse := int i\<rparr>)
        else do {
          let k = c_nholes c + 1;
          sp' \<leftarrow> upd_hole sp k (\<lambda>h. \<lparr> hole_start = i - start, npages = 1 \<rparr>);
          Some (c\<lparr>c_sparse := Some sp', c_nholes := k, c_last_sparse := int i\<rparr>) }
      else do {
        sp' \<leftarrow> upd_hole sp (c_nholes c) (\<lambda>h. h\<lparr>npages := npages h + 1\<rparr>);
        Some (c\<lparr>c_sparse := Some sp', c_last_sparse := int i\<rparr>) })"

text \<open>The body of the loop for a block of the active range that completes.\<close>

definition cas_done_block ::
    "kstate \<Rightarrow> nvfs_io_mgroup \<Rightarrow> bool \<Rightarrow> int \<Rightarrow> nat \<Rightarrow> nvfs_block_state \<Rightarrow> cas_vars \<Rightarrow> cas_vars option" where
  "cas_done_block s m validate last_done i st c =
     (if validate \<and> st \<noteq> NVFS_IO_DMA_START then
        if int i > last_done then
          Some (if st \<noteq> NVFS_IO_QUEUED then c\<lparr>c_ret := - EIO\<rparr> else c)
        else if io_op (nvfsio m) = READ then
          do { (sp, c1) \<leftarrow>
                 (case c_sparse c of
                    Some sp \<Rightarrow> Some (sp, c)
                  | None \<Rightarrow>
                      if c_check_sparse c then None
                      else do { sp \<leftarrow> nvfs_io_map_sparse_data s m;
                                Some (sp, c\<lparr>c_check_sparse := True, c_sparse := Some sp\<rparr>) });
               cas_hole (nvfs_active_blocks_start (nvfsio m)) i sp c1 }
        else Some (c\<lparr>c_ret := - EIO\<rparr>)
      else Some c)"

definition cas_frozen :: "kenv \<Rightarrow> nvfs_io_mgroup \<Rightarrow> nvfs_block_state \<Rightarrow> nat \<Rightarrow> bool" where
  "cas_frozen e m state i \<longleftrightarrow>
     state = NVFS_IO_DONE \<and>
     nvfs_active_blocks_start (nvfsio m) \<le> i \<and> i \<le> nvfs_active_blocks_end (nvfsio m) \<and>
     (\<not> in_interrupt e \<and> pf_exiting e \<or> io_ret (nvfsio m) = - ERESTARTSYS)"

text \<open>
  The states that only warn (\<^verbatim>\<open>WARN_ON_ONCE\<close>) have no effect besides the final store. The
  last arm of the source is for values outside the enumeration.
\<close>

definition cas_block ::
    "kenv \<Rightarrow> kstate \<Rightarrow> nvfs_io_mgroup \<Rightarrow> nvfs_block_state \<Rightarrow> bool \<Rightarrow> int \<Rightarrow> nat \<Rightarrow> cas_vars \<Rightarrow> cas_vars option" where
  "cas_block e s m state validate last_done i c =
     do { b \<leftarrow> arr_get (c_md c) i;
          let active = (nvfs_active_blocks_start (nvfsio m) \<le> i \<and> i \<le> nvfs_active_blocks_end (nvfsio m));
          if state = NVFS_IO_DONE \<and> \<not> active then
            (if validate \<and> nvfs_state b \<noteq> NVFS_IO_INIT then None else Some c)
          else do {
            c1 \<leftarrow> (if state = NVFS_IO_DONE then cas_done_block s m validate last_done i (nvfs_state b) c
                   else Some c);
            Some (if cas_frozen e m state i then c1
                  else c1\<lparr>c_md := (c_md c1)[i := set_blk state b]\<rparr>) } }"

text \<open>
  \<^verbatim>\<open>done_blocks\<close> and \<^verbatim>\<open>issued_blocks\<close> decide the last block that the request has reached;
  outside a validated completion it stays 0.
\<close>

definition cas_last_done :: "nvfs_io \<Rightarrow> int" where
  "cas_last_done io =
     (let done_blocks = DIV_ROUND_UP (nat (io_ret io)) NVFS_BLOCK_SIZE;
          issued_blocks = nvfs_active_blocks_end io - nvfs_active_blocks_start io + 1
      in if done_blocks < issued_blocks
         then int (nvfs_active_blocks_start io) + int done_blocks - 1
         else int (nvfs_active_blocks_end io))"

definition cas_init :: "kstate \<Rightarrow> nvfs_io_mgroup \<Rightarrow> nvfs_io_metadata list \<Rightarrow> nvfs_block_state \<Rightarrow> bool \<Rightarrow> cas_vars option" where
  "cas_init s m md state validate =
     do { let io = nvfsio m;
          sp \<leftarrow> (if validate \<and> state = NVFS_IO_DONE then
                   if io_ret io < 0 \<or> io_ret io > uint (io_length io) then None
                   else if io_op io = READ \<and> check_sparse io
                   then map_option Some (nvfs_io_map_sparse_data s m)
                   else Some None
                 else Some None);
          Some \<lparr> c_md = md, c_sparse = sp, c_check_sparse = check_sparse io, c_last_sparse = -1,
                 c_nholes = -1, c_limit = 0, c_ret = 0 \<rparr> }"

definition cas_range :: "nvfs_io_mgroup \<Rightarrow> nvfs_block_state \<Rightarrow> nat list" where
  "cas_range m state =
     (if state = NVFS_IO_INIT then [0 ..< nvfs_blocks_count m]
      else [nvfs_active_blocks_start (nvfsio m) ..< nvfs_active_blocks_end (nvfsio m) + 1])"

text \<open>What follows the loop: the request, and the table and its statistics if it is mapped.\<close>

definition cas_io :: "kenv \<Rightarrow> nvfs_block_state \<Rightarrow> bool \<Rightarrow> cas_vars \<Rightarrow> nvfs_io \<Rightarrow> nvfs_io" where
  "cas_io e state update_nvfsio c io0 =
     (let io = io0\<lparr>check_sparse := c_check_sparse c\<rparr>;
          io1 = (if state = NVFS_IO_DONE \<and> io_ret io \<noteq> - ERESTARTSYS \<and> \<not> pf_exiting e
                 then io\<lparr>nvfs_active_blocks_start := 0, nvfs_active_blocks_end := 0\<rparr> else io);
          io2 = (case c_sparse c of
                   None \<Rightarrow> io1
                 | Some sp \<Rightarrow> io1\<lparr>io_meta := (if c_nholes c + 1 \<noteq> 0 then NVFS_IO_META_SPARSE
                                              else NVFS_IO_META_CLEAN)\<rparr>)
      in if \<not> update_nvfsio \<or> io_ret io2 < 0 then io2
         else if c_ret c < 0 then io2\<lparr>io_ret := c_ret c\<rparr>
         else if c_limit c > 0 then io2\<lparr>io_ret := c_limit c\<rparr>
         else io2)"

definition cas_publish :: "nvfs_io_mgroup \<Rightarrow> cas_vars \<Rightarrow> kstate \<Rightarrow> kstate option" where
  "cas_publish m c s =
     (case c_sparse c of
        None \<Rightarrow> Some s
      | Some sp \<Rightarrow> do {
          pg \<leftarrow> end_fence_page (gpu_info m);
          let n = nat (c_nholes c + 1);
          let sp' = sp\<lparr>nholes := n, start_fd_offset := fd_offset (nvfsio m)\<rparr>;
          s1 \<leftarrow> ofold (\<lambda>i s. do { h \<leftarrow> arr_get (hole sp') i;
                                  Some (kstat (nvfs_stat64_add (int (npages h)) nvfs_n_reads_sparse_pages) s) })
                 [0 ..< n] (kstat (nvfs_stat64_add (int n) nvfs_n_reads_sparse_region) s);
          Some (nvfs_io_unmap_sparse_data pg sp'
                  (if n \<noteq> 0 then NVFS_IO_META_SPARSE else NVFS_IO_META_CLEAN) s1) })"

definition nvfs_mgroup_check_and_set ::
    "kenv \<Rightarrow> mptr \<Rightarrow> nvfs_block_state \<Rightarrow> bool \<Rightarrow> bool \<Rightarrow> kstate \<Rightarrow> kstate option" where
  "nvfs_mgroup_check_and_set e p state validate update_nvfsio s =
     do { m \<leftarrow> mgroups s p;
          md \<leftarrow> nvfs_metadata m;
          c0 \<leftarrow> cas_init s m md state validate;
          let last_done = (if validate \<and> state = NVFS_IO_DONE then cas_last_done (nvfsio m) else 0);
          c \<leftarrow> ofold (cas_block e s m state validate last_done) (cas_range m state) c0;
          s1 \<leftarrow> cas_publish m c s;
          upd_mgroup p (\<lambda>m. m\<lparr>nvfs_metadata := Some (c_md c),
                              nvfsio := cas_io e state update_nvfsio c (nvfsio m)\<rparr>) s1 }"

section \<open>From a page to its group\<close>

text \<open>The number of a page within its group, and of its first block.\<close>

definition rel_page :: "kenv \<Rightarrow> kstate \<Rightarrow> pageid \<Rightarrow> nat" where
  "rel_page e s pg = NVFS_PAGE_INDEX s pg mod NVFS_MAX_SHADOW_PAGES (page_shift e)"

definition page_base_index :: "kenv \<Rightarrow> kstate \<Rightarrow> pageid \<Rightarrow> nat" where
  "page_base_index e s pg = drop_bit (NVFS_MAX_SHADOW_PAGES_ORDER (page_shift e)) (NVFS_PAGE_INDEX s pg)"

text \<open>
  The search of the first block that names the page: \<open>Some True\<close> found, \<open>Some False\<close> a bad
  magic or no such block, \<open>None\<close> an access outside the table.
\<close>

fun find_page_block :: "nvfs_io_metadata list \<Rightarrow> pageid \<Rightarrow> nat list \<Rightarrow> bool option" where
  "find_page_block md pg [] = Some False"
| "find_page_block md pg (i # is) =
     do { b \<leftarrow> arr_get md i;
          if nvfs_start_magic b \<noteq> NVFS_START_MAGIC then Some False
          else if md_page b = Some pg then Some True
          else find_page_block md pg is }"

fun any_dma_error :: "nvfs_io_metadata list \<Rightarrow> nat list \<Rightarrow> bool option" where
  "any_dma_error md [] = Some False"
| "any_dma_error md (i # is) =
     do { b \<leftarrow> arr_get md i;
          if nvfs_state b = NVFS_IO_DMA_ERROR then Some True else any_dma_error md is }"

text \<open>The checks on a group once its reference is held; the result without the reference.\<close>

definition from_page_checks ::
    "kenv \<Rightarrow> kstate \<Rightarrow> pageid \<Rightarrow> bool \<Rightarrow> nvfs_io_mgroup \<Rightarrow> unit errptr option" where
  "from_page_checks e s pg check_dma_error m =
     do { let bpp = nvfs_block_count_per_page (page_shift e);
          let block_idx = rel_page e s pg * bpp;
          md \<leftarrow> nvfs_metadata m;
          found_first_block \<leftarrow> find_page_block md pg [block_idx ..< block_idx + bpp];
          if \<not> found_first_block then Some NullPtr
          else if nvfs_active_blocks_start (nvfsio m) div bpp > rel_page e s pg then Some (ErrPtr (- EIO))
          else if nvfs_active_blocks_end (nvfsio m) div bpp < rel_page e s pg then Some (ErrPtr (- EIO))
          else do {
            bad \<leftarrow> (if check_dma_error then any_dma_error md [block_idx ..< block_idx + bpp] else Some False);
            Some (if bad then ErrPtr (- EIO) else Ptr ()) } }"

definition nvfs_mgroup_from_page_raw ::
    "kenv \<Rightarrow> pageid option \<Rightarrow> bool \<Rightarrow> kstate \<Rightarrow> (mptr errptr \<times> kstate) option" where
  "nvfs_mgroup_from_page_raw e page check_dma_error s =
     (case page of
        None \<Rightarrow> Some (NullPtr, s)
      | Some pg \<Rightarrow>
          if page_mapping (kpages s pg) then Some (NullPtr, s)
          else if page_base_index e s pg < NVFS_MIN_BASE_INDEX then Some (NullPtr, s)
          else do {
            (r, s1) \<leftarrow> nvfs_mgroup_get (page_base_index e s pg) s;
            case r of
              None \<Rightarrow> Some (NullPtr, s1)
            | Some p \<Rightarrow> do {
                m \<leftarrow> mgroups s1 p;
                v \<leftarrow> from_page_checks e s1 pg check_dma_error m;
                case v of
                  Ptr _ \<Rightarrow> Some (Ptr p, s1)
                | NullPtr \<Rightarrow> do { s2 \<leftarrow> nvfs_mgroup_put e p s1; Some (NullPtr, s2) }
                | ErrPtr err \<Rightarrow> do { s2 \<leftarrow> nvfs_mgroup_put e p s1; Some (ErrPtr err, s2) } } })"

definition upd_md :: "mptr \<Rightarrow> (nvfs_io_metadata list \<Rightarrow> nvfs_io_metadata list) \<Rightarrow> kstate \<Rightarrow> kstate option" where
  "upd_md p f s = upd_mgroup p (\<lambda>m. m\<lparr>nvfs_metadata := map_option f (nvfs_metadata m)\<rparr>) s"

text \<open>
  One block of \<^verbatim>\<open>nvfs_mgroup_from_page_range\<close>: whether it passes, and the table after it. A
  block past the active range fails before its entry is looked at, so that the entry marked
  as failed is the one before it, if there is one.
\<close>

fun range_blocks ::
    "kenv \<Rightarrow> nat \<Rightarrow> nat \<Rightarrow> nat \<Rightarrow> nat \<Rightarrow> nat option \<Rightarrow> nat list \<Rightarrow> nvfs_io_metadata list \<Rightarrow>
     (bool \<times> nvfs_io_metadata list) option" where
  "range_blocks e bpp page_idx block_idx active_end cur [] md = Some (True, md)"
| "range_blocks e bpp page_idx block_idx active_end cur (i # is) md =
     (let fail = (\<lambda>c. case c of None \<Rightarrow> Some (False, md)
                    | Some k \<Rightarrow> do { md' \<leftarrow> arr_upd md k (set_blk NVFS_IO_DMA_ERROR); Some (False, md') })
      in if (page_idx + i div bpp) mod NVFS_MAX_SHADOW_PAGES (page_shift e) > active_end div bpp then fail cur
         else do {
           let k = block_idx + i;
           b \<leftarrow> arr_get md k;
           contig \<leftarrow> (case cur of
                         None \<Rightarrow> Some True
                       | Some k' \<Rightarrow> do {
                           b' \<leftarrow> arr_get md k'; pg \<leftarrow> md_page b; pg' \<leftarrow> md_page b';
                           Some (page_to_pfn e pg = page_to_pfn e pg' + 1 \<or> page_to_pfn e pg = page_to_pfn e pg') });
           if \<not> contig then fail (Some k)
           else if nvfs_state b \<noteq> NVFS_IO_QUEUED \<and> nvfs_state b \<noteq> NVFS_IO_DMA_START then fail (Some k)
           else range_blocks e bpp page_idx block_idx active_end (Some k) is
                  (md[k := set_blk NVFS_IO_DMA_START b]) })"

definition nvfs_mgroup_from_page_range ::
    "kenv \<Rightarrow> pageid option \<Rightarrow> nat \<Rightarrow> nat \<Rightarrow> kstate \<Rightarrow> (mptr errptr \<times> kstate) option" where
  "nvfs_mgroup_from_page_range e page nblocks start_offset s =
     do { (r, s1) \<leftarrow> nvfs_mgroup_from_page_raw e page False s;
          case r of
            NullPtr \<Rightarrow> Some (NullPtr, s1)
          | ErrPtr _ \<Rightarrow> Some (ErrPtr (- EIO), s1)
          | Ptr p \<Rightarrow> do {
              pg \<leftarrow> page;
              m \<leftarrow> mgroups s1 p;
              md \<leftarrow> nvfs_metadata m;
              let bpp = nvfs_block_count_per_page (page_shift e);
              let block_idx = rel_page e s1 pg * bpp + start_offset div NVFS_BLOCK_SIZE;
              (ok, md') \<leftarrow> range_blocks e bpp (NVFS_PAGE_INDEX s1 pg) block_idx
                            (nvfs_active_blocks_end (nvfsio m)) None [0 ..< nblocks] md;
              s2 \<leftarrow> upd_md p (\<lambda>_. md') s1;
              if ok then Some (Ptr p, s2)
              else do { s3 \<leftarrow> nvfs_mgroup_put e p s2; Some (ErrPtr (- EIO), s3) } } }"

text \<open>Both macros are 32-bit unsigned arithmetic; the end index wraps for an empty range at 0.\<close>

definition METADATA_BLOCK_START_INDEX :: "nat \<Rightarrow> nat" where
  "METADATA_BLOCK_START_INDEX bv_offset = bv_offset div NVFS_BLOCK_SIZE"

definition METADATA_BLOCK_END_INDEX :: "nat \<Rightarrow> nat \<Rightarrow> nat" where
  "METADATA_BLOCK_END_INDEX bv_offset bv_len =
     ((bv_offset + bv_len + 4294967295) mod 4294967296) div NVFS_BLOCK_SIZE"

text \<open>The loop of \<^verbatim>\<open>nvfs_mgroup_metadata_set_dma_state\<close>.\<close>

fun dma_state_blocks :: "nat list \<Rightarrow> nvfs_io_metadata list \<Rightarrow> (bool \<times> nvfs_io_metadata list) option" where
  "dma_state_blocks [] md = Some (True, md)"
| "dma_state_blocks (i # is) md =
     do { b \<leftarrow> arr_get md i;
          if nvfs_state b \<noteq> NVFS_IO_QUEUED \<and> nvfs_state b \<noteq> NVFS_IO_DMA_START
          then Some (False, md[i := set_blk NVFS_IO_DMA_ERROR b])
          else dma_state_blocks is (md[i := set_blk NVFS_IO_DMA_START b]) }"

definition nvfs_mgroup_metadata_set_dma_state ::
    "kenv \<Rightarrow> pageid \<Rightarrow> mptr errptr \<Rightarrow> nat \<Rightarrow> nat \<Rightarrow> kstate \<Rightarrow> (int \<times> kstate) option" where
  "nvfs_mgroup_metadata_set_dma_state e pg mg bv_len bv_offset s =
     (case mg of
        NullPtr \<Rightarrow> Some (- EIO, s)
      | ErrPtr _ \<Rightarrow> Some (- EIO, s)
      | Ptr p \<Rightarrow> do {
          m \<leftarrow> mgroups s p;
          md \<leftarrow> nvfs_metadata m;
          let block_idx = rel_page e s pg * nvfs_block_count_per_page (page_shift e);
          (ok, md') \<leftarrow> dma_state_blocks
             [block_idx + METADATA_BLOCK_START_INDEX bv_offset ..<
              block_idx + METADATA_BLOCK_END_INDEX bv_offset bv_len + 1] md;
          s1 \<leftarrow> upd_md p (\<lambda>_. md') s;
          if ok then Some (0, s1)
          else do { s2 \<leftarrow> nvfs_mgroup_put e p s1; Some (- EIO, s2) } })"

definition nvfs_mgroup_from_page ::
    "kenv \<Rightarrow> pageid option \<Rightarrow> kstate \<Rightarrow> (mptr errptr \<times> kstate) option" where
  "nvfs_mgroup_from_page e page s =
     do { (r, s1) \<leftarrow> nvfs_mgroup_from_page_raw e page False s;
          case r of
            NullPtr \<Rightarrow> Some (NullPtr, s1)
          | ErrPtr _ \<Rightarrow> Some (ErrPtr (- EIO), s1)
          | Ptr p \<Rightarrow>
              if PAGE_SIZE (page_shift e) < GPU_PAGE_SIZE then do {
                pg \<leftarrow> page;
                m \<leftarrow> mgroups s1 p;
                md \<leftarrow> nvfs_metadata m;
                b \<leftarrow> arr_get md (rel_page e s1 pg);
                if nvfs_state b \<noteq> NVFS_IO_QUEUED \<and> nvfs_state b \<noteq> NVFS_IO_DMA_START
                then do {
                  s2 \<leftarrow> upd_md p (\<lambda>md. md[rel_page e s1 pg := set_blk NVFS_IO_DMA_ERROR b]) s1;
                  s3 \<leftarrow> nvfs_mgroup_put e p s2;
                  Some (ErrPtr (- EIO), s3) }
                else Some (Ptr p, s1) }
              else Some (Ptr p, s1) }"

definition nvfs_is_gpu_page :: "kenv \<Rightarrow> pageid option \<Rightarrow> kstate \<Rightarrow> (bool \<times> kstate) option" where
  "nvfs_is_gpu_page e page s =
     do { (r, s1) \<leftarrow> nvfs_mgroup_from_page_raw e page False s;
          case r of
            NullPtr \<Rightarrow> Some (False, s1)
          | ErrPtr _ \<Rightarrow> Some (True, s1)
          | Ptr p \<Rightarrow> do { s2 \<leftarrow> nvfs_mgroup_put e p s1; Some (True, s2) } }"

text \<open>\<^verbatim>\<open>atomic_dec_if_positive\<close> returns the decremented value and stores it only if not negative.\<close>

definition nvfs_check_gpu_page_and_error ::
    "kenv \<Rightarrow> pageid option \<Rightarrow> kstate \<Rightarrow> (int \<times> kstate) option" where
  "nvfs_check_gpu_page_and_error e page s =
     do { (r, s1) \<leftarrow> nvfs_mgroup_from_page_raw e page True s;
          case r of
            NullPtr \<Rightarrow> Some (0, s1)
          | ErrPtr _ \<Rightarrow> Some (-1, s1)
          | Ptr p \<Rightarrow> do {
              m \<leftarrow> mgroups s1 p;
              s2 \<leftarrow> (if dma_ref m - 1 < 0 then Some (kstat (nvfs_stat_d nvfs_n_err_dma_ref) s1)
                     else do { s2 \<leftarrow> upd_mgroup p (\<lambda>m. m\<lparr>dma_ref := dma_ref m - 1\<rparr>) s1;
                               nvfs_mgroup_put_dma e p s2 });
              s3 \<leftarrow> nvfs_mgroup_put_dma e p s2;
              Some (1, s3) } }"

definition UINT_MAX :: u32 where "UINT_MAX = 0xffffffff"

definition nvfs_gpu_index :: "kenv \<Rightarrow> pageid option \<Rightarrow> kstate \<Rightarrow> (u32 \<times> kstate) option" where
  "nvfs_gpu_index e page s =
     do { (r, s1) \<leftarrow> nvfs_mgroup_from_page_raw e page False s;
          case r of
            Ptr p \<Rightarrow> do {
              m \<leftarrow> mgroups s1 p;
              s2 \<leftarrow> nvfs_mgroup_put e p s1;
              Some (if pdevinfo (gpu_info m) = 0 then UINT_MAX
                    else get_gpu_hash_index e (pdevinfo (gpu_info m)), s2) }
          | _ \<Rightarrow> Some (UINT_MAX, s1) }"

section \<open>From a page to its GPU address\<close>

text \<open>
  The offset is left alone (at the caller's 0) when the page is not smaller than a GPU page.
\<close>

definition nvfs_mgroup_get_gpu_index_and_off ::
    "kenv \<Rightarrow> kstate \<Rightarrow> nvfs_io_mgroup \<Rightarrow> pageid \<Rightarrow> nat \<times> nat" where
  "nvfs_mgroup_get_gpu_index_and_off e s m pg =
     (let rel_page_index = rel_page e s pg
      in (cur_gpu_base_index (nvfsio m) + drop_bit (PAGE_PER_GPU_PAGE_SHIFT (page_shift e)) rel_page_index,
          if PAGE_SIZE (page_shift e) < GPU_PAGE_SIZE
          then push_bit (page_shift e) (rel_page_index mod GPU_PAGE_SHIFT) else 0))"

definition nvfs_mgroup_get_gpu_physical_address ::
    "kenv \<Rightarrow> kstate \<Rightarrow> nvfs_io_mgroup \<Rightarrow> pageid \<Rightarrow> u64 option" where
  "nvfs_mgroup_get_gpu_physical_address e s m pg =
     do { let (gpu_page_index, pgoff) = nvfs_mgroup_get_gpu_index_and_off e s m pg;
          pt \<leftarrow> page_table (gpu_info m);
          phys_base_addr \<leftarrow> arr_get (pt_physical pt) gpu_page_index;
          Some (phys_base_addr + of_nat pgoff) }"

section \<open>Well-formed groups\<close>

text \<open>
  What \<^verbatim>\<open>mmap\<close> establishes and every operation on the blocks keeps: the block table has one
  entry per block, the page array one per page, and every entry carries the magic number
  and names the page it lies in.
\<close>

definition mgroup_wf :: "kenv \<Rightarrow> nvfs_io_mgroup \<Rightarrow> bool" where
  "mgroup_wf e m \<longleftrightarrow>
     (\<exists>md pps. nvfs_metadata m = Some md \<and> nvfs_ppages m = Some pps \<and> length md = nvfs_blocks_count m \<and>
        length pps = DIV_ROUND_UP (nvfs_blocks_count m) (nvfs_block_count_per_page (page_shift e)) \<and>
        (\<forall>j < length md. nvfs_start_magic (md ! j) = NVFS_START_MAGIC \<and>
           md_page (md ! j) = pps ! (j div nvfs_block_count_per_page (page_shift e)) \<and>
           pps ! (j div nvfs_block_count_per_page (page_shift e)) \<noteq> None))"

definition block_state :: "nvfs_io_mgroup \<Rightarrow> nat \<Rightarrow> nvfs_block_state" where
  "block_state m j = nvfs_state (the (nvfs_metadata m) ! j)"

definition settled :: "nvfs_io_mgroup \<Rightarrow> bool" where
  "settled m \<longleftrightarrow> (\<forall>j < nvfs_blocks_count m. block_state m j \<in> {NVFS_IO_INIT, NVFS_IO_DONE})"

lemma set_blk_simps [simp]:
  "nvfs_state (set_blk st b) = st" "nvfs_start_magic (set_blk st b) = nvfs_start_magic b"
  "md_page (set_blk st b) = md_page b" "set_blk st (set_blk st' b) = set_blk st b"
  by (simp_all add: set_blk_def)

lemma page_of_block:
  assumes "0 < bpp" and "j < n"
  shows "j div bpp < DIV_ROUND_UP n bpp"
proof -
  have "bpp * (j div bpp) \<le> j" by simp
  also have "j < n" by fact
  also have "n \<le> bpp * DIV_ROUND_UP n bpp" by (rule DIV_ROUND_UP_bounds(1) [OF assms(1)])
  finally show ?thesis by simp
qed

lemma fill_blocks_ok:
  assumes "i + n \<le> length md" and "0 < bpp" and "length pps = DIV_ROUND_UP (length md) bpp"
    and "\<forall>j < length md. nvfs_start_magic (md ! j) = NVFS_START_MAGIC \<and>
           md_page (md ! j) = pps ! (j div bpp) \<and> pps ! (j div bpp) \<noteq> None"
    and "\<forall>j. i \<le> j \<and> j < i + n \<longrightarrow> nvfs_state (md ! j) \<in> {NVFS_IO_INIT, NVFS_IO_DONE}"
  shows "ofold (fill_block bpp pps) [i ..< i + n] md = Some (upd_between i (i + n) (set_blk NVFS_IO_QUEUED) md)"
  using assms(1,5)
proof (induction n)
  case 0
  then show ?case by simp
next
  case (Suc n)
  let ?md = "upd_between i (i + n) (set_blk NVFS_IO_QUEUED) md"
  have "(i + n) div bpp < length pps"
    using page_of_block [of bpp "i + n" "length md"] assms(2,3) Suc.prems by simp
  moreover have "md ! (i + n) = ?md ! (i + n)" using Suc.prems by simp
  moreover have "nvfs_mgroup_fill_mpage (pps ! ((i + n) div bpp)) (md ! (i + n)) =
      Some (set_blk NVFS_IO_QUEUED (md ! (i + n)))"
    using assms(4) Suc.prems by (auto simp: nvfs_mgroup_fill_mpage_def)
  ultimately have "fill_block bpp pps (i + n) ?md = Some (upd_between i (Suc (i + n)) (set_blk NVFS_IO_QUEUED) md)"
    using Suc.prems upd_between_snoc [of i "i + n" md "set_blk NVFS_IO_QUEUED"]
    by (simp add: fill_block_def)
  moreover have "[i ..< i + Suc n] = [i ..< i + n] @ [i + n]" by simp
  ultimately show ?case using Suc by (simp add: ofold_append)
qed

text \<open>
  When the offset inside the first GPU page is accepted: it is a whole number of blocks,
  and offset and request together stay within that GPU page and within the buffer.
\<close>

lemma fill_blockoff_Some:
  assumes "nr_blocks \<le> nvfs_blocks_count m"
  shows "fill_blockoff m nr_blocks = Some off \<longleftrightarrow>
    gpu_page_offset (nvfsio m) = off * 4096 \<and> off + nr_blocks \<le> nvfs_blocks_count m \<and>
    (off = 0 \<or> off + nr_blocks \<le> 16 \<and> off \<le> 15)"
proof -
  let ?o = "gpu_page_offset (nvfsio m)"
  have "?o = 4096 * (?o div 4096) + ?o mod 4096" by simp
  then show ?thesis
    using assms by (auto simp: fill_blockoff_def Let_def)
qed

lemma fill_groups_ok:
  assumes "valid_page_shift (page_shift e)" and "mgroup_wf e m" and "settled m"
    and "nr \<le> nvfs_blocks_count m" and "fill_blockoff m nr = Some off"
  shows "\<exists>md'. fill_groups e m nr = Some (0, m\<lparr>nvfs_metadata := Some md',
      nvfsio := (nvfsio m)\<lparr>nvfs_active_blocks_start := off,
        nvfs_active_blocks_end := (if off + nr > 0 then off + nr - 1 else 0),
        cpuvaddr := cpuvaddr (nvfsio m) + of_nat (off * 4096)\<rparr>\<rparr>) \<and>
    md' = upd_between (off + nr) (nvfs_blocks_count m) (set_blk NVFS_IO_INIT)
      (upd_between off (off + nr) (set_blk NVFS_IO_QUEUED)
        (upd_between 0 off (set_blk NVFS_IO_INIT) (the (nvfs_metadata m))))"
proof -
  let ?bpp = "nvfs_block_count_per_page (page_shift e)"
  from assms(2) obtain md pps where md: "nvfs_metadata m = Some md" and pps: "nvfs_ppages m = Some pps"
    and len: "length md = nvfs_blocks_count m" "length pps = DIV_ROUND_UP (length md) ?bpp"
    and blk: "\<forall>j < length md. nvfs_start_magic (md ! j) = NVFS_START_MAGIC \<and>
      md_page (md ! j) = pps ! (j div ?bpp) \<and> pps ! (j div ?bpp) \<noteq> None"
    by (auto simp: mgroup_wf_def)
  from assms(5) have off: "off + nr \<le> nvfs_blocks_count m"
    using fill_blockoff_Some [OF assms(4)] by blast
  let ?md1 = "upd_between 0 off (set_blk NVFS_IO_INIT) md"
  have 1: "arr_upd_range md 0 off (set_blk NVFS_IO_INIT) = Some ?md1"
    using arr_upd_range_in [of 0 off md] off len(1) by simp
  have "ofold (fill_block ?bpp pps) [off ..< off + nr] ?md1 =
      Some (upd_between off (off + nr) (set_blk NVFS_IO_QUEUED) ?md1)"
  proof (rule fill_blocks_ok)
    show "0 < ?bpp" using assms(1) by simp
    show "\<forall>j. off \<le> j \<and> j < off + nr \<longrightarrow> nvfs_state (?md1 ! j) \<in> {NVFS_IO_INIT, NVFS_IO_DONE}"
      using assms(3) off len md by (auto simp: settled_def block_state_def)
  qed (use off len blk in auto)
  moreover have "arr_upd_range (upd_between off (off + nr) (set_blk NVFS_IO_QUEUED) ?md1) (off + nr)
      (nvfs_blocks_count m - (off + nr)) (set_blk NVFS_IO_INIT) =
    Some (upd_between (off + nr) (nvfs_blocks_count m) (set_blk NVFS_IO_INIT)
      (upd_between off (off + nr) (set_blk NVFS_IO_QUEUED) ?md1))"
    using arr_upd_range_in [of "off + nr" "nvfs_blocks_count m - (off + nr)"
        "upd_between off (off + nr) (set_blk NVFS_IO_QUEUED) ?md1"] off len(1) by simp
  ultimately show ?thesis
    using assms(4,5) md pps 1 by (simp add: fill_groups_def Let_def)
qed

section \<open>Properties of queueing\<close>

text \<open>
  C9. Queueing a request. On a well-formed group whose blocks are all settled,
  \<^verbatim>\<open>nvfs_mgroup_fill_mpages\<close> never trips one of its \<^verbatim>\<open>BUG_ON\<close>s. It accepts a request exactly when
  the blocks fit: the offset inside the first GPU page is a whole number of blocks and
  offset and request stay within that GPU page and the buffer. Then precisely the blocks
  of the request are queued, every other block is reset to its initial state, the active
  range is the range of the request, and the group stays well formed.
\<close>

theorem fill_mpages_queues_request:
  assumes "valid_page_shift (page_shift e)" and "mgroups s p = Some m" and "mgroup_wf e m" and "settled m"
    and "0 < nr" and "nr \<le> nvfs_blocks_count m"
    and "gpu_page_offset (nvfsio m) = off * 4096" and "off + nr \<le> nvfs_blocks_count m"
    and "off = 0 \<or> off + nr \<le> 16"
  shows "\<exists>m'. nvfs_mgroup_fill_mpages e p nr s = Some (0, s\<lparr>mgroups := (mgroups s)(p \<mapsto> m')\<rparr>) \<and>
    mgroup_wf e m' \<and> nvfs_active_blocks_start (nvfsio m') = off \<and>
    nvfs_active_blocks_end (nvfsio m') = off + nr - 1 \<and> nvfs_blocks_count m' = nvfs_blocks_count m \<and>
    (\<forall>j < nvfs_blocks_count m. block_state m' j =
       (if off \<le> j \<and> j < off + nr then NVFS_IO_QUEUED else NVFS_IO_INIT))"
proof -
  let ?bpp = "nvfs_block_count_per_page (page_shift e)"
  have off: "fill_blockoff m nr = Some off"
    using assms fill_blockoff_Some [OF assms(6), of off] by auto
  obtain md' where fill: "fill_groups e m nr = Some (0, m\<lparr>nvfs_metadata := Some md',
      nvfsio := (nvfsio m)\<lparr>nvfs_active_blocks_start := off,
        nvfs_active_blocks_end := (if off + nr > 0 then off + nr - 1 else 0),
        cpuvaddr := cpuvaddr (nvfsio m) + of_nat (off * 4096)\<rparr>\<rparr>)"
    and md': "md' = upd_between (off + nr) (nvfs_blocks_count m) (set_blk NVFS_IO_INIT)
      (upd_between off (off + nr) (set_blk NVFS_IO_QUEUED)
        (upd_between 0 off (set_blk NVFS_IO_INIT) (the (nvfs_metadata m))))"
    using fill_groups_ok [OF assms(1,3,4,6) off] by blast
  obtain md where md: "nvfs_metadata m = Some md" "length md = nvfs_blocks_count m"
    using assms(3) by (auto simp: mgroup_wf_def)
  have nth: "nvfs_state (md' ! j) = (if off \<le> j \<and> j < off + nr then NVFS_IO_QUEUED else NVFS_IO_INIT) \<and>
      nvfs_start_magic (md' ! j) = nvfs_start_magic (md ! j) \<and> md_page (md' ! j) = md_page (md ! j)"
    if "j < nvfs_blocks_count m" for j
    using that md assms(8) by (auto simp: md')
  have "length md' = nvfs_blocks_count m" using md by (simp add: md')
  then have wf: "mgroup_wf e (m\<lparr>nvfs_metadata := Some md', nvfsio := io\<rparr>)" for io
    using assms(3) md nth by (auto simp: mgroup_wf_def)
  define io where "io = (nvfsio m)\<lparr>nvfs_active_blocks_start := off,
      nvfs_active_blocks_end := (if off + nr > 0 then off + nr - 1 else 0),
      cpuvaddr := cpuvaddr (nvfsio m) + of_nat (off * 4096)\<rparr>"
  have "nvfs_mgroup_fill_mpages e p nr s =
      Some (0, s\<lparr>mgroups := (mgroups s)(p \<mapsto> m\<lparr>nvfs_metadata := Some md', nvfsio := io\<rparr>)\<rparr>)"
    using fill assms(2) by (simp add: nvfs_mgroup_fill_mpages_def io_def)
  with wf [of io] nth assms(5) show ?thesis
    by (intro exI [of _ "m\<lparr>nvfs_metadata := Some md', nvfsio := io\<rparr>"])
      (auto simp: block_state_def io_def)
qed

definition ex_init_group :: nvfs_io_mgroup where
  "ex_init_group = ex_group\<lparr>nvfs_metadata := Some (map (\<lambda>j. \<lparr> nvfs_start_magic = NVFS_START_MAGIC,
       nvfs_state = NVFS_IO_INIT, md_page = Some (500 + j) \<rparr>) [0 ..< 16]),
     nvfsio := zero_nvfs_io\<lparr>gpu_page_offset := 8192\<rparr>\<rparr>"

lemma ex_init_group_wf: "mgroup_wf ex_env ex_init_group" "settled ex_init_group"
  by (auto simp: mgroup_wf_def settled_def block_state_def ex_init_group_def ex_group_def ex_env_def
      nvfs_geom DIV_ROUND_UP_def)

theorem fill_mpages_queues_request_witness:
  "\<exists>m'. nvfs_mgroup_fill_mpages ex_env 100 3 (ex_state\<lparr>mgroups := [100 \<mapsto> ex_init_group]\<rparr>) =
      Some (0, ex_state\<lparr>mgroups := [100 \<mapsto> m']\<rparr>) \<and> block_state m' 4 = NVFS_IO_QUEUED \<and>
     block_state m' 5 = NVFS_IO_INIT \<and> nvfs_active_blocks_start (nvfsio m') = 2"
  using fill_mpages_queues_request [OF _ _ ex_init_group_wf, of "ex_state\<lparr>mgroups := [100 \<mapsto> ex_init_group]\<rparr>" 100 3 2]
  by (auto simp: valid_page_shift_def ex_env_def ex_init_group_def ex_group_def)

text \<open>
  C20. A request that does not fit is refused without effect: if it has more blocks than the
  buffer, or starts inside a GPU page at an offset that is not a multiple of 4 KiB, or would
  cross the end of that GPU page or of the buffer, the result is \<^verbatim>\<open>-EIO\<close> and the state is
  unchanged.
\<close>

theorem fill_mpages_refuses:
  assumes "mgroups s p = Some m"
    and "nr > nvfs_blocks_count m \<or> gpu_page_offset (nvfsio m) mod 4096 \<noteq> 0 \<or>
      gpu_page_offset (nvfsio m) > 0 \<and>
        (gpu_page_offset (nvfsio m) + nr * 4096 > 65536 \<or> gpu_page_offset (nvfsio m) > 61440 \<or>
         gpu_page_offset (nvfsio m) + nr * 4096 > nvfs_blocks_count m * 4096)"
  shows "nvfs_mgroup_fill_mpages e p nr s = Some (- EIO, s)"
proof -
  have "fill_groups e m nr = Some (- EIO, m)"
  proof (cases "nr > nvfs_blocks_count m")
    case True
    then show ?thesis by (simp add: fill_groups_def)
  next
    case False
    have "fill_blockoff m nr \<noteq> Some off" for off
      using False assms(2) fill_blockoff_Some [of nr m off] by auto
    then have "fill_blockoff m nr = None" by (meson not_None_eq)
    with False show ?thesis by (simp add: fill_groups_def)
  qed
  then show ?thesis using assms(1) by (simp add: nvfs_mgroup_fill_mpages_def fun_upd_idem)
qed

theorem fill_mpages_refuses_witness:
  "nvfs_mgroup_fill_mpages ex_env 100 15 (ex_state\<lparr>mgroups := [100 \<mapsto> ex_init_group]\<rparr>) =
     Some (- EIO, ex_state\<lparr>mgroups := [100 \<mapsto> ex_init_group]\<rparr>)"
  by (rule fill_mpages_refuses [of _ _ ex_init_group]) (simp_all add: ex_init_group_def ex_group_def)

section \<open>Properties of the GPU address of a page\<close>

text \<open>
  With 4 KiB and with 64 KiB pages the address a shadow page stands for is linear: the
  GPU page number and the offset inside it that \<^verbatim>\<open>nvfs_mgroup_get_gpu_index_and_off\<close> computes
  locate the page's own number, counted in pages from the start of the GPU window of the
  request, and the offset leaves room for the page.
\<close>

theorem gpu_index_and_off_linear:
  assumes "page_shift e = 12 \<or> page_shift e = 16"
  shows "case nvfs_mgroup_get_gpu_index_and_off e s m pg of (gpu_index, off) \<Rightarrow>
    gpu_index * 65536 + off =
      cur_gpu_base_index (nvfsio m) * 65536 + rel_page e s pg * PAGE_SIZE (page_shift e) \<and>
    off + PAGE_SIZE (page_shift e) \<le> 65536"
  using assms
proof
  assume ps: "page_shift e = 12"
  let ?r = "rel_page e s pg"
  have "?r = 16 * (?r div 16) + ?r mod 16" by simp
  moreover have "?r mod 16 < 16" by simp
  ultimately have "?r div 16 * 65536 + ?r mod 16 * 4096 = ?r * 4096" "?r mod 16 \<le> 15" by linarith+
  then show ?thesis
    by (simp add: nvfs_mgroup_get_gpu_index_and_off_def nvfs_geom ps drop_bit_eq_div push_bit_eq_mult Let_def)
next
  assume "page_shift e = 16"
  then show ?thesis
    by (simp add: nvfs_mgroup_get_gpu_index_and_off_def nvfs_geom Let_def)
qed

theorem gpu_index_and_off_linear_witness:
  "case nvfs_mgroup_get_gpu_index_and_off ex_env ex_state ex_group 503 of (gpu_index, off) \<Rightarrow>
     gpu_index * 65536 + off = rel_page ex_env ex_state 503 * 4096"
  using gpu_index_and_off_linear [where e = ex_env and s = ex_state and m = ex_group and pg = 503]
  by (auto simp: ex_env_def ex_group_def zero_mgroup_def zero_nvfs_io_def PAGE_SIZE_def)

text \<open>
  With 16 KiB pages it is not: the offset is reduced modulo \<^verbatim>\<open>GPU_PAGE_SHIFT\<close>, which is 16,
  where there are four pages in a GPU page. The fifth page of the buffer gets GPU page 1
  and an offset of a whole GPU page on top, which the \<^verbatim>\<open>BUG_ON\<close> in \<^verbatim>\<open>nvfs_get_dma\<close> would catch.
\<close>

theorem gpu_offset_wrong_16k:
  assumes "page_shift e = 14" and "rel_page e s pg = 4"
  shows "nvfs_mgroup_get_gpu_index_and_off e s m pg = (cur_gpu_base_index (nvfsio m) + 1, 65536)"
  using assms
  by (simp add: nvfs_mgroup_get_gpu_index_and_off_def nvfs_geom drop_bit_eq_div push_bit_eq_mult Let_def)

definition ex_page_state :: kstate where
  "ex_page_state = ex_state\<lparr>kpages := (\<lambda>pg. \<lparr> page_index = 4294967296 * 1024 + pg, page_mapping = False \<rparr>)\<rparr>"

theorem gpu_offset_wrong_16k_witness:
  "nvfs_mgroup_get_gpu_index_and_off (ex_env\<lparr>page_shift := 14\<rparr>) ex_page_state ex_group 4 = (1, 65536)"
  using gpu_offset_wrong_16k [where e = "ex_env\<lparr>page_shift := 14\<rparr>" and s = ex_page_state and pg = 4 and m = ex_group]
  by (simp add: rel_page_def ex_page_state_def NVFS_PAGE_INDEX_def nvfs_geom ex_group_def
      zero_mgroup_def zero_nvfs_io_def)

end
