(* ===== verification/Nvfs_Sparse.thy ===== *)
theory Nvfs_Sparse
  imports Nvfs_Blocks
begin

text \<open>
  What \<^verbatim>\<open>nvfs_mgroup_check_and_set\<close> reports about the holes of a sparse file when a read
  completes: the table of regions against the set of blocks that saw no DMA.
\<close>

section \<open>Tables of regions\<close>

definition region :: "nvfs_io_hole \<Rightarrow> nat set" where
  "region h = {hole_start h ..< hole_start h + npages h}"

definition covered :: "nvfs_io_hole list \<Rightarrow> nat set" where
  "covered hs = (\<Union>h \<in> set hs. region h)"

text \<open>Regions in ascending order, none empty, with at least one block between two of them.\<close>

definition separated :: "nvfs_io_hole list \<Rightarrow> bool" where
  "separated hs \<longleftrightarrow> (\<forall>h \<in> set hs. 1 \<le> npages h) \<and>
     sorted_wrt (\<lambda>h h'. hole_start h + npages h < hole_start h') hs"

lemma covered_simps [simp]:
  "covered [] = {}" "covered (hs @ hs') = covered hs \<union> covered hs'" "covered [h] = region h"
  by (auto simp: covered_def)

lemma separated_Nil [simp]: "separated []"
  by (simp add: separated_def)

lemma separated_snoc:
  "separated (hs @ [h]) \<longleftrightarrow> separated hs \<and> 1 \<le> npages h \<and>
     (\<forall>h' \<in> set hs. hole_start h' + npages h' < hole_start h)"
  by (auto simp: separated_def sorted_wrt_append)

text \<open>Regions that must keep a distance take two blocks each, but for the last.\<close>

lemma separated_count:
  "separated hs \<Longrightarrow> (\<forall>h \<in> set hs. hole_start h + npages h \<le> n) \<Longrightarrow> 2 * length hs \<le> n + 1"
proof (induction hs arbitrary: n rule: rev_induct)
  case Nil
  then show ?case by simp
next
  case (snoc h hs)
  show ?case
  proof (cases hs)
    case Nil
    with snoc.prems show ?thesis by (simp add: separated_def)
  next
    case Cons
    then have ne: "hs \<noteq> []" by simp
    from snoc.prems have "separated hs" and h: "1 \<le> npages h" "hole_start h + npages h \<le> n"
      and sep: "\<forall>h' \<in> set hs. hole_start h' + npages h' < hole_start h"
      by (auto simp: separated_snoc)
    from ne sep have "0 < hole_start h" by (metis gr_zeroI hd_in_set not_less_zero)
    moreover have "\<forall>h' \<in> set hs. hole_start h' + npages h' \<le> hole_start h - 1" using sep by fastforce
    from snoc.IH [OF \<open>separated hs\<close> this] have "2 * length hs \<le> hole_start h - 1 + 1" .
    ultimately show ?thesis using h by simp
  qed
qed

section \<open>The loop keeps the table\<close>

text \<open>
  \<open>hole_inv start i H c hs\<close>: after the blocks below \<open>i\<close>, the first regions of the table are
  \<open>hs\<close>; they cover exactly the blocks below \<open>i\<close> that satisfy \<open>H\<close>, counted from \<open>start\<close>;
  and the variables of the loop say where the last region ends.
\<close>

definition last_end :: "nvfs_io_hole list \<Rightarrow> nat" where
  "last_end hs = hole_start (last hs) + npages (last hs)"

definition hole_inv :: "nat \<Rightarrow> nat \<Rightarrow> (nat \<Rightarrow> bool) \<Rightarrow> cas_vars \<Rightarrow> nvfs_io_hole list \<Rightarrow> bool" where
  "hole_inv start i H c hs \<longleftrightarrow>
     c_limit c = 0 \<and> c_ret c = 0 \<and> c_nholes c = int (length hs) - 1 \<and>
     (case c_sparse c of
        None \<Rightarrow> hs = [] \<and> \<not> c_check_sparse c
      | Some sp \<Rightarrow> length (hole sp) = NVFS_MAX_HOLE_REGIONS \<and> take (length hs) (hole sp) = hs) \<and>
     length hs \<le> NVFS_MAX_HOLE_REGIONS \<and>
     covered hs = {j. start + j < i \<and> H (start + j)} \<and> separated hs \<and>
     c_last_sparse c = (if hs = [] then -1 else int (start + last_end hs) - 1)"

lemma hole_inv_skip:
  "hole_inv start i H c hs \<Longrightarrow> \<not> H i \<Longrightarrow> hole_inv start (Suc i) H c hs"
  by (auto simp: hole_inv_def less_Suc_eq)

lemma hole_inv_md [simp]: "hole_inv start i H (c\<lparr>c_md := md\<rparr>) hs = hole_inv start i H c hs"
  unfolding hole_inv_def by (cases "c_sparse c") simp_all

lemma region_ends:
  assumes "covered hs = {j. start + j < i \<and> H (start + j)}" and "separated hs" and "h \<in> set hs"
  shows "start + hole_start h + npages h \<le> i"
proof -
  have "1 \<le> npages h" using assms(2,3) by (simp add: separated_def)
  then have "hole_start h + npages h - 1 \<in> region h" by (auto simp: region_def)
  then have "hole_start h + npages h - 1 \<in> covered hs" using assms(3) by (auto simp: covered_def)
  with assms(1) have "start + (hole_start h + npages h - 1) < i" by simp
  with \<open>1 \<le> npages h\<close> show ?thesis by linarith
qed

lemma insert_below:
  assumes "start \<le> i" and "H i"
  shows "insert (i - start) {j. start + j < i \<and> H (start + j)} = {j. start + j < Suc i \<and> H (start + j)}"
proof (rule set_eqI)
  fix j
  show "j \<in> insert (i - start) {j. start + j < i \<and> H (start + j)} \<longleftrightarrow>
      j \<in> {j. start + j < Suc i \<and> H (start + j)}"
    using assms by (cases "start + j = i") auto
qed

lemma take_Suc_update:
  "take n xs = ys \<Longrightarrow> n < length xs \<Longrightarrow> take (Suc n) (xs[n := x]) = ys @ [x]"
  by (auto simp: take_Suc_conv_app_nth)

lemma hole_new_region:
  assumes inv: "hole_inv start i H c hs" and sp: "c_sparse c = Some sp" and H: "H i"
    and i: "start \<le> i" "i - start < 1536"
    and new: "c_last_sparse c < 0 \<or> c_last_sparse c + 1 \<noteq> int i"
  shows "\<exists>c' hs'. cas_hole start i sp c = Some c' \<and> hole_inv start (Suc i) H c' hs' \<and> c_md c' = c_md c \<and>
    c_check_sparse c' = c_check_sparse c \<and> c_sparse c' \<noteq> None"
proof -
  let ?h = "\<lparr> hole_start = i - start, npages = 1 \<rparr>"
  from inv sp have *: "c_limit c = 0" "c_ret c = 0" "c_nholes c = int (length hs) - 1"
    "length (hole sp) = NVFS_MAX_HOLE_REGIONS" "take (length hs) (hole sp) = hs"
    "covered hs = {j. start + j < i \<and> H (start + j)}" "separated hs"
    "c_last_sparse c = (if hs = [] then -1 else int (start + last_end hs) - 1)"
    by (auto simp: hole_inv_def)
  have before: "hole_start h + npages h < i - start" if h: "h \<in> set hs" for h
  proof -
    have le: "start + hole_start h + npages h \<le> i" using region_ends [OF *(6,7) h] .
    obtain hs0 where hs: "hs = hs0 @ [last hs]" using h by (metis append_butlast_last_id empty_iff list.set(1))
    show ?thesis
    proof (cases "h = last hs")
      case True
      moreover from *(7) h have "1 \<le> npages h" by (simp add: separated_def)
      ultimately have "start + hole_start h + npages h \<noteq> i"
        using new *(8) h by (auto simp: last_end_def split: if_splits)
      with le show ?thesis by linarith
    next
      case False
      with h hs have "h \<in> set hs0" by (metis UnE empty_iff insert_iff list.set set_append)
      with *(7) hs have "hole_start h + npages h < hole_start (last hs)" by (metis separated_snoc)
      moreover have "last hs \<in> set hs" using h by (metis empty_iff last_in_set list.set(1))
      from region_ends [OF *(6,7) this] have "start + hole_start (last hs) + npages (last hs) \<le> i" .
      ultimately show ?thesis by linarith
    qed
  qed
  have sep: "separated (hs @ [?h])" using *(7) before by (simp add: separated_snoc)
  have "2 * length (hs @ [?h]) \<le> i - start + 1 + 1"
    by (rule separated_count [OF sep]) (use before in \<open>auto intro: less_imp_le less_SucI\<close>)
  then have len: "length hs < NVFS_MAX_HOLE_REGIONS" using i(2) by simp
  let ?sp = "sp\<lparr>hole := (hole sp)[length hs := ?h]\<rparr>"
  let ?c = "c\<lparr>c_sparse := Some ?sp, c_nholes := int (length hs), c_last_sparse := int i\<rparr>"
  have "cas_hole start i sp c = Some ?c"
    using new *(1,3,4) len by (auto simp: cas_hole_def upd_hole_def Let_def)
  moreover have "hole_inv start (Suc i) H ?c (hs @ [?h])"
  proof -
    have "take (Suc (length hs)) ((hole sp)[length hs := ?h]) = hs @ [?h]"
      using *(4) len by (intro take_Suc_update *(5)) simp
    moreover have "covered (hs @ [?h]) = {j. start + j < Suc i \<and> H (start + j)}"
    proof -
      have "region ?h = {i - start}" by (auto simp: region_def)
      then show ?thesis using *(6) insert_below [OF i(1), of H] H by simp
    qed
    ultimately show ?thesis
      using *(1,2,4) len sep i(1) by (auto simp: hole_inv_def last_end_def)
  qed
  ultimately show ?thesis by (intro exI [of _ ?c] exI [of _ "hs @ [?h]"]) simp
qed

lemma hole_extend_region:
  assumes inv: "hole_inv start i H c hs" and sp: "c_sparse c = Some sp" and H: "H i" and i: "start \<le> i"
    and ext: "\<not> (c_last_sparse c < 0 \<or> c_last_sparse c + 1 \<noteq> int i)"
  shows "\<exists>c' hs'. cas_hole start i sp c = Some c' \<and> hole_inv start (Suc i) H c' hs' \<and> c_md c' = c_md c \<and>
    c_check_sparse c' = c_check_sparse c \<and> c_sparse c' \<noteq> None"
proof -
  from inv sp have *: "c_limit c = 0" "c_ret c = 0" "c_nholes c = int (length hs) - 1"
    "length (hole sp) = NVFS_MAX_HOLE_REGIONS" "take (length hs) (hole sp) = hs"
    "covered hs = {j. start + j < i \<and> H (start + j)}" "separated hs" "length hs \<le> NVFS_MAX_HOLE_REGIONS"
    "c_last_sparse c = (if hs = [] then -1 else int (start + last_end hs) - 1)"
    by (auto simp: hole_inv_def)
  from ext *(9) have ne: "hs \<noteq> []" by auto
  then obtain hs0 h where hs: "hs = hs0 @ [h]" by (metis append_butlast_last_id)
  from ext *(9) ne have end_i: "start + hole_start h + npages h = i" by (auto simp: last_end_def hs)
  let ?h = "h\<lparr>npages := npages h + 1\<rparr>"
  have nth: "hole sp ! length hs0 = h"
    using *(5) hs by (metis length_append_singleton lessI nth_append_length nth_take)
  let ?sp = "sp\<lparr>hole := (hole sp)[length hs0 := ?h]\<rparr>"
  let ?c = "c\<lparr>c_sparse := Some ?sp, c_last_sparse := int i\<rparr>"
  have "cas_hole start i sp c = Some ?c"
    using ext *(1,3,4,8) nth by (auto simp: cas_hole_def upd_hole_def hs)
  moreover have "hole_inv start (Suc i) H ?c (hs0 @ [?h])"
  proof -
    have "take (length hs0) (take (length hs) (hole sp)) = hs0" unfolding *(5) by (simp add: hs)
    then have "take (length hs0) (hole sp) = hs0" by (simp add: hs)
    then have "take (Suc (length hs0)) ((hole sp)[length hs0 := ?h]) = hs0 @ [?h]"
      using *(4,8) by (intro take_Suc_update) (simp_all add: hs)
    moreover have "separated (hs0 @ [?h])" using *(7) by (simp add: hs separated_snoc)
    moreover have "covered (hs0 @ [?h]) = {j. start + j < Suc i \<and> H (start + j)}"
    proof -
      have "region ?h = insert (i - start) (region h)" using end_i by (auto simp: region_def)
      then have "covered (hs0 @ [?h]) = insert (i - start) (covered hs)" by (auto simp: hs)
      then show ?thesis using *(6) insert_below [OF i, of H] H by simp
    qed
    ultimately show ?thesis
      using *(1-4,8) end_i by (auto simp: hole_inv_def last_end_def hs)
  qed
  ultimately show ?thesis by (intro exI [of _ ?c] exI [of _ "hs0 @ [?h]"]) simp
qed

lemma cas_hole_step:
  assumes "hole_inv start i H c hs" and "c_sparse c = Some sp" and "H i"
    and "start \<le> i" and "i - start < 1536"
  shows "\<exists>c' hs'. cas_hole start i sp c = Some c' \<and> hole_inv start (Suc i) H c' hs' \<and> c_md c' = c_md c \<and>
    c_check_sparse c' = c_check_sparse c \<and> c_sparse c' \<noteq> None"
  using hole_new_region [OF assms] hole_extend_region [OF assms(1-4)] by blast

text \<open>
  A validated completion of a read, as the loop finds it: the request was not interrupted,
  its active blocks are at most 1536 and each was queued or has started its DMA, and the
  completion page has room for the table. \<open>missed\<close> are the blocks of it that the request
  has reached but that saw no DMA.
\<close>

definition read_completion :: "kenv \<Rightarrow> kstate \<Rightarrow> nvfs_io_mgroup \<Rightarrow> nvfs_io_metadata list \<Rightarrow> bool" where
  "read_completion e s m md \<longleftrightarrow>
     nvfs_metadata m = Some md \<and> io_op (nvfsio m) = READ \<and> \<not> pf_exiting e \<and>
     0 \<le> io_ret (nvfsio m) \<and> io_ret (nvfsio m) \<le> uint (io_length (nvfsio m)) \<and>
     nvfs_active_blocks_start (nvfsio m) \<le> nvfs_active_blocks_end (nvfsio m) \<and>
     nvfs_active_blocks_end (nvfsio m) < length md \<and>
     nvfs_active_blocks_end (nvfsio m) - nvfs_active_blocks_start (nvfsio m) < 1536 \<and>
     (\<forall>i. nvfs_active_blocks_start (nvfsio m) \<le> i \<and> i \<le> nvfs_active_blocks_end (nvfsio m) \<longrightarrow>
        nvfs_state (md ! i) \<in> {NVFS_IO_QUEUED, NVFS_IO_DMA_START}) \<and>
     (\<exists>pg. end_fence_page (gpu_info m) = Some pg \<and>
        length (hole (sparse_data (metapages s pg))) = NVFS_MAX_HOLE_REGIONS)"

definition missed :: "nvfs_io_mgroup \<Rightarrow> nvfs_io_metadata list \<Rightarrow> nat \<Rightarrow> bool" where
  "missed m md i \<longleftrightarrow> int i \<le> cas_last_done (nvfsio m) \<and> nvfs_state (md ! i) \<noteq> NVFS_IO_DMA_START"

definition done_inv :: "nvfs_io_mgroup \<Rightarrow> nvfs_io_metadata list \<Rightarrow> nat \<Rightarrow> cas_vars \<Rightarrow> bool" where
  "done_inv m md i c \<longleftrightarrow>
     (\<exists>hs. hole_inv (nvfs_active_blocks_start (nvfsio m)) i (missed m md) c hs) \<and>
     c_md c = upd_between (nvfs_active_blocks_start (nvfsio m)) i (set_blk NVFS_IO_DONE) md \<and>
     (c_sparse c = None \<longrightarrow> \<not> check_sparse (nvfsio m))"

lemma done_block_step:
  assumes rc: "read_completion e s m md" and inv: "done_inv m md i c"
    and i: "nvfs_active_blocks_start (nvfsio m) \<le> i" "i \<le> nvfs_active_blocks_end (nvfsio m)"
  shows "\<exists>c' hs'. cas_done_block s m True (cas_last_done (nvfsio m)) i (nvfs_state (md ! i)) c = Some c' \<and>
    hole_inv (nvfs_active_blocks_start (nvfsio m)) (Suc i) (missed m md) c' hs' \<and> c_md c' = c_md c \<and>
    (c_sparse c' = None \<longrightarrow> c_sparse c = None)"
proof -
  let ?start = "nvfs_active_blocks_start (nvfsio m)"
  from inv obtain hs where hs: "hole_inv ?start i (missed m md) c hs" by (auto simp: done_inv_def)
  show ?thesis
  proof (cases "missed m md i")
    case False
    with rc i have "cas_done_block s m True (cas_last_done (nvfsio m)) i (nvfs_state (md ! i)) c = Some c"
      by (auto simp: cas_done_block_def missed_def read_completion_def)
    with hole_inv_skip [OF hs False] show ?thesis by blast
  next
    case True
    have lt: "i - ?start < 1536" using rc i by (auto simp: read_completion_def)
    obtain pg where pg: "end_fence_page (gpu_info m) = Some pg"
      "length (hole (sparse_data (metapages s pg))) = NVFS_MAX_HOLE_REGIONS"
      using rc by (auto simp: read_completion_def)
    obtain c1 sp where c1: "c_sparse c1 = Some sp" "hole_inv ?start i (missed m md) c1 hs" "c_md c1 = c_md c"
      "cas_done_block s m True (cas_last_done (nvfsio m)) i (nvfs_state (md ! i)) c = cas_hole ?start i sp c1"
    proof (cases "c_sparse c")
      case (Some sp)
      with True rc have "cas_done_block s m True (cas_last_done (nvfsio m)) i (nvfs_state (md ! i)) c =
          cas_hole ?start i sp c"
        by (auto simp: cas_done_block_def missed_def read_completion_def)
      with Some hs show ?thesis by (intro that [of c sp]) simp_all
    next
      case None
      let ?sp = "(sparse_data (metapages s pg))\<lparr>sparse_magic := NVFS_START_MAGIC, nvfs_meta_version := 1, nholes := 0\<rparr>"
      have "hs = []" using None hs by (simp add: hole_inv_def)
      then have "hole_inv ?start i (missed m md) (c\<lparr>c_check_sparse := True, c_sparse := Some ?sp\<rparr>) hs"
        using None hs pg(2) by (simp add: hole_inv_def)
      moreover have "\<not> c_check_sparse c" using None hs by (simp add: hole_inv_def)
      then have "cas_done_block s m True (cas_last_done (nvfsio m)) i (nvfs_state (md ! i)) c =
          cas_hole ?start i ?sp (c\<lparr>c_check_sparse := True, c_sparse := Some ?sp\<rparr>)"
        using None True rc pg
        by (auto simp: cas_done_block_def missed_def read_completion_def nvfs_io_map_sparse_data_def)
      ultimately show ?thesis by (intro that [of "c\<lparr>c_check_sparse := True, c_sparse := Some ?sp\<rparr>" ?sp]) simp_all
    qed
    from cas_hole_step [OF c1(2,1) True i(1) lt] c1(3,4) show ?thesis by auto
  qed
qed

lemma cas_block_step:
  assumes rc: "read_completion e s m md" and inv: "done_inv m md i c"
    and i: "nvfs_active_blocks_start (nvfsio m) \<le> i" "i \<le> nvfs_active_blocks_end (nvfsio m)"
  shows "\<exists>c'. cas_block e s m NVFS_IO_DONE True (cas_last_done (nvfsio m)) i c = Some c' \<and> done_inv m md (Suc i) c'"
proof -
  let ?start = "nvfs_active_blocks_start (nvfsio m)"
  obtain c1 hs1 where c1: "cas_done_block s m True (cas_last_done (nvfsio m)) i (nvfs_state (md ! i)) c = Some c1"
    "hole_inv ?start (Suc i) (missed m md) c1 hs1" "c_md c1 = c_md c" "c_sparse c1 = None \<longrightarrow> c_sparse c = None"
    using done_block_step [OF assms] by (elim exE conjE)
  have md: "c_md c = upd_between ?start i (set_blk NVFS_IO_DONE) md" using inv by (simp add: done_inv_def)
  have len: "i < length md" using rc i by (simp add: read_completion_def)
  then have nth: "c_md c ! i = md ! i" "i < length (c_md c)" by (simp_all add: md)
  have nf: "\<not> cas_frozen e m NVFS_IO_DONE i" using rc by (auto simp: cas_frozen_def read_completion_def)
  let ?c = "c1\<lparr>c_md := (c_md c)[i := set_blk NVFS_IO_DONE (md ! i)]\<rparr>"
  have "cas_block e s m NVFS_IO_DONE True (cas_last_done (nvfsio m)) i c = Some ?c"
    using c1(1,3) nth i nf by (simp add: cas_block_def Let_def)
  moreover have "(c_md c)[i := set_blk NVFS_IO_DONE (md ! i)] = upd_between ?start (Suc i) (set_blk NVFS_IO_DONE) md"
    unfolding md using i len by (intro upd_between_snoc) simp_all
  moreover have "hole_inv ?start (Suc i) (missed m md) ?c hs1"
    using c1(2) by simp
  ultimately show ?thesis using c1(4) inv by (auto simp: done_inv_def)
qed

lemma cas_loop:
  assumes rc: "read_completion e s m md" and c0: "done_inv m md (nvfs_active_blocks_start (nvfsio m)) c0"
    and n: "nvfs_active_blocks_start (nvfsio m) + n \<le> nvfs_active_blocks_end (nvfsio m) + 1"
  shows "\<exists>c. ofold (cas_block e s m NVFS_IO_DONE True (cas_last_done (nvfsio m)))
      [nvfs_active_blocks_start (nvfsio m) ..< nvfs_active_blocks_start (nvfsio m) + n] c0 = Some c \<and>
    done_inv m md (nvfs_active_blocks_start (nvfsio m) + n) c"
  using n
proof (induction n)
  case 0
  with c0 show ?case by simp
next
  case (Suc n)
  let ?start = "nvfs_active_blocks_start (nvfsio m)"
  from Suc obtain c where c: "ofold (cas_block e s m NVFS_IO_DONE True (cas_last_done (nvfsio m)))
      [?start ..< ?start + n] c0 = Some c" "done_inv m md (?start + n) c" by auto
  from cas_block_step [OF rc c(2)] Suc.prems obtain c' where
    "cas_block e s m NVFS_IO_DONE True (cas_last_done (nvfsio m)) (?start + n) c = Some c'"
    "done_inv m md (Suc (?start + n)) c'" by auto
  with c(1) show ?case by (simp add: ofold_append)
qed

section \<open>After the loop\<close>

lemma publish_stats:
  assumes "n \<le> length hs"
  shows "\<exists>f. ofold (\<lambda>i s. do { h \<leftarrow> arr_get hs i;
      Some (kstat (nvfs_stat64_add (int (npages h)) nvfs_n_reads_sparse_pages) s) }) [0 ..< n] s = Some (kstat f s)"
  using assms
proof (induction n)
  case 0
  show ?case by (auto simp: kstat_def intro!: exI [of _ id])
next
  case (Suc n)
  then obtain f where "ofold (\<lambda>i s. do { h \<leftarrow> arr_get hs i;
      Some (kstat (nvfs_stat64_add (int (npages h)) nvfs_n_reads_sparse_pages) s) }) [0 ..< n] s = Some (kstat f s)"
    by auto
  with Suc.prems show ?case
    by (auto simp: ofold_append kstat_def
        intro!: exI [of _ "\<lambda>st. nvfs_stat64_add (int (npages (hs ! n))) nvfs_n_reads_sparse_pages (f st)"])
qed

lemma cas_publish_ok:
  assumes "c_sparse c = Some sp" and "end_fence_page (gpu_info m) = Some pg"
    and "c_nholes c = int n - 1" and "n \<le> length (hole sp)"
  shows "\<exists>s1. cas_publish m c s = Some s1 \<and> mgroups s1 = mgroups s \<and>
    metapages s1 = (metapages s)(pg := (metapages s pg)\<lparr>
      sparse_data := sp\<lparr>nholes := n, start_fd_offset := fd_offset (nvfsio m)\<rparr>,
      mp_state := (if n \<noteq> 0 then NVFS_IO_META_SPARSE else NVFS_IO_META_CLEAN)\<rparr>)"
proof -
  obtain f where "ofold (\<lambda>i s. do { h \<leftarrow> arr_get (hole sp) i;
      Some (kstat (nvfs_stat64_add (int (npages h)) nvfs_n_reads_sparse_pages) s) }) [0 ..< n]
      (kstat (nvfs_stat64_add (int n) nvfs_n_reads_sparse_region) s) =
    Some (kstat f (kstat (nvfs_stat64_add (int n) nvfs_n_reads_sparse_region) s))"
    using publish_stats [OF assms(4)] by blast
  then show ?thesis
    using assms by (simp add: cas_publish_def nvfs_io_unmap_sparse_data_def Let_def)
      (simp add: kstat_def)
qed

text \<open>The loop's outcome for a whole request.\<close>

lemma cas_done_loop:
  assumes rc: "read_completion e s m md"
  shows "\<exists>c0 c hs. cas_init s m md NVFS_IO_DONE True = Some c0 \<and>
    ofold (cas_block e s m NVFS_IO_DONE True (cas_last_done (nvfsio m))) (cas_range m NVFS_IO_DONE) c0 = Some c \<and>
    hole_inv (nvfs_active_blocks_start (nvfsio m)) (nvfs_active_blocks_end (nvfsio m) + 1) (missed m md) c hs \<and>
    c_md c = upd_between (nvfs_active_blocks_start (nvfsio m)) (nvfs_active_blocks_end (nvfsio m) + 1)
      (set_blk NVFS_IO_DONE) md"
proof -
  let ?start = "nvfs_active_blocks_start (nvfsio m)" and ?last = "nvfs_active_blocks_end (nvfsio m)"
  obtain pg where pg: "end_fence_page (gpu_info m) = Some pg"
    "length (hole (sparse_data (metapages s pg))) = NVFS_MAX_HOLE_REGIONS"
    using rc by (auto simp: read_completion_def)
  obtain c0 where c0: "cas_init s m md NVFS_IO_DONE True = Some c0" "done_inv m md ?start c0"
  proof (cases "check_sparse (nvfsio m)")
    case True
    with rc pg that show ?thesis
      by (force simp: cas_init_def read_completion_def nvfs_io_map_sparse_data_def done_inv_def hole_inv_def)
  next
    case False
    with rc pg that show ?thesis
      by (force simp: cas_init_def read_completion_def done_inv_def hole_inv_def)
  qed
  have le: "?start \<le> ?last" using rc by (simp add: read_completion_def)
  then have n: "?start + (?last + 1 - ?start) = ?last + 1" by simp
  obtain c where "ofold (cas_block e s m NVFS_IO_DONE True (cas_last_done (nvfsio m)))
      [?start ..< ?last + 1] c0 = Some c" "done_inv m md (?last + 1) c"
    using cas_loop [OF rc c0(2), of "?last + 1 - ?start"] unfolding n by auto
  with c0(1) show ?thesis by (auto simp: cas_range_def done_inv_def)
qed

lemma check_and_set_done:
  assumes "mgroups s p = Some m" and "read_completion e s m md" and "end_fence_page (gpu_info m) = Some pg"
  shows "\<exists>c hs m' s'. nvfs_mgroup_check_and_set e p NVFS_IO_DONE True True s = Some s' \<and> mgroups s' p = Some m' \<and>
    m' = m\<lparr>nvfs_metadata := Some (c_md c), nvfsio := cas_io e NVFS_IO_DONE True c (nvfsio m)\<rparr> \<and>
    hole_inv (nvfs_active_blocks_start (nvfsio m)) (nvfs_active_blocks_end (nvfsio m) + 1) (missed m md) c hs \<and>
    c_md c = upd_between (nvfs_active_blocks_start (nvfsio m)) (nvfs_active_blocks_end (nvfsio m) + 1)
      (set_blk NVFS_IO_DONE) md \<and>
    (\<forall>sp. c_sparse c = Some sp \<longrightarrow> metapages s' pg = (metapages s pg)\<lparr>
      sparse_data := sp\<lparr>nholes := length hs, start_fd_offset := fd_offset (nvfsio m)\<rparr>,
      mp_state := (if length hs \<noteq> 0 then NVFS_IO_META_SPARSE else NVFS_IO_META_CLEAN)\<rparr>)"
proof -
  obtain c0 c hs where init: "cas_init s m md NVFS_IO_DONE True = Some c0"
    and loop: "ofold (cas_block e s m NVFS_IO_DONE True (cas_last_done (nvfsio m))) (cas_range m NVFS_IO_DONE) c0 = Some c"
    and inv: "hole_inv (nvfs_active_blocks_start (nvfsio m)) (nvfs_active_blocks_end (nvfsio m) + 1) (missed m md) c hs"
    and md: "c_md c = upd_between (nvfs_active_blocks_start (nvfsio m)) (nvfs_active_blocks_end (nvfsio m) + 1)
      (set_blk NVFS_IO_DONE) md"
    using cas_done_loop [OF assms(2)] by blast
  define m' where "m' = m\<lparr>nvfs_metadata := Some (c_md c), nvfsio := cas_io e NVFS_IO_DONE True c (nvfsio m)\<rparr>"
  have mdm: "nvfs_metadata m = Some md" using assms(2) by (simp add: read_completion_def)
  obtain s1 where s1: "cas_publish m c s = Some s1" "mgroups s1 = mgroups s"
    "\<forall>sp. c_sparse c = Some sp \<longrightarrow> metapages s1 pg = (metapages s pg)\<lparr>
      sparse_data := sp\<lparr>nholes := length hs, start_fd_offset := fd_offset (nvfsio m)\<rparr>,
      mp_state := (if length hs \<noteq> 0 then NVFS_IO_META_SPARSE else NVFS_IO_META_CLEAN)\<rparr>"
  proof (cases "c_sparse c")
    case None
    then show ?thesis using that [of s] by (simp add: cas_publish_def)
  next
    case (Some sp)
    with inv have "c_nholes c = int (length hs) - 1" "length hs \<le> length (hole sp)"
      by (simp_all add: hole_inv_def)
    from cas_publish_ok [OF Some assms(3) this] Some that show ?thesis by fastforce
  qed
  have "nvfs_mgroup_check_and_set e p NVFS_IO_DONE True True s = Some (s1\<lparr>mgroups := (mgroups s1)(p \<mapsto> m')\<rparr>)"
    using assms(1) mdm init loop s1(1,2) by (simp add: nvfs_mgroup_check_and_set_def Let_def m'_def)
  with inv md s1(3) show ?thesis
    by (intro exI [of _ c] exI [of _ hs] exI [of _ m'] exI [of _ "s1\<lparr>mgroups := (mgroups s1)(p \<mapsto> m')\<rparr>"])
      (simp add: m'_def)
qed

section \<open>Properties\<close>

text \<open>
  C8. The sparse-read report is exact. When a read of at most 1536 blocks (the 6 MiB that the
  table of 768 regions is laid out for) completes with every active block queued or
  DMA-started, \<^verbatim>\<open>nvfs_mgroup_check_and_set\<close> returns, marks exactly the active blocks done,
  clears the active range, leaves the byte count of the request alone, and, if any block
  within the bytes read saw no DMA, publishes a table of at most 768 regions, in ascending
  order and with a gap between any two, that cover precisely those blocks, with the file
  offset they count from; the request is marked sparse exactly then.
\<close>

theorem sparse_report_exact:
  assumes "mgroups s p = Some m" and "read_completion e s m md"
    and "end_fence_page (gpu_info m) = Some pg" and "io_meta (nvfsio m) = NVFS_IO_META_CLEAN"
    and "H = {j. nvfs_active_blocks_start (nvfsio m) + j \<le> nvfs_active_blocks_end (nvfsio m) \<and>
               missed m md (nvfs_active_blocks_start (nvfsio m) + j)}"
  shows "\<exists>s' m'. nvfs_mgroup_check_and_set e p NVFS_IO_DONE True True s = Some s' \<and> mgroups s' p = Some m' \<and>
    nvfs_metadata m' = Some (upd_between (nvfs_active_blocks_start (nvfsio m))
      (nvfs_active_blocks_end (nvfsio m) + 1) (set_blk NVFS_IO_DONE) md) \<and>
    nvfs_active_blocks_start (nvfsio m') = 0 \<and> nvfs_active_blocks_end (nvfsio m') = 0 \<and>
    io_ret (nvfsio m') = io_ret (nvfsio m) \<and>
    (io_meta (nvfsio m') = NVFS_IO_META_SPARSE \<longleftrightarrow> H \<noteq> {}) \<and>
    (H \<noteq> {} \<longrightarrow> (let sp = sparse_data (metapages s' pg); hs = take (nholes sp) (hole sp) in
       covered hs = H \<and> separated hs \<and> nholes sp \<le> NVFS_MAX_HOLE_REGIONS \<and> length hs = nholes sp \<and>
       start_fd_offset sp = fd_offset (nvfsio m) \<and> mp_state (metapages s' pg) = NVFS_IO_META_SPARSE))"
proof -
  obtain c hs m' s' where run: "nvfs_mgroup_check_and_set e p NVFS_IO_DONE True True s = Some s'"
    and m': "mgroups s' p = Some m'" "m' = m\<lparr>nvfs_metadata := Some (c_md c), nvfsio := cas_io e NVFS_IO_DONE True c (nvfsio m)\<rparr>"
    and inv: "hole_inv (nvfs_active_blocks_start (nvfsio m)) (nvfs_active_blocks_end (nvfsio m) + 1) (missed m md) c hs"
    and md: "c_md c = upd_between (nvfs_active_blocks_start (nvfsio m)) (nvfs_active_blocks_end (nvfsio m) + 1)
      (set_blk NVFS_IO_DONE) md"
    and pub: "\<forall>sp. c_sparse c = Some sp \<longrightarrow> metapages s' pg = (metapages s pg)\<lparr>
      sparse_data := sp\<lparr>nholes := length hs, start_fd_offset := fd_offset (nvfsio m)\<rparr>,
      mp_state := (if length hs \<noteq> 0 then NVFS_IO_META_SPARSE else NVFS_IO_META_CLEAN)\<rparr>"
    using check_and_set_done [OF assms(1-3)] by (elim exE conjE)
  have ex: "\<not> pf_exiting e" "0 \<le> io_ret (nvfsio m)" using assms(2) by (auto simp: read_completion_def)
  have cov: "covered hs = H" "separated hs" "c_nholes c = int (length hs) - 1" "c_limit c = 0" "c_ret c = 0"
    "length hs \<le> NVFS_MAX_HOLE_REGIONS"
    using inv assms(5) by (auto simp: hole_inv_def less_Suc_eq_le)
  have ne: "hs \<noteq> [] \<longleftrightarrow> H \<noteq> {}"
    using cov(1,2) by (cases hs) (auto simp: covered_def separated_def region_def)
  have io: "nvfs_active_blocks_start (nvfsio m') = 0 \<and> nvfs_active_blocks_end (nvfsio m') = 0 \<and>
      io_ret (nvfsio m') = io_ret (nvfsio m)"
    using ex cov(4,5) by (simp add: m'(2) cas_io_def Let_def split: option.splits)
  show ?thesis
  proof (cases "c_sparse c")
    case None
    with inv have "hs = []" by (simp add: hole_inv_def)
    moreover from None ex cov(4,5) assms(4) have "io_meta (nvfsio m') = NVFS_IO_META_CLEAN"
      by (simp add: m'(2) cas_io_def Let_def)
    ultimately show ?thesis using run m' io md ne by simp
  next
    case (Some sp)
    with inv have "length (hole sp) = NVFS_MAX_HOLE_REGIONS" "take (length hs) (hole sp) = hs"
      by (simp_all add: hole_inv_def)
    moreover have "io_meta (nvfsio m') = NVFS_IO_META_SPARSE \<longleftrightarrow> H \<noteq> {}"
      using Some ex cov(3-5) ne by (auto simp: m'(2) cas_io_def Let_def)
    ultimately show ?thesis using run m' io md ne cov pub Some by (simp add: Let_def)
  qed
qed

definition ex_md :: "nvfs_io_metadata list" where
  "ex_md = map (\<lambda>st. \<lparr> nvfs_start_magic = NVFS_START_MAGIC, nvfs_state = st, md_page = Some 500 \<rparr>)
     [NVFS_IO_DMA_START, NVFS_IO_QUEUED, NVFS_IO_QUEUED, NVFS_IO_DMA_START]"

definition ex_read_group :: nvfs_io_mgroup where
  "ex_read_group = ex_group\<lparr>nvfs_blocks_count := 4, nvfs_metadata := Some ex_md,
     gpu_info := zero_gpu_args\<lparr>end_fence_page := Some 900\<rparr>,
     nvfsio := zero_nvfs_io\<lparr>io_ret := 16384, io_length := 16384, nvfs_active_blocks_end := 3,
       fd_offset := 8192\<rparr>\<rparr>"

lemma ex_read_missed:
  "{j. 0 + j \<le> 3 \<and> missed ex_read_group ex_md (0 + j)} = {1, 2}"
proof -
  have last: "cas_last_done (nvfsio ex_read_group) = 3"
    by (simp add: cas_last_done_def ex_read_group_def zero_nvfs_io_def DIV_ROUND_UP_def Let_def)
  have "0 + j \<le> 3 \<and> missed ex_read_group ex_md (0 + j) \<longleftrightarrow> j = 1 \<or> j = 2" for j :: nat
  proof -
    consider "j = 0" | "j = 1" | "j = 2" | "j = 3" | "j > 3" by linarith
    then show ?thesis by cases (simp_all add: missed_def last ex_md_def numeral_2_eq_2 numeral_3_eq_3)
  qed
  then show ?thesis by auto
qed

theorem sparse_report_exact_witness:
  "\<exists>s' m'. nvfs_mgroup_check_and_set ex_env 100 NVFS_IO_DONE True True
       (ex_state\<lparr>mgroups := [100 \<mapsto> ex_read_group]\<rparr>) = Some s' \<and> mgroups s' 100 = Some m' \<and>
     io_meta (nvfsio m') = NVFS_IO_META_SPARSE \<and>
     covered (take (nholes (sparse_data (metapages s' 900))) (hole (sparse_data (metapages s' 900)))) = {1, 2}"
proof -
  let ?s = "ex_state\<lparr>mgroups := [100 \<mapsto> ex_read_group]\<rparr>"
  have st: "nvfs_state (ex_md ! i) \<in> {NVFS_IO_QUEUED, NVFS_IO_DMA_START}" if i3: "i \<le> 3" for i
  proof -
    consider "i = 0" | "i = 1" | "i = 2" | "i = 3" using i3 by linarith
    then show ?thesis by cases (simp_all add: ex_md_def numeral_2_eq_2 numeral_3_eq_3)
  qed
  have rc: "read_completion ex_env ?s ex_read_group ex_md"
    using st by (auto simp: read_completion_def ex_read_group_def zero_nvfs_io_def ex_env_def ex_state_def
        empty_kstate_def zero_metapage_def ex_md_def)
  have g: "mgroups ?s 100 = Some ex_read_group" "end_fence_page (gpu_info ex_read_group) = Some 900"
    "io_meta (nvfsio ex_read_group) = NVFS_IO_META_CLEAN" "nvfs_active_blocks_start (nvfsio ex_read_group) = 0"
    "nvfs_active_blocks_end (nvfsio ex_read_group) = 3"
    by (simp_all add: ex_read_group_def zero_nvfs_io_def)
  have "{1, 2} = {j. nvfs_active_blocks_start (nvfsio ex_read_group) + j
        \<le> nvfs_active_blocks_end (nvfsio ex_read_group) \<and>
      missed ex_read_group ex_md (nvfs_active_blocks_start (nvfsio ex_read_group) + j)}"
    unfolding g(4,5) ex_read_missed ..
  from sparse_report_exact [OF g(1) rc g(2,3) this] show ?thesis
  proof (elim exE conjE)
    fix s' m'
    assume "nvfs_mgroup_check_and_set ex_env 100 NVFS_IO_DONE True True ?s = Some s'" "mgroups s' 100 = Some m'"
      "(io_meta (nvfsio m') = NVFS_IO_META_SPARSE) = ({1, 2 :: nat} \<noteq> {})"
      "{1, 2} \<noteq> {} \<longrightarrow> (let sp = sparse_data (metapages s' 900); hs = take (nholes sp) (hole sp) in
         covered hs = {1, 2} \<and> separated hs \<and> nholes sp \<le> NVFS_MAX_HOLE_REGIONS \<and> length hs = nholes sp \<and>
         start_fd_offset sp = fd_offset (nvfsio ex_read_group) \<and> mp_state (metapages s' 900) = NVFS_IO_META_SPARSE)"
    then show ?thesis by (intro exI [of _ s'] exI [of _ m']) (simp add: Let_def)
  qed
qed

text \<open>
  Past 768 regions the report goes wrong. The block that would open region 769 ends the
  recording: the request is to be cut short at its offset. But if the next block is a hole
  too, it counts as a continuation of the last recorded region, which then claims one
  block more than it has: a block of file data below the cut is reported as a hole.
\<close>

theorem hole_limit_extends_wrong_region:
  assumes "c_nholes c = 767" and "c_limit c = 0" and "0 \<le> c_last_sparse c" and "c_last_sparse c + 1 < int i"
    and "start < i" and "c_sparse c = Some sp" and "length (hole sp) = NVFS_MAX_HOLE_REGIONS"
  shows "\<exists>c1 c2 sp2. cas_hole start i sp c = Some c1 \<and> cas_hole start (i + 1) sp c1 = Some c2 \<and>
    c_limit c2 = (int i - int start) * 4096 \<and> c_sparse c2 = Some sp2 \<and>
    hole sp2 ! 767 = (hole sp ! 767)\<lparr>npages := npages (hole sp ! 767) + 1\<rparr>"
proof -
  let ?c1 = "c\<lparr>c_limit := (int i - int start) * 4096, c_last_sparse := int i\<rparr>"
  have 1: "cas_hole start i sp c = Some ?c1" using assms by (simp add: cas_hole_def)
  have "cas_hole start (i + 1) sp ?c1 = Some (?c1\<lparr>c_sparse := Some (sp\<lparr>hole := (hole sp)[767 :=
      (hole sp ! 767)\<lparr>npages := npages (hole sp ! 767) + 1\<rparr>]\<rparr>), c_last_sparse := int (i + 1)\<rparr>)"
    using assms by (simp add: cas_hole_def upd_hole_def)
  with 1 assms(7) show ?thesis by simp
qed

definition ex_full_table :: nvfs_io_sparse_data where
  "ex_full_table = (sparse_data zero_metapage)\<lparr>hole :=
     (replicate 768 \<lparr> hole_start = 0, npages = 0 \<rparr>)[767 := \<lparr> hole_start = 1534, npages = 1 \<rparr>]\<rparr>"

definition ex_full_vars :: cas_vars where
  "ex_full_vars = \<lparr> c_md = [], c_sparse = Some ex_full_table, c_check_sparse = True,
     c_last_sparse = 1534, c_nholes = 767, c_limit = 0, c_ret = 0 \<rparr>"

theorem hole_limit_extends_wrong_region_witness:
  "\<exists>c1 c2 sp2. cas_hole 0 1540 ex_full_table ex_full_vars = Some c1 \<and>
     cas_hole 0 1541 ex_full_table c1 = Some c2 \<and> c_sparse c2 = Some sp2 \<and>
     hole sp2 ! 767 = \<lparr> hole_start = 1534, npages = 2 \<rparr>"
  using hole_limit_extends_wrong_region [of ex_full_vars 1540 0 ex_full_table]
  by (auto simp: ex_full_vars_def ex_full_table_def)

end
