(* ===== verification/Nvfs_Mmap.thy ===== *)
theory Nvfs_Mmap
  imports Nvfs_IoState Nvfs_Sparse
begin

text \<open>
  The making of a shadow buffer: \<^verbatim>\<open>nvfs_mgroup_mmap\<close>, which allocates a group, its pages and
  its block table behind a user mapping, and the two ways user space names a shadow buffer
  afterwards, \<^verbatim>\<open>nvfs_mgroup_pin_shadow_pages\<close> for the map request and
  \<^verbatim>\<open>nvfs_get_mgroup_from_vaddr\<close> for an I/O request (\<^verbatim>\<open>nvfs-mmap.c\<close>).
\<close>

section \<open>Mapping\<close>

text \<open>The flag bits of the kernel's \<^verbatim>\<open>vm_flags\<close> that the driver tests and sets.\<close>

definition VM_READ :: u64 where "VM_READ = 0x1"
definition VM_WRITE :: u64 where "VM_WRITE = 0x2"
definition VM_EXEC :: u64 where "VM_EXEC = 0x4"
definition VM_SHARED :: u64 where "VM_SHARED = 0x8"
definition VM_MAYREAD :: u64 where "VM_MAYREAD = 0x10"
definition VM_MAYWRITE :: u64 where "VM_MAYWRITE = 0x20"
definition VM_RW :: u64 where "VM_RW = VM_MAYREAD OR VM_READ OR VM_MAYWRITE OR VM_WRITE"
definition vm_flags_to_set :: u64 where
  "vm_flags_to_set = 0x10000000 OR 0x40000 OR 0x4000000 OR 0x20000"

lemmas vm_bits = VM_READ_def VM_WRITE_def VM_EXEC_def VM_SHARED_def VM_MAYREAD_def VM_MAYWRITE_def VM_RW_def

definition mmap_request_ok :: "kenv \<Rightarrow> vm_area \<Rightarrow> bool" where
  "mmap_request_ok e vma \<longleftrightarrow>
     (let len = unat (vm_end vma - vm_start vma)
      in \<not> (len > NVFS_MAX_SHADOW_PAGES (page_shift e) * PAGE_SIZE (page_shift e)) \<and>
         \<not> (len < GPU_PAGE_SIZE \<and> len mod NVFS_BLOCK_SIZE \<noteq> 0) \<and>
         \<not> (len > GPU_PAGE_SIZE \<and> len mod GPU_PAGE_SIZE \<noteq> 0) \<and>
         vm_flags vma AND VM_RW = VM_RW \<and> vm_flags vma AND VM_EXEC = 0 \<and> vm_flags vma AND VM_SHARED \<noteq> 0)"

text \<open>
  The search for a free base index: at most ten draws; a draw that hits an existing group
  gives the reference back. \<open>True\<close> when the new group is in the table.
\<close>

fun alloc_base_index :: "kenv \<Rightarrow> nat \<Rightarrow> nat \<Rightarrow> mptr \<Rightarrow> kstate \<Rightarrow> (bool \<times> kstate) option" where
  "alloc_base_index e 0 k p s = Some (False, s)"
| "alloc_base_index e (Suc tries) k p s =
     do { let b = NVFS_MIN_BASE_INDEX + unat (random_u32 e k);
          (r, s1) \<leftarrow> nvfs_mgroup_get_unlocked b s;
          case r of
            Some q \<Rightarrow> do { s2 \<leftarrow> nvfs_mgroup_put e q s1; alloc_base_index e tries (Suc k) p s2 }
          | None \<Rightarrow> Some (True, s1\<lparr>mgroups := (mgroups s1)(p \<mapsto> zero_mgroup\<lparr>base_index := b, mg_ref := 1\<rparr>),
                                  nvfs_io_mgroup_hash := p # nvfs_io_mgroup_hash s1\<rparr>) }"

text \<open>
  Allocation of page \<open>j\<close> of a group and its insertion into the mapping. A failure shrinks
  the block count to what the release has to visit and drops the only reference.
\<close>

definition mmap_fail :: "kenv \<Rightarrow> mptr \<Rightarrow> nat \<Rightarrow> kstate \<Rightarrow> (int \<times> kstate) option" where
  "mmap_fail e p n s =
     do { s1 \<leftarrow> upd_mgroup p (\<lambda>m. m\<lparr>nvfs_blocks_count := n\<rparr>) s;
          s2 \<leftarrow> nvfs_mgroup_put e p s1;
          Some (- ENOMEM, s2) }"

definition mmap_page :: "kenv \<Rightarrow> mptr \<Rightarrow> nat \<Rightarrow> kstate \<Rightarrow> (int \<times> kstate) option" where
  "mmap_page e p j s =
     do { m \<leftarrow> mgroups s p;
          pps \<leftarrow> nvfs_ppages m;
          let bpp = nvfs_block_count_per_page (page_shift e);
          case alloc_page e j of
            None \<Rightarrow> mmap_fail e p (j * bpp) s
          | Some pg \<Rightarrow> do {
              s1 \<leftarrow> upd_mgroup p (\<lambda>m. m\<lparr>nvfs_ppages := Some (pps[j := Some pg])\<rparr>) s;
              let s2 = s1\<lparr>kpages := (kpages s1)(pg := \<lparr> page_index =
                           base_index m * NVFS_MAX_SHADOW_PAGES (page_shift e) + j, page_mapping = False \<rparr>),
                         page_refs := (page_refs s1)(pg := 1)\<rparr>;
              let ret = (if should_fail e (nvfs_vm_insert_page_error j) then - EFAULT else vm_insert_page e j);
              if ret \<noteq> 0 then mmap_fail e p ((j + 1) * bpp) s2 else Some (0, get_page pg s2) } }"

fun mmap_blocks :: "kenv \<Rightarrow> mptr \<Rightarrow> nat list \<Rightarrow> kstate \<Rightarrow> (int \<times> kstate) option" where
  "mmap_blocks e p [] s = Some (0, s)"
| "mmap_blocks e p (i # is) s =
     do { m \<leftarrow> mgroups s p;
          pps \<leftarrow> nvfs_ppages m;
          let j = i div nvfs_block_count_per_page (page_shift e);
          q \<leftarrow> arr_get pps j;
          (ret, s1) \<leftarrow> (if q = None then mmap_page e p j s else Some (0, s));
          if ret \<noteq> 0 then Some (ret, s1)
          else do {
            m1 \<leftarrow> mgroups s1 p;
            pps1 \<leftarrow> nvfs_ppages m1;
            q1 \<leftarrow> arr_get pps1 j;
            md \<leftarrow> nvfs_metadata m1;
            md' \<leftarrow> arr_upd md i (\<lambda>_. \<lparr> nvfs_start_magic = NVFS_START_MAGIC, nvfs_state = NVFS_IO_ALLOC,
                                       md_page = q1 \<rparr>);
            s2 \<leftarrow> upd_mgroup p (\<lambda>m. m\<lparr>nvfs_metadata := Some md'\<rparr>) s1;
            mmap_blocks e p is s2 } }"

text \<open>The part of \<^verbatim>\<open>nvfs_mgroup_mmap_internal\<close> after the group is in the table.\<close>

definition mmap_populate :: "kenv \<Rightarrow> vm_area \<Rightarrow> mptr \<Rightarrow> kstate \<Rightarrow> (int \<times> vm_area \<times> kstate) option" where
  "mmap_populate e vma p s =
     (let len = unat (vm_end vma - vm_start vma);
          blocks = DIV_ROUND_UP len NVFS_BLOCK_SIZE;
          os_pages_count = DIV_ROUND_UP len (PAGE_SIZE (page_shift e));
          enomem = (\<lambda>s. do { s' \<leftarrow> nvfs_mgroup_put e p s; Some (- ENOMEM, vma, s') })
      in if \<not> kalloc_ok e AllocPpages then enomem s
         else do {
           s1 \<leftarrow> upd_mgroup p (\<lambda>m. m\<lparr>nvfs_ppages := Some (replicate os_pages_count None)\<rparr>) s;
           if \<not> kalloc_ok e AllocMetadata then enomem s1
           else do {
             s2 \<leftarrow> upd_mgroup p (\<lambda>m. m\<lparr>nvfs_metadata := Some (replicate blocks zero_metadata)\<rparr>) s1;
             if vm_private_data vma \<noteq> None then None
             else do {
               (ret, s3) \<leftarrow> mmap_blocks e p [0 ..< blocks] s2;
               let vma' = vma\<lparr>vm_private_data := Some p\<rparr>;
               if ret \<noteq> 0 then Some (ret, vma', s3)
               else do {
                 s4 \<leftarrow> upd_mgroup p (\<lambda>m. m\<lparr>nvfs_blocks_count := blocks,
                          gpu_info := (gpu_info m)\<lparr>io_state := IO_FREE\<rparr>\<rparr>) s3;
                 Some (0, vma', kstat (nvfs_stat64_add (int len) nvfs_n_active_shadow_buf_sz) s4) } } } })"

definition nvfs_mgroup_mmap_internal :: "kenv \<Rightarrow> vm_area \<Rightarrow> kstate \<Rightarrow> (int \<times> vm_area \<times> kstate) option" where
  "nvfs_mgroup_mmap_internal e vma s =
     do { let s0 = kstat (nvfs_stat64 nvfs_n_mmap) s;
          let err = (\<lambda>ret vma s. Some (ret, vma, kstat (nvfs_stat nvfs_n_mmap_err) s));
          if \<not> mmap_request_ok e vma then err (- EINVAL) vma s0
          else do {
            let vma1 = vma\<lparr>vm_flags := vm_flags vma OR vm_flags_to_set\<rparr>;
            if \<not> kalloc_ok e AllocMgroup then err (- ENOMEM) vma1 s0
            else do {
              (added, s1) \<leftarrow> alloc_base_index e 10 0 (kzalloc_mgroup e) s0;
              if \<not> added then err (- ENOMEM) vma1 s1
              else do {
                (ret, vma2, s2) \<leftarrow> mmap_populate e vma1 (kzalloc_mgroup e) s1;
                if ret \<noteq> 0 then err ret vma2 s2
                else Some (0, vma2, kstat (nvfs_stat64 nvfs_n_mmap_ok) s2) } } } }"

definition nvfs_mgroup_mmap :: "kenv \<Rightarrow> vm_area \<Rightarrow> kstate \<Rightarrow> (int \<times> vm_area \<times> kstate) option" where
  "nvfs_mgroup_mmap e vma s =
     (if vm_pgoff vma = 0 then nvfs_mgroup_mmap_internal e vma s else Some (- EIO, vma, s))"

section \<open>Naming a shadow buffer by its address\<close>

text \<open>\<^verbatim>\<open>pin_user_pages_fast\<close> takes a reference on every page it returns.\<close>

definition gup :: "kenv \<Rightarrow> u64 \<Rightarrow> nat \<Rightarrow> kstate \<Rightarrow> int \<times> pageid list \<times> kstate" where
  "gup e a n s = (let (ret, pages) = pin_user_pages_fast e a n in (ret, pages, fold get_page pages s))"

definition vaddr_page_ok :: "kenv \<Rightarrow> kstate \<Rightarrow> pageid \<Rightarrow> nvfs_io_mgroup \<Rightarrow> bool option" where
  "vaddr_page_ok e s pg m =
     do { md \<leftarrow> nvfs_metadata m;
          b \<leftarrow> arr_get md (rel_page e s pg * nvfs_block_count_per_page (page_shift e));
          Some (nvfs_start_magic b = NVFS_START_MAGIC \<and> md_page b = Some pg) }"

definition nvfs_get_mgroup_from_vaddr_internal :: "kenv \<Rightarrow> u64 \<Rightarrow> kstate \<Rightarrow> (mptr option \<times> kstate) option" where
  "nvfs_get_mgroup_from_vaddr_internal e cpuva s =
     (if cpuva = 0 \<or> cpuva mod NVFS_BLOCK_SIZE \<noteq> 0 then Some (None, s)
      else case gup e cpuva 1 s of (ret, pages, s1) \<Rightarrow>
        if ret \<le> 0 then Some (None, s)
        else do {
          pg \<leftarrow> arr_get pages 0;
          (r, s2) \<leftarrow> nvfs_mgroup_get (page_base_index e s1 pg) s1;
          case r of
            None \<Rightarrow> Some (None, put_page pg s2)
          | Some p \<Rightarrow> do {
              m \<leftarrow> mgroups s2 p;
              ok \<leftarrow> (if cpuva \<noteq> cpu_base_vaddr m then Some False else vaddr_page_ok e s2 pg m);
              if ok then Some (Some p, put_page pg s2)
              else do { s3 \<leftarrow> nvfs_mgroup_put e p s2; Some (None, put_page pg s3) } } })"

definition nvfs_get_mgroup_from_vaddr :: "kenv \<Rightarrow> u64 \<Rightarrow> kstate \<Rightarrow> (mptr option \<times> kstate) option" where
  "nvfs_get_mgroup_from_vaddr e cpuva s = nvfs_get_mgroup_from_vaddr_internal e cpuva s"

text \<open>
  The loop of \<^verbatim>\<open>nvfs_mgroup_pin_shadow_pages\<close> over the pinned pages: \<open>(False, _)\<close> is its
  \<^verbatim>\<open>goto out\<close>, which leaves the remaining pages pinned.
\<close>

fun pin_pages_loop ::
    "kenv \<Rightarrow> nat \<Rightarrow> mptr option \<Rightarrow> nat \<Rightarrow> pageid list \<Rightarrow> kstate \<Rightarrow> (mptr option \<times> bool \<times> kstate) option" where
  "pin_pages_loop e block_count mg j [] s = Some (mg, True, s)"
| "pin_pages_loop e block_count mg j (pg # pgs) s =
     (if page_mapping (kpages s pg) then Some (mg, False, s)
      else do {
        (mg', s1) \<leftarrow> (if j = 0 then nvfs_mgroup_get (page_base_index e s pg) s else Some (mg, s));
        case mg' of
          None \<Rightarrow> if j = 0 then Some (None, False, s1) else None
        | Some p \<Rightarrow> do {
            m \<leftarrow> mgroups s1 p;
            if j = 0 \<and> nvfs_blocks_count m < block_count then None
            else if base_index m \<noteq> page_base_index e s1 pg then None
            else if j \<noteq> rel_page e s1 pg then None
            else do {
              pps \<leftarrow> nvfs_ppages m;
              q \<leftarrow> arr_get pps j;
              if q \<noteq> Some pg then None
              else pin_pages_loop e block_count (Some p) (Suc j) pgs (put_page pg s1) } } })"

definition nvfs_mgroup_pin_shadow_pages :: "kenv \<Rightarrow> u64 \<Rightarrow> nat \<Rightarrow> kstate \<Rightarrow> (mptr option \<times> kstate) option" where
  "nvfs_mgroup_pin_shadow_pages e cpuva len s =
     (if cpuva = 0 \<or> cpuva mod NVFS_BLOCK_SIZE \<noteq> 0 then Some (None, s)
      else let count = DIV_ROUND_UP len (PAGE_SIZE (page_shift e));
               block_count = DIV_ROUND_UP len NVFS_BLOCK_SIZE
      in if \<not> kalloc_ok e AllocPagePtrs then Some (None, s)
         else case (if should_fail e nvfs_pin_shadow_pages_error then (- EFAULT, [], s) else gup e cpuva count s)
              of (ret, pages, s1) \<Rightarrow>
           if ret \<noteq> int count \<or> count > NVFS_MAX_SHADOW_PAGES (page_shift e)
           then Some (None, if ret > 0 \<and> ret \<noteq> int count then fold put_page pages s1 else s1)
           else do {
             (mg, ok, s2) \<leftarrow> pin_pages_loop e block_count None 0 pages s1;
             if \<not> ok then Some (None, s2)
             else do {
               p \<leftarrow> mg;
               m \<leftarrow> mgroups s2 p;
               if nvfs_ppages m = None then None
               else do {
                 s3 \<leftarrow> upd_mgroup p (\<lambda>m. m\<lparr>cpu_base_vaddr := cpuva\<rparr>) s2;
                 s4 \<leftarrow> nvfs_mgroup_check_and_set e p NVFS_IO_INIT True False s3;
                 Some (Some p, s4) } } })"

section \<open>The search for a base index\<close>

definition drawn :: "kenv \<Rightarrow> nat \<Rightarrow> nat" where
  "drawn e k = NVFS_MIN_BASE_INDEX + unat (random_u32 e k)"

definition index_used :: "kstate \<Rightarrow> nat \<Rightarrow> bool" where
  "index_used s b \<longleftrightarrow> (\<exists>p m. mgroups s p = Some m \<and> base_index m = b)"

definition new_group_state :: "mptr \<Rightarrow> nat \<Rightarrow> kstate \<Rightarrow> kstate" where
  "new_group_state p b s = s\<lparr>mgroups := (mgroups s)(p \<mapsto> zero_mgroup\<lparr>base_index := b, mg_ref := 1\<rparr>),
     nvfs_io_mgroup_hash := p # nvfs_io_mgroup_hash s\<rparr>"

lemma alloc_base_index_spec:
  assumes "hash_wf s"
  shows "alloc_base_index e tries k p s =
    (if \<exists>i < tries. \<not> index_used s (drawn e (k + i))
     then Some (True, new_group_state p (drawn e (k + (LEAST i. \<not> index_used s (drawn e (k + i))))) s)
     else Some (False, s))"
proof (induction tries arbitrary: k)
  case 0
  then show ?case by simp
next
  case (Suc tries)
  let ?free = "\<lambda>k i. \<not> index_used s (drawn e (k + i))"
  from assms show ?case
  proof (cases rule: mgroup_get_cases [of s "drawn e k"])
    case miss
    then have f: "?free k 0" by (auto simp: index_used_def)
    then have "(LEAST i. ?free k i) = 0" by (intro Least_eq_0) simp
    with f miss(1) show ?thesis by (auto simp: drawn_def new_group_state_def Let_def)
  next
    case (hit q m)
    then have used: "\<not> ?free k 0" by (auto simp: index_used_def)
    from assms hit(1) have "0 < mg_ref m" by (auto simp: hash_wf_def)
    with hit put_after_get [of s q m e False]
    have step: "alloc_base_index e (Suc tries) k p s = alloc_base_index e tries (Suc k) p s"
      by (simp add: drawn_def nvfs_mgroup_put_def Let_def)
    have shift: "(\<exists>i < Suc tries. ?free k i) \<longleftrightarrow> (\<exists>i < tries. ?free (Suc k) i)"
      using used by (simp add: Ex_less_Suc2)
    have "(LEAST i. ?free k i) = Suc (LEAST i. ?free (Suc k) i)" if "\<exists>i < tries. ?free (Suc k) i"
    proof -
      from that obtain i where "?free k (Suc i)" by auto
      from Least_Suc [of "?free k", OF this used] show ?thesis by simp
    qed
    then show ?thesis unfolding step Suc.IH shift by simp
  qed
qed

lemma hash_wf_new:
  assumes "hash_wf s" and "mgroups s p = None" and "\<not> index_used s b"
  shows "hash_wf (new_group_state p b s)"
  using assms unfolding hash_wf_def new_group_state_def index_used_def
  by (auto split: if_splits)

section \<open>Populating a group\<close>

text \<open>
  What the loop over the blocks relies on: every page allocation succeeds and gives a page
  of its own, and every insertion into the mapping succeeds.
\<close>

definition pages_available :: "kenv \<Rightarrow> nat \<Rightarrow> bool" where
  "pages_available e n \<longleftrightarrow> (\<forall>j < n. alloc_page e j \<noteq> None \<and> vm_insert_page e j = 0 \<and>
       \<not> should_fail e (nvfs_vm_insert_page_error j)) \<and>
     (\<forall>i < n. \<forall>j < n. alloc_page e i = alloc_page e j \<longrightarrow> i = j)"

definition filled_block :: "kenv \<Rightarrow> nat \<Rightarrow> nvfs_io_metadata" where
  "filled_block e k = \<lparr> nvfs_start_magic = NVFS_START_MAGIC, nvfs_state = NVFS_IO_ALLOC,
     md_page = alloc_page e (k div nvfs_block_count_per_page (page_shift e)) \<rparr>"

definition filled_group :: "kenv \<Rightarrow> nat \<Rightarrow> nat \<Rightarrow> nat \<Rightarrow> nat \<Rightarrow> nvfs_io_mgroup \<Rightarrow> nvfs_io_mgroup" where
  "filled_group e blocks np i j m = m\<lparr>
     nvfs_ppages := Some (map (\<lambda>k. if k < j then alloc_page e k else None) [0 ..< np]),
     nvfs_metadata := Some (map (\<lambda>k. if k < i then filled_block e k else zero_metadata) [0 ..< blocks])\<rparr>"

definition mmap_inv :: "kenv \<Rightarrow> mptr \<Rightarrow> nvfs_io_mgroup \<Rightarrow> nat \<Rightarrow> nat \<Rightarrow> kstate \<Rightarrow> nat \<Rightarrow> nat \<Rightarrow> kstate \<Rightarrow> bool" where
  "mmap_inv e p m0 blocks np s0 i j s \<longleftrightarrow>
     mgroups s = (mgroups s0)(p \<mapsto> filled_group e blocks np i j m0) \<and>
     nvfs_io_mgroup_hash s = nvfs_io_mgroup_hash s0 \<and> nvfs_n_ops s = nvfs_n_ops s0 \<and> klog s = klog s0 \<and>
     (\<forall>pg. (\<forall>k < j. alloc_page e k \<noteq> Some pg) \<longrightarrow> page_refs s pg = page_refs s0 pg) \<and>
     (\<forall>k < j. \<forall>pg. alloc_page e k = Some pg \<longrightarrow> page_refs s pg = 2 \<and>
        kpages s pg = \<lparr> page_index = base_index m0 * NVFS_MAX_SHADOW_PAGES (page_shift e) + k, page_mapping = False \<rparr>)"

lemma md_ppages_commute:
  "(m :: nvfs_io_mgroup)\<lparr>nvfs_metadata := a, nvfs_ppages := b\<rparr> = m\<lparr>nvfs_ppages := b, nvfs_metadata := a\<rparr>"
  by simp

lemma map_upt_update:
  assumes "j < n"
  shows "(map (\<lambda>k. if k < j then f k else z k) [0 ..< n])[j := f j] =
    map (\<lambda>k. if k < Suc j then f k else z k) [0 ..< n]"
  using assms by (intro nth_equalityI) (auto simp: nth_list_update less_Suc_eq)

lemma mmap_page_step:
  assumes inv: "mmap_inv e p m0 blocks np s0 i j s" and j: "j < np" and av: "pages_available e np"
  shows "\<exists>s1. mmap_page e p j s = Some (0, s1) \<and> mmap_inv e p m0 blocks np s0 i (Suc j) s1"
proof -
  from av j obtain pg where pg: "alloc_page e j = Some pg" "vm_insert_page e j = 0"
    "\<not> should_fail e (nvfs_vm_insert_page_error j)"
    by (auto simp: pages_available_def)
  let ?idx = "\<lparr> page_index = base_index m0 * NVFS_MAX_SHADOW_PAGES (page_shift e) + j, page_mapping = False \<rparr>"
  define s1 where "s1 = get_page pg (s\<lparr>mgroups := (mgroups s)(p \<mapsto> filled_group e blocks np i (Suc j) m0),
    kpages := (kpages s)(pg := ?idx), page_refs := (page_refs s)(pg := 1)\<rparr>)"
  have "mmap_page e p j s = Some (0, s1)"
    using inv pg map_upt_update [OF j, of "alloc_page e" "\<lambda>_. None"]
    by (simp add: mmap_page_def mmap_inv_def filled_group_def s1_def Let_def md_ppages_commute)
  moreover have "page_refs s1 pg' = 2 \<and> kpages s1 pg' =
      \<lparr> page_index = base_index m0 * NVFS_MAX_SHADOW_PAGES (page_shift e) + k, page_mapping = False \<rparr>"
    if k: "k < Suc j" "alloc_page e k = Some pg'" for k pg'
  proof (cases "k = j")
    case True
    with k pg show ?thesis by (simp add: s1_def get_page_def)
  next
    case False
    with av j k pg(1) have "pg' \<noteq> pg" by (auto simp: pages_available_def)
    moreover have "k < j" using False k(1) by simp
    ultimately show ?thesis using k(2) inv by (simp add: s1_def get_page_def mmap_inv_def)
  qed
  ultimately show ?thesis
    using inv pg(1) by (auto simp: mmap_inv_def s1_def get_page_def less_Suc_eq)
qed

lemma mmap_block_step:
  assumes bpp: "0 < nvfs_block_count_per_page (page_shift e)"
    and inv: "mmap_inv e p m0 blocks np s0 i (DIV_ROUND_UP i (nvfs_block_count_per_page (page_shift e))) s"
    and i: "i < blocks" and np: "np = DIV_ROUND_UP blocks (nvfs_block_count_per_page (page_shift e))"
    and av: "pages_available e np"
  shows "\<exists>s2. mmap_blocks e p (i # is) s = mmap_blocks e p is s2 \<and>
    mmap_inv e p m0 blocks np s0 (Suc i) (DIV_ROUND_UP (Suc i) (nvfs_block_count_per_page (page_shift e))) s2"
proof -
  let ?bpp = "nvfs_block_count_per_page (page_shift e)" and ?j = "i div nvfs_block_count_per_page (page_shift e)"
  have j: "?j < np" using page_of_block [OF bpp i] np by simp
  let ?pps = "map (\<lambda>k. if k < DIV_ROUND_UP i ?bpp then alloc_page e k else None) [0 ..< np]"
  have m: "mgroups s p = Some (filled_group e blocks np i (DIV_ROUND_UP i ?bpp) m0)"
    using inv by (simp add: mmap_inv_def)
  then have pps: "nvfs_ppages (the (mgroups s p)) = Some ?pps" by (simp add: filled_group_def)
  obtain s1 where s1: "(if ?pps ! ?j = None then mmap_page e p ?j s else Some (0, s)) = Some (0, s1)"
    "mmap_inv e p m0 blocks np s0 i (Suc ?j) s1"
  proof (cases "i mod ?bpp = 0")
    case True
    then have d: "DIV_ROUND_UP i ?bpp = ?j" by (simp add: DIV_ROUND_UP_cases [OF bpp])
    from mmap_page_step [OF inv [unfolded d] j av] that j show ?thesis by (auto simp: d)
  next
    case False
    then have d: "DIV_ROUND_UP i ?bpp = Suc ?j" by (simp add: DIV_ROUND_UP_cases [OF bpp])
    from av j have "alloc_page e ?j \<noteq> None" by (simp add: pages_available_def)
    with inv that j show ?thesis by (simp add: d)
  qed
  let ?m1 = "filled_group e blocks np i (Suc ?j) m0"
  have m1: "mgroups s1 p = Some ?m1" using s1(2) by (simp add: mmap_inv_def)
  let ?s2 = "s1\<lparr>mgroups := (mgroups s1)(p \<mapsto> filled_group e blocks np (Suc i) (Suc ?j) m0)\<rparr>"
  have upd: "?m1\<lparr>nvfs_metadata := Some ((map (\<lambda>k. if k < i then filled_block e k else zero_metadata) [0 ..< blocks])
      [i := filled_block e i])\<rparr> = filled_group e blocks np (Suc i) (Suc ?j) m0"
    unfolding map_upt_update [OF i, of "filled_block e" "\<lambda>_. zero_metadata"] by (simp add: filled_group_def)
  have fb: "\<lparr> nvfs_start_magic = NVFS_START_MAGIC, nvfs_state = NVFS_IO_ALLOC, md_page = alloc_page e ?j \<rparr> = filled_block e i"
    by (simp add: filled_block_def)
  have "mmap_blocks e p (i # is) s = mmap_blocks e p is ?s2"
    using m pps s1(1) m1 i j upd by (simp add: filled_group_def fb Let_def)
  moreover have "mmap_inv e p m0 blocks np s0 (Suc i) (DIV_ROUND_UP (Suc i) ?bpp) ?s2"
    using s1(2) by (simp add: mmap_inv_def DIV_ROUND_UP_Suc [OF bpp])
  ultimately show ?thesis by blast
qed

lemma mmap_blocks_ok:
  assumes bpp: "0 < nvfs_block_count_per_page (page_shift e)"
    and np: "np = DIV_ROUND_UP blocks (nvfs_block_count_per_page (page_shift e))"
    and av: "pages_available e np"
    and inv: "mmap_inv e p m0 blocks np s0 i (DIV_ROUND_UP i (nvfs_block_count_per_page (page_shift e))) s"
    and i: "i \<le> blocks"
  shows "\<exists>s'. mmap_blocks e p [i ..< blocks] s = Some (0, s') \<and> mmap_inv e p m0 blocks np s0 blocks np s'"
  using inv i
proof (induction "blocks - i" arbitrary: i s)
  case 0
  then show ?case by (auto simp: np)
next
  case (Suc n)
  then have lt: "i < blocks" by simp
  then have l: "[i ..< blocks] = i # [Suc i ..< blocks]" by (simp add: upt_conv_Cons)
  from mmap_block_step [OF bpp Suc.prems(1) lt np av] obtain s2 where
    2: "mmap_blocks e p [i ..< blocks] s = mmap_blocks e p [Suc i ..< blocks] s2"
    "mmap_inv e p m0 blocks np s0 (Suc i) (DIV_ROUND_UP (Suc i) (nvfs_block_count_per_page (page_shift e))) s2"
    unfolding l by blast
  from Suc.hyps(1) [OF _ 2(2)] Suc.hyps(2) lt show ?case unfolding 2(1) by simp
qed

lemma index_used_frame [simp]:
  "index_used (kstat f s) = index_used s"
  by (simp add: index_used_def fun_eq_iff)

lemma hash_wf_kstat [simp]: "hash_wf (kstat f s) = hash_wf s"
  by (simp add: hash_wf_def)

lemma request_blocks:
  assumes "mmap_request_ok e vma" and "valid_page_shift (page_shift e)"
    and len: "len = unat (vm_end vma - vm_start vma)"
  shows "DIV_ROUND_UP len 4096 * 4096 = len"
    and "DIV_ROUND_UP len (PAGE_SIZE (page_shift e)) =
      DIV_ROUND_UP (DIV_ROUND_UP len 4096) (nvfs_block_count_per_page (page_shift e))"
    and "DIV_ROUND_UP len (PAGE_SIZE (page_shift e)) \<le> NVFS_MAX_SHADOW_PAGES (page_shift e)"
proof -
  let ?bpp = "nvfs_block_count_per_page (page_shift e)" and ?P = "PAGE_SIZE (page_shift e)"
  have P: "?P = 4096 * ?bpp" "0 < ?bpp" using assms(2) by (simp_all add: PAGE_SIZE_blocks)
  have "4096 dvd len"
  proof -
    from assms(1) consider "len < 65536" "4096 dvd len" | "len = 65536" | "65536 dvd len"
      by (fastforce simp: mmap_request_ok_def Let_def len dvd_eq_mod_eq_0)
    then show ?thesis by cases (auto intro: dvd_trans [of 4096 65536])
  qed
  then obtain n where n: "len = 4096 * n" by (rule dvdE)
  then have b: "DIV_ROUND_UP len 4096 = n" by (simp add: DIV_ROUND_UP_exact)
  then show "DIV_ROUND_UP len 4096 * 4096 = len" by (simp add: n)
  show "DIV_ROUND_UP len ?P = DIV_ROUND_UP (DIV_ROUND_UP len 4096) ?bpp"
    using DIV_ROUND_UP_scale [of 4096 ?bpp n] P(2) unfolding P(1) b by (simp add: n)
  have "?P * DIV_ROUND_UP len ?P < len + ?P" using P by (intro DIV_ROUND_UP_bounds) simp
  moreover have "len \<le> NVFS_MAX_SHADOW_PAGES (page_shift e) * ?P"
    using assms(1) by (simp add: mmap_request_ok_def Let_def len)
  ultimately have "?P * DIV_ROUND_UP len ?P < ?P * Suc (NVFS_MAX_SHADOW_PAGES (page_shift e))"
    by (simp add: mult.commute)
  then show "DIV_ROUND_UP len ?P \<le> NVFS_MAX_SHADOW_PAGES (page_shift e)"
    by (simp only: mult_less_cancel1 less_Suc_eq_le)
qed

lemma filled_group_wf:
  assumes "0 < nvfs_block_count_per_page (page_shift e)"
    and "np = DIV_ROUND_UP blocks (nvfs_block_count_per_page (page_shift e))" and "pages_available e np"
  shows "mgroup_wf e ((filled_group e blocks np blocks np m)\<lparr>nvfs_blocks_count := blocks, gpu_info := g\<rparr>)"
    and "j < blocks \<Longrightarrow> block_state ((filled_group e blocks np blocks np m)\<lparr>nvfs_blocks_count := blocks, gpu_info := g\<rparr>) j
      = NVFS_IO_ALLOC"
  using assms page_of_block [OF assms(1), of _ blocks]
  by (auto simp: mgroup_wf_def filled_group_def filled_block_def pages_available_def block_state_def)

lemma page_index_roundtrip:
  assumes "NVFS_PAGE_INDEX s pg = b * NVFS_MAX_SHADOW_PAGES (page_shift e) + j"
    and "j < NVFS_MAX_SHADOW_PAGES (page_shift e)"
  shows "page_base_index e s pg = b" and "rel_page e s pg = j"
  using assms by (simp_all add: page_base_index_def rel_page_def drop_bit_eq_div NVFS_MAX_SHADOW_PAGES_def)

lemma mmap_populate_ok:
  assumes ps: "valid_page_shift (page_shift e)" and req: "mmap_request_ok e vma" and "vm_private_data vma = None"
    and ok: "kalloc_ok e AllocPpages" "kalloc_ok e AllocMetadata"
    and len: "len = unat (vm_end vma - vm_start vma)" and av: "pages_available e (DIV_ROUND_UP len (PAGE_SIZE (page_shift e)))"
    and p: "mgroups s p = Some m0"
  shows "\<exists>s3 s4 blocks np. mmap_populate e vma p s =
      Some (0, vma\<lparr>vm_private_data := Some p\<rparr>, kstat (nvfs_stat64_add (int len) nvfs_n_active_shadow_buf_sz) s4) \<and>
    s4 = s3\<lparr>mgroups := (mgroups s3)(p \<mapsto> (filled_group e blocks np blocks np m0)\<lparr>nvfs_blocks_count := blocks,
      gpu_info := (gpu_info m0)\<lparr>io_state := IO_FREE\<rparr>\<rparr>)\<rparr> \<and>
    mmap_inv e p m0 blocks np s blocks np s3 \<and> blocks * 4096 = len \<and> pages_available e np \<and>
    np = DIV_ROUND_UP blocks (nvfs_block_count_per_page (page_shift e)) \<and> np \<le> NVFS_MAX_SHADOW_PAGES (page_shift e)"
proof -
  let ?bpp = "nvfs_block_count_per_page (page_shift e)"
  define blocks where "blocks = DIV_ROUND_UP len 4096"
  define np where "np = DIV_ROUND_UP len (PAGE_SIZE (page_shift e))"
  have bpp: "0 < ?bpp" using ps by simp
  note rb = request_blocks [OF req ps len]
  have np: "np = DIV_ROUND_UP blocks ?bpp" using rb(2) by (simp add: np_def blocks_def)
  let ?m2 = "filled_group e blocks np 0 0 m0"
  define s2 where "s2 = s\<lparr>mgroups := (mgroups s)(p \<mapsto> ?m2)\<rparr>"
  have m2: "m0\<lparr>nvfs_ppages := Some (replicate np None), nvfs_metadata := Some (replicate blocks zero_metadata)\<rparr> = ?m2"
    by (simp add: filled_group_def map_replicate_const)
  have "mmap_inv e p m0 blocks np s 0 (DIV_ROUND_UP 0 ?bpp) s2"
    using p bpp by (simp add: mmap_inv_def s2_def)
  from mmap_blocks_ok [OF bpp np av [folded np_def] this] obtain s3 where
    3: "mmap_blocks e p [0 ..< blocks] s2 = Some (0, s3)" "mmap_inv e p m0 blocks np s blocks np s3" by auto
  then have m3: "mgroups s3 p = Some (filled_group e blocks np blocks np m0)" by (simp add: mmap_inv_def)
  have g: "gpu_info (filled_group e blocks np blocks np m0) = gpu_info m0" by (simp add: filled_group_def)
  have "mmap_populate e vma p s = Some (0, vma\<lparr>vm_private_data := Some p\<rparr>,
      kstat (nvfs_stat64_add (int len) nvfs_n_active_shadow_buf_sz)
        (s3\<lparr>mgroups := (mgroups s3)(p \<mapsto> (filled_group e blocks np blocks np m0)\<lparr>nvfs_blocks_count := blocks,
          gpu_info := (gpu_info m0)\<lparr>io_state := IO_FREE\<rparr>\<rparr>)\<rparr>))"
    using p ok assms(3) 3(1) m3 g
    by (simp add: mmap_populate_def Let_def len [symmetric] blocks_def [symmetric] np_def [symmetric]
        m2 s2_def [symmetric])
  with 3(2) rb(1,3) np av show ?thesis
    by (auto simp: blocks_def np_def)
qed

lemma mmap_request_flags:
  "mmap_request_ok e (vma\<lparr>vm_flags := vm_flags vma OR vm_flags_to_set\<rparr>) = mmap_request_ok e vma"
  by (simp add: mmap_request_ok_def vm_bits vm_flags_to_set_def Let_def word_ao_dist)

text \<open>The outcome of a mapping, in terms of the group that was entered into the table.\<close>

lemma mmap_outcome:
  assumes "valid_page_shift (page_shift e)" and "hash_wf s" and "mgroups s (kzalloc_mgroup e) = None"
    and "vm_pgoff vma = 0" and "mmap_request_ok e vma" and "vm_private_data vma = None"
    and "\<forall>site. kalloc_ok e site" and "len = unat (vm_end vma - vm_start vma)"
    and "pages_available e (DIV_ROUND_UP len (PAGE_SIZE (page_shift e)))"
    and "\<exists>i < 10. \<not> index_used s (drawn e i)"
  shows "\<exists>vma' s' m b blocks np. nvfs_mgroup_mmap e vma s = Some (0, vma', s') \<and>
    vm_private_data vma' = Some (kzalloc_mgroup e) \<and> \<not> index_used s b \<and> NVFS_MIN_BASE_INDEX \<le> b \<and>
    m = (filled_group e blocks np blocks np (zero_mgroup\<lparr>base_index := b, mg_ref := 1\<rparr>))\<lparr>nvfs_blocks_count := blocks,
      gpu_info := (gpu_info zero_mgroup)\<lparr>io_state := IO_FREE\<rparr>\<rparr> \<and>
    mgroups s' = (mgroups s)(kzalloc_mgroup e \<mapsto> m) \<and> nvfs_io_mgroup_hash s' = kzalloc_mgroup e # nvfs_io_mgroup_hash s \<and>
    (\<forall>k < np. \<forall>pg. alloc_page e k = Some pg \<longrightarrow> kpages s' pg =
      \<lparr> page_index = b * NVFS_MAX_SHADOW_PAGES (page_shift e) + k, page_mapping = False \<rparr>) \<and>
    blocks * 4096 = len \<and> np = DIV_ROUND_UP blocks (nvfs_block_count_per_page (page_shift e)) \<and>
    np \<le> NVFS_MAX_SHADOW_PAGES (page_shift e) \<and> pages_available e np \<and> nvfs_n_ops s' = nvfs_n_ops s \<and> klog s' = klog s \<and>
    (\<forall>k < np. \<forall>pg. alloc_page e k = Some pg \<longrightarrow> page_refs s' pg = 2) \<and>
    (\<forall>pg. (\<forall>k < np. alloc_page e k \<noteq> Some pg) \<longrightarrow> page_refs s' pg = page_refs s pg)"
proof -
  let ?p = "kzalloc_mgroup e" and ?s0 = "kstat (nvfs_stat64 nvfs_n_mmap) s"
  let ?vma = "vma\<lparr>vm_flags := vm_flags vma OR vm_flags_to_set\<rparr>"
  define b where "b = drawn e (LEAST i. \<not> index_used s (drawn e i))"
  have b: "\<not> index_used s b" "NVFS_MIN_BASE_INDEX \<le> b"
    using assms(10) LeastI_ex [of "\<lambda>i. \<not> index_used s (drawn e i)"] by (auto simp: b_def drawn_def)
  let ?m0 = "zero_mgroup\<lparr>base_index := b, mg_ref := 1\<rparr>"
  define s1 where "s1 = new_group_state ?p b ?s0"
  have al: "alloc_base_index e 10 0 ?p ?s0 = Some (True, s1)"
    using alloc_base_index_spec [of ?s0 e 10 0 ?p] assms(2,10) by (auto simp: b_def s1_def)
  have "unat (vm_end ?vma - vm_start ?vma) = len" "mgroups s1 ?p = Some ?m0"
    by (simp_all add: assms(8) s1_def new_group_state_def)
  then obtain s3 s4 blocks np where pop: "mmap_populate e ?vma ?p s1 =
      Some (0, ?vma\<lparr>vm_private_data := Some ?p\<rparr>, kstat (nvfs_stat64_add (int len) nvfs_n_active_shadow_buf_sz) s4)"
    and s4: "s4 = s3\<lparr>mgroups := (mgroups s3)(?p \<mapsto> (filled_group e blocks np blocks np ?m0)\<lparr>nvfs_blocks_count := blocks,
      gpu_info := (gpu_info ?m0)\<lparr>io_state := IO_FREE\<rparr>\<rparr>)\<rparr>"
    and inv: "mmap_inv e ?p ?m0 blocks np s1 blocks np s3" and np: "blocks * 4096 = len" "pages_available e np"
      "np = DIV_ROUND_UP blocks (nvfs_block_count_per_page (page_shift e))" "np \<le> NVFS_MAX_SHADOW_PAGES (page_shift e)"
    using mmap_populate_ok [of e ?vma len s1 ?p ?m0] assms(1,5,6,7,9) by (auto simp: mmap_request_flags)
  define s' where "s' = kstat (nvfs_stat64 nvfs_n_mmap_ok) (kstat (nvfs_stat64_add (int len) nvfs_n_active_shadow_buf_sz) s4)"
  have run: "nvfs_mgroup_mmap e vma s = Some (0, ?vma\<lparr>vm_private_data := Some ?p\<rparr>, s')"
    using assms(4,5,7) al pop by (simp add: nvfs_mgroup_mmap_def nvfs_mgroup_mmap_internal_def Let_def s'_def)
  show ?thesis
    by (rule exI [of _ "?vma\<lparr>vm_private_data := Some ?p\<rparr>"], rule exI [of _ s'],
        rule exI [of _ "(filled_group e blocks np blocks np ?m0)\<lparr>nvfs_blocks_count := blocks,
          gpu_info := (gpu_info ?m0)\<lparr>io_state := IO_FREE\<rparr>\<rparr>"], rule exI [of _ b],
        rule exI [of _ blocks], rule exI [of _ np])
      (use run b inv np in \<open>auto simp: s'_def s4 kstat_def mmap_inv_def s1_def new_group_state_def\<close>)
qed

section \<open>Properties\<close>

text \<open>
  C25. A successful mapping. When the request is acceptable, the allocations succeed and one
  of the ten draws is unused, \<^verbatim>\<open>nvfs_mgroup_mmap\<close> returns 0 with a new group behind the mapping
  and touches no other group. The group holds one reference, is in its initial state, has
  an index no other group has, is well formed with one block per 4 KiB of the mapping, all
  of them allocated, and is in the table, which stays well formed; and every page of it
  leads back to it: its index yields the base index of the group and its own number.
\<close>

theorem mmap_creates_group:
  assumes "valid_page_shift (page_shift e)" and "hash_wf s" and "mgroups s (kzalloc_mgroup e) = None"
    and "vm_pgoff vma = 0" and "mmap_request_ok e vma" and "vm_private_data vma = None"
    and "\<forall>site. kalloc_ok e site" and "len = unat (vm_end vma - vm_start vma)"
    and "pages_available e (DIV_ROUND_UP len (PAGE_SIZE (page_shift e)))"
    and "\<exists>i < 10. \<not> index_used s (drawn e i)"
  shows "\<exists>vma' s' m. nvfs_mgroup_mmap e vma s = Some (0, vma', s') \<and>
    vm_private_data vma' = Some (kzalloc_mgroup e) \<and> mgroups s' = (mgroups s)(kzalloc_mgroup e \<mapsto> m) \<and>
    mg_ref m = 1 \<and> io_state (gpu_info m) = IO_FREE \<and> \<not> index_used s (base_index m) \<and>
    NVFS_MIN_BASE_INDEX \<le> base_index m \<and> mgroup_wf e m \<and> nvfs_blocks_count m * 4096 = len \<and>
    (\<forall>j < nvfs_blocks_count m. block_state m j = NVFS_IO_ALLOC) \<and> hash_wf s' \<and>
    (\<forall>j pg. j < length (the (nvfs_ppages m)) \<and> the (nvfs_ppages m) ! j = Some pg \<longrightarrow>
       page_base_index e s' pg = base_index m \<and> rel_page e s' pg = j \<and> \<not> page_mapping (kpages s' pg))"
proof -
  let ?p = "kzalloc_mgroup e"
  obtain vma' s' m b blocks np where run: "nvfs_mgroup_mmap e vma s = Some (0, vma', s')"
      "vm_private_data vma' = Some ?p" "\<not> index_used s b" "NVFS_MIN_BASE_INDEX \<le> b"
    and m: "m = (filled_group e blocks np blocks np (zero_mgroup\<lparr>base_index := b, mg_ref := 1\<rparr>))\<lparr>nvfs_blocks_count := blocks,
      gpu_info := (gpu_info zero_mgroup)\<lparr>io_state := IO_FREE\<rparr>\<rparr>"
    and s': "mgroups s' = (mgroups s)(?p \<mapsto> m)" "nvfs_io_mgroup_hash s' = ?p # nvfs_io_mgroup_hash s"
      "\<forall>k < np. \<forall>pg. alloc_page e k = Some pg \<longrightarrow> kpages s' pg =
        \<lparr> page_index = b * NVFS_MAX_SHADOW_PAGES (page_shift e) + k, page_mapping = False \<rparr>"
    and np: "blocks * 4096 = len" "np = DIV_ROUND_UP blocks (nvfs_block_count_per_page (page_shift e))"
      "np \<le> NVFS_MAX_SHADOW_PAGES (page_shift e)" "pages_available e np"
    using mmap_outcome [OF assms] by (elim exE conjE)
  have mf: "mg_ref m = 1" "base_index m = b" "io_state (gpu_info m) = IO_FREE" "nvfs_blocks_count m = blocks"
    "nvfs_ppages m = Some (map (alloc_page e) [0 ..< np])"
    by (simp_all add: m filled_group_def)
  have "hash_wf ((new_group_state ?p b s)\<lparr>mgroups := (mgroups (new_group_state ?p b s))(?p \<mapsto> m)\<rparr>)"
    using hash_wf_new [OF assms(2,3) run(3)] mf(1,2) by (intro hash_wf_upd) (auto simp: new_group_state_def)
  then have wf: "hash_wf s'" by (rule hash_wf_same) (simp_all add: s' new_group_state_def)
  have pages: "page_base_index e s' pg = b \<and> rel_page e s' pg = j \<and> \<not> page_mapping (kpages s' pg)"
    if "j < np" "alloc_page e j = Some pg" for j pg
    using that s'(3) np(3) page_index_roundtrip [of s' pg b e j] by (auto simp: NVFS_PAGE_INDEX_def)
  have "mgroup_wf e m" "\<forall>j < blocks. block_state m j = NVFS_IO_ALLOC"
    unfolding m using filled_group_wf [OF _ np(2,4)] assms(1) by simp_all
  with run s'(1) mf np(1) wf pages show ?thesis
    by (intro exI [of _ vma'] exI [of _ s'] exI [of _ m]) auto
qed

definition ex_new_vma :: vm_area where
  "ex_new_vma = ex_vma\<lparr>vm_flags := 0x3b, vm_private_data := None\<rparr>"

theorem mmap_creates_group_witness:
  "\<exists>vma' s' m. nvfs_mgroup_mmap ex_env ex_new_vma empty_kstate = Some (0, vma', s') \<and>
     mgroups s' = [100 \<mapsto> m] \<and> mg_ref m = 1 \<and> nvfs_blocks_count m = 16 \<and> mgroup_wf ex_env m"
proof -
  let ?len = "unat (vm_end ex_new_vma - vm_start ex_new_vma)"
  have len: "?len = 65536" by (simp add: ex_new_vma_def ex_vma_def)
  have "valid_page_shift (page_shift ex_env)" "\<forall>site. kalloc_ok ex_env site" "vm_pgoff ex_new_vma = 0"
    "vm_private_data ex_new_vma = None" "kzalloc_mgroup ex_env = 100" "hash_wf empty_kstate"
    "mgroups empty_kstate = Map.empty" "\<not> index_used empty_kstate b" for b
    by (simp_all add: valid_page_shift_def ex_env_def ex_new_vma_def ex_vma_def empty_kstate_def hash_wf_def
        index_used_def)
  moreover have "mmap_request_ok ex_env ex_new_vma"
    unfolding mmap_request_ok_def len by (simp add: ex_new_vma_def ex_env_def nvfs_geom vm_bits Let_def)
  moreover have "pages_available ex_env n" for n by (simp add: pages_available_def ex_env_def)
  ultimately show ?thesis
    using mmap_creates_group [of ex_env empty_kstate ex_new_vma ?len] len by fastforce
qed

text \<open>
  When all ten draws of a base index hit an existing group, the mapping fails with
  \<^verbatim>\<open>-ENOMEM\<close>; no group has changed, in particular every group that was hit has its reference
  count back.
\<close>

theorem mmap_index_exhausted:
  assumes "hash_wf s" and "vm_pgoff vma = 0" and "mmap_request_ok e vma" and "kalloc_ok e AllocMgroup"
    and "\<forall>i < 10. index_used s (drawn e i)"
  shows "\<exists>vma' s'. nvfs_mgroup_mmap e vma s = Some (- ENOMEM, vma', s') \<and> mgroups s' = mgroups s \<and>
    nvfs_io_mgroup_hash s' = nvfs_io_mgroup_hash s \<and> kpages s' = kpages s"
proof -
  have "alloc_base_index e 10 0 (kzalloc_mgroup e) (kstat (nvfs_stat64 nvfs_n_mmap) s) =
      Some (False, kstat (nvfs_stat64 nvfs_n_mmap) s)"
    using alloc_base_index_spec [of "kstat (nvfs_stat64 nvfs_n_mmap) s" e 10 0] assms(1,5) by auto
  with assms(2-4) show ?thesis
    by (simp add: nvfs_mgroup_mmap_def nvfs_mgroup_mmap_internal_def Let_def)
qed

theorem mmap_index_exhausted_witness:
  "\<exists>vma' s'. nvfs_mgroup_mmap (ex_env\<lparr>random_u32 := (\<lambda>_. 0)\<rparr>) ex_new_vma ex_state = Some (- ENOMEM, vma', s') \<and>
     mg_refs s' 100 = Some 1"
proof -
  let ?e = "ex_env\<lparr>random_u32 := (\<lambda>_. 0)\<rparr>"
  have "mmap_request_ok ?e ex_new_vma"
    by (simp add: mmap_request_ok_def ex_new_vma_def ex_vma_def ex_env_def nvfs_geom vm_bits Let_def)
  moreover have "\<forall>i < 10. index_used ex_state (drawn ?e i)"
  proof -
    have "base_index ex_group = 4294967296" "\<And>i. drawn ?e i = 4294967296"
      by (simp_all add: ex_group_def drawn_def nvfs_geom)
    then show ?thesis
      using ex_state_group by (metis index_used_def)
  qed
  ultimately show ?thesis
    using mmap_index_exhausted [OF ex_state_wf, of ex_new_vma ?e] ex_state_group
    by (auto simp: ex_new_vma_def ex_vma_def ex_env_def mg_refs_def ex_group_def)
qed

section \<open>From a page back to its group\<close>

text \<open>\<open>pg\<close> is page \<open>j\<close> of the group \<open>p\<close>, as \<^verbatim>\<open>mmap\<close> sets it up.\<close>

definition page_of_group :: "kenv \<Rightarrow> kstate \<Rightarrow> mptr \<Rightarrow> nvfs_io_mgroup \<Rightarrow> nat \<Rightarrow> pageid \<Rightarrow> bool" where
  "page_of_group e s p m j pg \<longleftrightarrow> mgroups s p = Some m \<and> mgroup_wf e m \<and> NVFS_MIN_BASE_INDEX \<le> base_index m \<and>
     j * nvfs_block_count_per_page (page_shift e) < nvfs_blocks_count m \<and> the (nvfs_ppages m) ! j = Some pg \<and>
     page_base_index e s pg = base_index m \<and> rel_page e s pg = j \<and> \<not> page_mapping (kpages s pg)"

lemma from_page_raw_ok:
  assumes "valid_page_shift (page_shift e)" and "hash_wf s" and pg: "page_of_group e s p m j pg"
    and act: "nvfs_active_blocks_start (nvfsio m) div nvfs_block_count_per_page (page_shift e) \<le> j"
      "j \<le> nvfs_active_blocks_end (nvfsio m) div nvfs_block_count_per_page (page_shift e)"
  shows "nvfs_mgroup_from_page_raw e (Some pg) False s =
    Some (Ptr p, s\<lparr>mgroups := (mgroups s)(p \<mapsto> m\<lparr>mg_ref := mg_ref m + 1\<rparr>)\<rparr>)"
proof -
  let ?bpp = "nvfs_block_count_per_page (page_shift e)"
  let ?s1 = "s\<lparr>mgroups := (mgroups s)(p \<mapsto> m\<lparr>mg_ref := mg_ref m + 1\<rparr>)\<rparr>"
  have bpp: "0 < ?bpp" using assms(1) by simp
  from pg obtain md pps where md: "nvfs_metadata m = Some md" "nvfs_ppages m = Some pps" "j * ?bpp < length md"
    "\<forall>j < length md. nvfs_start_magic (md ! j) = NVFS_START_MAGIC \<and> md_page (md ! j) = pps ! (j div ?bpp)"
    "pps ! j = Some pg"
    by (auto simp: page_of_group_def mgroup_wf_def)
  have rp: "rel_page e ?s1 pg = j" using pg by (simp add: rel_page_def NVFS_PAGE_INDEX_def page_of_group_def)
  have "[j * ?bpp ..< j * ?bpp + ?bpp] = j * ?bpp # [Suc (j * ?bpp) ..< j * ?bpp + ?bpp]"
    using bpp by (simp add: upt_conv_Cons)
  moreover have "(j * ?bpp) div ?bpp = j" using bpp by simp
  ultimately have "find_page_block md pg [j * ?bpp ..< j * ?bpp + ?bpp] = Some True" using md by simp
  then have "from_page_checks e ?s1 pg False (m\<lparr>mg_ref := mg_ref m + 1\<rparr>) = Some (Ptr ())"
    using md(1) act by (simp add: from_page_checks_def rp Let_def)
  moreover have "nvfs_mgroup_get (page_base_index e s pg) s = Some (Some p, ?s1)"
    using mgroup_get_hit [OF assms(2)] pg by (simp add: nvfs_mgroup_get_def page_of_group_def)
  ultimately show ?thesis
    using pg by (simp add: nvfs_mgroup_from_page_raw_def page_of_group_def)
qed

text \<open>
  The test that the block layer uses to tell GPU pages from ordinary ones is right and
  leaves no trace: on a page of a live group within the active range it answers yes, on a
  page whose index does not belong to a live group, or that has an address space of its
  own, it answers no, and in both cases the state is exactly as before.
\<close>

theorem is_gpu_page_correct:
  assumes "valid_page_shift (page_shift e)" and "hash_wf s"
  shows "(page_of_group e s p m j pg \<and>
      nvfs_active_blocks_start (nvfsio m) div nvfs_block_count_per_page (page_shift e) \<le> j \<and>
      j \<le> nvfs_active_blocks_end (nvfsio m) div nvfs_block_count_per_page (page_shift e) \<longrightarrow>
        nvfs_is_gpu_page e (Some pg) s = Some (True, s)) \<and>
    (page_mapping (kpages s pg) \<or> \<not> index_used s (page_base_index e s pg) \<longrightarrow>
        nvfs_is_gpu_page e (Some pg) s = Some (False, s))"
proof (intro conjI impI)
  let ?bpp = "nvfs_block_count_per_page (page_shift e)"
  assume a: "page_of_group e s p m j pg \<and> nvfs_active_blocks_start (nvfsio m) div ?bpp \<le> j \<and>
    j \<le> nvfs_active_blocks_end (nvfsio m) div ?bpp"
  then have m: "mgroups s p = Some m" by (simp add: page_of_group_def)
  with assms(2) have "0 < mg_ref m" by (auto simp: hash_wf_def)
  from put_after_get [OF m this, of e False] show "nvfs_is_gpu_page e (Some pg) s = Some (True, s)"
    using from_page_raw_ok [OF assms, of p m j pg] a by (simp add: nvfs_is_gpu_page_def nvfs_mgroup_put_def)
next
  assume "page_mapping (kpages s pg) \<or> \<not> index_used s (page_base_index e s pg)"
  then have "page_mapping (kpages s pg) \<or> nvfs_mgroup_get (page_base_index e s pg) s = Some (None, s)"
    using mgroup_get_miss [OF assms(2), of "page_base_index e s pg"]
    by (auto simp: index_used_def nvfs_mgroup_get_def)
  then show "nvfs_is_gpu_page e (Some pg) s = Some (False, s)"
    by (auto simp: nvfs_is_gpu_page_def nvfs_mgroup_from_page_raw_def)
qed

text \<open>
  The sixteen pages of the concrete buffer as \<^verbatim>\<open>mmap\<close> leaves them; the blocks are settled.
\<close>

definition ex_paged_state :: kstate where
  "ex_paged_state = ex_state\<lparr>mgroups := [100 \<mapsto> ex_init_group],
     kpages := (\<lambda>pg. \<lparr> page_index = (if 500 \<le> pg then 4294967296 * 4096 + (pg - 500) else 0),
       page_mapping = False \<rparr>)\<rparr>"

lemma ex_paged_wf: "hash_wf ex_paged_state" "mgroups ex_paged_state 100 = Some ex_init_group"
  by (auto simp: hash_wf_def ex_paged_state_def ex_state_def ex_init_group_def ex_group_def split: if_splits)

lemma ex_page_of_group:
  assumes "j < 16"
  shows "page_of_group ex_env ex_paged_state 100 ex_init_group j (500 + j)"
proof -
  have "page_base_index ex_env ex_paged_state (500 + j) = 4294967296 \<and> rel_page ex_env ex_paged_state (500 + j) = j"
    using assms page_index_roundtrip [of ex_paged_state "500 + j" 4294967296 ex_env j]
    by (simp add: ex_paged_state_def NVFS_PAGE_INDEX_def ex_env_def nvfs_geom)
  with assms ex_init_group_wf ex_paged_wf show ?thesis
    by (simp add: page_of_group_def ex_init_group_def ex_group_def ex_env_def nvfs_geom ex_paged_state_def)
qed

theorem is_gpu_page_correct_witness:
  "nvfs_is_gpu_page ex_env (Some 500) ex_paged_state = Some (True, ex_paged_state) \<and>
   nvfs_is_gpu_page ex_env (Some 7) ex_paged_state = Some (False, ex_paged_state)"
proof -
  have "valid_page_shift (page_shift ex_env)" by (simp add: valid_page_shift_def ex_env_def)
  note R = is_gpu_page_correct [OF this ex_paged_wf(1)]
  have "\<not> index_used ex_paged_state (page_base_index ex_env ex_paged_state 7)"
    by (auto simp: index_used_def ex_paged_state_def page_base_index_def NVFS_PAGE_INDEX_def ex_init_group_def
        ex_group_def split: if_splits)
  with R [of 100 ex_init_group 0 500] R [of 100 ex_init_group 0 7] ex_page_of_group [of 0] show ?thesis
    by (simp add: ex_init_group_def zero_nvfs_io_def)
qed

end
