(* ===== verification/Nvfs_Pin.thy ===== *)
theory Nvfs_Pin
  imports Nvfs_Mmap
begin

text \<open>
  The two lookups of a shadow buffer by its user address (\<^verbatim>\<open>nvfs-mmap.c\<close>):
  \<^verbatim>\<open>nvfs_mgroup_pin_shadow_pages\<close> accepts the pages of a group and leaves no pin behind, its
  early exits leave all of them.
\<close>

section \<open>Pins\<close>

lemma fold_get_page: "fold get_page pgs s = s\<lparr>page_refs := (\<lambda>q. page_refs s q + int (count_list pgs q))\<rparr>"
  by (induction pgs arbitrary: s) (auto simp: get_page_def fun_eq_iff)

lemma fold_put_page: "fold put_page pgs s = s\<lparr>page_refs := (\<lambda>q. page_refs s q - int (count_list pgs q))\<rparr>"
  by (induction pgs arbitrary: s) (auto simp: put_page_def fun_eq_iff)

lemma put_pages_frame [simp]:
  "mgroups (fold put_page pgs s) = mgroups s" "kpages (fold put_page pgs s) = kpages s"
  "mgroups (fold get_page pgs s) = mgroups s" "kpages (fold get_page pgs s) = kpages s"
  by (simp_all add: fold_get_page fold_put_page)

lemma rel_page_cong: "kpages s = kpages s' \<Longrightarrow> rel_page e s pg = rel_page e s' pg"
  by (simp add: rel_page_def NVFS_PAGE_INDEX_def)

lemma page_base_index_cong: "kpages s = kpages s' \<Longrightarrow> page_base_index e s pg = page_base_index e s' pg"
  by (simp add: page_base_index_def NVFS_PAGE_INDEX_def)

section \<open>Resetting the blocks\<close>

lemma cas_init_loop:
  assumes "n \<le> length md" and "c_md c = md"
  shows "ofold (cas_block e s m NVFS_IO_INIT v l) [0 ..< n] c = Some (c\<lparr>c_md := upd_between 0 n (set_blk NVFS_IO_INIT) md\<rparr>)"
  using assms(1)
proof (induction n)
  case 0
  then show ?case using assms(2) by simp
next
  case (Suc n)
  have "(upd_between 0 n (set_blk NVFS_IO_INIT) md)[n := set_blk NVFS_IO_INIT (md ! n)] =
      upd_between 0 (Suc n) (set_blk NVFS_IO_INIT) md"
    using Suc.prems by (intro upd_between_snoc) simp_all
  with Suc show ?case by (simp add: ofold_append cas_block_def cas_frozen_def Let_def)
qed

definition init_blocks :: "nvfs_io_mgroup \<Rightarrow> nvfs_io_mgroup" where
  "init_blocks m = m\<lparr>nvfs_metadata := Some (upd_between 0 (nvfs_blocks_count m) (set_blk NVFS_IO_INIT)
     (the (nvfs_metadata m)))\<rparr>"

lemma check_and_set_init:
  assumes "mgroups s p = Some m" and "mgroup_wf e m"
  shows "nvfs_mgroup_check_and_set e p NVFS_IO_INIT v False s =
    Some (s\<lparr>mgroups := (mgroups s)(p \<mapsto> init_blocks m)\<rparr>)"
proof -
  from assms(2) obtain md where md: "nvfs_metadata m = Some md" "length md = nvfs_blocks_count m"
    by (auto simp: mgroup_wf_def)
  define c where "c = \<lparr> c_md = md, c_sparse = None, c_check_sparse = check_sparse (nvfsio m), c_last_sparse = -1,
                 c_nholes = -1, c_limit = 0, c_ret = 0 \<rparr>"
  have "cas_init s m md NVFS_IO_INIT v = Some c" by (simp add: cas_init_def c_def Let_def)
  with assms md cas_init_loop [of "nvfs_blocks_count m" md c e s m v 0] show ?thesis
    by (simp add: nvfs_mgroup_check_and_set_def cas_range_def cas_publish_def cas_io_def c_def init_blocks_def Let_def)
qed

lemma init_blocks_settled:
  assumes "mgroup_wf e m"
  shows "mgroup_wf e (init_blocks m)" "settled (init_blocks m)"
    "j < nvfs_blocks_count m \<Longrightarrow> block_state (init_blocks m) j = NVFS_IO_INIT"
  using assms by (auto simp: mgroup_wf_def init_blocks_def settled_def block_state_def)

section \<open>The loop over the pinned pages\<close>

lemma pin_loop_rest:
  assumes "mgroups s p = Some m" and "nvfs_ppages m = Some pps" and "0 < j"
    and "\<And>k. k < length pgs \<Longrightarrow> j + k < length pps \<and> pps ! (j + k) = Some (pgs ! k) \<and>
      page_base_index e s (pgs ! k) = base_index m \<and> rel_page e s (pgs ! k) = j + k \<and>
      \<not> page_mapping (kpages s (pgs ! k))"
  shows "pin_pages_loop e bc (Some p) j pgs s = Some (Some p, True, fold put_page pgs s)"
  using assms(1,3,4)
proof (induction pgs arbitrary: j s)
  case Nil
  then show ?case by simp
next
  case (Cons pg pgs)
  have "pin_pages_loop e bc (Some p) (Suc j) pgs (put_page pg s) =
      Some (Some p, True, fold put_page pgs (put_page pg s))"
  proof (rule Cons.IH)
    fix k assume "k < length pgs"
    with Cons.prems(3) [of "Suc k"] show "Suc j + k < length pps \<and> pps ! (Suc j + k) = Some (pgs ! k) \<and>
        page_base_index e (put_page pg s) (pgs ! k) = base_index m \<and>
        rel_page e (put_page pg s) (pgs ! k) = Suc j + k \<and> \<not> page_mapping (kpages (put_page pg s) (pgs ! k))"
      by (simp add: rel_page_def page_base_index_def NVFS_PAGE_INDEX_def)
  qed (use Cons.prems in simp_all)
  with Cons.prems(1,2) Cons.prems(3) [of 0] assms(2) show ?case by simp
qed

lemma pin_loop_all:
  assumes "hash_wf s" and m: "mgroups s p = Some m" and pps: "nvfs_ppages m = Some pps" and "pgs \<noteq> []"
    and bc: "bc \<le> nvfs_blocks_count m"
    and pg: "\<And>k. k < length pgs \<Longrightarrow> k < length pps \<and> pps ! k = Some (pgs ! k) \<and>
      page_base_index e s (pgs ! k) = base_index m \<and> rel_page e s (pgs ! k) = k \<and>
      \<not> page_mapping (kpages s (pgs ! k))"
  shows "pin_pages_loop e bc None 0 pgs s =
    Some (Some p, True, fold put_page pgs (s\<lparr>mgroups := (mgroups s)(p \<mapsto> m\<lparr>mg_ref := mg_ref m + 1\<rparr>)\<rparr>))"
proof -
  from \<open>pgs \<noteq> []\<close> obtain q qs where pgs: "pgs = q # qs" by (cases pgs) auto
  let ?s1 = "s\<lparr>mgroups := (mgroups s)(p \<mapsto> m\<lparr>mg_ref := mg_ref m + 1\<rparr>)\<rparr>"
  have get: "nvfs_mgroup_get (page_base_index e s q) s = Some (Some p, ?s1)"
    using mgroup_get_hit [OF assms(1) m] pg [of 0] pgs by (simp add: nvfs_mgroup_get_def)
  have idx: "page_base_index e ?s1 x = page_base_index e s x" "rel_page e ?s1 x = rel_page e s x" for x
    by (simp_all add: rel_page_def page_base_index_def NVFS_PAGE_INDEX_def)
  have "pin_pages_loop e bc (Some p) (Suc 0) qs (put_page q ?s1) = Some (Some p, True, fold put_page qs (put_page q ?s1))"
  proof (rule pin_loop_rest)
    fix k assume "k < length qs"
    with pg [of "Suc k"] pgs show "Suc 0 + k < length pps \<and> pps ! (Suc 0 + k) = Some (qs ! k) \<and>
        page_base_index e (put_page q ?s1) (qs ! k) = base_index (m\<lparr>mg_ref := mg_ref m + 1\<rparr>) \<and>
        rel_page e (put_page q ?s1) (qs ! k) = Suc 0 + k \<and> \<not> page_mapping (kpages (put_page q ?s1) (qs ! k))"
      by (simp add: rel_page_def page_base_index_def NVFS_PAGE_INDEX_def)
  qed (use pps in simp_all)
  with get pg [of 0] pgs pps bc idx show ?thesis by simp
qed

text \<open>
  The user pages at an address are the first pages of a group: what
  \<^verbatim>\<open>pin_user_pages_fast\<close> returns for a shadow buffer that is mapped there.
\<close>

definition shadow_mapped :: "kenv \<Rightarrow> kstate \<Rightarrow> u64 \<Rightarrow> mptr \<Rightarrow> nvfs_io_mgroup \<Rightarrow> nat \<Rightarrow> bool" where
  "shadow_mapped e s va p m n \<longleftrightarrow>
     pin_user_pages_fast e va n = (int n, map (\<lambda>j. the (the (nvfs_ppages m) ! j)) [0 ..< n]) \<and>
     (\<forall>j < n. \<exists>pg. page_of_group e s p m j pg)"

lemma pin_shadow_pages_ok:
  assumes "valid_page_shift (page_shift e)" and "hash_wf s" and "mgroups s p = Some m"
    and "va \<noteq> 0" and "va mod 4096 = 0" and "kalloc_ok e AllocPagePtrs"
    and "\<not> should_fail e nvfs_pin_shadow_pages_error"
    and "n = DIV_ROUND_UP len (PAGE_SIZE (page_shift e))" and "0 < len" and "n \<le> NVFS_MAX_SHADOW_PAGES (page_shift e)"
    and "DIV_ROUND_UP len 4096 \<le> nvfs_blocks_count m" and "shadow_mapped e s va p m n"
  shows "\<exists>m'. nvfs_mgroup_pin_shadow_pages e va len s = Some (Some p, s\<lparr>mgroups := (mgroups s)(p \<mapsto> m')\<rparr>) \<and>
    mg_ref m' = mg_ref m + 1 \<and> cpu_base_vaddr m' = va \<and> mgroup_wf e m' \<and> settled m' \<and>
    base_index m' = base_index m \<and> gpu_info m' = gpu_info m \<and> nvfs_ppages m' = nvfs_ppages m \<and>
    nvfs_blocks_count m' = nvfs_blocks_count m \<and> fault_injected m' = fault_injected m \<and>
    (\<forall>j < nvfs_blocks_count m. block_state m' j = NVFS_IO_INIT)"
proof -
  define pgs where "pgs = map (\<lambda>j. the (the (nvfs_ppages m) ! j)) [0 ..< n]"
  have n: "0 < n"
    using assms(8,9) DIV_ROUND_UP_bounds(1) [of "PAGE_SIZE (page_shift e)" len] by (cases n) (simp_all add: PAGE_SIZE_def)
  have pg: "page_of_group e s p m k (pgs ! k)" if "k < n" for k
  proof -
    from assms(12) that obtain q where "page_of_group e s p m k q" by (auto simp: shadow_mapped_def)
    moreover from this have "the (nvfs_ppages m) ! k = Some q" by (simp add: page_of_group_def)
    ultimately show ?thesis using that by (simp add: pgs_def)
  qed
  have wf: "mgroup_wf e m" using pg [OF n] by (simp add: page_of_group_def)
  then obtain pps where pps: "nvfs_ppages m = Some pps"
    "length pps = DIV_ROUND_UP (nvfs_blocks_count m) (nvfs_block_count_per_page (page_shift e))"
    by (auto simp: mgroup_wf_def)
  let ?s1 = "fold get_page pgs s"
  let ?m1 = "m\<lparr>mg_ref := mg_ref m + 1\<rparr>"
  have "pin_pages_loop e (DIV_ROUND_UP len 4096) None 0 pgs ?s1 =
      Some (Some p, True, fold put_page pgs (?s1\<lparr>mgroups := (mgroups ?s1)(p \<mapsto> ?m1)\<rparr>))"
  proof (rule pin_loop_all)
    show "hash_wf ?s1" using assms(2) by (rule hash_wf_same) (simp_all add: fold_get_page)
    fix k assume "k < length pgs"
    then have k: "page_of_group e s p m k (pgs ! k)" using pg by (simp add: pgs_def)
    have "k < length pps"
      using k page_of_block [of "nvfs_block_count_per_page (page_shift e)"
          "k * nvfs_block_count_per_page (page_shift e)"] assms(1) pps(2)
      by (simp add: page_of_group_def)
    with k pps show "k < length pps \<and> pps ! k = Some (pgs ! k) \<and> page_base_index e ?s1 (pgs ! k) = base_index m \<and>
        rel_page e ?s1 (pgs ! k) = k \<and> \<not> page_mapping (kpages ?s1 (pgs ! k))"
      by (auto simp: page_of_group_def rel_page_def page_base_index_def NVFS_PAGE_INDEX_def fold_get_page)
  qed (use assms(3,11) n pps in \<open>simp_all add: pgs_def\<close>)
  moreover have "fold put_page pgs (?s1\<lparr>mgroups := (mgroups ?s1)(p \<mapsto> ?m1)\<rparr>) = s\<lparr>mgroups := (mgroups s)(p \<mapsto> ?m1)\<rparr>"
    by (simp add: fold_get_page fold_put_page)
  moreover have "gup e va n s = (int n, pgs, ?s1)"
    using assms(12) by (simp add: gup_def shadow_mapped_def pgs_def)
  moreover have "mgroup_wf e (?m1\<lparr>cpu_base_vaddr := va\<rparr>)" using wf by (simp add: mgroup_wf_def)
  ultimately show ?thesis
    using assms(4-10) pps(1) init_blocks_settled [of e "?m1\<lparr>cpu_base_vaddr := va\<rparr>"]
      check_and_set_init [of "s\<lparr>mgroups := (mgroups s)(p \<mapsto> ?m1\<lparr>cpu_base_vaddr := va\<rparr>)\<rparr>" p
        "?m1\<lparr>cpu_base_vaddr := va\<rparr>" e True]
    by (auto simp: nvfs_mgroup_pin_shadow_pages_def Let_def init_blocks_def)
qed

text \<open>
  C27. The map request finds its shadow buffer. On an aligned address where the first \<open>n\<close> pages
  of a group are mapped, \<^verbatim>\<open>nvfs_mgroup_pin_shadow_pages\<close> never trips one of its \<^verbatim>\<open>BUG_ON\<close>s and returns
  that group: with one more reference, its address recorded, and every block in its
  initial state. Nothing else has changed; in particular every page is unpinned again.
\<close>

theorem pin_shadow_pages_correct:
  assumes "valid_page_shift (page_shift e)" and "hash_wf s" and "mgroups s p = Some m"
    and "va \<noteq> 0" and "va mod 4096 = 0" and "kalloc_ok e AllocPagePtrs"
    and "\<not> should_fail e nvfs_pin_shadow_pages_error"
    and "n = DIV_ROUND_UP len (PAGE_SIZE (page_shift e))" and "0 < len" and "n \<le> NVFS_MAX_SHADOW_PAGES (page_shift e)"
    and "DIV_ROUND_UP len 4096 \<le> nvfs_blocks_count m" and "shadow_mapped e s va p m n"
  shows "\<exists>m'. nvfs_mgroup_pin_shadow_pages e va len s = Some (Some p, s\<lparr>mgroups := (mgroups s)(p \<mapsto> m')\<rparr>) \<and>
    mg_ref m' = mg_ref m + 1 \<and> cpu_base_vaddr m' = va \<and> mgroup_wf e m' \<and> settled m' \<and>
    base_index m' = base_index m \<and> gpu_info m' = gpu_info m \<and> nvfs_ppages m' = nvfs_ppages m \<and>
    nvfs_blocks_count m' = nvfs_blocks_count m \<and> fault_injected m' = fault_injected m \<and>
    (\<forall>j < nvfs_blocks_count m. block_state m' j = NVFS_IO_INIT)"
  using assms by (rule pin_shadow_pages_ok)

theorem pin_shadow_pages_correct_witness:
  "\<exists>m'. nvfs_mgroup_pin_shadow_pages ex_env 0x10000 65536 ex_paged_state =
      Some (Some 100, ex_paged_state\<lparr>mgroups := (mgroups ex_paged_state)(100 \<mapsto> m')\<rparr>) \<and> mg_ref m' = 2 \<and> settled m'"
proof -
  have sm: "shadow_mapped ex_env ex_paged_state 0x10000 100 ex_init_group 16"
    using ex_page_of_group
    by (auto simp: shadow_mapped_def ex_env_def ex_init_group_def ex_group_def)
  have e: "valid_page_shift (page_shift ex_env)" "kalloc_ok ex_env AllocPagePtrs"
    "\<not> should_fail ex_env nvfs_pin_shadow_pages_error"
    "16 = DIV_ROUND_UP 65536 (PAGE_SIZE (page_shift ex_env))" "16 \<le> NVFS_MAX_SHADOW_PAGES (page_shift ex_env)"
    by (simp_all add: valid_page_shift_def ex_env_def nvfs_geom DIV_ROUND_UP_def)
  have m: "DIV_ROUND_UP 65536 4096 \<le> nvfs_blocks_count ex_init_group" "mg_ref ex_init_group = 1"
    by (simp_all add: ex_init_group_def ex_group_def DIV_ROUND_UP_def)
  from pin_shadow_pages_correct [OF e(1) ex_paged_wf _ _ e(2-4) _ e(5) m(1) sm] m(2) show ?thesis by auto
qed

text \<open>
  The early exits of the loop leak. When the pages at the address are not those of a
  shadow buffer (the first one belongs to an ordinary mapping, or names no group), the
  request fails but every page stays pinned: its reference count is left one higher for
  each time it occurs.
\<close>

theorem pin_shadow_pages_leaks_pins:
  assumes "hash_wf s" and "va \<noteq> 0" and "va mod 4096 = 0" and "kalloc_ok e AllocPagePtrs"
    and "\<not> should_fail e nvfs_pin_shadow_pages_error"
    and "n = DIV_ROUND_UP len (PAGE_SIZE (page_shift e))" and "n \<le> NVFS_MAX_SHADOW_PAGES (page_shift e)"
    and "pin_user_pages_fast e va n = (int n, pg # pgs)"
    and "page_mapping (kpages s pg) \<or> \<not> index_used s (page_base_index e s pg)"
  shows "nvfs_mgroup_pin_shadow_pages e va len s =
    Some (None, s\<lparr>page_refs := (\<lambda>q. page_refs s q + int (count_list (pg # pgs) q))\<rparr>)"
proof -
  let ?s1 = "fold get_page (pg # pgs) s"
  have wf: "hash_wf ?s1" using assms(1) by (rule hash_wf_same) (simp_all add: fold_get_page del: fold_simps)
  have used: "index_used ?s1 b = index_used s b" "page_base_index e ?s1 pg = page_base_index e s pg" for b
    by (simp_all add: index_used_def page_base_index_def NVFS_PAGE_INDEX_def fold_get_page del: fold_simps)
  have "page_mapping (kpages ?s1 pg) \<or> nvfs_mgroup_get (page_base_index e ?s1 pg) ?s1 = Some (None, ?s1)"
    using assms(9) mgroup_get_miss [OF wf, of "page_base_index e ?s1 pg"] used
    by (auto simp: index_used_def nvfs_mgroup_get_def fold_get_page simp del: fold_simps)
  then have "\<exists>mg. pin_pages_loop e (DIV_ROUND_UP len 4096) None 0 (pg # pgs) ?s1 = Some (mg, False, ?s1)"
    by (auto simp del: fold_simps)
  then obtain mg where "pin_pages_loop e (DIV_ROUND_UP len 4096) None 0 (pg # pgs) ?s1 = Some (mg, False, ?s1)" ..
  moreover have "gup e va n s = (int n, pg # pgs, ?s1)" using assms(8) by (simp add: gup_def)
  ultimately have "nvfs_mgroup_pin_shadow_pages e va len s = Some (None, ?s1)"
    using assms(2-7) by (simp add: nvfs_mgroup_pin_shadow_pages_def Let_def del: fold_simps pin_pages_loop.simps)
  then show ?thesis by (simp only: fold_get_page)
qed

theorem pin_shadow_pages_leaks_pins_witness:
  "\<exists>s'. nvfs_mgroup_pin_shadow_pages ex_env 0x10000 4096 empty_kstate = Some (None, s') \<and>
     page_refs empty_kstate 500 = 1 \<and> page_refs s' 500 = 2"
  using pin_shadow_pages_leaks_pins [of empty_kstate "0x10000" ex_env 1 4096 500 "[]"]
  by (simp add: hash_wf_def index_used_def empty_kstate_def ex_env_def DIV_ROUND_UP_def nvfs_geom)

end
