(* ===== verification/Nvfs_Gpu.thy ===== *)
theory Nvfs_Gpu
  imports Nvfs_Pin
begin

text \<open>
  The GPU side of a shadow buffer (\<^verbatim>\<open>nvfs-core.c\<close>): the map request (\<^verbatim>\<open>nvfs_map\<close>, with the
  completion page and the pinned GPU pages), the callback by which the GPU driver takes
  the pages away (\<^verbatim>\<open>nvfs_get_pages_free_callback\<close>).
\<close>

section \<open>The map request\<close>

record nvfs_ioctl_map =
  map_size :: u64
  map_pdevinfo :: u64
  map_cpuvaddr :: u64
  map_gpuvaddr :: u64
  end_fence_addr :: u64
  sbuf_block :: u32
  map_is_bounce_buffer :: u16

definition nvfs_get_endfence_page :: "kenv \<Rightarrow> nvfs_ioctl_map \<Rightarrow> mptr \<Rightarrow> kstate \<Rightarrow> (int \<times> kstate) option" where
  "nvfs_get_endfence_page e inp p s =
     (let end_fence = end_fence_addr inp
      in if end_fence = 0 then Some (- EINVAL, s)
         else if end_fence AND (NVFS_BLOCK_SIZE - 1) \<noteq> 0 then Some (- EINVAL, s)
         else if should_fail e nvfs_end_fence_get_user_pages_fast_error then Some (- EFAULT, s)
         else case gup e end_fence 1 s of (ret, pages, s1) \<Rightarrow>
           if ret \<noteq> 1 then Some (ret, s1)
           else do {
             pg \<leftarrow> arr_get pages 0;
             s2 \<leftarrow> upd_gpu p (\<lambda>g. g\<lparr>end_fence_page := Some pg,
                      offset_in_page := unat end_fence mod PAGE_SIZE (page_shift e)\<rparr>) s1;
             Some (0, s2) })"

text \<open>
  The number of contiguous pieces of the pinned memory. The bound of the loop is unsigned, so
  an empty table makes it run off the end.
\<close>

definition phys_chunk :: "p2p_page_table \<Rightarrow> nat \<Rightarrow> nat \<Rightarrow> nat option" where
  "phys_chunk pt i n =
     do { a \<leftarrow> arr_get (pt_physical pt) i;
          b \<leftarrow> arr_get (pt_physical pt) (i + 1);
          Some (if a + GPU_PAGE_SIZE \<noteq> b then n + 1
                else if i > 0 \<and> i mod NVFS_P2P_MAX_CONTIG_GPU_PAGES = 0 then n + 1 else n) }"

definition count_phys_chunks :: "p2p_page_table \<Rightarrow> nat option" where
  "count_phys_chunks pt =
     (if pt_entries pt = 0 then None else ofold (phys_chunk pt) [0 ..< pt_entries pt - 1] 1)"

definition round_up_gpu_page :: "u64 \<Rightarrow> u64" where
  "round_up_gpu_page x = ((x - 1) OR (GPU_PAGE_SIZE - 1)) + 1"

text \<open>The checks on the sizes of the request.\<close>

definition gpu_request_ok :: "nvfs_ioctl_map \<Rightarrow> bool" where
  "gpu_request_ok inp \<longleftrightarrow>
     (let gpu_virt_start = map_gpuvaddr inp AND GPU_PAGE_MASK;
          gpu_virt_end = map_gpuvaddr inp + map_size inp - 1
      in \<not> gpu_virt_end < gpu_virt_start \<and>
         \<not> (map_size inp < GPU_PAGE_SIZE \<and>
            ucast (sbuf_block inp) * NVFS_BLOCK_SIZE < map_gpuvaddr inp - gpu_virt_start + map_size inp))"

text \<open>
  The part after the pages are pinned: validation of the table, statistics, and the way back
  (label \<^verbatim>\<open>unpin_gpu_pages\<close>).
\<close>

definition pin_gpu_finish :: "kenv \<Rightarrow> mptr \<Rightarrow> p2p_page_table \<Rightarrow> kstate \<Rightarrow> (int \<times> kstate) option" where
  "pin_gpu_finish e p pt s =
     do { n \<leftarrow> count_phys_chunks pt;
          s1 \<leftarrow> upd_gpu p (\<lambda>g. g\<lparr>n_phys_chunks := n\<rparr>) s;
          let fault = should_fail e nvfs_invalid_p2p_get_page;
          if fault \<or> \<not> version_compatible pt \<or> \<not> page_size_64k pt then do {
            (ok, s2) \<leftarrow> nvfs_transit_state e p True IO_INIT IO_FREE s1;
            (_, s3) \<leftarrow> (if ok then nvfs_unpin_gpu_pages e p s2 else Some (0, s2));
            Some (if fault then - EFAULT else - EINVAL, s3) }
          else do {
            m \<leftarrow> mgroups s1 p;
            Some (0, kstat (nvfs_update_alloc_gpustat (kalloc_ok e AllocGpuStat) (gpu_info m)) s1) } }"

definition nvfs_pin_gpu_pages :: "kenv \<Rightarrow> nvfs_ioctl_map \<Rightarrow> mptr \<Rightarrow> kstate \<Rightarrow> (int \<times> kstate) option" where
  "nvfs_pin_gpu_pages e inp p s =
     do { (ok, s1) \<leftarrow> nvfs_transit_state e p True IO_FREE IO_INIT s;
          if \<not> ok then Some (- EINVAL, s1)
          else if \<not> gpu_request_ok inp then Some (- EINVAL, s1)
          else do {
            let gpu_virt_start = map_gpuvaddr inp AND GPU_PAGE_MASK;
            let gpu_virt_end = map_gpuvaddr inp + map_size inp - 1;
            let rounded_size = round_up_gpu_page (gpu_virt_end - gpu_virt_start + 1);
            let (ret, pt) = p2p_get_pages e gpu_virt_start rounded_size;
            s2 \<leftarrow> upd_gpu p (\<lambda>g. g\<lparr>gpu_buf_len := map_size inp, gpuvaddr := map_gpuvaddr inp,
                    page_table := pt, is_bounce_buffer := (map_is_bounce_buffer inp = 1),
                    dma_mapping_in_progress := 0, buckets := [],
                    use_legacy_p2p_allocation :=
                      (nvfs_use_legacy_p2p_allocation e \<or> use_legacy_p2p_allocation g)\<rparr>) s1;
            let s3 = klog_event (if nvfs_use_legacy_p2p_allocation e then EvGetPages gpu_virt_start rounded_size
                                 else EvGetPagesPersistent gpu_virt_start rounded_size) s2;
            if ret < 0 then Some (ret, s3)
            else do { pt' \<leftarrow> pt; pin_gpu_finish e p pt' s3 } } }"

definition nvfs_map_gpu_info :: "kenv \<Rightarrow> nvfs_ioctl_map \<Rightarrow> mptr \<Rightarrow> kstate \<Rightarrow> (int \<times> kstate) option" where
  "nvfs_map_gpu_info e inp p s =
     do { (ret, s1) \<leftarrow> nvfs_get_endfence_page e inp p s;
          if ret \<noteq> 0 then Some (ret, s1)
          else do {
            (ret, s2) \<leftarrow> nvfs_pin_gpu_pages e inp p s1;
            if ret \<noteq> 0 then do { s3 \<leftarrow> nvfs_free_put_endfence_page p s2; Some (ret, s3) }
            else Some (0, s2) } }"

text \<open>
  The failure of the last transition jumps to the error label with \<^verbatim>\<open>ret\<close> still 0.
\<close>

definition nvfs_map :: "kenv \<Rightarrow> nvfs_ioctl_map \<Rightarrow> kstate \<Rightarrow> (int \<times> kstate) option" where
  "nvfs_map e inp s =
     do { let s0 = nvfs_get_ops e s;
          let error = (\<lambda>ret s. Some (ret, nvfs_put_ops e s));
          (mg, s1) \<leftarrow> nvfs_mgroup_pin_shadow_pages e (map_cpuvaddr inp) (unat (sbuf_block inp) * NVFS_BLOCK_SIZE) s0;
          case mg of
            None \<Rightarrow> error (- EINVAL) s1
          | Some p \<Rightarrow> do {
              s2 \<leftarrow> upd_gpu p (\<lambda>g. g\<lparr>pdevinfo := map_pdevinfo inp,
                                     gpu_hash_index := get_gpu_hash_index e (map_pdevinfo inp)\<rparr>) s1;
              (ret, s3) \<leftarrow> nvfs_map_gpu_info e inp p s2;
              if ret \<noteq> 0 then error ret s3
              else do {
                (ok, s4) \<leftarrow> nvfs_transit_state e p True IO_INIT IO_READY s3;
                if ok then Some (0, s4) else error 0 s4 } } }"

section \<open>The callback of the GPU driver\<close>

text \<open>
  The callback polls the I/O state while other threads run. \<open>others k\<close> is what they do to the
  state during the \<open>k\<close>-th wait; the number of polls is bounded by fuel, and \<open>Waiting\<close> is a
  callback that has not returned yet.
\<close>

datatype poll = Waiting | Woken kstate

type_synonym interference = "nat \<Rightarrow> kstate \<Rightarrow> kstate"

fun poll_io_state :: "interference \<Rightarrow> nvfs_io_state list \<Rightarrow> mptr \<Rightarrow> nat \<Rightarrow> nat \<Rightarrow> kstate \<Rightarrow> poll option" where
  "poll_io_state others goal p 0 k s = Some Waiting"
| "poll_io_state others goal p (Suc fuel) k s =
     do { let s1 = others k s;
          st \<leftarrow> get_io_state p s1;
          if st \<in> set goal then Some (Woken s1) else poll_io_state others goal p fuel (Suc k) s1 }"

definition nvfs_io_terminate :: "interference \<Rightarrow> nat \<Rightarrow> mptr \<Rightarrow> bool \<Rightarrow> kstate \<Rightarrow> poll option" where
  "nvfs_io_terminate others fuel p callback s =
     do { (wait, s1) \<leftarrow> nvfs_io_terminate_requested p callback s;
          if wait then poll_io_state others [IO_CALLBACK_END, IO_TERMINATED] p fuel 0 s1
          else Some (Woken s1) }"

fun free_buckets :: "mptr \<Rightarrow> pci_dev_mapping list \<Rightarrow> kstate \<Rightarrow> kstate option" where
  "free_buckets p [] s = Some s"
| "free_buckets p (b # bs) s =
     (if dma_mapping b = None then None
      else do { s1 \<leftarrow> upd_gpu p (\<lambda>g. g\<lparr>buckets := bs\<rparr>) (klog_event (EvFreeDmaMapping (mapped_dev b)) s);
                free_buckets p bs s1 })"

text \<open>What the callback does once it owns the termination.\<close>

definition callback_release :: "kenv \<Rightarrow> mptr \<Rightarrow> kstate \<Rightarrow> kstate option" where
  "callback_release e p s =
     do { m \<leftarrow> mgroups s p;
          s1 \<leftarrow> free_buckets p (buckets (gpu_info m)) s;
          st \<leftarrow> nvfs_update_free_gpustat (gpu_info m) (kstats s1);
          s2 \<leftarrow> upd_gpu p (\<lambda>g. g\<lparr>page_table := None\<rparr>) (s1\<lparr>kstats := st\<rparr>);
          let s3 = (if page_table (gpu_info m) \<noteq> None then klog_event EvFreePageTable s2 else s2);
          pg \<leftarrow> end_fence_page (gpu_info m);
          nvfs_mgroup_put e p
            (s3\<lparr>metapages := (metapages s3)(pg := (metapages s3 pg)\<lparr>mp_state := NVFS_IO_META_DIED\<rparr>)\<rparr>) }"

definition nvfs_get_pages_free_callback :: "kenv \<Rightarrow> interference \<Rightarrow> nat \<Rightarrow> mptr \<Rightarrow> kstate \<Rightarrow> poll option" where
  "nvfs_get_pages_free_callback e others fuel p s =
     do { w \<leftarrow> nvfs_io_terminate others fuel p True (kstat (nvfs_stat nvfs_n_callbacks) s);
          case w of
            Waiting \<Rightarrow> Some Waiting
          | Woken s1 \<Rightarrow> do {
              st \<leftarrow> get_io_state p s1;
              if st \<noteq> IO_CALLBACK_END
              then poll_io_state others [IO_UNPIN_PAGES_ALREADY_INVOKED] p fuel fuel s1
              else do { s2 \<leftarrow> callback_release e p s1; Some (Woken s2) } } }"

section \<open>The pinned range\<close>

lemma clear_low_bits: "x AND NOT (mask 16) = x div 65536 * (65536 :: int)"
proof -
  have "x AND NOT (mask 16) = push_bit 16 (drop_bit 16 x)"
    by (rule bit_eqI) (auto simp: bit_simps)
  then show ?thesis by (simp add: push_bit_eq_mult drop_bit_eq_div)
qed

lemma or_low_bits:
  fixes y :: u64
  shows "uint (y OR 0xffff) = uint y div 65536 * 65536 + 65535"
proof -
  have "uint (y OR 0xffff) = uint y OR mask 16" by (simp add: uint_or mask_eq_exp_minus_1)
  also have "\<dots> = (uint y AND NOT (mask 16)) OR mask 16" by (auto intro!: bit_eqI simp: bit_simps)
  also have "\<dots> = (uint y AND NOT (mask 16)) + mask 16"
    by (rule disjunctive_add_eq_or [symmetric]) (auto intro!: bit_eqI simp: bit_simps)
  finally show ?thesis unfolding clear_low_bits by (simp add: mask_eq_exp_minus_1)
qed

lemma gpu_page_start:
  "uint (a AND GPU_PAGE_MASK) = uint a div 65536 * 65536"
proof -
  have mask: "GPU_PAGE_MASK = NOT (mask 16)" by (simp add: GPU_PAGE_MASK_def mask_eq_exp_minus_1)
  have "uint (a AND GPU_PAGE_MASK) = uint a AND NOT (mask 16)"
    unfolding mask using bit_imp_le_length [of a] by (auto intro!: bit_eqI simp: bit_simps)
  then show ?thesis unfolding clear_low_bits .
qed


text \<open>Whole GPU pages around a buffer.\<close>

lemma page_range_covers:
  assumes "map_size inp \<noteq> 0" and "uint (map_gpuvaddr inp) + uint (map_size inp) + 65536 < 2 ^ 64"
    and "start = map_gpuvaddr inp AND GPU_PAGE_MASK"
    and "len = round_up_gpu_page (map_gpuvaddr inp + map_size inp - 1 - start + 1)"
  shows "uint start mod 65536 = 0 \<and> uint len mod 65536 = 0 \<and> uint start \<le> uint (map_gpuvaddr inp) \<and>
    uint (map_gpuvaddr inp) < uint start + 65536 \<and>
    uint (map_gpuvaddr inp) + uint (map_size inp) \<le> uint start + uint len \<and>
    uint start + uint len < uint (map_gpuvaddr inp) + uint (map_size inp) + 65536"
proof -
  define a z where "a = uint (map_gpuvaddr inp)" and "z = uint (map_size inp)"
  have z: "0 < z" "a + z + 65536 < 2 ^ 64" "0 \<le> a"
    using assms(1,2) by (simp_all add: a_def z_def word_neq_0_conv word_less_def)
  have st: "uint start = a div 65536 * 65536" unfolding assms(3) a_def by (rule gpu_page_start)
  define w where "w = map_gpuvaddr inp + map_size inp - 1 - start"
  have bounds: "a div 65536 * 65536 \<le> a" "a < a div 65536 * 65536 + 65536" by simp presburger
  have "uint w = (a + z - 1 - uint start) mod 2 ^ 64"
    by (simp add: w_def uint_word_ariths a_def z_def mod_simps)
  also have "\<dots> = a + z - 1 - uint start"
    using z bounds st by (intro mod_pos_pos_trivial) simp_all
  finally have x: "uint w = a + z - 1 - uint start" .
  have le: "k div 65536 * 65536 \<le> k" for k :: int by presburger
  have "uint (w OR 0xffff) + 1 < 2 ^ 64"
    unfolding or_low_bits x
    using z bounds st le [of "a + z - 1 - uint start"] uint_ge_0 [of start] by linarith
  then have "uint len = uint (w OR 0xffff) + 1"
    unfolding assms(4) w_def [symmetric] round_up_gpu_page_def by (simp add: uint_word_ariths)
  then have len: "uint len = (a + z - 1 - uint start) div 65536 * 65536 + 65536"
    unfolding or_low_bits x by simp
  show ?thesis
    unfolding a_def [symmetric] z_def [symmetric] len st using z bounds by auto
qed

definition ex_map :: nvfs_ioctl_map where
  "ex_map = \<lparr> map_size = 0x10000, map_pdevinfo = 0x300, map_cpuvaddr = 0x10000, map_gpuvaddr = 0x20000,
     end_fence_addr = 0x90000, sbuf_block = 16, map_is_bounce_buffer = 0 \<rparr>"

section \<open>Contiguous pieces\<close>

lemma ofold_count:
  assumes "\<And>i n. i < k \<Longrightarrow> f i n = Some (if P i then n + 1 else n)"
  shows "ofold f [0 ..< k] (c :: nat) = Some (c + card {i. i < k \<and> P i})"
  using assms
proof (induction k)
  case 0
  then show ?case by simp
next
  case (Suc k)
  have "{i. i < Suc k \<and> P i} = (if P k then insert k {i. i < k \<and> P i} else {i. i < k \<and> P i})"
    by (auto simp: less_Suc_eq)
  with Suc show ?case by (simp add: ofold_append)
qed

text \<open>A new piece starts after an address gap and after every 65535 GPU pages.\<close>

definition phys_break :: "p2p_page_table \<Rightarrow> nat \<Rightarrow> bool" where
  "phys_break pt i \<longleftrightarrow> pt_physical pt ! i + 65536 \<noteq> pt_physical pt ! (i + 1) \<or> (i > 0 \<and> i mod 65535 = 0)"

definition good_table :: "p2p_page_table \<Rightarrow> bool" where
  "good_table pt \<longleftrightarrow> version_compatible pt \<and> page_size_64k pt \<and> 0 < pt_entries pt \<and>
     pt_entries pt = length (pt_physical pt)"

lemma count_phys_chunks_ok:
  assumes "good_table pt"
  shows "count_phys_chunks pt = Some (1 + card {i. i < pt_entries pt - 1 \<and> phys_break pt i})"
proof -
  have "phys_chunk pt i n = Some (if phys_break pt i then n + 1 else n)" if "i < pt_entries pt - 1" for i n
  proof -
    have "i < length (pt_physical pt)" "i + 1 < length (pt_physical pt)" using that assms by (auto simp: good_table_def)
    then show ?thesis by (auto simp: phys_chunk_def phys_break_def arr_get_def)
  qed
  then have "ofold (phys_chunk pt) [0 ..< pt_entries pt - 1] 1 =
      Some (1 + card {i. i < pt_entries pt - 1 \<and> phys_break pt i})"
    by (rule ofold_count)
  then show ?thesis
    using assms by (auto simp: count_phys_chunks_def good_table_def)
qed

section \<open>The steps of the map request\<close>

text \<open>
  What a map request relies on: the shadow buffer is mapped at the address it names and is
  large enough, no fault is injected, the completion page can be pinned.
\<close>

definition no_faults :: "kenv \<Rightarrow> bool" where
  "no_faults e \<longleftrightarrow> (\<forall>f. \<not> should_fail e f)"

definition shadow_ok :: "kenv \<Rightarrow> nvfs_ioctl_map \<Rightarrow> kstate \<Rightarrow> mptr \<Rightarrow> nvfs_io_mgroup \<Rightarrow> bool" where
  "shadow_ok e inp s p m \<longleftrightarrow>
     valid_page_shift (page_shift e) \<and> no_faults e \<and> cpus_ok e \<and> hash_wf s \<and> mgroups s p = Some m \<and>
     map_cpuvaddr inp \<noteq> 0 \<and> map_cpuvaddr inp mod 4096 = 0 \<and> kalloc_ok e AllocPagePtrs \<and>
     sbuf_block inp \<noteq> 0 \<and> unat (sbuf_block inp) \<le> nvfs_blocks_count m \<and>
     (let n = DIV_ROUND_UP (unat (sbuf_block inp) * 4096) (PAGE_SIZE (page_shift e))
      in n \<le> NVFS_MAX_SHADOW_PAGES (page_shift e) \<and> shadow_mapped e s (map_cpuvaddr inp) p m n)"

definition fence_ok :: "kenv \<Rightarrow> nvfs_ioctl_map \<Rightarrow> pageid \<Rightarrow> bool" where
  "fence_ok e inp fp \<longleftrightarrow> end_fence_addr inp \<noteq> 0 \<and> end_fence_addr inp AND 4095 = 0 \<and>
     pin_user_pages_fast e (end_fence_addr inp) 1 = (1, [fp])"

lemma shadow_mapped_cong:
  assumes "mgroups s = mgroups s'" and "kpages s = kpages s'"
  shows "shadow_mapped e s va p m n = shadow_mapped e s' va p m n"
  using assms
  by (simp add: shadow_mapped_def page_of_group_def page_base_index_def rel_page_def NVFS_PAGE_INDEX_def)

text \<open>The map request up to the GPU side.\<close>

lemma nvfs_map_start:
  assumes "shadow_ok e inp s p m"
  obtains m1 where "mg_ref m1 = mg_ref m + 1" "cpu_base_vaddr m1 = map_cpuvaddr inp" "mgroup_wf e m1" "settled m1"
    "base_index m1 = base_index m" "nvfs_ppages m1 = nvfs_ppages m" "nvfs_blocks_count m1 = nvfs_blocks_count m"
    "fault_injected m1 = fault_injected m"
    "gpu_info m1 = (gpu_info m)\<lparr>pdevinfo := map_pdevinfo inp, gpu_hash_index := get_gpu_hash_index e (map_pdevinfo inp)\<rparr>"
    "nvfs_map e inp s =
      do { (ret, s3) \<leftarrow> nvfs_map_gpu_info e inp p ((nvfs_get_ops e s)\<lparr>mgroups := (mgroups s)(p \<mapsto> m1)\<rparr>);
           if ret \<noteq> 0 then Some (ret, nvfs_put_ops e s3)
           else do { (ok, s4) \<leftarrow> nvfs_transit_state e p True IO_INIT IO_READY s3;
                     if ok then Some (0, s4) else Some (0, nvfs_put_ops e s4) } }"
proof -
  let ?len = "unat (sbuf_block inp) * 4096" and ?s = "nvfs_get_ops e s"
  have wf: "hash_wf ?s" using assms by (auto simp: shadow_ok_def elim: hash_wf_same)
  have len: "0 < ?len" "DIV_ROUND_UP ?len 4096 \<le> nvfs_blocks_count m"
    using assms DIV_ROUND_UP_exact [of 4096 "unat (sbuf_block inp) * 4096"]
    by (auto simp: shadow_ok_def mult.commute unat_gt_0)
  have sm: "shadow_mapped e ?s (map_cpuvaddr inp) p m (DIV_ROUND_UP ?len (PAGE_SIZE (page_shift e)))"
    using assms shadow_mapped_cong [of ?s s] by (simp add: shadow_ok_def Let_def)
  obtain m' where pin: "nvfs_mgroup_pin_shadow_pages e (map_cpuvaddr inp) ?len ?s =
      Some (Some p, ?s\<lparr>mgroups := (mgroups ?s)(p \<mapsto> m')\<rparr>)"
    and m': "mg_ref m' = mg_ref m + 1" "cpu_base_vaddr m' = map_cpuvaddr inp" "mgroup_wf e m'" "settled m'"
      "base_index m' = base_index m" "gpu_info m' = gpu_info m" "nvfs_ppages m' = nvfs_ppages m"
      "nvfs_blocks_count m' = nvfs_blocks_count m" "fault_injected m' = fault_injected m"
    using pin_shadow_pages_ok [OF _ wf _ _ _ _ _ refl len(1) _ len(2) sm] assms
    by (auto simp: shadow_ok_def no_faults_def Let_def)
  let ?m1 = "m'\<lparr>gpu_info := (gpu_info m')\<lparr>pdevinfo := map_pdevinfo inp,
    gpu_hash_index := get_gpu_hash_index e (map_pdevinfo inp)\<rparr>\<rparr>"
  show ?thesis
  proof (rule that [of ?m1])
    show "mgroup_wf e ?m1" "settled ?m1" using m'(3,4) by (simp_all add: mgroup_wf_def settled_def block_state_def)
  qed (use m' pin in \<open>simp_all add: nvfs_map_def upd_gpu_def Let_def\<close>)
qed

lemma endfence_get_ok:
  assumes "mgroups s p = Some m" and "fence_ok e inp fp" and "no_faults e"
  shows "nvfs_get_endfence_page e inp p s = Some (0, (get_page fp s)\<lparr>mgroups := (mgroups s)(p \<mapsto>
    m\<lparr>gpu_info := (gpu_info m)\<lparr>end_fence_page := Some fp,
      offset_in_page := unat (end_fence_addr inp) mod PAGE_SIZE (page_shift e)\<rparr>\<rparr>)\<rparr>)"
  using assms
  by (simp add: nvfs_get_endfence_page_def fence_ok_def no_faults_def gup_def upd_gpu_def Let_def)

text \<open>The GPU arguments once the pages are pinned.\<close>

definition pinned_gpu :: "kenv \<Rightarrow> nvfs_ioctl_map \<Rightarrow> p2p_page_table \<Rightarrow> nvfs_gpu_args \<Rightarrow> nvfs_gpu_args" where
  "pinned_gpu e inp pt g = g\<lparr>io_state := IO_INIT, gpu_buf_len := map_size inp, gpuvaddr := map_gpuvaddr inp,
     page_table := Some pt, is_bounce_buffer := (map_is_bounce_buffer inp = 1), dma_mapping_in_progress := 0,
     buckets := [], use_legacy_p2p_allocation := (nvfs_use_legacy_p2p_allocation e \<or> use_legacy_p2p_allocation g)\<rparr>"

definition pin_request :: "nvfs_ioctl_map \<Rightarrow> u64 \<times> u64" where
  "pin_request inp = (map_gpuvaddr inp AND GPU_PAGE_MASK,
     round_up_gpu_page (map_gpuvaddr inp + map_size inp - 1 - (map_gpuvaddr inp AND GPU_PAGE_MASK) + 1))"

definition get_pages_event :: "kenv \<Rightarrow> nvfs_ioctl_map \<Rightarrow> kevent" where
  "get_pages_event e inp = (if nvfs_use_legacy_p2p_allocation e then case_prod EvGetPages (pin_request inp)
     else case_prod EvGetPagesPersistent (pin_request inp))"

lemma pin_gpu_pages_start:
  assumes "mgroups s p = Some m" and "io_state (gpu_info m) = IO_FREE" and "no_faults e"
    and "gpu_request_ok inp" and "case_prod (p2p_get_pages e) (pin_request inp) = (0, Some pt)"
  shows "nvfs_pin_gpu_pages e inp p s = pin_gpu_finish e p pt (klog_event (get_pages_event e inp)
    (s\<lparr>mgroups := (mgroups s)(p \<mapsto> m\<lparr>gpu_info := pinned_gpu e inp pt (gpu_info m)\<rparr>)\<rparr>))"
  using assms transit_ok [OF assms(1,2), of e IO_INIT True]
  by (simp add: nvfs_pin_gpu_pages_def no_faults_def pin_request_def get_pages_event_def pinned_gpu_def upd_gpu_def
      with_io_state_def Let_def)

section \<open>The range that is asked for\<close>

text \<open>The ranges asked of the GPU driver, the latest first.\<close>

definition asked_ranges :: "kevent list \<Rightarrow> (u64 \<times> u64) list" where
  "asked_ranges L = concat (map (\<lambda>ev. case ev of EvGetPages a n \<Rightarrow> [(a, n)] | EvGetPagesPersistent a n \<Rightarrow> [(a, n)] | _ \<Rightarrow> []) L)"

lemma asked_ranges_Cons: "asked_ranges (ev # L) =
    (case ev of EvGetPages a n \<Rightarrow> [(a, n)] | EvGetPagesPersistent a n \<Rightarrow> [(a, n)] | _ \<Rightarrow> []) @ asked_ranges L"
  by (simp add: asked_ranges_def)

lemma unpin_asks_nothing:
  assumes "nvfs_unpin_gpu_pages e p s = Some (r, s')" and "mgroups s p = Some m" and "buckets (gpu_info m) = []"
  shows "asked_ranges (klog s') = asked_ranges (klog s)"
  using assms by (auto simp: nvfs_unpin_gpu_pages_def klog_event_def asked_ranges_Cons bind_eq_Some_conv Let_def split: if_splits)

lemma finish_asks_nothing:
  assumes "pin_gpu_finish e p pt s = Some (r, s')" and "mgroups s p = Some m" and "io_state (gpu_info m) = IO_INIT"
    and "buckets (gpu_info m) = []" and "no_faults e"
  shows "asked_ranges (klog s') = asked_ranges (klog s)"
proof -
  obtain n where n: "count_phys_chunks pt = Some n" using assms(1) by (auto simp: pin_gpu_finish_def bind_eq_Some_conv)
  let ?m = "m\<lparr>gpu_info := (gpu_info m)\<lparr>n_phys_chunks := n\<rparr>\<rparr>"
  let ?s1 = "s\<lparr>mgroups := (mgroups s)(p \<mapsto> ?m)\<rparr>"
  let ?s2 = "s\<lparr>mgroups := (mgroups s)(p \<mapsto> with_io_state IO_FREE ?m)\<rparr>"
  have t: "nvfs_transit_state e p True IO_INIT IO_FREE ?s1 = Some (True, ?s2)"
    using transit_ok [of ?s1 p ?m IO_INIT e IO_FREE True] assms(3,5) by (simp add: no_faults_def)
  have upd: "upd_gpu p (\<lambda>g. g\<lparr>n_phys_chunks := n\<rparr>) s = Some ?s1" using assms(2) by (simp add: upd_gpu_def)
  show ?thesis
  proof (cases "version_compatible pt \<and> page_size_64k pt")
    case True
    then show ?thesis using assms(1,5) n upd by (auto simp: pin_gpu_finish_def no_faults_def kstat_def)
  next
    case False
    then obtain r2 where "nvfs_unpin_gpu_pages e p ?s2 = Some (r2, s')"
      using assms(1,5) n upd t by (auto simp: pin_gpu_finish_def no_faults_def bind_eq_Some_conv)
    from unpin_asks_nothing [OF this, of "with_io_state IO_FREE ?m"] show ?thesis using assms(4) by (simp add: with_io_state_def)
  qed
qed

text \<open>
  C28. The map request pins enough. Pinning the GPU buffer of a group that is not yet mapped, with a size that passes the checks
  and unless the range runs into the top of the address space, asks the GPU driver for one range, whatever
  it answers: the range starts at a GPU page, is a whole number of GPU pages, and contains the whole
  GPU buffer with less than one page to spare at either side.
\<close>

theorem pinned_range_covers:
  assumes "mgroups s p = Some m" and "io_state (gpu_info m) = IO_FREE" and "no_faults e" and "gpu_request_ok inp"
    and "map_size inp \<noteq> 0" and "uint (map_gpuvaddr inp) + uint (map_size inp) + 65536 < 2 ^ 64"
    and "nvfs_pin_gpu_pages e inp p s = Some (ret, s')"
  shows "\<exists>start len. asked_ranges (klog s') = (start, len) # asked_ranges (klog s) \<and>
    uint start mod 65536 = 0 \<and> uint len mod 65536 = 0 \<and> uint start \<le> uint (map_gpuvaddr inp) \<and>
    uint (map_gpuvaddr inp) < uint start + 65536 \<and>
    uint (map_gpuvaddr inp) + uint (map_size inp) \<le> uint start + uint len \<and>
    uint start + uint len < uint (map_gpuvaddr inp) + uint (map_size inp) + 65536"
proof -
  define start len where "start = map_gpuvaddr inp AND GPU_PAGE_MASK"
    and "len = round_up_gpu_page (map_gpuvaddr inp + map_size inp - 1 - start + 1)"
  then have r: "pin_request inp = (start, len)" by (simp only: pin_request_def)
  obtain rv pt where pt: "p2p_get_pages e start len = (rv, pt)" by fastforce
  let ?m = "m\<lparr>gpu_info := (gpu_info m)\<lparr>io_state := IO_INIT, gpu_buf_len := map_size inp, gpuvaddr := map_gpuvaddr inp,
     page_table := pt, is_bounce_buffer := (map_is_bounce_buffer inp = 1), dma_mapping_in_progress := 0,
     buckets := [], use_legacy_p2p_allocation := (nvfs_use_legacy_p2p_allocation e \<or> use_legacy_p2p_allocation (gpu_info m))\<rparr>\<rparr>"
  let ?s = "klog_event (get_pages_event e inp) (s\<lparr>mgroups := (mgroups s)(p \<mapsto> ?m)\<rparr>)"
  have run: "nvfs_pin_gpu_pages e inp p s = (if rv < 0 then Some (rv, ?s) else do { pt' \<leftarrow> pt; pin_gpu_finish e p pt' ?s })"
    using assms(1-4) transit_ok [OF assms(1,2), of e IO_INIT True] pt
    unfolding nvfs_pin_gpu_pages_def Let_def start_def [symmetric] len_def [symmetric] get_pages_event_def r
    by (simp add: no_faults_def upd_gpu_def with_io_state_def)
  have "asked_ranges (klog s') = asked_ranges (klog ?s)"
  proof (cases "rv < 0")
    case True
    then show ?thesis using run assms(7) by (simp only: if_True option.inject prod.inject)
  next
    case False
    then obtain pt' where "pin_gpu_finish e p pt' ?s = Some (ret, s')"
      using run [symmetric, unfolded assms(7)] by (auto simp only: if_False bind_eq_Some_conv)
    then show ?thesis by (rule finish_asks_nothing [where m = ?m]) (use assms(3) in simp_all)
  qed
  also have "\<dots> = (start, len) # asked_ranges (klog s)"
    by (simp add: klog_event_def asked_ranges_Cons get_pages_event_def r)
  finally show ?thesis
    using page_range_covers [OF assms(5,6) start_def len_def] by (intro exI [of _ start] exI [of _ len]) simp
qed

section \<open>The pinned pages\<close>

definition chunked :: "p2p_page_table \<Rightarrow> nvfs_gpu_args \<Rightarrow> nvfs_gpu_args" where
  "chunked pt g = g\<lparr>n_phys_chunks := 1 + card {i. i < pt_entries pt - 1 \<and> phys_break pt i}\<rparr>"

lemma pin_gpu_finish_ok:
  assumes "mgroups s p = Some m" and "no_faults e" and "good_table pt"
  shows "pin_gpu_finish e p pt s = Some (0, kstat (nvfs_update_alloc_gpustat (kalloc_ok e AllocGpuStat) (chunked pt (gpu_info m)))
    (s\<lparr>mgroups := (mgroups s)(p \<mapsto> m\<lparr>gpu_info := chunked pt (gpu_info m)\<rparr>)\<rparr>))"
  using assms count_phys_chunks_ok [OF assms(3)]
  by (auto simp: pin_gpu_finish_def no_faults_def good_table_def upd_gpu_def chunked_def Let_def)

lemma klog_event_mgroups: "(klog_event ev s)\<lparr>mgroups := x\<rparr> = klog_event ev (s\<lparr>mgroups := x\<rparr>)"
  by (simp add: klog_event_def)

lemma pin_gpu_pages_ok:
  assumes "mgroups s p = Some m" and "io_state (gpu_info m) = IO_FREE" and "no_faults e"
    and "gpu_request_ok inp" and "case_prod (p2p_get_pages e) (pin_request inp) = (0, Some pt)" and "good_table pt"
  shows "nvfs_pin_gpu_pages e inp p s = Some (0, kstat (nvfs_update_alloc_gpustat (kalloc_ok e AllocGpuStat)
      (chunked pt (pinned_gpu e inp pt (gpu_info m)))) (klog_event (get_pages_event e inp)
    (s\<lparr>mgroups := (mgroups s)(p \<mapsto> m\<lparr>gpu_info := chunked pt (pinned_gpu e inp pt (gpu_info m))\<rparr>)\<rparr>)))"
proof -
  let ?m = "m\<lparr>gpu_info := pinned_gpu e inp pt (gpu_info m)\<rparr>"
  let ?s = "klog_event (get_pages_event e inp) (s\<lparr>mgroups := (mgroups s)(p \<mapsto> ?m)\<rparr>)"
  have "mgroups ?s p = Some ?m" by simp
  from pin_gpu_finish_ok [OF this assms(3,6)] show ?thesis
    unfolding pin_gpu_pages_start [OF assms(1-5)] by (simp add: klog_event_mgroups)
qed

section \<open>Properties of the map request\<close>

lemma map_outcome:
  assumes "shadow_ok e inp s p m" and "fence_ok e inp fp" and "io_state (gpu_info m) = IO_FREE"
    and "gpu_request_ok inp" and "case_prod (p2p_get_pages e) (pin_request inp) = (0, Some pt)" and "good_table pt"
  shows "\<exists>s' m'. nvfs_map e inp s = Some (0, s') \<and> mgroups s' = (mgroups s)(p \<mapsto> m') \<and> hash_wf s' \<and>
    io_state (gpu_info m') = IO_READY \<and> mg_ref m' = mg_ref m + 1 \<and> mgroup_wf e m' \<and> settled m' \<and>
    cpu_base_vaddr m' = map_cpuvaddr inp \<and> page_table (gpu_info m') = Some pt \<and> buckets (gpu_info m') = [] \<and>
    gpuvaddr (gpu_info m') = map_gpuvaddr inp \<and> gpu_buf_len (gpu_info m') = map_size inp \<and>
    n_phys_chunks (gpu_info m') = 1 + card {i. i < pt_entries pt - 1 \<and> phys_break pt i} \<and>
    end_fence_page (gpu_info m') = Some fp \<and> page_refs s' = (page_refs s)(fp := page_refs s fp + 1) \<and>
    klog s' = get_pages_event e inp # klog s \<and> ops_total e s' = ops_total e s + 1 \<and>
    nvfs_ppages m' = nvfs_ppages m \<and> nvfs_blocks_count m' = nvfs_blocks_count m \<and> base_index m' = base_index m \<and>
    fault_injected m' = fault_injected m \<and> kpages s' = kpages s \<and> dma_mapping_in_progress (gpu_info m') = 0 \<and>
    use_legacy_p2p_allocation (gpu_info m') = (nvfs_use_legacy_p2p_allocation e \<or> use_legacy_p2p_allocation (gpu_info m)) \<and>
    (\<exists>g. page_table g = Some pt \<and> kstats s' = nvfs_update_alloc_gpustat (kalloc_ok e AllocGpuStat) g (kstats s))"
proof -
  obtain m1 where m1: "mg_ref m1 = mg_ref m + 1" "cpu_base_vaddr m1 = map_cpuvaddr inp" "mgroup_wf e m1" "settled m1"
      "base_index m1 = base_index m" "nvfs_ppages m1 = nvfs_ppages m" "nvfs_blocks_count m1 = nvfs_blocks_count m"
      "fault_injected m1 = fault_injected m"
      "gpu_info m1 = (gpu_info m)\<lparr>pdevinfo := map_pdevinfo inp, gpu_hash_index := get_gpu_hash_index e (map_pdevinfo inp)\<rparr>"
    and map: "nvfs_map e inp s =
      do { (ret, s3) \<leftarrow> nvfs_map_gpu_info e inp p ((nvfs_get_ops e s)\<lparr>mgroups := (mgroups s)(p \<mapsto> m1)\<rparr>);
           if ret \<noteq> 0 then Some (ret, nvfs_put_ops e s3)
           else do { (ok, s4) \<leftarrow> nvfs_transit_state e p True IO_INIT IO_READY s3;
                     if ok then Some (0, s4) else Some (0, nvfs_put_ops e s4) } }"
    by (rule nvfs_map_start [OF assms(1)])
  have ok: "no_faults e" "cpus_ok e" "hash_wf s" "mgroups s p = Some m" using assms(1) by (simp_all add: shadow_ok_def)
  define g2 where "g2 = (gpu_info m1)\<lparr>end_fence_page := Some fp,
    offset_in_page := unat (end_fence_addr inp) mod PAGE_SIZE (page_shift e)\<rparr>"
  let ?s1 = "(nvfs_get_ops e s)\<lparr>mgroups := (mgroups s)(p \<mapsto> m1)\<rparr>"
  define s2 where "s2 = (get_page fp ?s1)\<lparr>mgroups := (mgroups s)(p \<mapsto> m1\<lparr>gpu_info := g2\<rparr>)\<rparr>"
  have fence: "nvfs_get_endfence_page e inp p ?s1 = Some (0, s2)"
    using endfence_get_ok [of ?s1 p m1, OF _ assms(2) ok(1)] by (simp add: s2_def g2_def)
  have s2: "mgroups s2 p = Some (m1\<lparr>gpu_info := g2\<rparr>)" "io_state g2 = IO_FREE"
    using m1(9) assms(3) by (simp_all add: s2_def g2_def)
  define g3 where "g3 = chunked pt (pinned_gpu e inp pt g2)"
  let ?f = "nvfs_update_alloc_gpustat (kalloc_ok e AllocGpuStat) g3"
  have pin: "nvfs_pin_gpu_pages e inp p s2 = Some (0, kstat ?f (klog_event (get_pages_event e inp)
      (s2\<lparr>mgroups := (mgroups s)(p \<mapsto> m1\<lparr>gpu_info := g3\<rparr>)\<rparr>)))" (is "_ = Some (0, ?s3)")
    using pin_gpu_pages_ok [OF s2(1) _ ok(1) assms(4-6)] s2(2)
    by (auto simp: g3_def s2_def)
  let ?m4 = "with_io_state IO_READY (m1\<lparr>gpu_info := g3\<rparr>)"
  let ?s4 = "?s3\<lparr>mgroups := (mgroups ?s3)(p \<mapsto> ?m4)\<rparr>"
  have "nvfs_transit_state e p True IO_INIT IO_READY ?s3 = Some (True, ?s4)"
    using ok(1) by (intro transit_ok) (simp_all add: g3_def chunked_def pinned_gpu_def no_faults_def)
  then have run: "nvfs_map e inp s = Some (0, ?s4)"
    using fence pin by (simp add: map nvfs_map_gpu_info_def)
  have "0 < mg_ref m" using ok(3,4) by (auto simp: hash_wf_def)
  then have "hash_wf (s\<lparr>mgroups := (mgroups s)(p \<mapsto> ?m4)\<rparr>)"
    using hash_wf_upd [OF ok(3,4), of ?m4] m1(1,5) by simp
  then have wf: "hash_wf ?s4"
    by (rule hash_wf_same) (simp_all add: s2_def klog_event_def kstat_def)
  have "ops_total e ?s4 = ops_total e s + 1"
    using ops_total_get [OF ok(2), of s] by (simp add: ops_total_def s2_def)
  moreover have "\<exists>g. page_table g = Some pt \<and> kstats ?s4 = nvfs_update_alloc_gpustat (kalloc_ok e AllocGpuStat) g (kstats s)"
    by (intro exI [of _ g3]) (simp add: s2_def g3_def chunked_def pinned_gpu_def kstat_def klog_event_def get_page_def nvfs_get_ops_def)
  ultimately show ?thesis
    using m1 run wf by (intro exI [of _ ?s4] exI [of _ ?m4] conjI)
      (assumption | simp add: s2_def g3_def g2_def chunked_def pinned_gpu_def with_io_state_def kstat_def klog_event_def get_page_def
        mgroup_wf_def settled_def block_state_def nvfs_get_ops_def)+
qed

text \<open>
  C29. A map request makes an unmapped shadow buffer ready. When the buffer is mapped where the
  request says, the sizes are consistent and the GPU driver hands out a valid page table,
  \<^verbatim>\<open>nvfs_map\<close> returns 0 and leaves the group in \<^verbatim>\<open>IO_READY\<close> with one more reference, the page
  table, the completion page and the addresses recorded and no DMA mapping; it has asked
  the GPU driver for exactly one range, pinned the completion page once, and counts as one
  more operation. No other group is touched.
\<close>

theorem map_makes_ready:
  assumes "shadow_ok e inp s p m" and "fence_ok e inp fp" and "io_state (gpu_info m) = IO_FREE"
    and "gpu_request_ok inp" and "case_prod (p2p_get_pages e) (pin_request inp) = (0, Some pt)" and "good_table pt"
  shows "\<exists>s' m'. nvfs_map e inp s = Some (0, s') \<and> mgroups s' = (mgroups s)(p \<mapsto> m') \<and> hash_wf s' \<and>
    io_state (gpu_info m') = IO_READY \<and> mg_ref m' = mg_ref m + 1 \<and> mgroup_wf e m' \<and> settled m' \<and>
    cpu_base_vaddr m' = map_cpuvaddr inp \<and> page_table (gpu_info m') = Some pt \<and> buckets (gpu_info m') = [] \<and>
    gpuvaddr (gpu_info m') = map_gpuvaddr inp \<and> gpu_buf_len (gpu_info m') = map_size inp \<and>
    n_phys_chunks (gpu_info m') = 1 + card {i. i < pt_entries pt - 1 \<and> phys_break pt i} \<and>
    end_fence_page (gpu_info m') = Some fp \<and> page_refs s' = (page_refs s)(fp := page_refs s fp + 1) \<and>
    klog s' = get_pages_event e inp # klog s \<and> ops_total e s' = ops_total e s + 1"
  using map_outcome [OF assms] by blast

text \<open>
  The concrete machine: sixteen shadow pages mapped at \<open>0x10000\<close>, the completion page at
  \<open>0x90000\<close> (page 500, as \<open>ex_env\<close> pins it).
\<close>

lemma ex_init_free: "io_state (gpu_info ex_init_group) = IO_FREE"
  by (simp add: ex_init_group_def ex_group_def zero_mgroup_def zero_gpu_args_def)

lemma ex_no_faults: "no_faults ex_env"
  by (simp add: no_faults_def ex_env_def)

lemma ex_shadow_ok: "shadow_ok ex_env ex_map ex_paged_state 100 ex_init_group"
proof -
  have "shadow_mapped ex_env ex_paged_state 0x10000 100 ex_init_group 16"
    using ex_page_of_group by (auto simp: shadow_mapped_def ex_env_def ex_init_group_def ex_group_def)
  moreover have "DIV_ROUND_UP (16 * 4096) (PAGE_SIZE (page_shift ex_env)) = 16"
    "16 \<le> NVFS_MAX_SHADOW_PAGES (page_shift ex_env)" "valid_page_shift (page_shift ex_env)"
    "kalloc_ok ex_env AllocPagePtrs"
    by (simp_all add: ex_env_def nvfs_geom DIV_ROUND_UP_def valid_page_shift_def)
  ultimately show ?thesis
    using ex_paged_wf ex_no_faults ex_env_cpus
    by (simp add: shadow_ok_def ex_map_def ex_init_group_def ex_group_def)
qed

lemma ex_fence_ok: "fence_ok ex_env ex_map 500"
  by (simp add: fence_ok_def ex_env_def ex_map_def)

lemma ex_gpu_request: "gpu_request_ok ex_map" "case_prod (p2p_get_pages ex_env) (pin_request ex_map) = (0, Some ex_page_table)"
  "pin_request ex_map = (0x20000, 0x10000)" "good_table ex_page_table"
  by (simp_all add: gpu_request_ok_def ex_map_def GPU_PAGE_MASK_def ex_env_def pin_request_def round_up_gpu_page_def
      good_table_def ex_page_table_def Let_def)

text \<open>A GPU driver that refuses is asked for the right range, too.\<close>

theorem pinned_range_covers_witness:
  "\<exists>s' start len. nvfs_pin_gpu_pages (ex_env\<lparr>p2p_get_pages := (\<lambda>a n. (- 22, None))\<rparr>) ex_map 100 ex_paged_state = Some (- 22, s') \<and>
     asked_ranges (klog s') = [(start, len)] \<and> uint start \<le> 0x20000 \<and> 0x30000 \<le> uint start + uint len"
proof -
  let ?e = "ex_env\<lparr>p2p_get_pages := (\<lambda>a n. (- 22, None))\<rparr>"
  have m: "mgroups ex_paged_state 100 = Some ex_init_group" "klog ex_paged_state = []"
    using ex_paged_wf by (simp_all add: ex_paged_state_def ex_state_def empty_kstate_def)
  have nf: "no_faults ?e" using ex_no_faults by (simp add: no_faults_def)
  have inp: "map_size ex_map = 0x10000" "map_gpuvaddr ex_map = 0x20000" by (simp_all add: ex_map_def)
  obtain s' where run: "nvfs_pin_gpu_pages ?e ex_map 100 ex_paged_state = Some (- 22, s')"
    using m(1) nf ex_init_free ex_gpu_request(1) transit_ok [of ex_paged_state 100 ex_init_group IO_FREE ?e IO_INIT True]
    by (simp add: nvfs_pin_gpu_pages_def no_faults_def upd_gpu_def Let_def)
  from pinned_range_covers [OF m(1) ex_init_free nf ex_gpu_request(1) _ _ run] run show ?thesis
    by (auto simp: inp m(2) asked_ranges_def)
qed

theorem map_makes_ready_witness:
  "\<exists>s'. nvfs_map ex_env ex_map ex_paged_state = Some (0, s') \<and> get_io_state 100 s' = Some IO_READY \<and>
     klog s' = [EvGetPages 0x20000 0x10000]"
proof -
  have "klog ex_paged_state = []" by (simp add: ex_paged_state_def ex_state_def empty_kstate_def)
  moreover have "get_pages_event ex_env ex_map = EvGetPages 0x20000 0x10000"
    by (simp add: get_pages_event_def ex_gpu_request ex_env_def)
  ultimately show ?thesis
    using map_makes_ready [OF ex_shadow_ok ex_fence_ok ex_init_free ex_gpu_request(1,2,4)]
    by (auto simp: get_io_state_def)
qed

text \<open>
  C30. A refused map request leaks the shadow buffer. When the sizes of the request are
  inconsistent, \<^verbatim>\<open>nvfs_map\<close> fails with \<^verbatim>\<open>-EINVAL\<close> but keeps the reference it took and leaves the
  group in \<^verbatim>\<open>IO_INIT\<close>; a later \<^verbatim>\<open>munmap\<close> then drops the reference of the mapping only, and the
  group stays allocated, in the table and with all its pages, with nobody left to free it.
\<close>

theorem refused_map_leaks_group:
  assumes "shadow_ok e inp s p m" and "fence_ok e inp fp" and "io_state (gpu_info m) = IO_FREE" and "mg_ref m = 1"
    and "\<not> gpu_request_ok inp" and "vm_private_data vma = Some p"
  shows "\<exists>s1 vma' s2 m2. nvfs_map e inp s = Some (- EINVAL, s1) \<and> nvfs_vma_close e vma s1 = Some (vma', s2) \<and>
    vm_private_data vma' = None \<and> mgroups s2 = (mgroups s)(p \<mapsto> m2) \<and> mg_ref m2 = 1 \<and>
    io_state (gpu_info m2) = IO_INIT \<and> nvfs_io_mgroup_hash s2 = nvfs_io_mgroup_hash s \<and> page_refs s2 = page_refs s"
proof -
  obtain m1 where m1: "mg_ref m1 = mg_ref m + 1"
      "gpu_info m1 = (gpu_info m)\<lparr>pdevinfo := map_pdevinfo inp, gpu_hash_index := get_gpu_hash_index e (map_pdevinfo inp)\<rparr>"
    and map: "nvfs_map e inp s =
      do { (ret, s3) \<leftarrow> nvfs_map_gpu_info e inp p ((nvfs_get_ops e s)\<lparr>mgroups := (mgroups s)(p \<mapsto> m1)\<rparr>);
           if ret \<noteq> 0 then Some (ret, nvfs_put_ops e s3)
           else do { (ok, s4) \<leftarrow> nvfs_transit_state e p True IO_INIT IO_READY s3;
                     if ok then Some (0, s4) else Some (0, nvfs_put_ops e s4) } }"
    by (rule nvfs_map_start [OF assms(1)])
  have ok: "no_faults e" "mgroups s p = Some m" using assms(1) by (simp_all add: shadow_ok_def)
  let ?s1 = "(nvfs_get_ops e s)\<lparr>mgroups := (mgroups s)(p \<mapsto> m1)\<rparr>"
  let ?m2 = "m1\<lparr>gpu_info := (gpu_info m1)\<lparr>end_fence_page := Some fp,
    offset_in_page := unat (end_fence_addr inp) mod PAGE_SIZE (page_shift e)\<rparr>\<rparr>"
  let ?s2 = "(get_page fp ?s1)\<lparr>mgroups := (mgroups s)(p \<mapsto> ?m2)\<rparr>"
  have fence: "nvfs_get_endfence_page e inp p ?s1 = Some (0, ?s2)"
    using endfence_get_ok [of ?s1 p m1, OF _ assms(2) ok(1)] by simp
  have "nvfs_transit_state e p True IO_FREE IO_INIT ?s2 = Some (True, ?s2\<lparr>mgroups := (mgroups ?s2)(p \<mapsto> with_io_state IO_INIT ?m2)\<rparr>)"
    using ok(1) m1(2) assms(3) by (intro transit_ok) (simp_all add: no_faults_def)
  then have pin: "nvfs_pin_gpu_pages e inp p ?s2 = Some (- EINVAL, ?s2\<lparr>mgroups := (mgroups s)(p \<mapsto> with_io_state IO_INIT ?m2)\<rparr>)"
    using assms(5) by (simp add: nvfs_pin_gpu_pages_def)
  define m3 where "m3 = (with_io_state IO_INIT ?m2)\<lparr>gpu_info := (gpu_info (with_io_state IO_INIT ?m2))\<lparr>end_fence_page := None\<rparr>\<rparr>"
  define s3 where "s3 = nvfs_put_ops e ((put_page fp (?s2\<lparr>mgroups := (mgroups s)(p \<mapsto> with_io_state IO_INIT ?m2)\<rparr>))
    \<lparr>mgroups := (mgroups s)(p \<mapsto> m3)\<rparr>)"
  have run: "nvfs_map e inp s = Some (- EINVAL, s3)"
    using fence pin
    by (simp add: map nvfs_map_gpu_info_def nvfs_free_put_endfence_page_def upd_gpu_def s3_def m3_def
        with_io_state_def)
  have m3: "mgroups s3 = (mgroups s)(p \<mapsto> m3)" "mg_ref m3 = 2" "io_state (gpu_info m3) = IO_INIT"
    "nvfs_io_mgroup_hash s3 = nvfs_io_mgroup_hash s" "page_refs s3 = page_refs s"
    using m1(1) assms(4)
    by (simp_all add: s3_def m3_def with_io_state_def nvfs_put_ops_def nvfs_get_ops_def put_page_def get_page_def fun_eq_iff)
  have "nvfs_mgroup_put e p s3 = Some (s3\<lparr>mgroups := (mgroups s3)(p \<mapsto> m3\<lparr>mg_ref := 1\<rparr>)\<rparr>)"
    using put_shared_effect [of s3 p m3 e False] m3 by (simp add: nvfs_mgroup_put_def)
  then show ?thesis
    using run m3 assms(6)
    by (auto simp: nvfs_vma_close_def vma_close_terminate_def Let_def kstat_def)
qed

theorem refused_map_leaks_group_witness:
  "\<exists>s1 vma' s2. nvfs_map ex_env (ex_map\<lparr>map_size := 0\<rparr>) ex_paged_state = Some (- EINVAL, s1) \<and>
     nvfs_vma_close ex_env ex_vma s1 = Some (vma', s2) \<and> mg_refs s2 100 = Some 1"
proof -
  have "shadow_ok ex_env (ex_map\<lparr>map_size := 0\<rparr>) ex_paged_state 100 ex_init_group"
    "fence_ok ex_env (ex_map\<lparr>map_size := 0\<rparr>) 500"
    using ex_shadow_ok ex_fence_ok by (simp_all add: shadow_ok_def fence_ok_def)
  moreover have "\<not> gpu_request_ok (ex_map\<lparr>map_size := 0\<rparr>)"
    by (simp add: gpu_request_ok_def ex_map_def GPU_PAGE_MASK_def Let_def)
  moreover have "mg_ref ex_init_group = 1" "vm_private_data ex_vma = Some 100"
    by (simp_all add: ex_init_group_def ex_group_def ex_vma_def)
  ultimately show ?thesis
    using refused_map_leaks_group [OF _ _ ex_init_free] by (fastforce simp: mg_refs_def)
qed

text \<open>
  A page table that the driver does not understand can bring the kernel down. When the GPU
  driver returns a table of another version or page size for a GPU that has no statistics
  entry yet, the way back gives the pages to \<^verbatim>\<open>nvfs_unpin_gpu_pages\<close>, which updates statistics
  that were never set up and hits the \<^verbatim>\<open>BUG_ON\<close> there.
\<close>

theorem bad_page_table_kills:
  assumes "mgroups s p = Some m" and "io_state (gpu_info m) = IO_FREE" and "no_faults e" and "gpu_request_ok inp"
    and "case_prod (p2p_get_pages e) (pin_request inp) = (0, Some pt)"
    and "\<not> (version_compatible pt \<and> page_size_64k pt)" and "map_gpuvaddr inp AND GPU_PAGE_MASK \<noteq> 0"
    and "gpu_uuid pt = Some uuid" and "nvfs_get_gpustat_unlocked (kstats s) uuid = None"
  shows "nvfs_pin_gpu_pages e inp p s = None"
proof (cases "count_phys_chunks pt")
  case None
  then show ?thesis
    unfolding pin_gpu_pages_start [OF assms(1-5)] by (simp add: pin_gpu_finish_def)
next
  case (Some n)
  let ?m = "m\<lparr>gpu_info := (pinned_gpu e inp pt (gpu_info m))\<lparr>n_phys_chunks := n\<rparr>\<rparr>"
  let ?s = "(klog_event (get_pages_event e inp) s)\<lparr>mgroups := (mgroups s)(p \<mapsto> ?m)\<rparr>"
  have "mgroups ?s p = Some ?m" "io_state (gpu_info ?m) = IO_INIT" by (simp_all add: pinned_gpu_def)
  with assms(3) have t: "nvfs_transit_state e p True IO_INIT IO_FREE ?s =
      Some (True, ?s\<lparr>mgroups := (mgroups ?s)(p \<mapsto> with_io_state IO_FREE ?m)\<rparr>)"
    by (intro transit_ok) (simp_all add: no_faults_def)
  have "nvfs_unpin_gpu_pages e p (?s\<lparr>mgroups := (mgroups ?s)(p \<mapsto> with_io_state IO_FREE ?m)\<rparr>) = None"
    using assms(7-9)
    by (simp add: nvfs_unpin_gpu_pages_def pinned_gpu_def with_io_state_def nvfs_update_free_gpustat_def klog_event_def)
  with t Some assms(6) show ?thesis
    unfolding pin_gpu_pages_start [OF assms(1-5)]
    by (simp add: pin_gpu_finish_def upd_gpu_def klog_event_mgroups Let_def)
qed

definition ex_bad_table :: p2p_page_table where
  "ex_bad_table = ex_page_table\<lparr>page_size_64k := False\<rparr>"

theorem bad_page_table_kills_witness:
  "nvfs_pin_gpu_pages (ex_env\<lparr>p2p_get_pages := (\<lambda>a n. (0, Some ex_bad_table))\<rparr>) ex_map 100 ex_paged_state = None"
proof (rule bad_page_table_kills [OF ex_paged_wf(2) ex_init_free])
  show "gpu_request_ok ex_map" by (rule ex_gpu_request)
  show "map_gpuvaddr ex_map AND GPU_PAGE_MASK \<noteq> 0" by (simp add: ex_map_def GPU_PAGE_MASK_def)
  show "gpu_uuid ex_bad_table = Some 7" "\<not> (version_compatible ex_bad_table \<and> page_size_64k ex_bad_table)"
    by (simp_all add: ex_bad_table_def ex_page_table_def)
  show "nvfs_get_gpustat_unlocked (kstats ex_paged_state) 7 = None"
    by (simp add: ex_paged_state_def ex_state_def empty_kstate_def nvfs_get_gpustat_unlocked_def zero_stats_def)
qed (simp_all add: no_faults_def ex_env_def pin_request_def)

section \<open>Waiting for other threads\<close>

text \<open>The state after \<open>n\<close> waits, the first of them the \<open>k\<close>-th.\<close>

fun after_waits :: "interference \<Rightarrow> nat \<Rightarrow> nat \<Rightarrow> kstate \<Rightarrow> kstate" where
  "after_waits others k 0 s = s"
| "after_waits others k (Suc n) s = after_waits others (Suc k) n (others k s)"

lemma poll_wakes:
  assumes "\<And>j. j < n \<Longrightarrow> \<exists>st. get_io_state p (after_waits others k (Suc j) s) = Some st \<and> st \<notin> set goal"
    and "get_io_state p (after_waits others k (Suc n) s) = Some st" and "st \<in> set goal"
  shows "poll_io_state others goal p fuel k s =
    Some (if fuel \<le> n then Waiting else Woken (after_waits others k (Suc n) s))"
  using assms
proof (induction fuel arbitrary: n k s)
  case 0
  then show ?case by simp
next
  case (Suc fuel)
  show ?case
  proof (cases n)
    case 0
    with Suc.prems show ?thesis by simp
  next
    case (Suc n')
    have "poll_io_state others goal p fuel (Suc k) (others k s) =
        Some (if fuel \<le> n' then Waiting else Woken (after_waits others (Suc k) (Suc n') (others k s)))"
    proof (rule Suc.IH)
      fix j assume "j < n'"
      with Suc.prems(1) [of "Suc j"] Suc show "\<exists>st. get_io_state p (after_waits others (Suc k) (Suc j) (others k s)) = Some st \<and>
          st \<notin> set goal" by simp
    qed (use Suc.prems(2,3) Suc in simp_all)
    moreover obtain st0 where "get_io_state p (others k s) = Some st0" "st0 \<notin> set goal"
      using Suc.prems(1) [of 0] Suc by auto
    ultimately show ?thesis using Suc by (auto simp: Let_def)
  qed
qed

section \<open>The release by the callback\<close>

lemma free_buckets_ok:
  assumes "mgroups s p = Some m" and "\<forall>b \<in> set bs. dma_mapping b \<noteq> None" and "buckets (gpu_info m) = bs"
  shows "free_buckets p bs s = Some (s\<lparr>klog := rev (map (\<lambda>b. EvFreeDmaMapping (mapped_dev b)) bs) @ klog s,
    mgroups := (mgroups s)(p \<mapsto> m\<lparr>gpu_info := (gpu_info m)\<lparr>buckets := []\<rparr>\<rparr>)\<rparr>)"
  using assms
proof (induction bs arbitrary: s m)
  case Nil
  then show ?case by (simp add: fun_upd_idem)
next
  case (Cons b bs)
  let ?m = "m\<lparr>gpu_info := (gpu_info m)\<lparr>buckets := bs\<rparr>\<rparr>"
  let ?s = "klog_event (EvFreeDmaMapping (mapped_dev b)) s\<lparr>mgroups := (mgroups s)(p \<mapsto> ?m)\<rparr>"
  have "free_buckets p (b # bs) s = free_buckets p bs ?s"
    using Cons.prems by (auto simp: upd_gpu_def)
  also have "\<dots> = Some (?s\<lparr>klog := rev (map (\<lambda>b. EvFreeDmaMapping (mapped_dev b)) bs) @ klog ?s,
      mgroups := (mgroups ?s)(p \<mapsto> ?m\<lparr>gpu_info := (gpu_info ?m)\<lparr>buckets := []\<rparr>\<rparr>)\<rparr>)"
    using Cons.prems by (intro Cons.IH) simp_all
  finally show ?case by (simp add: klog_event_def fun_upd_def [symmetric])
qed

definition callback_log :: "nvfs_gpu_args \<Rightarrow> kevent list" where
  "callback_log g = EvFreePageTable # rev (map (\<lambda>b. EvFreeDmaMapping (mapped_dev b)) (buckets g))"

text \<open>What the callback relies on: recorded mappings, a page table with its statistics, a completion page.\<close>

definition gpu_revocable :: "nvfs_stats \<Rightarrow> nvfs_gpu_args \<Rightarrow> bool" where
  "gpu_revocable st g \<longleftrightarrow> (\<forall>b \<in> set (buckets g). dma_mapping b \<noteq> None) \<and> page_table g \<noteq> None \<and>
     nvfs_update_free_gpustat g st \<noteq> None \<and> end_fence_page g \<noteq> None"

definition revoked :: "nvfs_io_mgroup \<Rightarrow> nvfs_io_mgroup" where
  "revoked m = m\<lparr>mg_ref := mg_ref m - 1, gpu_info := (gpu_info m)\<lparr>page_table := None, buckets := []\<rparr>\<rparr>"

lemma callback_release_ok:
  assumes "mgroups s p = Some m" and "gpu_revocable (kstats s) (gpu_info m)" and "1 < mg_ref m"
  shows "\<exists>s' fp. callback_release e p s = Some s' \<and> mgroups s' = (mgroups s)(p \<mapsto> revoked m) \<and>
    nvfs_io_mgroup_hash s' = nvfs_io_mgroup_hash s \<and> klog s' = callback_log (gpu_info m) @ klog s \<and>
    end_fence_page (gpu_info m) = Some fp \<and> mp_state (metapages s' fp) = NVFS_IO_META_DIED \<and>
    page_refs s' = page_refs s \<and> nvfs_n_ops s' = nvfs_n_ops s"
proof -
  from assms(2) obtain st fp where st: "nvfs_update_free_gpustat (gpu_info m) (kstats s) = Some st"
    and fp: "end_fence_page (gpu_info m) = Some fp" and pt: "page_table (gpu_info m) \<noteq> None"
    by (auto simp: gpu_revocable_def)
  let ?g = "(gpu_info m)\<lparr>buckets := []\<rparr>"
  let ?s1 = "s\<lparr>klog := rev (map (\<lambda>b. EvFreeDmaMapping (mapped_dev b)) (buckets (gpu_info m))) @ klog s,
    mgroups := (mgroups s)(p \<mapsto> m\<lparr>gpu_info := ?g\<rparr>)\<rparr>"
  have free: "free_buckets p (buckets (gpu_info m)) s = Some ?s1"
    using assms(1,2) by (intro free_buckets_ok) (simp_all add: gpu_revocable_def)
  let ?m2 = "m\<lparr>gpu_info := ?g\<lparr>page_table := None\<rparr>\<rparr>"
  let ?s2 = "klog_event EvFreePageTable (?s1\<lparr>kstats := st, mgroups := (mgroups s)(p \<mapsto> ?m2)\<rparr>)"
  let ?s3 = "?s2\<lparr>metapages := (metapages ?s2)(fp := (metapages ?s2 fp)\<lparr>mp_state := NVFS_IO_META_DIED\<rparr>)\<rparr>"
  have "callback_release e p s = nvfs_mgroup_put e p ?s3"
    using assms(1) free st fp pt by (simp add: callback_release_def upd_gpu_def Let_def)
  moreover have "nvfs_mgroup_put e p ?s3 = Some (?s3\<lparr>mgroups := (mgroups ?s3)(p \<mapsto> ?m2\<lparr>mg_ref := mg_ref m - 1\<rparr>)\<rparr>)"
    using put_shared_effect [of ?s3 p ?m2 e False] assms(3) by (simp add: nvfs_mgroup_put_def)
  ultimately show ?thesis
    using fp by (auto simp: revoked_def klog_event_def callback_log_def)
qed

lemma callback_idle:
  assumes "mgroups s p = Some m" and "io_state (gpu_info m) = IO_READY" and "gpu_revocable (kstats s) (gpu_info m)"
    and "1 < mg_ref m"
  shows "\<exists>s' fp. nvfs_get_pages_free_callback e others fuel p s = Some (Woken s') \<and>
    mgroups s' = (mgroups s)(p \<mapsto> revoked (with_io_state IO_CALLBACK_END m)) \<and>
    nvfs_io_mgroup_hash s' = nvfs_io_mgroup_hash s \<and> klog s' = callback_log (gpu_info m) @ klog s \<and>
    end_fence_page (gpu_info m) = Some fp \<and> mp_state (metapages s' fp) = NVFS_IO_META_DIED \<and>
    page_refs s' = page_refs s \<and> nvfs_n_ops s' = nvfs_n_ops s"
proof -
  let ?m = "with_io_state IO_CALLBACK_END m"
  let ?s0 = "kstat (nvfs_stat nvfs_n_callbacks) s"
  let ?s1 = "?s0\<lparr>mgroups := (mgroups ?s0)(p \<mapsto> ?m)\<rparr>"
  have "nvfs_io_terminate others fuel p True ?s0 = Some (Woken ?s1)"
    using assms(1,2) terminate_requested_live [of ?s0 p m True] by (simp add: nvfs_io_terminate_def)
  then have "nvfs_get_pages_free_callback e others fuel p s = do { s2 \<leftarrow> callback_release e p ?s1; Some (Woken s2) }"
    by (simp add: nvfs_get_pages_free_callback_def get_io_state_def)
  moreover have "gpu_revocable (kstats ?s1) (gpu_info ?m)" "callback_log (gpu_info ?m) = callback_log (gpu_info m)"
    "end_fence_page (gpu_info ?m) = end_fence_page (gpu_info m)"
    using assms(3)
    by (auto simp: gpu_revocable_def with_io_state_def callback_log_def kstat_def nvfs_update_free_gpustat_def
        nvfs_get_gpustat_unlocked_def stat_ops set_counter_def split: option.splits)
  ultimately show ?thesis
    using callback_release_ok [of ?s1 p ?m e] assms(4) by (auto simp: kstat_def)
qed

text \<open>The release of a group whose GPU side is gone makes no call to the GPU driver.\<close>

lemma mgroup_free_revoked:
  assumes "mgroups s p = Some m" and "ppages_wf e m" and "IO_INIT < io_state (gpu_info m)" and "cpus_ok e"
    and "buckets (gpu_info m) = []" and "page_table (gpu_info m) = None"
  shows "\<exists>s'. nvfs_mgroup_free e p from_dma s = Some s' \<and> klog s' = klog s \<and>
    page_refs s' = (\<lambda>pg. page_refs s pg - group_page_uses m pg) \<and> ops_total e s' = ops_total e s - 1"
proof -
  let ?m = "with_io_state IO_UNPIN_PAGES_ALREADY_INVOKED m"
  let ?s1 = "s\<lparr>mgroups := (mgroups s)(p \<mapsto> ?m)\<rparr>"
  have st: "set_io_state p IO_UNPIN_PAGES_ALREADY_INVOKED s = Some ?s1"
    using assms(1) by (simp add: upd_defs with_io_state_def)
  have unpin: "nvfs_unpin_gpu_pages e p ?s1 = Some (0, ?s1)"
    using assms(5,6) by (simp add: nvfs_unpin_gpu_pages_def)
  obtain g s3 where 3: "nvfs_free_put_endfence_page p ?s1 = Some s3" "mgroups s3 = (mgroups ?s1)(p \<mapsto> ?m\<lparr>gpu_info := g\<rparr>)"
    "klog s3 = klog ?s1" "nvfs_n_ops s3 = nvfs_n_ops ?s1"
    "page_refs s3 = (\<lambda>pg. page_refs ?s1 pg - (if end_fence_page (gpu_info ?m) = Some pg then 1 else 0))"
    using endfence_ok [of ?s1 p ?m] by auto
  define s4 where "s4 = (if nvfs_count_ops e (nvfs_put_ops e s3) = 0 \<and> \<not> from_dma
    then unregister_dma_ops (nvfs_put_ops e s3) else nvfs_put_ops e s3)"
  have 4: "nvfs_free_gpu_info e p from_dma s = Some (0, s4)"
    using st unpin 3(1) by (simp add: nvfs_free_gpu_info_def s4_def Let_def)
  have ops: "ops_total e s4 = ops_total e s - 1"
    using ops_total_put [OF assms(4), of s3] ops_total_cong [OF 3(4)] by (simp add: s4_def ops_total_def)
  have s4: "mgroups s4 p = Some (?m\<lparr>gpu_info := g\<rparr>)" "klog s4 = klog s" "page_refs s4 = page_refs s3"
    using 3 by (simp_all add: s4_def nvfs_put_ops_def)
  moreover have "ppages_wf e (?m\<lparr>gpu_info := g\<rparr>)" using assms(2) by (simp add: ppages_wf_def with_io_state_def)
  ultimately obtain s' pps where 5: "nvfs_ppages m = Some pps" "mgroup_release e p s4 = Some s'" "klog s' = klog s4"
    "nvfs_n_ops s' = nvfs_n_ops s4" "page_refs s' = (\<lambda>pg. page_refs s4 pg - page_uses pg pps)"
    using mgroup_release_ok [of s4 p "?m\<lparr>gpu_info := g\<rparr>" e] by (auto simp: with_io_state_def)
  have "nvfs_mgroup_free e p from_dma s = Some s'"
    using assms(1,3) 4 5(2) by (simp add: nvfs_mgroup_free_def get_io_state_def)
  then show ?thesis
    using 5 s4 3(5) ops ops_total_cong [OF 5(4)]
    by (auto simp: group_page_uses_def with_io_state_def algebra_simps)
qed

text \<open>
  C31. When the GPU buffer is freed under a ready shadow buffer, everything is released exactly
  once. The callback frees the recorded DMA mappings and the page table, marks the
  completion page as dead and drops the reference of the map request; the later \<^verbatim>\<open>munmap\<close>
  frees the group, drops one reference of each of its pages and of the completion page and
  its operation count, and makes no further call to the GPU driver.
\<close>

theorem callback_then_munmap_releases_once:
  assumes "hash_wf s" and "mgroups s p = Some m" and "io_state (gpu_info m) = IO_READY" and "mg_ref m = 2"
    and "gpu_revocable (kstats s) (gpu_info m)" and "ppages_wf e m" and "cpus_ok e" and "vm_private_data vma = Some p"
  shows "\<exists>s1 vma' s2. nvfs_get_pages_free_callback e others fuel p s = Some (Woken s1) \<and>
    nvfs_vma_close e vma s1 = Some (vma', s2) \<and> mgroups s2 = (mgroups s)(p := None) \<and> hash_wf s2 \<and>
    klog s2 = callback_log (gpu_info m) @ klog s \<and>
    page_refs s2 = (\<lambda>pg. page_refs s pg - group_page_uses m pg) \<and> ops_total e s2 = ops_total e s - 1"
proof -
  let ?m1 = "revoked (with_io_state IO_CALLBACK_END m)"
  obtain s1 where cb: "nvfs_get_pages_free_callback e others fuel p s = Some (Woken s1)"
    and s1: "mgroups s1 = (mgroups s)(p \<mapsto> ?m1)" "nvfs_io_mgroup_hash s1 = nvfs_io_mgroup_hash s"
      "klog s1 = callback_log (gpu_info m) @ klog s" "page_refs s1 = page_refs s" "nvfs_n_ops s1 = nvfs_n_ops s"
    using callback_idle [OF assms(2,3,5), of e others fuel] assms(4) by auto
  have m1: "mgroups s1 p = Some ?m1" "mg_ref ?m1 = 1" "io_state (gpu_info ?m1) = IO_CALLBACK_END"
    "base_index ?m1 = base_index m"
    using s1(1) assms(4) by (simp_all add: revoked_def)
  have wf1: "hash_wf s1"
    using hash_wf_upd [OF assms(1,2), of ?m1] m1(2,4) s1 by (auto elim: hash_wf_same)
  let ?s1 = "s1\<lparr>mgroups := (mgroups s1)(p \<mapsto> ?m1\<lparr>mg_ref := 0\<rparr>)\<rparr>"
  have "ppages_wf e (?m1\<lparr>mg_ref := 0\<rparr>)" "group_page_uses (?m1\<lparr>mg_ref := 0\<rparr>) = group_page_uses m"
    using assms(6) by (auto simp: ppages_wf_def revoked_def with_io_state_def group_page_uses_def fun_eq_iff)
  then obtain s2 where free: "nvfs_mgroup_free e p False ?s1 = Some s2" "klog s2 = klog s1"
    "page_refs s2 = (\<lambda>pg. page_refs s1 pg - group_page_uses m pg)" "ops_total e s2 = ops_total e ?s1 - 1"
    using mgroup_free_revoked [of ?s1 p "?m1\<lparr>mg_ref := 0\<rparr>" e False] assms(7) m1(3)
    by (auto simp: revoked_def with_io_state_def)
  have put: "nvfs_mgroup_put_internal e p False s1 = Some s2"
    using m1 free(1) by (simp add: nvfs_mgroup_put_internal_def nvfs_mgroup_put_ref_def)
  note eff = put_last_effect [OF m1(1,2) put]
  have wf2: "hash_wf s2" using hash_wf_put [OF wf1 put] .
  have "ops_total e s2 = ops_total e s - 1" using free(4) s1(5) by (simp add: ops_total_def)
  moreover have "mgroups s2 = (mgroups s)(p := None)" using eff s1(1) by (simp add: fun_eq_iff)
  moreover have "nvfs_vma_close e vma s1 = Some (vma\<lparr>vm_private_data := None\<rparr>,
      kstat (nvfs_stat64 nvfs_n_munmap) (kstat
        (nvfs_stat64_sub (uint (vm_end vma - vm_start vma)) nvfs_n_active_shadow_buf_sz) s2))"
    using assms(8) m1 put by (simp add: nvfs_vma_close_def vma_close_terminate_def nvfs_mgroup_put_def Let_def)
  ultimately show ?thesis
    using cb wf2 free s1 by (auto simp: kstat_def ops_total_def elim: hash_wf_same)
qed

lemma ex_ready_revocable: "gpu_revocable (kstats ex_ready_state) ex_ready_gpu"
  by (simp add: gpu_revocable_def ex_ready_state_def ex_ready_gpu_def ex_page_table_def nvfs_update_free_gpustat_def
      nvfs_update_alloc_gpustat_def zero_stats_def nvfs_get_gpustat_unlocked_def hash_add_gpustat_def
      upd_gpustat_def Let_def)

theorem callback_then_munmap_releases_once_witness:
  "\<exists>s1 vma' s2. nvfs_get_pages_free_callback ex_env (\<lambda>_ s. s) 0 100 ex_ready_state = Some (Woken s1) \<and>
     nvfs_vma_close ex_env ex_vma s1 = Some (vma', s2) \<and> mgroups s2 100 = None \<and>
     klog s2 = [EvFreePageTable, EvFreeDmaMapping ex_dev]"
proof -
  have "mgroups ex_ready_state 100 = Some ex_ready_group" "vm_private_data ex_vma = Some 100"
    "gpu_info ex_ready_group = ex_ready_gpu" "mg_ref ex_ready_group = 2"
    "io_state ex_ready_gpu = IO_READY" "klog ex_ready_state = []"
    "callback_log ex_ready_gpu = [EvFreePageTable, EvFreeDmaMapping ex_dev]"
    by (simp_all add: ex_ready_state_def ex_vma_def ex_ready_group_def ex_ready_gpu_def ex_state_def
        empty_kstate_def callback_log_def zero_gpu_args_def)
  with callback_then_munmap_releases_once [OF ex_ready_wf, of 100 ex_ready_group ex_env ex_vma "\<lambda>_ s. s" 0]
    ex_ready_revocable ex_env_cpus ex_ready_ppages
  show ?thesis by (auto simp: fun_eq_iff)
qed

text \<open>
  C32. The callback never takes GPU memory away from a running I/O, and always returns once the
  I/O has stopped. When it finds an I/O in flight it asks it to stop and polls: as long as
  the other threads have not moved the group to \<^verbatim>\<open>IO_CALLBACK_END\<close> it keeps waiting, whatever
  else they do, and in the first state where they have it goes on to the release. A bound
  on the number of polls larger than the number of waits needed is enough.
\<close>

theorem callback_waits_for_io:
  assumes "mgroups s p = Some m" and "io_state (gpu_info m) = IO_IN_PROGRESS"
    and s0: "s0 = kstat (nvfs_stat nvfs_n_callbacks) s\<lparr>mgroups := (mgroups s)(p \<mapsto> with_io_state IO_CALLBACK_REQ m)\<rparr>"
    and wait: "\<forall>j. 0 < j \<and> j \<le> n \<longrightarrow> get_io_state p (after_waits others 0 j s0) = Some IO_CALLBACK_REQ"
    and stop: "get_io_state p (after_waits others 0 (Suc n) s0) = Some IO_CALLBACK_END"
  shows "nvfs_get_pages_free_callback e others fuel p s =
    (if fuel \<le> n then Some Waiting
     else do { s2 \<leftarrow> callback_release e p (after_waits others 0 (Suc n) s0); Some (Woken s2) })"
proof -
  have "nvfs_io_terminate_requested p True (kstat (nvfs_stat nvfs_n_callbacks) s) = Some (True, s0)"
    using assms(1,2) terminate_requested_live [of "kstat (nvfs_stat nvfs_n_callbacks) s" p m True] by (simp add: s0)
  moreover have "poll_io_state others [IO_CALLBACK_END, IO_TERMINATED] p fuel 0 s0 =
      Some (if fuel \<le> n then Waiting else Woken (after_waits others 0 (Suc n) s0))"
  proof (rule poll_wakes)
    fix j assume "j < n"
    then show "\<exists>st. get_io_state p (after_waits others 0 (Suc j) s0) = Some st \<and>
        st \<notin> set [IO_CALLBACK_END, IO_TERMINATED]"
      using wait [rule_format, of "Suc j"] by auto
  qed (rule stop, simp)
  ultimately show ?thesis
    using stop by (simp add: nvfs_get_pages_free_callback_def nvfs_io_terminate_def del: after_waits.simps)
qed

text \<open>An I/O that stops during the third wait.\<close>

definition ex_io_stops :: interference where
  "ex_io_stops k s = (if k = 2 then snd (the (nvfs_transit_state ex_env 100 False IO_IN_PROGRESS IO_READY s)) else s)"

theorem callback_waits_for_io_witness:
  "nvfs_get_pages_free_callback ex_env ex_io_stops 2 100 ex_busy_state = Some Waiting \<and>
   (\<exists>s'. nvfs_get_pages_free_callback ex_env ex_io_stops 3 100 ex_busy_state = Some (Woken s') \<and>
      mg_refs s' 100 = Some 2)"
proof -
  let ?m = "(with_io_state IO_IN_PROGRESS ex_ready_group)\<lparr>mg_ref := 3\<rparr>"
  let ?mr = "with_io_state IO_CALLBACK_REQ ?m"
  define s0 where "s0 = kstat (nvfs_stat nvfs_n_callbacks) ex_busy_state
    \<lparr>mgroups := (mgroups ex_busy_state)(100 \<mapsto> ?mr)\<rparr>"
  have m: "mgroups ex_busy_state 100 = Some ?m" "io_state (gpu_info ?m) = IO_IN_PROGRESS"
    by (simp_all add: ex_busy_state_def)
  let ?s1 = "klog_event (EvWakeUp 100) (s0\<lparr>mgroups := (mgroups s0)(100 \<mapsto> with_io_state IO_CALLBACK_END ?mr)\<rparr>)"
  have m0: "mgroups s0 100 = Some ?mr" by (simp add: s0_def)
  have "nvfs_transit_state ex_env 100 False IO_IN_PROGRESS IO_READY s0 = Some (False, ?s1)"
    using m0 by (intro transit_fail_end) (simp_all add: ex_env_def)
  then have fin: "after_waits ex_io_stops 0 (Suc 2) s0 = ?s1"
    by (simp add: ex_io_stops_def numeral_2_eq_2)
  have w: "\<forall>j. 0 < j \<and> j \<le> 2 \<longrightarrow> get_io_state 100 (after_waits ex_io_stops 0 j s0) = Some IO_CALLBACK_REQ"
  proof (intro allI impI)
    fix j :: nat assume "0 < j \<and> j \<le> 2"
    then have "j = 1 \<or> j = 2" by auto
    then show "get_io_state 100 (after_waits ex_io_stops 0 j s0) = Some IO_CALLBACK_REQ"
      using m0 by (auto simp: ex_io_stops_def get_io_state_def numeral_2_eq_2)
  qed
  have stop: "get_io_state 100 (after_waits ex_io_stops 0 (Suc 2) s0) = Some IO_CALLBACK_END"
    unfolding fin by (simp add: get_io_state_def)
  have "gpu_revocable (kstats ?s1) (gpu_info (with_io_state IO_CALLBACK_END ?mr))"
    using ex_ready_revocable
    by (auto simp: s0_def gpu_revocable_def with_io_state_def ex_busy_state_def ex_ready_group_def kstat_def klog_event_def
        nvfs_update_free_gpustat_def nvfs_get_gpustat_unlocked_def stat_ops set_counter_def split: option.splits)
  then obtain s' where "callback_release ex_env 100 ?s1 = Some s'"
    "mgroups s' 100 = Some (revoked (with_io_state IO_CALLBACK_END ?mr))"
    using callback_release_ok [of ?s1 100 "with_io_state IO_CALLBACK_END ?mr" ex_env] by auto
  then show ?thesis
    using callback_waits_for_io [OF m s0_def w stop, of ex_env 2] callback_waits_for_io [OF m s0_def w stop, of ex_env 3]
    unfolding fin by (simp add: mg_refs_def revoked_def)
qed

end
