(* ===== verification/Nvfs_Dma.thy ===== *)
theory Nvfs_Dma
  imports Nvfs_Gpu
begin

text \<open>
  The DMA addresses of GPU memory that storage drivers ask for (\<^verbatim>\<open>nvfs-core.c\<close>): the mapping
  of the pinned pages into a device's address space, kept per device
  (\<^verbatim>\<open>nvfs_get_p2p_dma_mapping\<close>), and the address behind one page of a request (\<^verbatim>\<open>nvfs_get_dma\<close>).
\<close>

section \<open>DMA addresses\<close>

definition NVFS_GET_PCI_DEVID :: "pci_dev \<Rightarrow> u32 option" where
  "NVFS_GET_PCI_DEVID d =
     (case pci_bus d of
        None \<Rightarrow> None
      | Some (domain, bus) \<Rightarrow> Some (push_bit 16 domain OR (push_bit 8 (ucast bus) OR ucast (devfn d))))"

definition dma_chunk :: "p2p_dma_mapping \<Rightarrow> nat \<Rightarrow> nat \<Rightarrow> nat option" where
  "dma_chunk dm i n =
     do { a \<leftarrow> arr_get (dma_addresses dm) i;
          b \<leftarrow> arr_get (dma_addresses dm) (i + 1);
          Some (if a + GPU_PAGE_SIZE \<noteq> b then n + 1 else n) }"

definition count_dma_chunks :: "p2p_dma_mapping \<Rightarrow> nat option" where
  "count_dma_chunks dm =
     (if dm_entries dm = 0 then None else ofold (dma_chunk dm) [0 ..< dm_entries dm - 1] 1)"

text \<open>
  The result is the return code, the mapping and the number of chunks stored through
  the last argument (0, the caller's value, when it is not reached).
\<close>

definition nvfs_get_dma_address ::
    "kenv \<Rightarrow> mptr \<Rightarrow> pci_dev \<Rightarrow> kstate \<Rightarrow> (int \<times> p2p_dma_mapping option \<times> nat \<times> kstate) option" where
  "nvfs_get_dma_address e p peer s =
     do { m \<leftarrow> mgroups s p;
          if should_fail e nvfs_dma_error then Some (-1, None, 0, s)
          else if \<not> may_sleep e then Some (- EIO, None, 0, s)
          else do {
            let (ret, dm) = p2p_dma_map_pages e peer (page_table (gpu_info m));
            if ret \<noteq> 0 then Some (-1, dm, 0, s)
            else do {
              let s1 = klog_event (EvDmaMap peer) s;
              dm' \<leftarrow> dm;
              n \<leftarrow> count_dma_chunks dm';
              if n > n_phys_chunks (gpu_info m)
              then Some (-1, dm, n, kstat (nvfs_stat nvfs_n_err_dma_map) s1)
              else Some (0, dm, n, s1) } } }"

fun nvfs_get_pci_dev_mapping :: "pci_dev_mapping list \<Rightarrow> u32 \<Rightarrow> pci_dev_mapping option option" where
  "nvfs_get_pci_dev_mapping [] pci_devid = Some None"
| "nvfs_get_pci_dev_mapping (b # bs) pci_devid =
     do { d \<leftarrow> NVFS_GET_PCI_DEVID (mapped_dev b);
          if d = pci_devid then Some (Some b) else nvfs_get_pci_dev_mapping bs pci_devid }"

text \<open>
  The branch that waits for another thread's mapping is not taken to its end here: with
  \<^verbatim>\<open>dma_mapping_in_progress\<close> set and no other thread the call does not return.
\<close>

definition nvfs_get_p2p_dma_mapping ::
    "kenv \<Rightarrow> pci_dev \<Rightarrow> mptr \<Rightarrow> kstate \<Rightarrow> (p2p_dma_mapping option \<times> nat \<times> kstate) option" where
  "nvfs_get_p2p_dma_mapping e peer p s =
     do { m \<leftarrow> mgroups s p;
          devid \<leftarrow> NVFS_GET_PCI_DEVID peer;
          r \<leftarrow> nvfs_get_pci_dev_mapping (buckets (gpu_info m)) devid;
          case r of
            Some b \<Rightarrow> Some (dma_mapping b, n_dma_chunks b, s)
          | None \<Rightarrow>
              if dma_mapping_in_progress (gpu_info m) \<noteq> 0 then None
              else do {
                s1 \<leftarrow> upd_gpu p (\<lambda>g. g\<lparr>dma_mapping_in_progress := 1\<rparr>) s;
                (dm, n, s2) \<leftarrow>
                  (if \<not> kalloc_ok e AllocPciMapping then Some (None, 0, s1)
                   else do {
                     m1 \<leftarrow> mgroups s1 p;
                     r1 \<leftarrow> nvfs_get_pci_dev_mapping (buckets (gpu_info m1)) devid;
                     case r1 of
                       Some b \<Rightarrow> Some (dma_mapping b, n_dma_chunks b, s1)
                     | None \<Rightarrow> do {
                         (ret, dm, n, s2) \<leftarrow> nvfs_get_dma_address e p peer s1;
                         if ret \<noteq> 0 then Some (None, n, s2)
                         else do {
                           s3 \<leftarrow> upd_gpu p (\<lambda>g. g\<lparr>buckets :=
                                   \<lparr> dma_mapping = dm, mapped_dev = peer, n_dma_chunks = n \<rparr> # buckets g\<rparr>) s2;
                           Some (dm, n, s3) } } });
                s3 \<leftarrow> upd_gpu p (\<lambda>g. g\<lparr>dma_mapping_in_progress := 0\<rparr>) s2;
                Some (dm, n, klog_event (EvWakeUp p) s3) } }"

text \<open>The loop that checks that a long segment is contiguous on the bus.\<close>

fun dma_contiguous :: "p2p_dma_mapping \<Rightarrow> u64 \<Rightarrow> nat \<Rightarrow> nat \<Rightarrow> bool option" where
  "dma_contiguous dm start_addr gpu_iter_index dma_length =
     (if dma_length > GPU_PAGE_SIZE then
        if gpu_iter_index + 1 \<ge> dm_entries dm then Some False
        else do {
          a \<leftarrow> arr_get (dma_addresses dm) (gpu_iter_index + 1);
          if start_addr + GPU_PAGE_SIZE \<noteq> a then Some False
          else dma_contiguous dm (start_addr + GPU_PAGE_SIZE) (gpu_iter_index + 1) (dma_length - GPU_PAGE_SIZE) }
      else Some True)"

declare dma_contiguous.simps [simp del]

text \<open>The result is the return code and the value stored through \<^verbatim>\<open>gpu_base_dma\<close>.\<close>

definition nvfs_get_dma ::
    "kenv \<Rightarrow> pci_dev \<Rightarrow> pageid option \<Rightarrow> bool \<Rightarrow> int \<Rightarrow> kstate \<Rightarrow> (int \<times> u64 \<times> kstate) option" where
  "nvfs_get_dma e peer page gpu_base_dma dma_length s =
     (if \<not> gpu_base_dma then Some (NVFS_BAD_REQ, 0, s)
      else do {
        (r, s1) \<leftarrow> nvfs_mgroup_from_page e page s;
        case r of
          NullPtr \<Rightarrow> Some (NVFS_BAD_REQ, 0, s1)
        | ErrPtr _ \<Rightarrow> Some (NVFS_IO_ERR, 0, s1)
        | Ptr p \<Rightarrow> do {
            let exit = (\<lambda>s. do { s' \<leftarrow> nvfs_mgroup_put_dma e p s; Some (NVFS_IO_ERR, 0, s') });
            pg \<leftarrow> page;
            m \<leftarrow> mgroups s1 p;
            let (gpu_page_index, pgoff) = nvfs_mgroup_get_gpu_index_and_off e s1 m pg;
            let s2 = (if nvfs_peer_stats_enabled e
                      then klog_event (EvPeerUsage (gpu_hash_index (gpu_info m)) peer) s1 else s1);
            (dm, n, s3) \<leftarrow> nvfs_get_p2p_dma_mapping e peer p s2;
            case dm of
              None \<Rightarrow> exit s3
            | Some dm \<Rightarrow>
                if gpu_page_index \<ge> dm_entries dm then None
                else do {
                  dma_base_addr \<leftarrow> arr_get (dma_addresses dm) gpu_page_index;
                  if dma_base_addr = 0 \<or> int pgoff > GPU_PAGE_SIZE - int (PAGE_SIZE (page_shift e)) then None
                  else do {
                    let dma_start_addr = dma_base_addr + of_nat pgoff;
                    s4 \<leftarrow> upd_mgroup p (\<lambda>m. m\<lparr>dma_ref := dma_ref m + 1\<rparr>) s3;
                    ok \<leftarrow> (if dma_length > GPU_PAGE_SIZE \<and> n > 1
                           then dma_contiguous dm dma_start_addr gpu_page_index (nat dma_length)
                           else Some True);
                    if ok then Some (0, dma_start_addr, s4) else exit s4 } } } })"

section \<open>Device identifiers\<close>

lemma devid_bit:
  assumes "NVFS_GET_PCI_DEVID d = Some x" and "pci_bus d = Some (domain, bus)"
  shows "bit x n \<longleftrightarrow> (if n < 8 then bit (devfn d) n else if n < 16 then bit bus (n - 8)
    else n < 32 \<and> bit domain (n - 16))"
  using assms bit_imp_le_length [of "devfn d" n] bit_imp_le_length [of bus "n - 8"]
  by (auto simp: NVFS_GET_PCI_DEVID_def bit_simps)

lemma devid_parts:
  assumes "NVFS_GET_PCI_DEVID d = Some x" and "pci_bus d = Some (domain, bus)"
    and "NVFS_GET_PCI_DEVID d' = Some x" and "pci_bus d' = Some (domain', bus')"
  shows "devfn d = devfn d'" "bus = bus'" "take_bit 16 domain = take_bit 16 domain'"
proof -
  note b = devid_bit [OF assms(1,2)] devid_bit [OF assms(3,4)]
  have "bit (devfn d) n = bit (devfn d') n" if "n < 8" for n using b [of n] that by simp
  then show "devfn d = devfn d'" by (intro bit_word_eqI) simp
  have "bit bus n = bit bus' n" if "n < 8" for n using b [of "n + 8"] that by simp
  then show "bus = bus'" by (intro bit_word_eqI) simp
  have "bit domain n = bit domain' n" if "n < 16" for n using b [of "n + 16"] that by simp
  then show "take_bit 16 domain = take_bit 16 domain'" by (intro bit_word_eqI) (auto simp: bit_simps)
qed

section \<open>Contiguous segments\<close>

lemma dma_contiguous_spec:
  assumes "dm_entries dm = length (dma_addresses dm)"
  shows "dma_contiguous dm a i len = Some (\<forall>t. 0 < t \<and> t * 65536 < len \<longrightarrow>
    i + t < dm_entries dm \<and> dma_addresses dm ! (i + t) = a + of_nat t * 65536)"
  using assms
proof (induction dm a i len rule: dma_contiguous.induct)
  case (1 dm a i len)
  let ?P = "\<lambda>a i len t. i + t < dm_entries dm \<and> dma_addresses dm ! (i + t) = a + of_nat t * 65536"
  show ?case
  proof (cases "65536 < len \<and> i + 1 < dm_entries dm \<and> a + 65536 = dma_addresses dm ! (i + 1)")
    case True
    have split: "(\<forall>t. 0 < t \<and> t * 65536 < len \<longrightarrow> ?P a i len t) \<longleftrightarrow>
        (\<forall>t. 0 < t \<and> t * 65536 < len - 65536 \<longrightarrow> ?P (a + 65536) (i + 1) (len - 65536) t)" (is "?L \<longleftrightarrow> ?R")
    proof
      assume L: ?L
      show ?R
      proof (intro allI impI)
        fix t assume "0 < t \<and> t * 65536 < len - 65536"
        then have "0 < Suc t \<and> Suc t * 65536 < len" by (simp add: less_diff_conv)
        with L have "?P a i len (Suc t)" by blast
        then show "?P (a + 65536) (i + 1) (len - 65536) t" by (simp add: algebra_simps)
      qed
    next
      assume R: ?R
      show ?L
      proof (intro allI impI)
        fix t assume t: "0 < t \<and> t * 65536 < len"
        show "?P a i len t"
        proof (cases "t = 1")
          case True
          with \<open>65536 < len \<and> i + 1 < dm_entries dm \<and> a + 65536 = dma_addresses dm ! (i + 1)\<close> show ?thesis by simp
        next
          case False
          with t obtain u where u: "t = Suc u" "0 < u" by (cases t) auto
          with t R have "?P (a + 65536) (i + 1) (len - 65536) u" by auto
          with u show ?thesis by (simp add: algebra_simps)
        qed
      qed
    qed
    from True "1.prems" have "dma_contiguous dm a i len = dma_contiguous dm (a + 65536) (i + 1) (len - 65536)"
      by (subst dma_contiguous.simps) (simp add: arr_get_def)
    with 1 True split show ?thesis by (simp add: arr_get_def)
  next
    case False
    then have "dma_contiguous dm a i len = Some (\<not> 65536 < len)"
      using "1.prems" by (subst dma_contiguous.simps) (auto simp: arr_get_def)
    moreover have "(\<forall>t. 0 < t \<and> t * 65536 < len \<longrightarrow> ?P a i len t) \<longleftrightarrow> \<not> 65536 < len"
    proof (cases "65536 < len")
      case True
      with False have "\<not> ?P a i len 1" by auto
      with True show ?thesis by (metis less_numeral_extra(1) mult_1)
    next
      case False
      then show ?thesis by auto
    qed
    ultimately show ?thesis by simp
  qed
qed

section \<open>The DMA address of a page\<close>

text \<open>
  A mapping for the device is recorded: the first entry with its identifier is \<open>dm\<close>, in \<open>n\<close>
  pieces.
\<close>

definition mapped_for :: "nvfs_gpu_args \<Rightarrow> pci_dev \<Rightarrow> p2p_dma_mapping \<Rightarrow> nat \<Rightarrow> bool" where
  "mapped_for g peer dm n \<longleftrightarrow> (\<exists>d b. NVFS_GET_PCI_DEVID peer = Some d \<and>
     nvfs_get_pci_dev_mapping (buckets g) d = Some (Some b) \<and> dma_mapping b = Some dm \<and> n_dma_chunks b = n)"

text \<open>Page \<open>j\<close> of group \<open>p\<close> is part of the request in flight: in the active range, queued or started.\<close>

definition page_in_flight :: "kenv \<Rightarrow> kstate \<Rightarrow> mptr \<Rightarrow> nvfs_io_mgroup \<Rightarrow> nat \<Rightarrow> pageid \<Rightarrow> bool" where
  "page_in_flight e s p m j pg \<longleftrightarrow> page_shift e = 12 \<and> hash_wf s \<and> page_of_group e s p m j pg \<and>
     nvfs_active_blocks_start (nvfsio m) \<le> j \<and> j \<le> nvfs_active_blocks_end (nvfsio m) \<and>
     block_state m j \<in> {NVFS_IO_QUEUED, NVFS_IO_DMA_START}"

definition dma_held :: "nvfs_io_mgroup \<Rightarrow> nvfs_io_mgroup" where
  "dma_held m = m\<lparr>mg_ref := mg_ref m + 1, dma_ref := dma_ref m + 1\<rparr>"

lemma from_page_in_flight:
  assumes "page_in_flight e s p m j pg"
  shows "nvfs_mgroup_from_page e (Some pg) s =
    Some (Ptr p, s\<lparr>mgroups := (mgroups s)(p \<mapsto> m\<lparr>mg_ref := mg_ref m + 1\<rparr>)\<rparr>)"
proof -
  let ?s1 = "s\<lparr>mgroups := (mgroups s)(p \<mapsto> m\<lparr>mg_ref := mg_ref m + 1\<rparr>)\<rparr>"
  have ps: "page_shift e = 12" "valid_page_shift (page_shift e)" "nvfs_block_count_per_page (page_shift e) = 1"
    using assms by (simp_all add: page_in_flight_def valid_page_shift_def nvfs_geom)
  have pg: "page_of_group e s p m j pg" and st: "block_state m j \<in> {NVFS_IO_QUEUED, NVFS_IO_DMA_START}"
    using assms by (simp_all add: page_in_flight_def)
  have raw: "nvfs_mgroup_from_page_raw e (Some pg) False s = Some (Ptr p, ?s1)"
    using assms ps by (intro from_page_raw_ok [OF ps(2) _ pg]) (simp_all add: page_in_flight_def)
  obtain md where md: "nvfs_metadata m = Some md" "length md = nvfs_blocks_count m" and j: "j < nvfs_blocks_count m"
    using pg ps by (auto simp: page_of_group_def mgroup_wf_def)
  have "rel_page e ?s1 pg = j" using pg by (simp add: page_of_group_def rel_page_def NVFS_PAGE_INDEX_def)
  with md j st ps(1) show ?thesis
    by (auto simp: nvfs_mgroup_from_page_def raw PAGE_SIZE_def block_state_def)
qed

lemma gpu_index_4k:
  assumes "page_in_flight e s p m j pg"
  shows "nvfs_mgroup_get_gpu_index_and_off e (s\<lparr>mgroups := x\<rparr>) (m\<lparr>mg_ref := r\<rparr>) pg =
    (cur_gpu_base_index (nvfsio m) + j div 16, (j mod 16) * 4096)"
proof -
  have "page_shift e = 12" and j: "rel_page e (s\<lparr>mgroups := x\<rparr>) pg = j"
    using assms by (auto simp: page_in_flight_def page_of_group_def rel_page_def NVFS_PAGE_INDEX_def)
  then show ?thesis
    by (simp add: nvfs_mgroup_get_gpu_index_and_off_def PAGE_PER_GPU_PAGE_SHIFT_def PAGE_SIZE_def drop_bit_eq_div
        push_bit_eq_mult)
qed

text \<open>The call with a recorded mapping, up to the check of long segments.\<close>

lemma get_dma_in_flight:
  assumes pif: "page_in_flight e s p m j pg" and "\<not> nvfs_peer_stats_enabled e"
    and map: "mapped_for (gpu_info m) peer dm n" and "dm_entries dm = length (dma_addresses dm)"
    and i: "i = cur_gpu_base_index (nvfsio m) + j div 16" "i < dm_entries dm" "dma_addresses dm ! i \<noteq> 0"
    and a: "a = dma_addresses dm ! i + of_nat ((j mod 16) * 4096)"
    and s4: "s4 = s\<lparr>mgroups := (mgroups s)(p \<mapsto> dma_held m)\<rparr>"
  shows "nvfs_get_dma e peer (Some pg) True len s =
    (if (65536 < len \<and> 1 < n \<longrightarrow> dma_contiguous dm a i (nat len) = Some True) then Some (0, a, s4)
     else do { s' \<leftarrow> nvfs_mgroup_put_dma e p s4; Some (NVFS_IO_ERR, 0, s') })"
proof -
  let ?s1 = "s\<lparr>mgroups := (mgroups s)(p \<mapsto> m\<lparr>mg_ref := mg_ref m + 1\<rparr>)\<rparr>"
  have ps: "page_shift e = 12" using pif by (simp add: page_in_flight_def)
  have "nvfs_get_p2p_dma_mapping e peer p ?s1 = Some (Some dm, n, ?s1)"
    using map by (auto simp: mapped_for_def nvfs_get_p2p_dma_mapping_def)
  moreover have "(j mod 16) * 4096 \<le> 61440" by (simp add: less_Suc_eq_le [symmetric])
  moreover have "upd_mgroup p (\<lambda>m. m\<lparr>dma_ref := dma_ref m + 1\<rparr>) ?s1 = Some s4"
    by (simp add: s4 dma_held_def)
  moreover obtain b where "dma_contiguous dm a i (nat len) = Some b"
    using dma_contiguous_spec [OF assms(4)] by blast
  ultimately show ?thesis
    using from_page_in_flight [OF pif] gpu_index_4k [OF pif] assms(2,4) i ps a
    by (cases b) (auto simp: nvfs_get_dma_def PAGE_SIZE_def arr_get_def Let_def)
qed

section \<open>Properties\<close>

text \<open>
  C33. The address a storage driver is given. For a page of the request in flight, with a
  mapping recorded for the device, \<^verbatim>\<open>nvfs_get_dma\<close> returns 0 and the bus address of exactly the
  4 KiB of GPU memory the page shadows: the address of the GPU page at index
  \<^verbatim>\<open>cur_gpu_base_index + j/16\<close> plus the offset of the page inside it. It takes one reference
  on the group and one DMA reference and changes nothing else. A segment of more than one
  GPU page of a mapping in several pieces is accepted exactly when the start of each of its
  GPU pages lies where the segment reaches it.
\<close>

theorem get_dma_correct:
  assumes "page_in_flight e s p m j pg" and "\<not> nvfs_peer_stats_enabled e"
    and "mapped_for (gpu_info m) peer dm n" and "dm_entries dm = length (dma_addresses dm)"
    and "i = cur_gpu_base_index (nvfsio m) + j div 16" and "i < dm_entries dm" and "dma_addresses dm ! i \<noteq> 0"
    and "a = dma_addresses dm ! i + of_nat ((j mod 16) * 4096)"
  shows "nvfs_get_dma e peer (Some pg) True len s = Some (0, a, s\<lparr>mgroups := (mgroups s)(p \<mapsto> dma_held m)\<rparr>) \<longleftrightarrow>
    len \<le> 65536 \<or> n \<le> 1 \<or> (\<forall>t. 0 < t \<and> t * 65536 < nat len \<longrightarrow>
      i + t < dm_entries dm \<and> dma_addresses dm ! (i + t) = a + of_nat t * 65536)"
proof -
  have "nvfs_get_dma e peer (Some pg) True len s \<noteq> Some (0, a, x)"
    if "\<not> (65536 < len \<and> 1 < n \<longrightarrow> dma_contiguous dm a i (nat len) = Some True)" for x
    using get_dma_in_flight [OF assms(1-8) refl, of len] that by (auto split: Option.bind_splits)
  then show ?thesis
    using get_dma_in_flight [OF assms(1-8) refl, of len] dma_contiguous_spec [OF assms(4), of a i "nat len"]
    by fastforce
qed

text \<open>A request of all sixteen blocks in flight on the ready group.\<close>

definition ex_flight_group :: nvfs_io_mgroup where
  "ex_flight_group = ex_ready_group\<lparr>mg_ref := 3, nvfs_metadata := Some (map (\<lambda>j. \<lparr> nvfs_start_magic = NVFS_START_MAGIC,
       nvfs_state = NVFS_IO_QUEUED, md_page = Some (500 + j) \<rparr>) [0 ..< 16]),
     nvfsio := zero_nvfs_io\<lparr>nvfs_active_blocks_end := 15\<rparr>\<rparr>"

definition ex_flight_state :: kstate where
  "ex_flight_state = ex_paged_state\<lparr>mgroups := [100 \<mapsto> ex_flight_group]\<rparr>"

lemma ex_flight_wf: "hash_wf ex_flight_state" "mgroup_wf ex_env ex_flight_group"
  by (auto simp: hash_wf_def ex_flight_state_def ex_paged_state_def ex_state_def ex_flight_group_def
      ex_ready_group_def mgroup_wf_def ex_group_def ex_env_def nvfs_geom DIV_ROUND_UP_def split: if_splits)

lemma ex_page_in_flight:
  assumes "j < 16"
  shows "page_in_flight ex_env ex_flight_state 100 ex_flight_group j (500 + j)"
proof -
  have kp: "kpages ex_flight_state = kpages ex_paged_state" by (simp add: ex_flight_state_def)
  have "page_of_group ex_env ex_flight_state 100 ex_flight_group j (500 + j)"
    using ex_page_of_group [OF assms] ex_flight_wf(2) assms rel_page_cong [OF kp] page_base_index_cong [OF kp]
    by (simp add: page_of_group_def kp ex_flight_state_def ex_flight_group_def ex_ready_group_def ex_init_group_def
        ex_group_def ex_env_def nvfs_geom)
  then show ?thesis
    using ex_flight_wf(1) assms
    by (simp add: page_in_flight_def ex_env_def ex_flight_group_def zero_nvfs_io_def block_state_def)
qed

definition ex_mapping :: p2p_dma_mapping where
  "ex_mapping = \<lparr> dm_entries = 1, dma_addresses = [0x200000] \<rparr>"

lemma ex_mapped_for: "mapped_for (gpu_info ex_flight_group) ex_dev ex_mapping 1"
  by (simp add: mapped_for_def ex_flight_group_def ex_ready_group_def ex_ready_gpu_def NVFS_GET_PCI_DEVID_def
      ex_dev_def ex_mapping_def)

theorem get_dma_correct_witness:
  "nvfs_get_dma ex_env ex_dev (Some 503) True 4096 ex_flight_state =
     Some (0, 0x203000, ex_flight_state\<lparr>mgroups := (mgroups ex_flight_state)(100 \<mapsto> dma_held ex_flight_group)\<rparr>)"
  using get_dma_correct [OF ex_page_in_flight [of 3] _ ex_mapped_for, of 0 "0x203000" 4096]
  by (simp add: ex_env_def ex_mapping_def ex_flight_group_def zero_nvfs_io_def)

text \<open>
  Mappings are made once per device. The first request for a device maps the pages through
  the GPU driver and records the mapping; every later request for the same device returns
  that mapping and leaves the state untouched.
\<close>

theorem dma_mapping_cached:
  assumes "mgroups s p = Some m" and "NVFS_GET_PCI_DEVID peer = Some d"
    and "nvfs_get_pci_dev_mapping (buckets (gpu_info m)) d = Some None" and "dma_mapping_in_progress (gpu_info m) = 0"
    and "kalloc_ok e AllocPciMapping" and "no_faults e" and "may_sleep e"
    and "p2p_dma_map_pages e peer (page_table (gpu_info m)) = (0, Some dm)"
    and "count_dma_chunks dm = Some n" and "n \<le> n_phys_chunks (gpu_info m)"
  shows "\<exists>s'. nvfs_get_p2p_dma_mapping e peer p s = Some (Some dm, n, s') \<and>
    klog s' = [EvWakeUp p, EvDmaMap peer] @ klog s \<and>
    mgroups s' = (mgroups s)(p \<mapsto> m\<lparr>gpu_info := (gpu_info m)\<lparr>buckets :=
      \<lparr> dma_mapping = Some dm, mapped_dev = peer, n_dma_chunks = n \<rparr> # buckets (gpu_info m)\<rparr>\<rparr>) \<and>
    nvfs_get_p2p_dma_mapping e peer p s' = Some (Some dm, n, s')"
proof -
  let ?g = "(gpu_info m)\<lparr>dma_mapping_in_progress := 1\<rparr>"
  let ?s1 = "s\<lparr>mgroups := (mgroups s)(p \<mapsto> m\<lparr>gpu_info := ?g\<rparr>)\<rparr>"
  let ?b = "\<lparr> dma_mapping = Some dm, mapped_dev = peer, n_dma_chunks = n \<rparr>"
  have "nvfs_get_dma_address e p peer ?s1 = Some (0, Some dm, n, klog_event (EvDmaMap peer) ?s1)"
    using assms(6-10) by (simp add: nvfs_get_dma_address_def no_faults_def Let_def)
  moreover define s' where "s' = klog_event (EvWakeUp p) (klog_event (EvDmaMap peer) (s\<lparr>mgroups := (mgroups s)(p \<mapsto>
      m\<lparr>gpu_info := (gpu_info m)\<lparr>buckets := ?b # buckets (gpu_info m), dma_mapping_in_progress := 0\<rparr>\<rparr>)\<rparr>))"
  ultimately have run: "nvfs_get_p2p_dma_mapping e peer p s = Some (Some dm, n, s')"
    using assms(1-5) by (simp add: nvfs_get_p2p_dma_mapping_def upd_gpu_def klog_event_mgroups)
  have g: "(gpu_info m)\<lparr>buckets := ?b # buckets (gpu_info m), dma_mapping_in_progress := 0\<rparr> =
      (gpu_info m)\<lparr>buckets := ?b # buckets (gpu_info m)\<rparr>" using assms(4) by simp
  have "nvfs_get_p2p_dma_mapping e peer p s' = Some (Some dm, n, s')"
    using assms(2) by (simp add: nvfs_get_p2p_dma_mapping_def s'_def)
  with run show ?thesis by (simp add: s'_def g klog_event_def)
qed

theorem dma_mapping_cached_witness:
  "\<exists>s'. nvfs_get_p2p_dma_mapping ex_env (ex_dev\<lparr>devfn := 8\<rparr>) 100 ex_flight_state = Some (Some ex_mapping, 1, s') \<and>
     nvfs_get_p2p_dma_mapping ex_env (ex_dev\<lparr>devfn := 8\<rparr>) 100 s' = Some (Some ex_mapping, 1, s')"
proof -
  have "mgroups ex_flight_state 100 = Some ex_flight_group" "kalloc_ok ex_env AllocPciMapping" "may_sleep ex_env"
    "NVFS_GET_PCI_DEVID (ex_dev\<lparr>devfn := 8\<rparr>) = Some 0x3b08"
    "nvfs_get_pci_dev_mapping (buckets (gpu_info ex_flight_group)) 0x3b08 = Some None"
    "dma_mapping_in_progress (gpu_info ex_flight_group) = 0"
    "p2p_dma_map_pages ex_env (ex_dev\<lparr>devfn := 8\<rparr>) (page_table (gpu_info ex_flight_group)) = (0, Some ex_mapping)"
    "count_dma_chunks ex_mapping = Some 1" "1 \<le> n_phys_chunks (gpu_info ex_flight_group)"
    by (simp_all add: ex_flight_state_def ex_env_def NVFS_GET_PCI_DEVID_def ex_dev_def ex_flight_group_def
        ex_ready_group_def ex_ready_gpu_def zero_gpu_args_def ex_mapping_def count_dma_chunks_def)
  from dma_mapping_cached [OF this(1,4,5,6,2) ex_no_faults this(3,7,8,9)] show ?thesis by blast
qed

text \<open>
  The identifier under which a mapping is recorded tells PCI devices apart as long as
  their domain numbers fit in 16 bits.
\<close>

theorem devid_distinguishes:
  assumes "NVFS_GET_PCI_DEVID d = NVFS_GET_PCI_DEVID d'" and "pci_bus d = Some (domain, bus)"
    and "pci_bus d' = Some (domain', bus')" and "domain < 0x10000" and "domain' < 0x10000"
  shows "d = d'"
proof -
  obtain x where x: "NVFS_GET_PCI_DEVID d = Some x" using assms(2) by (simp add: NVFS_GET_PCI_DEVID_def)
  then have "NVFS_GET_PCI_DEVID d' = Some x" using assms(1) by simp
  note parts = devid_parts [OF x assms(2) this assms(3)]
  have "take_bit 16 domain = domain" "take_bit 16 domain' = domain'"
    using assms(4,5) by (simp_all add: take_bit_eq_mod mod_word_less)
  with parts assms(2,3) show ?thesis by simp
qed

theorem devid_distinguishes_witness:
  "NVFS_GET_PCI_DEVID ex_dev \<noteq> NVFS_GET_PCI_DEVID (ex_dev\<lparr>devfn := 8\<rparr>)"
  using devid_distinguishes [of ex_dev "ex_dev\<lparr>devfn := 8\<rparr>" 0 "0x3b" 0 "0x3b"] by (auto simp: ex_dev_def)

text \<open>
  Domain numbers beyond 16 bits are cut off. Two devices that differ by \<open>0x10000\<close> in their
  domain (as the devices behind a volume management controller do from those of domain 0)
  share an identifier, and a mapping made for one of them is handed out for the other.
\<close>

theorem devid_domain_truncated:
  assumes "mgroups s p = Some m" and "mapped_for (gpu_info m) d dm n" and "pci_bus d = Some (domain, bus)"
    and "d' = d\<lparr>pci_bus := Some (domain + 0x10000, bus)\<rparr>"
  shows "nvfs_get_p2p_dma_mapping e d' p s = Some (Some dm, n, s)"
proof -
  have "push_bit 16 (domain + 0x10000) = push_bit 16 domain"
  proof transfer
    fix x :: int
    have "(x + 65536) * 65536 = x * 65536 + 4294967296" by simp
    then have "(x + 65536) * 65536 mod 4294967296 = x * 65536 mod 4294967296" by (simp only: mod_add_self2)
    then show "take_bit LENGTH(32) (push_bit 16 (x + 65536)) = take_bit LENGTH(32) (push_bit 16 x)"
      by (simp add: push_bit_eq_mult take_bit_eq_mod)
  qed
  then have "NVFS_GET_PCI_DEVID d' = NVFS_GET_PCI_DEVID d"
    using assms(3,4) by (simp add: NVFS_GET_PCI_DEVID_def)
  with assms(1,2) show ?thesis by (auto simp: mapped_for_def nvfs_get_p2p_dma_mapping_def)
qed

theorem devid_domain_truncated_witness:
  "nvfs_get_p2p_dma_mapping ex_env (ex_dev\<lparr>pci_bus := Some (0x10000, 0x3b)\<rparr>) 100 ex_flight_state =
     Some (Some ex_mapping, 1, ex_flight_state)"
  using devid_domain_truncated [OF _ ex_mapped_for, of ex_flight_state 100 0 "0x3b"]
  by (simp add: ex_flight_state_def ex_dev_def)

text \<open>
  A long segment that starts inside a GPU page is refused although it is contiguous, and the
  refusal leaves a DMA reference behind: the check compares the address of the segment with
  the start of the next GPU page without taking the offset off.
\<close>

theorem get_dma_refuses_unaligned_segment:
  assumes "page_in_flight e s p m j pg" and "\<not> nvfs_peer_stats_enabled e"
    and "mapped_for (gpu_info m) peer dm n" and "dm_entries dm = length (dma_addresses dm)"
    and "i = cur_gpu_base_index (nvfsio m) + j div 16" and "i + 1 < dm_entries dm" and "dma_addresses dm ! i \<noteq> 0"
    and "1 < n" and "65536 < len" and "j mod 16 \<noteq> 0" and "dma_addresses dm ! (i + 1) = dma_addresses dm ! i + 65536"
  shows "nvfs_get_dma e peer (Some pg) True len s =
    Some (NVFS_IO_ERR, 0, s\<lparr>mgroups := (mgroups s)(p \<mapsto> m\<lparr>dma_ref := dma_ref m + 1\<rparr>)\<rparr>)"
proof -
  let ?a = "dma_addresses dm ! i + of_nat ((j mod 16) * 4096) :: u64"
  let ?s4 = "s\<lparr>mgroups := (mgroups s)(p \<mapsto> dma_held m)\<rparr>"
  have m: "mgroups s p = Some m" using assms(1) by (simp add: page_in_flight_def page_of_group_def)
  then have ref: "0 < mg_ref m" using assms(1) by (auto simp: page_in_flight_def hash_wf_def)
  have "(j mod 16) * 4096 < 2 ^ 64" "0 < (j mod 16) * 4096"
    using assms(10) by (simp_all add: order.strict_trans1 [of _ 61440] less_Suc_eq_le [symmetric])
  then have "(of_nat ((j mod 16) * 4096) :: u64) \<noteq> 0"
    unfolding word_of_nat_eq_0_iff by (auto dest: dvd_imp_le simp del: mult_eq_0_iff)
  then have "\<not> (\<forall>t. 0 < t \<and> t * 65536 < nat len \<longrightarrow>
      i + t < dm_entries dm \<and> dma_addresses dm ! (i + t) = ?a + of_nat t * 65536)"
    using assms(9,11) by (auto intro!: exI [of _ 1])
  then have "dma_contiguous dm ?a i (nat len) = Some False"
    using dma_contiguous_spec [OF assms(4), of ?a i "nat len"] by simp
  moreover have "nvfs_mgroup_put_dma e p ?s4 = Some (s\<lparr>mgroups := (mgroups s)(p \<mapsto> m\<lparr>dma_ref := dma_ref m + 1\<rparr>)\<rparr>)"
    using put_shared_effect [of ?s4 p "dma_held m" e True] ref by (simp add: nvfs_mgroup_put_dma_def dma_held_def)
  ultimately show ?thesis
    using get_dma_in_flight [OF assms(1-5) _ assms(7) refl refl, of len] assms(6,8,9) by simp
qed

text \<open>
  A segment of at most one GPU page is never checked, even if it crosses into the next GPU
  page and that page lies elsewhere on the bus: the driver is given the address of the
  first page and told nothing.
\<close>

theorem get_dma_short_segment_unchecked:
  assumes "page_in_flight e s p m j pg" and "\<not> nvfs_peer_stats_enabled e"
    and "mapped_for (gpu_info m) peer dm n" and "dm_entries dm = length (dma_addresses dm)"
    and "i = cur_gpu_base_index (nvfsio m) + j div 16" and "i + 1 < dm_entries dm" and "dma_addresses dm ! i \<noteq> 0"
    and "len \<le> 65536" and "65536 < int (j mod 16) * 4096 + len"
    and "dma_addresses dm ! (i + 1) \<noteq> dma_addresses dm ! i + 65536"
  shows "nvfs_get_dma e peer (Some pg) True len s = Some (0, dma_addresses dm ! i + of_nat ((j mod 16) * 4096),
    s\<lparr>mgroups := (mgroups s)(p \<mapsto> dma_held m)\<rparr>)"
  using get_dma_in_flight [OF assms(1-5) _ assms(7) refl refl, of len] assms(6,8) by simp

text \<open>The same group on a GPU buffer of two GPU pages, contiguous on the bus or not.\<close>

definition ex_mapping2 :: "u64 \<Rightarrow> p2p_dma_mapping" where
  "ex_mapping2 a = \<lparr> dm_entries = 2, dma_addresses = [0x200000, a] \<rparr>"

definition ex_flight_group2 :: "u64 \<Rightarrow> nvfs_io_mgroup" where
  "ex_flight_group2 a = ex_flight_group\<lparr>gpu_info := ex_ready_gpu\<lparr>buckets :=
     [\<lparr> dma_mapping = Some (ex_mapping2 a), mapped_dev = ex_dev, n_dma_chunks = 2 \<rparr>]\<rparr>\<rparr>"

lemma ex_env_shift: "page_shift ex_env = 12"
  by (simp add: ex_env_def)

lemma ex_page_in_flight2:
  assumes "j < 16"
  shows "page_in_flight ex_env (ex_flight_state\<lparr>mgroups := [100 \<mapsto> ex_flight_group2 a]\<rparr>) 100 (ex_flight_group2 a) j (500 + j)"
    "mapped_for (gpu_info (ex_flight_group2 a)) ex_dev (ex_mapping2 a) 2"
proof -
  show "mapped_for (gpu_info (ex_flight_group2 a)) ex_dev (ex_mapping2 a) 2"
    by (simp add: mapped_for_def ex_flight_group2_def NVFS_GET_PCI_DEVID_def ex_dev_def)
  have "hash_wf (ex_flight_state\<lparr>mgroups := [100 \<mapsto> ex_flight_group2 a]\<rparr>)"
    by (auto simp: hash_wf_def ex_flight_state_def ex_paged_state_def ex_state_def ex_flight_group2_def
        ex_flight_group_def split: if_splits)
  moreover have "mgroup_wf ex_env (ex_flight_group2 a)"
    using ex_flight_wf(2) by (simp add: mgroup_wf_def ex_flight_group2_def)
  ultimately show "page_in_flight ex_env (ex_flight_state\<lparr>mgroups := [100 \<mapsto> ex_flight_group2 a]\<rparr>) 100 (ex_flight_group2 a) j (500 + j)"
    using ex_page_in_flight [OF assms]
    by (simp add: page_in_flight_def page_of_group_def rel_page_def page_base_index_def NVFS_PAGE_INDEX_def
        ex_flight_group2_def block_state_def ex_env_shift)
qed

theorem get_dma_refuses_unaligned_segment_witness:
  "\<exists>s'. nvfs_get_dma ex_env ex_dev (Some 501) True 65537 (ex_flight_state\<lparr>mgroups := [100 \<mapsto> ex_flight_group2 0x210000]\<rparr>) =
     Some (NVFS_IO_ERR, 0, s')"
  using get_dma_refuses_unaligned_segment [OF ex_page_in_flight2(1) [of 1 "0x210000"] _ ex_page_in_flight2(2), of 0 0 65537]
  by (simp add: ex_env_def ex_mapping2_def ex_flight_group2_def ex_flight_group_def zero_nvfs_io_def)

theorem get_dma_short_segment_unchecked_witness:
  "\<exists>s'. nvfs_get_dma ex_env ex_dev (Some 515) True 8192 (ex_flight_state\<lparr>mgroups := [100 \<mapsto> ex_flight_group2 0x900000]\<rparr>) =
     Some (0, 0x20f000, s')"
  using get_dma_short_segment_unchecked [OF ex_page_in_flight2(1) [of 15 "0x900000"] _ ex_page_in_flight2(2), of 0 0 8192]
  by (simp add: ex_env_def ex_mapping2_def ex_flight_group2_def ex_flight_group_def zero_nvfs_io_def)

end
