(* ===== verification/Nvfs_Io.thy ===== *)
theory Nvfs_Io
  imports Nvfs_Dma
begin

text \<open>
  Reads and writes (\<^verbatim>\<open>nvfs-core.c\<close>): the set-up of a request and its checks
  (\<^verbatim>\<open>nvfs_io_init\<close>), its execution in pieces of the size of the shadow buffer
  (\<^verbatim>\<open>nvfs_io_start_op\<close>, \<^verbatim>\<open>nvfs_direct_io\<close>), and its completion
  (\<^verbatim>\<open>nvfs_io_complete\<close>, \<^verbatim>\<open>nvfs_io_free\<close>).

  The file system below is a parameter: \<open>call_iter\<close> is \<^verbatim>\<open>call_read_iter\<close> and
  \<^verbatim>\<open>call_write_iter\<close>, with everything that the block layer and the storage drivers do to
  the state meanwhile; the page cache, the clock and the access checks of the kernel are
  fields of \<open>kfile\<close> and \<open>fsenv\<close>. A request that does not return, or in which the kernel dies, is \<open>None\<close>.
\<close>

section \<open>Files and requests\<close>

record kfile =
  f_regular :: bool
  f_block :: bool
  fmode_read :: bool
  fmode_write :: bool
  fmode_can_read :: bool
  fmode_can_write :: bool
  f_direct :: bool
  f_unsigned_offset :: bool
  i_ino :: u64
  i_generation :: u32
  i_major :: u32
  i_minor :: u32
  i_size :: int
  i_blocks :: u64
  s_magic :: u64
  has_read_iter :: bool
  has_write_iter :: bool
  f_fallocate :: "int option"
  locks_mandatory_area :: "int option"
  security_file_permission :: "nvfs_op \<Rightarrow> int"
  filemap_range_has_page :: "nat \<Rightarrow> bool"
  filemap_write_and_wait_range :: "nat \<Rightarrow> int"
  invalidate_inode_pages2_range :: "nat \<Rightarrow> int"

record fsenv =
  fd_file :: "int \<Rightarrow> kfile option"
  access_ok :: "nvfs_op \<Rightarrow> u64 \<Rightarrow> u64 \<Rightarrow> bool"
  call_iter :: "nvfs_op \<Rightarrow> int \<Rightarrow> u64 \<Rightarrow> u64 \<Rightarrow> int \<Rightarrow> kstate \<Rightarrow> (int \<times> kstate) option"
  clock_now :: int
  clock_now' :: int
  io_latency :: u64
  rw_stats_on :: bool

record nvfs_ioctl_ioargs =
  ia_cpuvaddr :: u64
  ia_offset :: int
  ia_size :: u64
  ia_end_fence_value :: u64
  ia_inum :: u64
  ia_generation :: u32
  ia_majdev :: u32
  ia_mindev :: u32
  ia_devptroff :: u64
  ia_fd :: int
  ia_sync :: bool
  ia_hipri :: bool
  ia_allowreads :: bool
  ia_use_rkeys :: bool

section \<open>Completion\<close>

definition io_free_stats :: "nvfs_io \<Rightarrow> int \<Rightarrow> nvfs_stats \<Rightarrow> nvfs_stats" where
  "io_free_stats io res st =
     (if io_op io = WRITE then
        let st1 = (if res \<ge> 0 then if rw_stats_enabled io then nvfs_stat64 nvfs_n_writes_ok st else st
                   else nvfs_stat nvfs_n_write_err st)
        in if rw_stats_enabled io then nvfs_stat_d nvfs_n_op_writes st1 else st1
      else
        let st1 = (if res \<ge> 0 then if rw_stats_enabled io then nvfs_stat64 nvfs_n_reads_ok st else st
                   else nvfs_stat nvfs_n_read_err st)
        in if rw_stats_enabled io then nvfs_stat_d nvfs_n_op_reads st1 else st1)"

definition nvfs_io_free :: "kenv \<Rightarrow> mptr \<Rightarrow> int \<Rightarrow> kstate \<Rightarrow> kstate option" where
  "nvfs_io_free e p res s =
     do { m \<leftarrow> mgroups s p;
          let sync = io_sync (nvfsio m);
          let s1 = klog_event (EvFdPut (io_fd (nvfsio m))) (kstat (io_free_stats (nvfsio m) res) s);
          s2 \<leftarrow> nvfs_mgroup_put e p s1;
          (_, s3) \<leftarrow> nvfs_transit_state e p sync IO_IN_PROGRESS IO_READY s2;
          if sync then Some s3
          else do {
            m3 \<leftarrow> mgroups s3 p;
            pg \<leftarrow> end_fence_page (gpu_info m3);
            Some (s3\<lparr>metapages := (metapages s3)(pg := (metapages s3 pg)\<lparr>mp_result := res,
                      end_fence_val := end_fence_value (nvfsio m3)\<rparr>)\<rparr>) } }"

definition io_complete_stats :: "fsenv \<Rightarrow> nvfs_io \<Rightarrow> int \<Rightarrow> nvfs_stats \<Rightarrow> nvfs_stats" where
  "io_complete_stats fs io res st =
     (if ki_write io then
        if res < 0 then nvfs_stat nvfs_n_write_iostate_err st
        else if rw_stats_enabled io then
          nvfs_update_write_latency (clock_now fs) (clock_now' fs) (io_latency fs)
            (nvfs_update_write_throughput (clock_now fs) (clock_now' fs) (word_of_int res)
              (nvfs_stat64_add res nvfs_n_write_bytes st))
        else st
      else
        if res < 0 then nvfs_stat nvfs_n_read_iostate_err st
        else if rw_stats_enabled io then
          nvfs_update_read_latency (clock_now fs) (clock_now' fs) (io_latency fs)
            (nvfs_update_read_throughput (clock_now fs) (clock_now' fs) (word_of_int res)
              (nvfs_stat64_add res nvfs_n_read_bytes st))
        else st)"

definition nvfs_io_complete :: "kenv \<Rightarrow> fsenv \<Rightarrow> mptr \<Rightarrow> int \<Rightarrow> kstate \<Rightarrow> kstate option" where
  "nvfs_io_complete e fs p res s =
     do { s1 \<leftarrow> upd_io p (\<lambda>io. io\<lparr>io_ret := res\<rparr>) s;
          s2 \<leftarrow> nvfs_mgroup_check_and_set e p NVFS_IO_DONE (res \<ge> 0) True s1;
          m \<leftarrow> mgroups s2 p;
          let res' = io_ret (nvfsio m);
          let s3 = (if ki_write (nvfsio m) then klog_event EvEndWrite s2 else s2);
          let s4 = kstat (io_complete_stats fs (nvfsio m) res') s3;
          s5 \<leftarrow> (if io_sync (nvfsio m) then Some s4 else nvfs_io_free e p res' s4);
          Some (nvfs_put_ops e s5) }"

text \<open>
  \<^verbatim>\<open>req->private\<close> is a null pointer here, so the error of a failed completion is read as 0.
\<close>

definition nvfs_io_ret :: "kenv \<Rightarrow> fsenv \<Rightarrow> mptr \<Rightarrow> int \<Rightarrow> kstate \<Rightarrow> (int \<times> kstate) option" where
  "nvfs_io_ret e fs p ret s =
     (if ret = - EIOCBQUEUED then Some (ret, s)
      else do {
        s1 \<leftarrow> nvfs_io_complete e fs p ret s;
        m \<leftarrow> mgroups s1 p;
        Some (if io_sync (nvfsio m) \<and> ret \<noteq> io_ret (nvfsio m)
              then if io_ret (nvfsio m) < 0 then 0 else io_ret (nvfsio m)
              else ret, s1) })"

section \<open>One piece of a request\<close>

definition nvfs_check_access :: "fsenv \<Rightarrow> nvfs_op \<Rightarrow> u64 \<Rightarrow> u64 \<Rightarrow> bool" where
  "nvfs_check_access fs type buf count = access_ok fs type buf count"

definition nvfs_rw_verify_area :: "fsenv \<Rightarrow> nvfs_op \<Rightarrow> kfile \<Rightarrow> u64 \<Rightarrow> int \<Rightarrow> u64 \<Rightarrow> int" where
  "nvfs_rw_verify_area fs op f buf pos count =
     (let rest = (case locks_mandatory_area f of
                    Some r \<Rightarrow> if r < 0 then r else security_file_permission f (if op = READ then READ else WRITE)
                  | None \<Rightarrow> security_file_permission f (if op = READ then READ else WRITE))
      in if \<not> nvfs_check_access fs op buf count then - EFAULT
         else if sint count < 0 then - EINVAL
         else if pos < 0 then
           if \<not> f_unsigned_offset f then - EINVAL
           else if uint count \<ge> - pos then - EOVERFLOW
           else rest
         else if s64 (pos + uint count) < 0 \<and> \<not> f_unsigned_offset f then - EINVAL
         else rest)"

definition nvfs_is_sparse :: "kfile \<Rightarrow> bool" where
  "nvfs_is_sparse f \<longleftrightarrow> 512 * i_blocks f < word_of_int (i_size f)"

definition nvfs_direct_io ::
    "kenv \<Rightarrow> fsenv \<Rightarrow> nvfs_op \<Rightarrow> kfile \<Rightarrow> mptr \<Rightarrow> u64 \<Rightarrow> u64 \<Rightarrow> int \<Rightarrow> kstate \<Rightarrow> (int \<times> kstate) option" where
  "nvfs_direct_io e fs op f p buf len ppos s =
     do { s0 \<leftarrow> upd_io p (\<lambda>io. io\<lparr>ki_write := False\<rparr>) s;
          let ret = (if should_fail e nvfs_rw_verify_area_error then - EFAULT
                     else nvfs_rw_verify_area fs op f buf ppos len);
          if ret \<noteq> 0 then do { (_, s1) \<leftarrow> nvfs_io_ret e fs p ret s0; Some (ret, s1) }
          else do {
            m \<leftarrow> mgroups s0 p;
            s1 \<leftarrow> (if op = WRITE
                   then do { s1 \<leftarrow> upd_io p (\<lambda>io. io\<lparr>ki_write := True\<rparr>) s0; Some (klog_event EvStartWrite s1) }
                   else Some s0);
            (r, s2) \<leftarrow> call_iter fs (if op = WRITE then WRITE else READ) (io_fd (nvfsio m)) buf len ppos s1;
            (ret, s3) \<leftarrow> nvfs_io_ret e fs p r s2;
            if ret = - EIOCBQUEUED
            then do { m3 \<leftarrow> mgroups s3 p; if io_sync (nvfsio m3) then None else Some (ret, s3) }
            else Some (ret, s3) } }"

section \<open>Opening and closing the device\<close>

definition nvfs_open :: "kenv \<Rightarrow> mod_env \<Rightarrow> bool \<Rightarrow> kstate \<Rightarrow> int \<times> kstate" where
  "nvfs_open e me nvfs_shutdown s =
     (if nvfs_shutdown then (- EINVAL, s)
      else let s1 = nvfs_get_ops e s;
               (ret, ms, t) = nvfs_blk_register_dma_ops me (kmodules s1) (ksymtab s1);
               s2 = s1\<lparr>kmodules := ms, ksymtab := t\<rparr>;
               s3 = (if ret < 0 then nvfs_put_ops e s2 else s2)
           in (ret, kstat (nvfs_stat nvfs_n_op_process) s3))"

definition nvfs_close :: "kenv \<Rightarrow> kstate \<Rightarrow> int \<times> kstate" where
  "nvfs_close e s =
     (let s1 = nvfs_put_ops e s;
          s2 = (if nvfs_count_ops e s1 = 0 then unregister_dma_ops s1 else s1)
      in (0, kstat (nvfs_stat_d nvfs_n_op_process) s2))"

section \<open>Setting up a request\<close>

definition nvfs_check_file_permissions :: "nvfs_op \<Rightarrow> kfile \<Rightarrow> bool \<Rightarrow> int" where
  "nvfs_check_file_permissions op f allow_read_on_wronly =
     (case op of
        READ \<Rightarrow>
          if \<not> fmode_read f then
            if allow_read_on_wronly then
              if \<not> fmode_write f then - EBADF
              else if \<not> fmode_can_write f then - EINVAL else 0
            else - EBADF
          else if \<not> fmode_can_read f then - EINVAL else 0
      | WRITE \<Rightarrow>
          if \<not> fmode_write f then - EBADF
          else if \<not> fmode_can_write f then - EINVAL else 0
      | OP_OTHER \<Rightarrow> 0)"

text \<open>The comparison of the file with what the caller says about it.\<close>

definition io_check_file :: "kfile \<Rightarrow> nvfs_ioctl_ioargs \<Rightarrow> int" where
  "io_check_file f a =
     (if ia_inum a = 0 then - EINVAL
      else if \<not> (f_regular f \<and> ia_majdev a \<noteq> 0) \<and> f_block f \<and> ia_majdev a = 0 then - EINVAL
      else if ia_generation a \<noteq> 0 \<and> ia_generation a \<noteq> i_generation f then - ESTALE
      else if ia_inum a \<noteq> i_ino f then - ESTALE
      else if ia_majdev a \<noteq> i_major f \<or> ia_mindev a \<noteq> i_minor f then - ESTALE
      else 0)"

text \<open>
  The filling of \<^verbatim>\<open>nvfsio\<close>, with its checks: the error, or 0, and the structure as far as it is filled.
\<close>

definition io_va_offset :: "nvfs_io_mgroup \<Rightarrow> nvfs_ioctl_ioargs \<Rightarrow> u64" where
  "io_va_offset m a =
     gpuvaddr (gpu_info m) - (gpuvaddr (gpu_info m) AND GPU_PAGE_MASK) + ia_devptroff a"

definition io_fill :: "nvfs_op \<Rightarrow> kfile \<Rightarrow> nvfs_ioctl_ioargs \<Rightarrow> nvfs_io_mgroup \<Rightarrow> (int \<times> nvfs_io) option" where
  "io_fill op f a m =
     (let io0 = zero_nvfs_io\<lparr>cpuvaddr := ia_cpuvaddr a, io_sync := ia_sync a, io_hipri := ia_hipri a,
                  use_rkeys := ia_use_rkeys a, io_op := op\<rparr>;
          io1 = io0\<lparr>io_fd := ia_fd a, fd_offset := ia_offset a, io_length := ia_size a,
                  check_sparse := False, io_meta := NVFS_IO_META_CLEAN, io_ret := - EINVAL\<rparr>;
          io2 = (if ia_sync a then io1 else io1\<lparr>end_fence_value := ia_end_fence_value a\<rparr>);
          va_offset = io_va_offset m a;
          io3 = io2\<lparr>retrycnt := 0, gpu_page_offset := unat (va_offset AND (GPU_PAGE_SIZE - 1))\<rparr>;
          io4 = io3\<lparr>cur_gpu_base_index := unat (drop_bit GPU_PAGE_SHIFT va_offset)\<rparr>;
          shadow_buf_size = nvfs_blocks_count m * NVFS_BLOCK_SIZE
      in if \<not> f_direct f then Some (- EINVAL, io0)
         else if \<not> ia_sync a \<and> ia_end_fence_value a = 0 then Some (- EINVAL, io1)
         else if va_offset mod NVFS_BLOCK_SIZE \<noteq> 0 then Some (- EINVAL, io2)
         else if gpu_buf_len (gpu_info m) < ia_size a \<or> ia_devptroff a > gpu_buf_len (gpu_info m) - ia_size a
         then Some (- EINVAL, io2)
         else if gpu_page_offset io3 \<noteq> 0 \<and> uint (ia_size a) > GPU_PAGE_SIZE - int (gpu_page_offset io3)
         then Some (- EINVAL, io3)
         else if ia_devptroff a = 0 \<and> cur_gpu_base_index io4 \<noteq> 0 then None
         else if ia_use_rkeys a
         then if shadow_buf_size = 0 then None
              else Some (0, io4\<lparr>rdma_seg_offset := unat va_offset mod shadow_buf_size\<rparr>)
         else Some (0, io4))"

definition nvfs_io_init ::
    "kenv \<Rightarrow> fsenv \<Rightarrow> nvfs_op \<Rightarrow> nvfs_ioctl_ioargs \<Rightarrow> kstate \<Rightarrow> (mptr errptr \<times> kstate) option" where
  "nvfs_io_init e fs op a s =
     (if ia_offset a < 0 then Some (ErrPtr (- EINVAL), s)
      else if ia_offset a mod NVFS_BLOCK_SIZE \<noteq> 0 \<or> ia_size a mod NVFS_BLOCK_SIZE \<noteq> 0 then Some (ErrPtr (- EINVAL), s)
      else if ia_offset a > s64 (2 ^ 63 - 1 - sint (ia_size a)) then Some (ErrPtr (- EINVAL), s)
      else case fd_file fs (ia_fd a) of
        None \<Rightarrow> Some (ErrPtr (- EINVAL), s)
      | Some f \<Rightarrow> do {
          let s0 = klog_event (EvFdGet (ia_fd a)) s;
          let fd_put = (\<lambda>ret s. Some (ErrPtr ret, klog_event (EvFdPut (ia_fd a)) s));
          let perm = nvfs_check_file_permissions op f (ia_allowreads a);
          if perm \<noteq> 0 then fd_put perm s0
          else if io_check_file f a \<noteq> 0 then fd_put (io_check_file f a) s0
          else do {
            (mg, s1) \<leftarrow> nvfs_get_mgroup_from_vaddr e (ia_cpuvaddr a) s0;
            case mg of
              None \<Rightarrow> fd_put (- EINVAL) s1
            | Some p \<Rightarrow> do {
                let mgroup_put = (\<lambda>ret s. do {
                      (_, s') \<leftarrow> nvfs_transit_state e p (ia_sync a) IO_IN_PROGRESS IO_READY s;
                      s'' \<leftarrow> nvfs_mgroup_put e p s';
                      fd_put ret s'' });
                (ok, s2) \<leftarrow> nvfs_transit_state e p (ia_sync a) IO_READY IO_IN_PROGRESS s1;
                if \<not> ok then mgroup_put (- EBUSY) s2
                else do {
                  m \<leftarrow> mgroups s2 p;
                  (ret, io) \<leftarrow> io_fill op f a m;
                  s3 \<leftarrow> upd_io p (\<lambda>_. io) s2;
                  if ret \<noteq> 0 then mgroup_put ret s3 else Some (Ptr p, s3) } } } })"

section \<open>Flushing the page cache\<close>

text \<open>
  The loop of \<^verbatim>\<open>flush_dirty_pages\<close>: the return value, the final retry count and the statistics.
\<close>

function flush_loop :: "kfile \<Rightarrow> nat \<Rightarrow> nvfs_stats \<Rightarrow> int \<times> nat \<times> nvfs_stats" where
  "flush_loop f k st =
     (if \<not> filemap_range_has_page f k then (0, k, st)
      else let st1 = nvfs_stat nvfs_n_pg_cache st;
               written = (filemap_write_and_wait_range f k = 0)
           in if written \<and> invalidate_inode_pages2_range f k \<ge> 0 then (0, k, st1)
              else let st2 = (if written then st1 else nvfs_stat nvfs_n_pg_cache_fail st1)
                   in if k + 1 < MAX_IO_RETRY then flush_loop f (k + 1) st2
                      else (- EIO, k + 1, nvfs_stat nvfs_n_pg_cache_eio st2))"
  by auto

termination
  by (relation "measure (\<lambda>(f, k, st). MAX_IO_RETRY - k)") auto

declare flush_loop.simps [simp del]

definition flush_dirty_pages :: "kfile \<Rightarrow> mptr \<Rightarrow> kstate \<Rightarrow> (int \<times> kstate) option" where
  "flush_dirty_pages f p s =
     do { m \<leftarrow> mgroups s p;
          let (ret, k, st) = flush_loop f (retrycnt (nvfsio m)) (kstats s);
          s1 \<leftarrow> upd_io p (\<lambda>io. io\<lparr>retrycnt := k\<rparr>) (s\<lparr>kstats := st\<rparr>);
          Some (ret, s1) }"

definition nvfs_need_fallocate :: "kfile \<Rightarrow> bool" where
  "nvfs_need_fallocate f \<longleftrightarrow> s_magic f \<notin> {0x6969, 0x53544653, 0x0bd00bd0, 0x19830326}"

section \<open>Executing a request\<close>

text \<open>
  What is done before the first piece of a write: \<open>Some 0\<close> goes on, an error has freed the request.
\<close>

definition io_prepare_write :: "kenv \<Rightarrow> kfile \<Rightarrow> mptr \<Rightarrow> kstate \<Rightarrow> (int \<times> kstate) option" where
  "io_prepare_write e f p s =
     do { let failed = (\<lambda>ret s. do { s' \<leftarrow> nvfs_io_free e p ret s; Some (ret, s') });
          let falloc = (if \<not> f_block f \<and> nvfs_need_fallocate f
                        then case f_fallocate f of
                               None \<Rightarrow> - EIO
                             | Some r \<Rightarrow> if i_size f = 0 then min r 0 else 0
                        else 0);
          if falloc < 0 then failed falloc s
          else do {
            (ret, s1) \<leftarrow> flush_dirty_pages f p s;
            if ret \<noteq> 0 then failed ret s1 else Some (0, s1) } }"

text \<open>
  One turn of the loop over the pieces: how to go on (bytes left, bytes done, file offset and
  offset inside the shadow buffer for the next turn), or the end of the loop: whether the
  request has been freed already, \<^verbatim>\<open>ret\<close> and the bytes done.
\<close>

datatype io_turn = NextPiece int int int nat | LoopExit bool int int

definition io_issue :: "kenv \<Rightarrow> fsenv \<Rightarrow> kfile \<Rightarrow> mptr \<Rightarrow> int \<Rightarrow> int \<Rightarrow> kstate \<Rightarrow> (int \<times> kstate) option" where
  "io_issue e fs f p bytes_issued fd_off s =
     do { m \<leftarrow> mgroups s p;
          let op = io_op (nvfsio m);
          let sparse = (op = READ \<and> nvfs_is_sparse f);
          s1 \<leftarrow> upd_io p (\<lambda>io. io\<lparr>io_meta := NVFS_IO_META_CLEAN, io_ret := - EINVAL, check_sparse := sparse\<rparr>) s;
          let s2 = (if sparse then kstat (nvfs_stat64 nvfs_n_reads_sparse_files) s1 else s1);
          if has_read_iter f \<and> has_write_iter f
          then nvfs_direct_io e fs op f p (cpuvaddr (nvfsio m)) (word_of_int bytes_issued) fd_off (nvfs_get_ops e s2)
          else Some (- EINVAL, s2) }"

definition io_advance :: "int \<Rightarrow> nvfs_io \<Rightarrow> nvfs_io" where
  "io_advance bytes_issued io =
     (let va_offset = gpu_page_offset io + nat bytes_issued
      in io\<lparr>gpu_page_offset := va_offset mod GPU_PAGE_SIZE,
            cur_gpu_base_index := cur_gpu_base_index io + va_offset div GPU_PAGE_SIZE,
            rdma_seg_offset := (if use_rkeys io then 0 else rdma_seg_offset io)\<rparr>)"

text \<open>The part of a turn after the piece has been issued and has returned \<open>ret\<close>.\<close>

definition io_account ::
    "mptr \<Rightarrow> int \<Rightarrow> int \<Rightarrow> int \<Rightarrow> int \<Rightarrow> nat \<Rightarrow> int \<Rightarrow> kstate \<Rightarrow> (io_turn \<times> kstate) option" where
  "io_account p bytes_issued left bytes_done fd_off rdma_off ret s =
     (if ret < 0 \<and> ret \<noteq> - EIOCBQUEUED then Some (LoopExit False ret bytes_done, s)
      else if ret = - EIOCBQUEUED then
        do { m \<leftarrow> mgroups s p;
             Some (LoopExit False (if io_sync (nvfsio m) then ret else 0) bytes_done, s) }
      else do {
        s1 \<leftarrow> upd_io p (\<lambda>io. io\<lparr>fd_offset := fd_off + ret\<rparr>) s;
        m \<leftarrow> mgroups s1 p;
        if ret \<noteq> bytes_issued then Some (LoopExit False ret (bytes_done + ret), s1)
        else if io_meta (nvfsio m) = NVFS_IO_META_SPARSE
        then Some (LoopExit False ret (bytes_done + ret), kstat (nvfs_stat64 nvfs_n_reads_sparse_io) s1)
        else if left - ret = 0 then Some (LoopExit False ret (bytes_done + ret), s1)
        else if \<not> io_sync (nvfsio m) then None
        else do {
          s2 \<leftarrow> upd_io p (io_advance bytes_issued) s1;
          Some (NextPiece (left - ret) (bytes_done + ret) (fd_off + ret)
                  (if use_rkeys (nvfsio m) then 0 else rdma_off), s2) } })"

definition io_turn ::
    "kenv \<Rightarrow> fsenv \<Rightarrow> kfile \<Rightarrow> mptr \<Rightarrow> int \<Rightarrow> int \<Rightarrow> int \<Rightarrow> nat \<Rightarrow> kstate \<Rightarrow> (io_turn \<times> kstate) option" where
  "io_turn e fs f p left bytes_done fd_off rdma_off s =
     do { m \<leftarrow> mgroups s p;
          let stop = (\<lambda>s. do { s' \<leftarrow> nvfs_io_free e p (- EIO) s; Some (LoopExit True (- EIO) bytes_done, s') });
          if io_state (gpu_info m) \<noteq> IO_IN_PROGRESS then stop s
          else do {
            let shadow_buf_size = nvfs_blocks_count m * NVFS_BLOCK_SIZE;
            let bytes_issued = min left (int shadow_buf_size - int rdma_off);
            if bytes_issued mod NVFS_BLOCK_SIZE \<noteq> 0 then None
            else do {
              (r, s1) \<leftarrow> nvfs_mgroup_fill_mpages e p (DIV_ROUND_UP (nat bytes_issued) NVFS_BLOCK_SIZE) s;
              if r < 0 then stop s1
              else do {
                (ret, s2) \<leftarrow> io_issue e fs f p bytes_issued fd_off s1;
                io_account p bytes_issued left bytes_done fd_off rdma_off ret s2 } } } }"

partial_function (option) io_loop ::
    "kenv \<Rightarrow> fsenv \<Rightarrow> kfile \<Rightarrow> mptr \<Rightarrow> int \<Rightarrow> int \<Rightarrow> int \<Rightarrow> nat \<Rightarrow> kstate \<Rightarrow> (bool \<times> int \<times> int \<times> kstate) option" where
  "io_loop e fs f p left bytes_done fd_off rdma_off s =
     Option.bind (io_turn e fs f p left bytes_done fd_off rdma_off s) (\<lambda>(t, s1).
       case t of
         LoopExit freed ret n \<Rightarrow> Some (freed, ret, n, s1)
       | NextPiece left' n off' ro' \<Rightarrow> io_loop e fs f p left' n off' ro' s1)"

text \<open>The common end: a synchronous request is freed here unless it has been before.\<close>

definition io_finish :: "kenv \<Rightarrow> mptr \<Rightarrow> bool \<Rightarrow> int \<Rightarrow> int \<Rightarrow> kstate \<Rightarrow> (int \<times> kstate) option" where
  "io_finish e p freed ret bytes_done s =
     do { s1 \<leftarrow> (if freed then Some s
                 else do { m \<leftarrow> mgroups s p;
                           if io_sync (nvfsio m) then nvfs_io_free e p bytes_done s else Some s });
          Some (if ret < 0 then ret else bytes_done, s1) }"

definition nvfs_io_start_op :: "kenv \<Rightarrow> fsenv \<Rightarrow> mptr \<Rightarrow> kstate \<Rightarrow> (int \<times> kstate) option" where
  "nvfs_io_start_op e fs p s =
     do { m \<leftarrow> mgroups s p;
          f \<leftarrow> fd_file fs (io_fd (nvfsio m));
          (ret, s1) \<leftarrow> (if io_op (nvfsio m) = WRITE then io_prepare_write e f p s else Some (0, s));
          if ret \<noteq> 0 then Some (ret, s1)
          else if sint (io_length (nvfsio m)) = 0 then io_finish e p False ret 0 s1
          else do {
            (freed, ret, n, s2) \<leftarrow> io_loop e fs f p (sint (io_length (nvfsio m))) 0 (fd_offset (nvfsio m))
              (if use_rkeys (nvfsio m) then rdma_seg_offset (nvfsio m) else 0) s1;
            io_finish e p freed ret n s2 } }"

section \<open>The range of GPU memory a request touches\<close>

lemma gpu_page_offset_uint: "uint (a - (a AND GPU_PAGE_MASK)) = uint a mod 65536"
proof -
  have "uint a div 65536 * 65536 \<le> uint a" by simp
  then have "uint (a - (a AND GPU_PAGE_MASK)) = uint a - uint a div 65536 * 65536"
    using uint_lt2p [of a] by (simp add: uint_word_ariths gpu_page_start)
  then show ?thesis by (simp add: minus_div_mult_eq_mod)
qed

lemma word_split_16:
  fixes w :: u64
  shows "int (unat (w AND 65535)) = uint w mod 65536" "int (unat (drop_bit 16 w)) = uint w div 65536"
proof -
  have "w AND 65535 = w mod 65536"
    by (simp add: take_bit_eq_mod [of 16 w, simplified, symmetric] take_bit_eq_mask mask_eq_exp_minus_1)
  then show "int (unat (w AND 65535)) = uint w mod 65536" by (simp add: uint_mod_distrib)
  have "drop_bit 16 w = w div 65536" by (simp add: drop_bit_eq_div)
  then show "int (unat (drop_bit 16 w)) = uint w div 65536" by (simp add: uint_div_distrib)
qed

lemma io_fill_bounds:
  assumes "uint (gpuvaddr (gpu_info m)) mod 65536 + uint (gpu_buf_len (gpu_info m)) < 2 ^ 64"
    and "0 < nvfs_blocks_count m"
  shows "\<exists>ret io. io_fill op f a m = Some (ret, io) \<and>
    (ret = 0 \<longrightarrow>
      int (cur_gpu_base_index io) * 65536 + int (gpu_page_offset io) =
        uint (gpuvaddr (gpu_info m)) mod 65536 + uint (ia_devptroff a) \<and>
      uint (ia_devptroff a) + uint (ia_size a) \<le> uint (gpu_buf_len (gpu_info m)) \<and>
      gpu_page_offset io mod 4096 = 0 \<and> gpu_page_offset io < 65536 \<and>
      (gpu_page_offset io = 0 \<or> int (gpu_page_offset io) + uint (ia_size a) \<le> 65536))"
proof -
  let ?g = "gpuvaddr (gpu_info m)" and ?len = "gpu_buf_len (gpu_info m)"
  define va where "va = io_va_offset m a"
  have va0: "uint va < 65536" if "ia_devptroff a = 0"
    using that gpu_page_offset_uint [of ?g] by (simp add: va_def io_va_offset_def)
  have bug: "unat (drop_bit 16 va) = 0" if "ia_devptroff a = 0"
  proof -
    have "int (unat (drop_bit 16 va)) = 0"
      unfolding word_split_16 using va0 [OF that] by (simp add: div_pos_pos_trivial)
    then show ?thesis by (simp only: of_nat_eq_0_iff)
  qed
  show ?thesis
  proof (cases "\<exists>io. io_fill op f a m = Some (0, io)")
    case False
    have "io_fill op f a m \<noteq> None"
      using bug assms(2) by (auto simp: io_fill_def va_def [symmetric] Let_def)
    with False show ?thesis by auto
  next
    case True
    then obtain io where io: "io_fill op f a m = Some (0, io)" by blast
    then have ok: "\<not> ?len < ia_size a" "\<not> ia_devptroff a > ?len - ia_size a" "va mod 4096 = 0"
      and off: "gpu_page_offset io = unat (va AND 65535)" "cur_gpu_base_index io = unat (drop_bit 16 va)"
      and fits: "unat (va AND 65535) \<noteq> 0 \<longrightarrow> \<not> uint (ia_size a) > 65536 - int (unat (va AND 65535))"
      by (auto simp: io_fill_def va_def [symmetric] Let_def split: if_splits)
    have sub: "uint (?len - ia_size a) = uint ?len - uint (ia_size a)"
      using ok(1) by (simp add: uint_sub_if' word_less_def not_less)
    have le: "uint (ia_devptroff a) + uint (ia_size a) \<le> uint ?len"
      using ok(2) sub by (simp add: word_less_def not_less)
    then have "uint ?g mod 65536 + uint (ia_devptroff a) < 2 ^ 64"
      using assms(1) uint_ge_0 [of "ia_size a"] by linarith
    then have va: "uint va = uint ?g mod 65536 + uint (ia_devptroff a)"
      unfolding va_def io_va_offset_def
      by (simp add: uint_plus_if_size word_size gpu_page_offset_uint)
    have "uint (va mod 4096) = 0" using ok(3) by simp
    then have "uint va mod 4096 = 0" by (simp add: uint_mod_distrib)
    then have al: "uint va mod 65536 mod 4096 = 0" by (simp add: mod_mod_cancel)
    have "int (gpu_page_offset io) = uint va mod 65536" "int (cur_gpu_base_index io) = uint va div 65536"
      unfolding off by (rule word_split_16)+
    moreover have "int (gpu_page_offset io) mod int 4096 = 0" "int (gpu_page_offset io) < 65536"
      using al by (simp_all add: calculation(1))
    then have "gpu_page_offset io mod 4096 = 0" "gpu_page_offset io < 65536"
      by (simp_all only: of_nat_mod [symmetric] of_nat_eq_0_iff)
    ultimately show ?thesis
      using io le va fits off by (auto simp: not_less)
  qed
qed

text \<open>
  C17. A request that passes the checks stays inside the GPU buffer. When the set-up accepts a
  request, the GPU page and offset it starts from address exactly the byte the caller asked
  for, and the whole request ends within the mapped buffer; none of the assertions of the
  set-up fails. The sums do not wrap around.
\<close>

theorem io_fill_in_bounds:
  assumes "uint (gpuvaddr (gpu_info m)) mod 65536 + uint (gpu_buf_len (gpu_info m)) < 2 ^ 64"
    and "0 < nvfs_blocks_count m"
  shows "\<exists>ret io. io_fill op f a m = Some (ret, io) \<and>
    (ret = 0 \<longrightarrow>
      int (cur_gpu_base_index io) * 65536 + int (gpu_page_offset io) =
        uint (gpuvaddr (gpu_info m)) mod 65536 + uint (ia_devptroff a) \<and>
      uint (ia_devptroff a) + uint (ia_size a) \<le> uint (gpu_buf_len (gpu_info m)) \<and>
      gpu_page_offset io mod 4096 = 0 \<and> gpu_page_offset io < 65536 \<and>
      (gpu_page_offset io = 0 \<or> int (gpu_page_offset io) + uint (ia_size a) \<le> 65536))"
  using assms by (rule io_fill_bounds)

definition ex_file :: kfile where
  "ex_file = \<lparr> f_regular = True, f_block = False, fmode_read = True, fmode_write = True, fmode_can_read = True,
     fmode_can_write = True, f_direct = True, f_unsigned_offset = False, i_ino = 12, i_generation = 1, i_major = 8,
     i_minor = 1, i_size = 1048576, i_blocks = 2048, s_magic = 0xef53, has_read_iter = True, has_write_iter = True,
     f_fallocate = Some 0, locks_mandatory_area = None, security_file_permission = (\<lambda>_. 0),
     filemap_range_has_page = (\<lambda>_. False), filemap_write_and_wait_range = (\<lambda>_. 0),
     invalidate_inode_pages2_range = (\<lambda>_. 0) \<rparr>"

definition ex_args :: nvfs_ioctl_ioargs where
  "ex_args = \<lparr> ia_cpuvaddr = 0x10000, ia_offset = 0, ia_size = 0x3000, ia_end_fence_value = 0, ia_inum = 12,
     ia_generation = 1, ia_majdev = 8, ia_mindev = 1, ia_devptroff = 0x2000, ia_fd = 5, ia_sync = True,
     ia_hipri = False, ia_allowreads = False, ia_use_rkeys = False \<rparr>"

theorem io_fill_in_bounds_witness:
  "\<exists>io. io_fill READ ex_file ex_args ex_ready_group = Some (0, io) \<and>
     int (cur_gpu_base_index io) * 65536 + int (gpu_page_offset io) = 0x2000"
proof -
  have "gpu_info ex_ready_group = ex_ready_gpu" "nvfs_blocks_count ex_ready_group = 16"
    by (simp_all add: ex_ready_group_def ex_group_def)
  moreover have "gpuvaddr ex_ready_gpu = 0x20000" "gpu_buf_len ex_ready_gpu = 0x10000"
    by (simp_all add: ex_ready_gpu_def)
  moreover from calculation have "\<exists>io. io_fill READ ex_file ex_args ex_ready_group = Some (0, io)"
    by (simp add: io_fill_def io_va_offset_def ex_file_def ex_args_def GPU_PAGE_MASK_def zero_nvfs_io_def Let_def)
  ultimately show ?thesis
    using io_fill_in_bounds [of ex_ready_group READ ex_file ex_args] by (auto simp: ex_args_def)
qed

section \<open>Setting up and giving up a request\<close>

text \<open>The group \<open>p\<close> is the one mapped at a user address.\<close>

definition at_vaddr :: "kenv \<Rightarrow> kstate \<Rightarrow> u64 \<Rightarrow> mptr \<Rightarrow> nvfs_io_mgroup \<Rightarrow> bool" where
  "at_vaddr e s va p m \<longleftrightarrow> valid_page_shift (page_shift e) \<and> hash_wf s \<and> va \<noteq> 0 \<and> va mod 4096 = 0 \<and>
     cpu_base_vaddr m = va \<and>
     (\<exists>pg. pin_user_pages_fast e va 1 = (1, [pg]) \<and> page_of_group e s p m 0 pg)"

lemma get_mgroup_from_vaddr_ok:
  assumes "at_vaddr e s va p m"
  shows "nvfs_get_mgroup_from_vaddr e va s =
    Some (Some p, s\<lparr>mgroups := (mgroups s)(p \<mapsto> m\<lparr>mg_ref := mg_ref m + 1\<rparr>)\<rparr>)"
proof -
  from assms obtain pg where gup: "gup e va 1 s = (1, [pg], get_page pg s)" and pg: "page_of_group e s p m 0 pg"
    by (auto simp: at_vaddr_def gup_def)
  let ?s1 = "get_page pg s"
  let ?s2 = "?s1\<lparr>mgroups := (mgroups s)(p \<mapsto> m\<lparr>mg_ref := mg_ref m + 1\<rparr>)\<rparr>"
  have idx: "page_base_index e ?s1 pg = base_index m" "rel_page e ?s2 pg = 0"
    using pg by (simp_all add: page_of_group_def page_base_index_def rel_page_def NVFS_PAGE_INDEX_def)
  have wf: "hash_wf ?s1" using assms by (auto simp: at_vaddr_def elim: hash_wf_same)
  have get: "nvfs_mgroup_get (page_base_index e ?s1 pg) ?s1 = Some (Some p, ?s2)"
    using mgroup_get_hit [OF wf, of p m "base_index m"] pg idx(1)
    by (simp add: nvfs_mgroup_get_def page_of_group_def)
  obtain md where md: "nvfs_metadata m = Some md" "0 < length md" "nvfs_start_magic (md ! 0) = NVFS_START_MAGIC"
    "md_page (md ! 0) = Some pg"
    using pg by (fastforce simp: page_of_group_def mgroup_wf_def)
  then have "vaddr_page_ok e ?s2 pg (m\<lparr>mg_ref := mg_ref m + 1\<rparr>) = Some True"
    by (simp add: vaddr_page_ok_def idx(2) arr_get_def)
  then show ?thesis
    using assms gup get
    by (simp add: nvfs_get_mgroup_from_vaddr_def nvfs_get_mgroup_from_vaddr_internal_def at_vaddr_def)
      (simp add: get_page_def put_page_def)
qed

text \<open>The checks before the group is looked up.\<close>

definition args_ok :: "fsenv \<Rightarrow> nvfs_op \<Rightarrow> nvfs_ioctl_ioargs \<Rightarrow> kfile \<Rightarrow> bool" where
  "args_ok fs op a f \<longleftrightarrow> 0 \<le> ia_offset a \<and> ia_offset a mod 4096 = 0 \<and> ia_size a mod 4096 = 0 \<and>
     ia_offset a \<le> s64 (2 ^ 63 - 1 - sint (ia_size a)) \<and> fd_file fs (ia_fd a) = Some f \<and>
     nvfs_check_file_permissions op f (ia_allowreads a) = 0 \<and> io_check_file f a = 0"

definition in_flight :: "nvfs_io \<Rightarrow> nvfs_io_mgroup \<Rightarrow> nvfs_io_mgroup" where
  "in_flight io m = (with_io_state IO_IN_PROGRESS m)\<lparr>mg_ref := mg_ref m + 1, nvfsio := io\<rparr>"

lemma io_init_outcome:
  assumes "args_ok fs op a f" and "at_vaddr e s (ia_cpuvaddr a) p m" and "io_state (gpu_info m) = IO_READY"
    and "no_faults e" and "io_fill op f a (in_flight (nvfsio m) m) = Some (ret, io)"
  shows "nvfs_io_init e fs op a s =
    (if ret = 0 then Some (Ptr p, s\<lparr>klog := EvFdGet (ia_fd a) # klog s, mgroups := (mgroups s)(p \<mapsto> in_flight io m)\<rparr>)
     else Some (ErrPtr ret, s\<lparr>klog := EvFdPut (ia_fd a) # EvFdGet (ia_fd a) # klog s,
       mgroups := (mgroups s)(p \<mapsto> m\<lparr>nvfsio := io\<rparr>)\<rparr>))"
proof -
  let ?s0 = "klog_event (EvFdGet (ia_fd a)) s"
  let ?m1 = "m\<lparr>mg_ref := mg_ref m + 1\<rparr>"
  let ?s1 = "?s0\<lparr>mgroups := (mgroups s)(p \<mapsto> ?m1)\<rparr>"
  have m: "mgroups s p = Some m" "0 < mg_ref m"
    using assms(2) by (auto simp: at_vaddr_def page_of_group_def hash_wf_def)
  have "at_vaddr e ?s0 (ia_cpuvaddr a) p m"
    using assms(2) by (auto simp: at_vaddr_def page_of_group_def page_base_index_def rel_page_def NVFS_PAGE_INDEX_def
        elim: hash_wf_same)
  then have get: "nvfs_get_mgroup_from_vaddr e (ia_cpuvaddr a) ?s0 = Some (Some p, ?s1)"
    by (simp add: get_mgroup_from_vaddr_ok)
  let ?m2 = "with_io_state IO_IN_PROGRESS ?m1"
  let ?s2 = "?s0\<lparr>mgroups := (mgroups s)(p \<mapsto> ?m2)\<rparr>"
  have t1: "nvfs_transit_state e p (ia_sync a) IO_READY IO_IN_PROGRESS ?s1 = Some (True, ?s2)"
    using transit_ok [of ?s1 p ?m1 IO_READY e IO_IN_PROGRESS] assms(3,4) by (simp add: no_faults_def)
  have m2: "in_flight (nvfsio m) m = ?m2" "?m2\<lparr>nvfsio := io\<rparr> = in_flight io m"
    by (simp_all add: in_flight_def with_io_state_def)
  let ?s3 = "?s0\<lparr>mgroups := (mgroups s)(p \<mapsto> in_flight io m)\<rparr>"
  have upd: "upd_io p (\<lambda>_. io) ?s2 = Some ?s3" by (simp add: upd_io_def m2(2))
  let ?m4 = "m\<lparr>mg_ref := mg_ref m + 1, nvfsio := io\<rparr>"
  let ?s4 = "?s0\<lparr>mgroups := (mgroups s)(p \<mapsto> ?m4)\<rparr>"
  have "with_io_state IO_READY (in_flight io m) = ?m4"
    using assms(3) by (simp add: in_flight_def with_io_state_def)
  then have t2: "nvfs_transit_state e p (ia_sync a) IO_IN_PROGRESS IO_READY ?s3 = Some (True, ?s4)"
    using transit_ok [of ?s3 p "in_flight io m" IO_IN_PROGRESS e IO_READY] assms(4)
    by (simp add: no_faults_def in_flight_def)
  have "nvfs_mgroup_put e p ?s4 = Some (?s0\<lparr>mgroups := (mgroups s)(p \<mapsto> m\<lparr>nvfsio := io\<rparr>)\<rparr>)"
    using put_shared_effect [of ?s4 p ?m4 e False] m(2) by (simp add: nvfs_mgroup_put_def)
  with get t1 upd t2 show ?thesis
    using assms(1,5) by (simp add: nvfs_io_init_def args_ok_def m2(1) Let_def not_less) (simp add: klog_event_def)
qed

text \<open>
  C16. Setting up a request either takes everything it needs or gives everything back. On a
  ready group, with the arguments and the file in order, the set-up follows the checks on
  the GPU offsets: if they pass, the group is in progress with one more reference and the
  request filled in, and the file stays open; if not, the group is ready again with the
  references it had, the file is closed, and no page is left pinned.
\<close>

theorem io_init_all_or_nothing:
  assumes "args_ok fs op a f" and "at_vaddr e s (ia_cpuvaddr a) p m" and "io_state (gpu_info m) = IO_READY"
    and "no_faults e" and "io_fill op f a (in_flight (nvfsio m) m) = Some (ret, io)"
  shows "nvfs_io_init e fs op a s =
    (if ret = 0 then Some (Ptr p, s\<lparr>klog := EvFdGet (ia_fd a) # klog s, mgroups := (mgroups s)(p \<mapsto> in_flight io m)\<rparr>)
     else Some (ErrPtr ret, s\<lparr>klog := EvFdPut (ia_fd a) # EvFdGet (ia_fd a) # klog s,
       mgroups := (mgroups s)(p \<mapsto> m\<lparr>nvfsio := io\<rparr>)\<rparr>))"
  using assms by (rule io_init_outcome)

definition ex_io_group :: nvfs_io_mgroup where
  "ex_io_group = ex_init_group\<lparr>mg_ref := 2, gpu_info := ex_ready_gpu\<rparr>"

definition ex_io_state :: kstate where
  "ex_io_state = ex_paged_state\<lparr>mgroups := [100 \<mapsto> ex_io_group], kstats := kstats ex_ready_state\<rparr>"

lemma ex_io_wf: "hash_wf ex_io_state" "mgroups ex_io_state 100 = Some ex_io_group" "mgroup_wf ex_env ex_io_group"
  "settled ex_io_group" "io_state (gpu_info ex_io_group) = IO_READY"
  using ex_init_group_wf
  by (auto simp: hash_wf_def ex_io_state_def ex_paged_state_def ex_state_def ex_io_group_def mgroup_wf_def settled_def
      block_state_def ex_ready_gpu_def split: if_splits)

lemma ex_io_page:
  assumes "j < 16"
  shows "page_of_group ex_env ex_io_state 100 ex_io_group j (500 + j)"
proof -
  have kp: "kpages ex_io_state = kpages ex_paged_state" by (simp add: ex_io_state_def)
  show ?thesis
    using ex_page_of_group [OF assms] ex_io_wf(2,3) rel_page_cong [OF kp] page_base_index_cong [OF kp]
    by (simp add: page_of_group_def kp ex_io_group_def)
qed

lemma ex_at_vaddr: "at_vaddr ex_env ex_io_state (ia_cpuvaddr ex_args) 100 ex_io_group"
  using ex_io_page [of 0] ex_io_wf(1)
  by (auto simp: at_vaddr_def valid_page_shift_def ex_env_def ex_args_def ex_io_group_def ex_init_group_def ex_group_def)

text \<open>A file system that transfers every byte: all blocks of the active range have seen DMA.\<close>

definition dma_started :: "nvfs_io_mgroup \<Rightarrow> nvfs_io_mgroup" where
  "dma_started m = m\<lparr>nvfs_metadata := map_option (upd_between (nvfs_active_blocks_start (nvfsio m))
     (nvfs_active_blocks_end (nvfsio m) + 1) (set_blk NVFS_IO_DMA_START)) (nvfs_metadata m)\<rparr>"

definition ex_fs :: fsenv where
  "ex_fs = \<lparr> fd_file = [5 \<mapsto> ex_file], access_ok = (\<lambda>_ _ _. True),
     call_iter = (\<lambda>op fd buf len pos s. case mgroups s 100 of None \<Rightarrow> None
       | Some m \<Rightarrow> Some (uint len, s\<lparr>mgroups := (mgroups s)(100 \<mapsto> dma_started m)\<rparr>)),
     clock_now = 0, clock_now' = 0, io_latency = 0, rw_stats_on = False \<rparr>"

lemma ex_args_ok: "args_ok ex_fs READ ex_args ex_file"
  by (simp add: args_ok_def ex_args_def ex_fs_def ex_file_def nvfs_check_file_permissions_def io_check_file_def)

lemma ex_io_fill: "\<exists>io. io_fill READ ex_file ex_args (in_flight (nvfsio ex_io_group) ex_io_group) = Some (0, io)"
proof -
  have "gpuvaddr ex_ready_gpu = 0x20000" "gpu_buf_len ex_ready_gpu = 0x10000"
    by (simp_all add: ex_ready_gpu_def)
  then show ?thesis
    by (simp add: io_fill_def io_va_offset_def ex_file_def ex_args_def GPU_PAGE_MASK_def zero_nvfs_io_def Let_def
        in_flight_def with_io_state_def ex_io_group_def)
qed

theorem io_init_all_or_nothing_witness:
  "\<exists>io s'. nvfs_io_init ex_env ex_fs READ ex_args ex_io_state = Some (Ptr 100, s') \<and>
     mgroups s' 100 = Some (in_flight io ex_io_group) \<and> mg_refs s' 100 = Some 3"
proof -
  obtain io where io: "io_fill READ ex_file ex_args (in_flight (nvfsio ex_io_group) ex_io_group) = Some (0, io)"
    using ex_io_fill by blast
  have "mg_ref ex_io_group = 2" by (simp add: ex_io_group_def)
  with io_init_all_or_nothing [OF ex_args_ok ex_at_vaddr ex_io_wf(5) ex_no_faults io] show ?thesis
    by (auto simp: mg_refs_def in_flight_def)
qed

end
