(* ===== verification/Nvfs_IoRun.thy ===== *)
theory Nvfs_IoRun
  imports Nvfs_Io
begin

text \<open>
  The run of a synchronous request: every piece of it queues its blocks, is transferred,
  settles its blocks and moves on by exactly the bytes transferred, until the request is
  complete; then the group is ready again and nothing is held.
\<close>

section \<open>Settling a piece whose blocks have all seen DMA\<close>

lemma cas_done_started_loop:
  assumes "start + n \<le> length md" and "c_md c = md"
    and "nvfs_active_blocks_start (nvfsio m) = start" and "start + n \<le> nvfs_active_blocks_end (nvfsio m) + 1"
    and "\<forall>j. start \<le> j \<and> j < start + n \<longrightarrow> nvfs_state (md ! j) = NVFS_IO_DMA_START"
    and "\<not> pf_exiting e" and "io_ret (nvfsio m) \<noteq> - ERESTARTSYS"
  shows "ofold (cas_block e s m NVFS_IO_DONE v l) [start ..< start + n] c =
    Some (c\<lparr>c_md := upd_between start (start + n) (set_blk NVFS_IO_DONE) md\<rparr>)"
  using assms(1,4,5)
proof (induction n)
  case 0
  then show ?case using assms(2) by simp
next
  case (Suc n)
  let ?md = "upd_between start (start + n) (set_blk NVFS_IO_DONE) md"
  have "?md[start + n := set_blk NVFS_IO_DONE (md ! (start + n))] =
      upd_between start (Suc (start + n)) (set_blk NVFS_IO_DONE) md"
    using Suc.prems by (intro upd_between_snoc) simp_all
  moreover have "?md ! (start + n) = md ! (start + n)" "nvfs_state (md ! (start + n)) = NVFS_IO_DMA_START"
    using Suc.prems by auto
  ultimately show ?case
    using Suc assms(3,6,7)
    by (simp add: ofold_append cas_block_def cas_done_block_def cas_frozen_def Let_def)
qed

definition settled_piece :: "nvfs_io_mgroup \<Rightarrow> nvfs_io_mgroup" where
  "settled_piece m = m\<lparr>nvfs_metadata := map_option (upd_between (nvfs_active_blocks_start (nvfsio m))
       (nvfs_active_blocks_end (nvfsio m) + 1) (set_blk NVFS_IO_DONE)) (nvfs_metadata m),
     nvfsio := (nvfsio m)\<lparr>check_sparse := False, nvfs_active_blocks_start := 0, nvfs_active_blocks_end := 0\<rparr>\<rparr>"

lemma check_and_set_started:
  assumes "mgroups s p = Some m" and "nvfs_metadata m = Some md"
    and "nvfs_active_blocks_start (nvfsio m) \<le> nvfs_active_blocks_end (nvfsio m)"
    and "nvfs_active_blocks_end (nvfsio m) < length md"
    and "\<forall>j. nvfs_active_blocks_start (nvfsio m) \<le> j \<and> j \<le> nvfs_active_blocks_end (nvfsio m) \<longrightarrow>
      nvfs_state (md ! j) = NVFS_IO_DMA_START"
    and "\<not> check_sparse (nvfsio m)" and "io_ret (nvfsio m) = n" and "0 \<le> n" and "n \<le> uint (io_length (nvfsio m))"
    and "\<not> pf_exiting e"
  shows "nvfs_mgroup_check_and_set e p NVFS_IO_DONE True True s =
    Some (s\<lparr>mgroups := (mgroups s)(p \<mapsto> settled_piece m)\<rparr>)"
proof -
  let ?start = "nvfs_active_blocks_start (nvfsio m)" and ?stop = "nvfs_active_blocks_end (nvfsio m)"
  define c where "c = \<lparr> c_md = md, c_sparse = None, c_check_sparse = False, c_last_sparse = -1,
                 c_nholes = -1, c_limit = 0, c_ret = 0 \<rparr>"
  have init: "cas_init s m md NVFS_IO_DONE True = Some c"
    using assms(6-9) by (simp add: cas_init_def c_def Let_def)
  have "ofold (cas_block e s m NVFS_IO_DONE True l) [?start ..< ?start + (?stop + 1 - ?start)] c =
      Some (c\<lparr>c_md := upd_between ?start (?start + (?stop + 1 - ?start)) (set_blk NVFS_IO_DONE) md\<rparr>)" for l
    using assms(3-5,7,8,10) by (intro cas_done_started_loop) (auto simp: c_def)
  then have loop: "ofold (cas_block e s m NVFS_IO_DONE True l) [?start ..< ?stop + 1] c =
      Some (c\<lparr>c_md := upd_between ?start (?stop + 1) (set_blk NVFS_IO_DONE) md\<rparr>)" for l
    using assms(3) by simp
  show ?thesis
    using assms(1,2,6-8,10) init loop
    by (simp add: nvfs_mgroup_check_and_set_def cas_range_def cas_publish_def cas_io_def c_def settled_piece_def Let_def)
qed

section \<open>A piece is transferred\<close>

text \<open>
  What is asked of the file system: a write for \<^verbatim>\<open>WRITE\<close>, a read for every other operation.
\<close>

abbreviation fs_call :: "nvfs_op \<Rightarrow> nvfs_op" where
  "fs_call op \<equiv> if op = WRITE then WRITE else READ"

text \<open>
  A file system that serves the calls of one kind in full: the block layer has asked for the DMA
  address of every block of the active range, and all bytes are transferred. It leaves
  everything but the block states of the group alone. Nothing is said of the calls of the other kind.
\<close>

definition serves :: "fsenv \<Rightarrow> nvfs_op \<Rightarrow> mptr \<Rightarrow> bool" where
  "serves fs rw p \<longleftrightarrow> (\<forall>fd buf len pos s m. mgroups s p = Some m \<longrightarrow>
     call_iter fs rw fd buf len pos s = Some (uint len, s\<lparr>mgroups := (mgroups s)(p \<mapsto> dma_started m)\<rparr>))"

lemma serves_call:
  "serves fs rw p \<Longrightarrow> mgroups s p = Some m \<Longrightarrow>
     call_iter fs rw fd buf len pos s = Some (uint len, s\<lparr>mgroups := (mgroups s)(p \<mapsto> dma_started m)\<rparr>)"
  by (simp add: serves_def)

text \<open>A file that may be read and written as the request asks, and is not sparse.\<close>

definition file_ok :: "fsenv \<Rightarrow> nvfs_op \<Rightarrow> kfile \<Rightarrow> bool" where
  "file_ok fs op f \<longleftrightarrow> has_read_iter f \<and> has_write_iter f \<and> locks_mandatory_area f = None \<and>
     security_file_permission f (if op = READ then READ else WRITE) = 0 \<and> (\<forall>buf n. access_ok fs op buf n) \<and> (op = READ \<longrightarrow> \<not> nvfs_is_sparse f)"

lemma verify_area_ok:
  assumes "file_ok fs op f" and "0 \<le> pos" and "0 \<le> n" and "pos + n < 2 ^ 63"
  shows "nvfs_rw_verify_area fs op f buf pos (word_of_int n) = 0"
proof -
  have "uint (word_of_int n :: u64) = n" using assms(2-4) by (simp add: uint_word_of_int)
  moreover from this have "sint (word_of_int n :: u64) = n"
    using assms(2-4) s64_id [of n] by (simp add: sint_uint in_s64_def)
  ultimately show ?thesis
    using assms by (simp add: nvfs_rw_verify_area_def file_ok_def nvfs_check_access_def s64_id in_s64_def Let_def)
qed

definition served :: "nvfs_op \<Rightarrow> int \<Rightarrow> nvfs_io_mgroup \<Rightarrow> nvfs_io_mgroup" where
  "served op n m =
     settled_piece (dma_started (m\<lparr>nvfsio := (nvfsio m)\<lparr>ki_write := (op = WRITE), io_ret := n\<rparr>\<rparr>))"

definition piece_log :: "nvfs_op \<Rightarrow> kevent list" where
  "piece_log op = (if op = WRITE then [EvEndWrite, EvStartWrite] else [])"

definition piece_queued :: "nvfs_io_mgroup \<Rightarrow> int \<Rightarrow> bool" where
  "piece_queued m n \<longleftrightarrow> \<not> check_sparse (nvfsio m) \<and> 0 \<le> n \<and> n \<le> uint (io_length (nvfsio m)) \<and>
     nvfs_active_blocks_start (nvfsio m) \<le> nvfs_active_blocks_end (nvfsio m) \<and>
     (\<exists>md. nvfs_metadata m = Some md \<and> nvfs_active_blocks_end (nvfsio m) < length md)"

lemma dma_started_io:
  assumes "nvfs_active_blocks_start (f io) = nvfs_active_blocks_start io"
    and "nvfs_active_blocks_end (f io) = nvfs_active_blocks_end io"
  shows "(dma_started (m\<lparr>nvfsio := io\<rparr>))\<lparr>nvfsio := f io\<rparr> = dma_started (m\<lparr>nvfsio := f io\<rparr>)"
  using assms by (simp add: dma_started_def)

lemma nvfsio_dma_started [simp]: "nvfsio (dma_started m) = nvfsio m"
  by (simp add: dma_started_def)

text \<open>The statistics of a request move counters only; the table of GPUs stays.\<close>

lemma stats_counters:
  assumes "gpu_stat_hash st' = gpu_stat_hash st"
  shows "st\<lparr>counter := counter st'\<rparr> = (st' :: nvfs_stats)"
  using assms by simp

lemma io_stats_counters:
  "st\<lparr>counter := counter (io_complete_stats fs io r st)\<rparr> = io_complete_stats fs io r st"
  "st\<lparr>counter := counter (io_free_stats io r st)\<rparr> = io_free_stats io r st"
  by (rule stats_counters, simp add: io_complete_stats_def io_free_stats_def stat_ops Let_def
      nvfs_update_write_latency_def nvfs_update_write_throughput_def nvfs_update_read_latency_def nvfs_update_read_throughput_def)+

text \<open>A completion settles the piece; an asynchronous request is freed as well.\<close>

lemma complete_settles:
  assumes "piece_queued m n" and "\<not> pf_exiting e"
    and "mgroups s p = Some (dma_started (m\<lparr>nvfsio := (nvfsio m)\<lparr>ki_write := (op = WRITE)\<rparr>\<rparr>))"
  shows "\<exists>st. nvfs_io_complete e fs p n s =
    map_option (nvfs_put_ops e) ((if io_sync (nvfsio m) then Some else nvfs_io_free e p n) (s\<lparr>mgroups := (mgroups s)(p \<mapsto> served op n m),
      klog := (if op = WRITE then [EvEndWrite] else []) @ klog s, kstats := (kstats s)\<lparr>counter := st\<rparr>\<rparr>))"
proof -
  obtain md where md: "nvfs_metadata m = Some md" "nvfs_active_blocks_end (nvfsio m) < length md"
    using assms(1) by (auto simp: piece_queued_def)
  let ?m1 = "dma_started (m\<lparr>nvfsio := (nvfsio m)\<lparr>ki_write := (op = WRITE), io_ret := n\<rparr>\<rparr>)"
  let ?s1 = "s\<lparr>mgroups := (mgroups s)(p \<mapsto> ?m1)\<rparr>"
  let ?md1 = "upd_between (nvfs_active_blocks_start (nvfsio m)) (nvfs_active_blocks_end (nvfsio m) + 1)
    (set_blk NVFS_IO_DMA_START) md"
  have upd: "upd_io p (\<lambda>io. io\<lparr>io_ret := n\<rparr>) s = Some ?s1"
    using assms(3) dma_started_io [of "\<lambda>io. io\<lparr>io_ret := n\<rparr>" "(nvfsio m)\<lparr>ki_write := (op = WRITE)\<rparr>" m]
    by (simp add: upd_defs upd_mgroup_def)
  have "nvfs_mgroup_check_and_set e p NVFS_IO_DONE True True ?s1 =
      Some (?s1\<lparr>mgroups := (mgroups ?s1)(p \<mapsto> settled_piece ?m1)\<rparr>)"
    using assms(1,2) md by (intro check_and_set_started [where md = ?md1 and n = n])
      (auto simp: dma_started_def piece_queued_def)
  then have cas: "nvfs_mgroup_check_and_set e p NVFS_IO_DONE True True ?s1 =
      Some (s\<lparr>mgroups := (mgroups s)(p \<mapsto> served op n m)\<rparr>)"
    by (simp add: served_def)
  have "io_sync (nvfsio (served op n m)) = io_sync (nvfsio m)" "io_ret (nvfsio (served op n m)) = n" "ki_write (nvfsio (served op n m)) = (op = WRITE)"
    using assms(1) by (simp_all add: served_def settled_piece_def dma_started_def piece_queued_def)
  then show ?thesis
    using upd cas assms(1)
    by (intro exI [of _ "counter (io_complete_stats fs (nvfsio (served op n m)) n (kstats s))"])
      (auto simp: map_option_case split: option.split simp: io_stats_counters nvfs_io_complete_def piece_queued_def kstat_def klog_event_def Let_def)
qed

lemma complete_served:
  assumes "piece_queued m n" and "\<not> pf_exiting e" and "io_sync (nvfsio m)"
    and "mgroups s p = Some (dma_started (m\<lparr>nvfsio := (nvfsio m)\<lparr>ki_write := (op = WRITE)\<rparr>\<rparr>))"
  shows "\<exists>st. nvfs_io_complete e fs p n s =
    Some (nvfs_put_ops e (s\<lparr>mgroups := (mgroups s)(p \<mapsto> served op n m),
      klog := (if op = WRITE then [EvEndWrite] else []) @ klog s, kstats := (kstats s)\<lparr>counter := st\<rparr>\<rparr>))"
  using complete_settles [OF assms(1,2,4), of fs] assms(3) by auto

lemma direct_io_served:
  assumes "piece_queued m n" and "io_sync (nvfsio m)" and "\<not> pf_exiting e" and "no_faults e" and "serves fs (fs_call op) p" and "file_ok fs op f"
    and "mgroups s p = Some m" and "0 \<le> pos" and "pos + n < 2 ^ 63"
  shows "\<exists>st. nvfs_direct_io e fs op f p buf (word_of_int n) pos (nvfs_get_ops e s) =
    Some (n, s\<lparr>mgroups := (mgroups s)(p \<mapsto> served op n m), 
      klog := piece_log op @ klog s, kstats := (kstats s)\<lparr>counter := st\<rparr>\<rparr>)"
proof -
  let ?m1 = "m\<lparr>nvfsio := (nvfsio m)\<lparr>ki_write := (op = WRITE)\<rparr>\<rparr>"
  let ?s1 = "(nvfs_get_ops e s)\<lparr>klog := (if op = WRITE then [EvStartWrite] else []) @ klog s\<rparr>"
  let ?s2 = "?s1\<lparr>mgroups := (mgroups s)(p \<mapsto> dma_started ?m1)\<rparr>"
  have n: "0 \<le> n" "uint (word_of_int n :: u64) = n"
    using assms(1,8,9) by (auto simp: piece_queued_def uint_word_of_int)
  obtain st where "nvfs_io_complete e fs p n ?s2 =
      Some (nvfs_put_ops e (?s2\<lparr>mgroups := (mgroups ?s2)(p \<mapsto> served op n m), 
      klog := (if op = WRITE then [EvEndWrite] else []) @ klog ?s2, kstats := (kstats ?s2)\<lparr>counter := st\<rparr>\<rparr>))"
    using complete_served [of m n e ?s2 p op fs] assms(1-3) by auto
  moreover have "io_sync (nvfsio (served op n m))" "io_ret (nvfsio (served op n m)) = n"
    using assms(2) by (simp_all add: served_def settled_piece_def dma_started_def)
  ultimately have ret: "nvfs_io_ret e fs p n ?s2 =
      Some (n, s\<lparr>mgroups := (mgroups s)(p \<mapsto> served op n m), 
      klog := piece_log op @ klog s, kstats := (kstats s)\<lparr>counter := st\<rparr>\<rparr>)"
    using n(1) by (simp add: nvfs_io_ret_def nvfs_get_ops_def nvfs_put_ops_def piece_log_def)
  have v: "nvfs_rw_verify_area fs op f buf pos (word_of_int n) = 0"
    using verify_area_ok [OF assms(6,8) _ assms(9)] n(1) by simp
  define S where "S = nvfs_get_ops e s"
  have S: "mgroups S = mgroups s" "klog S = klog s" "S\<lparr>klog := klog s\<rparr> = S" by (simp_all add: S_def nvfs_get_ops_def)
  note facts = ret v assms(4,7) n serves_call [OF assms(5)]
  show ?thesis
  proof (cases op)
    case READ
    then show ?thesis
      using facts unfolding S_def [symmetric]
      by (intro exI [of _ st]) (simp add: nvfs_direct_io_def upd_defs upd_mgroup_def no_faults_def S)
  next
    case OP_OTHER
    then show ?thesis
      using facts unfolding S_def [symmetric]
      by (intro exI [of _ st]) (simp add: nvfs_direct_io_def upd_defs upd_mgroup_def no_faults_def S)
  next
    case WRITE
    then show ?thesis
      using facts unfolding S_def [symmetric]
      by (intro exI [of _ st]) (simp add: nvfs_direct_io_def upd_defs upd_mgroup_def no_faults_def S klog_event_def)
  qed
qed

section \<open>One turn of the loop\<close>

lemma served_fields:
  "io_ret (nvfsio (served op n m)) = n" "io_meta (nvfsio (served op n m)) = io_meta (nvfsio m)"
  "gpu_page_offset (nvfsio (served op n m)) = gpu_page_offset (nvfsio m)"
  "cur_gpu_base_index (nvfsio (served op n m)) = cur_gpu_base_index (nvfsio m)"
  "use_rkeys (nvfsio (served op n m)) = use_rkeys (nvfsio m)" "io_sync (nvfsio (served op n m)) = io_sync (nvfsio m)"
  "io_op (nvfsio (served op n m)) = io_op (nvfsio m)" "io_fd (nvfsio (served op n m)) = io_fd (nvfsio m)"
  "io_length (nvfsio (served op n m)) = io_length (nvfsio m)" "nvfs_blocks_count (served op n m) = nvfs_blocks_count m"
  by (simp_all add: served_def settled_piece_def dma_started_def)

text \<open>Between two states of a run only the block table and the request differ, and the request keeps its identity.\<close>

definition io_same :: "nvfs_io \<Rightarrow> nvfs_io \<Rightarrow> bool" where
  "io_same io io' \<longleftrightarrow> io_sync io' = io_sync io \<and> io_op io' = io_op io \<and> io_fd io' = io_fd io \<and>
     io_length io' = io_length io \<and> use_rkeys io' = use_rkeys io"

definition same_request :: "nvfs_io_mgroup \<Rightarrow> nvfs_io_mgroup \<Rightarrow> bool" where
  "same_request m m' \<longleftrightarrow>
     (\<exists>md io. m' = m\<lparr>nvfs_metadata := md, nvfsio := io\<rparr> \<and> io_same (nvfsio m) io)"

lemma same_requestI: "io_same (nvfsio m) io \<Longrightarrow> same_request m (m\<lparr>nvfs_metadata := md, nvfsio := io\<rparr>)"
  unfolding same_request_def by blast

lemma same_request_io: "io_same (nvfsio m) io \<Longrightarrow> same_request m (m\<lparr>nvfsio := io\<rparr>)"
  using same_requestI [of m io "nvfs_metadata m"] by simp

lemma same_request_trans:
  assumes "same_request m m'" and "same_request m' m''"
  shows "same_request m m''"
proof -
  obtain md io md' io' where m: "m' = m\<lparr>nvfs_metadata := md, nvfsio := io\<rparr>" "io_same (nvfsio m) io"
    "m'' = m'\<lparr>nvfs_metadata := md', nvfsio := io'\<rparr>" "io_same (nvfsio m') io'"
    using assms unfolding same_request_def by blast
  then have "m'' = m\<lparr>nvfs_metadata := md', nvfsio := io'\<rparr>" by simp
  moreover have "io_same (nvfsio m) io'" using m by (simp add: io_same_def)
  ultimately show ?thesis by (simp only: same_requestI)
qed

lemma same_request_group:
  assumes "same_request m m'"
  shows "gpu_info m' = gpu_info m" "mg_ref m' = mg_ref m" "nvfs_blocks_count m' = nvfs_blocks_count m"
    "base_index m' = base_index m" "io_same (nvfsio m) (nvfsio m')"
  using assms by (auto simp: same_request_def)

lemma fill_then_served:
  assumes "valid_page_shift (page_shift e)" and "mgroup_wf e m" and "settled m" and "0 < nr"
    and "fill_blockoff m nr = Some off" and "nr \<le> nvfs_blocks_count m"
  obtains m1 where "fill_groups e m nr = Some (0, m1)" "same_request m m1"
    "gpu_page_offset (nvfsio m1) = gpu_page_offset (nvfsio m)"
    "cur_gpu_base_index (nvfsio m1) = cur_gpu_base_index (nvfsio m)"
    "nvfs_active_blocks_start (nvfsio m1) = off" "nvfs_active_blocks_end (nvfsio m1) = off + nr - 1"
    "\<exists>md. nvfs_metadata m1 = Some md \<and> off + nr \<le> length md"
    "\<And>f op n. nvfs_active_blocks_start (f (nvfsio m1)) = off \<Longrightarrow> nvfs_active_blocks_end (f (nvfsio m1)) = off + nr - 1 \<Longrightarrow>
       mgroup_wf e (served op n (m1\<lparr>nvfsio := f (nvfsio m1)\<rparr>)) \<and> settled (served op n (m1\<lparr>nvfsio := f (nvfsio m1)\<rparr>))"
proof -
  obtain md where md: "nvfs_metadata m = Some md" "length md = nvfs_blocks_count m"
    using assms(2) by (auto simp: mgroup_wf_def)
  let ?md' = "upd_between (off + nr) (nvfs_blocks_count m) (set_blk NVFS_IO_INIT)
      (upd_between off (off + nr) (set_blk NVFS_IO_QUEUED) (upd_between 0 off (set_blk NVFS_IO_INIT) md))"
  let ?m1 = "m\<lparr>nvfs_metadata := Some ?md', nvfsio := (nvfsio m)\<lparr>nvfs_active_blocks_start := off,
        nvfs_active_blocks_end := off + nr - 1, cpuvaddr := cpuvaddr (nvfsio m) + of_nat (off * 4096)\<rparr>\<rparr>"
  have fill: "fill_groups e m nr = Some (0, ?m1)"
    using fill_groups_ok [OF assms(1,2,3,6,5)] md(1) assms(4) by simp
  have fit: "off + nr \<le> nvfs_blocks_count m"
    using assms(5) fill_blockoff_Some [OF assms(6)] by blast
  show ?thesis
  proof (rule that [OF fill])
    fix f :: "nvfs_io \<Rightarrow> nvfs_io" and op n
    assume f: "nvfs_active_blocks_start (f (nvfsio ?m1)) = off" "nvfs_active_blocks_end (f (nvfsio ?m1)) = off + nr - 1"
    show "mgroup_wf e (served op n (?m1\<lparr>nvfsio := f (nvfsio ?m1)\<rparr>)) \<and> settled (served op n (?m1\<lparr>nvfsio := f (nvfsio ?m1)\<rparr>))"
      using assms(2,4) md f fit
      by (auto simp: mgroup_wf_def settled_def block_state_def served_def settled_piece_def dma_started_def)
  next
    show "same_request m ?m1" by (rule same_requestI) (simp add: io_same_def)
  qed (use assms(4) md fit in simp_all)
qed

text \<open>The next piece of the request fits the shadow buffer.\<close>

definition piece_fits :: "nvfs_io_mgroup \<Rightarrow> int \<Rightarrow> nat \<Rightarrow> int \<Rightarrow> bool" where
  "piece_fits m left rdma_off n \<longleftrightarrow> n = min left (int (nvfs_blocks_count m * 4096) - int rdma_off) \<and> 0 < n \<and>
     (\<exists>nr off. n = int (nr * 4096) \<and> gpu_page_offset (nvfsio m) = off * 4096 \<and> off + nr \<le> nvfs_blocks_count m \<and>
        (off = 0 \<or> off + nr \<le> 16))"

text \<open>Everything around a request that the run relies on.\<close>

definition run_env :: "kenv \<Rightarrow> fsenv \<Rightarrow> kfile \<Rightarrow> mptr \<Rightarrow> nvfs_op \<Rightarrow> bool" where
  "run_env e fs f p op \<longleftrightarrow> valid_page_shift (page_shift e) \<and> no_faults e \<and> \<not> pf_exiting e \<and> serves fs (fs_call op) p \<and> file_ok fs op f"

lemma io_issue_served:
  assumes "run_env e fs f p (io_op (nvfsio m))" and "mgroups s p = Some m" and "0 \<le> pos" and "pos + n < 2 ^ 63"
    and "io_sync (nvfsio m)" and "0 < n" and "n \<le> uint (io_length (nvfsio m))"
    and "nvfs_active_blocks_start (nvfsio m) \<le> nvfs_active_blocks_end (nvfsio m)"
    and "\<exists>md. nvfs_metadata m = Some md \<and> nvfs_active_blocks_end (nvfsio m) < length md"
  shows "\<exists>st. io_issue e fs f p n pos s = Some (n, s\<lparr>mgroups := (mgroups s)(p \<mapsto> served (io_op (nvfsio m)) n
      (m\<lparr>nvfsio := (nvfsio m)\<lparr>io_meta := NVFS_IO_META_CLEAN, io_ret := - EINVAL, check_sparse := False\<rparr>\<rparr>)),
      klog := piece_log (io_op (nvfsio m)) @ klog s, kstats := (kstats s)\<lparr>counter := st\<rparr>\<rparr>)"
proof -
  let ?op = "io_op (nvfsio m)"
  let ?m1 = "m\<lparr>nvfsio := (nvfsio m)\<lparr>io_meta := NVFS_IO_META_CLEAN, io_ret := - EINVAL, check_sparse := False\<rparr>\<rparr>"
  let ?s1 = "s\<lparr>mgroups := (mgroups s)(p \<mapsto> ?m1)\<rparr>"
  have "piece_queued ?m1 n" using assms(5-9) by (simp add: piece_queued_def)
  then obtain st where "nvfs_direct_io e fs ?op f p (cpuvaddr (nvfsio m)) (word_of_int n) pos (nvfs_get_ops e ?s1) =
      Some (n, ?s1\<lparr>mgroups := (mgroups ?s1)(p \<mapsto> served ?op n ?m1), klog := piece_log ?op @ klog ?s1, kstats := (kstats ?s1)\<lparr>counter := st\<rparr>\<rparr>)"
    using direct_io_served [of ?m1 n e fs ?op p f ?s1 pos "cpuvaddr (nvfsio m)"] assms(1,3-5)
    by (auto simp: run_env_def)
  moreover have f: "?op = READ \<longrightarrow> \<not> nvfs_is_sparse f" "has_read_iter f" "has_write_iter f"
    using assms(1) by (auto simp: run_env_def file_ok_def)
  then have "io_issue e fs f p n pos s =
      nvfs_direct_io e fs ?op f p (cpuvaddr (nvfsio m)) (word_of_int n) pos (nvfs_get_ops e ?s1)"
    using assms(2) by (auto simp: io_issue_def upd_defs upd_mgroup_def Let_def)
  ultimately show ?thesis by auto
qed

lemma io_advance_linear:
  assumes "0 \<le> n"
  shows "int (cur_gpu_base_index (io_advance n io)) * 65536 + int (gpu_page_offset (io_advance n io)) =
      int (cur_gpu_base_index io) * 65536 + int (gpu_page_offset io) + n"
    and "gpu_page_offset (io_advance n io) = (gpu_page_offset io + nat n) mod 65536"
    and "io_same io (io_advance n io)"
proof -
  define q r where "q = (gpu_page_offset io + nat n) div 65536" and "r = (gpu_page_offset io + nat n) mod 65536"
  then have "q * 65536 + r = gpu_page_offset io + nat n" by simp
  then show "int (cur_gpu_base_index (io_advance n io)) * 65536 + int (gpu_page_offset (io_advance n io)) =
      int (cur_gpu_base_index io) * 65536 + int (gpu_page_offset io) + n"
    using assms by (simp add: io_advance_def Let_def q_def [symmetric] r_def [symmetric])
qed (simp_all add: io_advance_def io_same_def Let_def)

lemma io_turn_served:
  assumes "run_env e fs f p (io_op (nvfsio m))" and "mgroups s p = Some m" and "mgroup_wf e m" and "settled m"
    and "io_state (gpu_info m) = IO_IN_PROGRESS" and "io_sync (nvfsio m)"
    and "piece_fits m left rdma n" and "left \<le> uint (io_length (nvfsio m))" and "0 \<le> pos" and "pos + left < 2 ^ 63"
  obtains m' st where "mgroup_wf e m'" "settled m'" "same_request m m'"
    "left = n \<Longrightarrow> io_turn e fs f p left k pos rdma s = Some (LoopExit False n (k + n),
       s\<lparr>mgroups := (mgroups s)(p \<mapsto> m'), klog := piece_log (io_op (nvfsio m)) @ klog s, kstats := (kstats s)\<lparr>counter := st\<rparr>\<rparr>)"
    "left \<noteq> n \<Longrightarrow> io_turn e fs f p left k pos rdma s =
       Some (NextPiece (left - n) (k + n) (pos + n) (if use_rkeys (nvfsio m) then 0 else rdma),
         s\<lparr>mgroups := (mgroups s)(p \<mapsto> m'), klog := piece_log (io_op (nvfsio m)) @ klog s, kstats := (kstats s)\<lparr>counter := st\<rparr>\<rparr>)"
    "left \<noteq> n \<Longrightarrow> gpu_page_offset (nvfsio m') = (gpu_page_offset (nvfsio m) + nat n) mod 65536"
proof -
  let ?op = "io_op (nvfsio m)"
  obtain nr off where n: "n = min left (int (nvfs_blocks_count m * 4096) - int rdma)" "0 < n" "n = int (nr * 4096)"
    and fit: "gpu_page_offset (nvfsio m) = off * 4096" "off + nr \<le> nvfs_blocks_count m" "off = 0 \<or> off + nr \<le> 16"
    using assms(7) unfolding piece_fits_def by blast
  have nr: "0 < nr" "nr \<le> nvfs_blocks_count m" using n(2,3) fit(2) by auto
  then have "fill_blockoff m nr = Some off" using fit by (auto simp: fill_blockoff_Some)
  moreover have env: "valid_page_shift (page_shift e)" using assms(1) by (simp add: run_env_def)
  ultimately obtain m1 where m1: "fill_groups e m nr = Some (0, m1)" "same_request m m1"
    "gpu_page_offset (nvfsio m1) = gpu_page_offset (nvfsio m)"
    "cur_gpu_base_index (nvfsio m1) = cur_gpu_base_index (nvfsio m)"
    "nvfs_active_blocks_start (nvfsio m1) = off" "nvfs_active_blocks_end (nvfsio m1) = off + nr - 1"
    "\<exists>md. nvfs_metadata m1 = Some md \<and> off + nr \<le> length md"
    and keep: "\<And>f op n. nvfs_active_blocks_start (f (nvfsio m1)) = off \<Longrightarrow> nvfs_active_blocks_end (f (nvfsio m1)) = off + nr - 1 \<Longrightarrow>
       mgroup_wf e (served op n (m1\<lparr>nvfsio := f (nvfsio m1)\<rparr>)) \<and> settled (served op n (m1\<lparr>nvfsio := f (nvfsio m1)\<rparr>))"
    using fill_then_served [OF _ assms(3,4) nr(1) _ nr(2)] by metis
  have io1: "io_op (nvfsio m1) = ?op" "io_sync (nvfsio m1)" "io_length (nvfsio m1) = io_length (nvfsio m)"
    "use_rkeys (nvfsio m1) = use_rkeys (nvfsio m)"
    using same_request_group(5) [OF m1(2)] assms(6) by (auto simp: io_same_def)
  let ?s1 = "s\<lparr>mgroups := (mgroups s)(p \<mapsto> m1)\<rparr>"
  let ?m2 = "served ?op n
      (m1\<lparr>nvfsio := (nvfsio m1)\<lparr>io_meta := NVFS_IO_META_CLEAN, io_ret := - EINVAL, check_sparse := False\<rparr>\<rparr>)"
  have "\<exists>st. io_issue e fs f p n pos ?s1 = Some (n, ?s1\<lparr>mgroups := (mgroups ?s1)(p \<mapsto> served (io_op (nvfsio m1)) n
      (m1\<lparr>nvfsio := (nvfsio m1)\<lparr>io_meta := NVFS_IO_META_CLEAN, io_ret := - EINVAL, check_sparse := False\<rparr>\<rparr>)),
      klog := piece_log (io_op (nvfsio m1)) @ klog ?s1, kstats := (kstats ?s1)\<lparr>counter := st\<rparr>\<rparr>)"
    by (rule io_issue_served) (use assms(1,8-10) io1 m1(5-7) n(1,2) nr(1) in auto)
  then obtain st where issue: "io_issue e fs f p n pos ?s1 =
      Some (n, s\<lparr>mgroups := (mgroups s)(p \<mapsto> ?m2), klog := piece_log ?op @ klog s, kstats := (kstats s)\<lparr>counter := st\<rparr>\<rparr>)"
    unfolding io1(1) by auto
  let ?m3 = "?m2\<lparr>nvfsio := (nvfsio ?m2)\<lparr>fd_offset := pos + n\<rparr>\<rparr>"
  let ?m' = "if left = n then ?m3 else ?m3\<lparr>nvfsio := io_advance n (nvfsio ?m3)\<rparr>"
  have wf2: "mgroup_wf e ?m2" "settled ?m2" using keep [of "\<lambda>io. io\<lparr>io_meta := NVFS_IO_META_CLEAN, io_ret := - EINVAL, check_sparse := False\<rparr>" ?op n] m1(5,6)
    by simp_all
  have sr2: "same_request m1 ?m2"
    unfolding served_def settled_piece_def dma_started_def by simp (rule same_requestI, simp add: io_same_def)
  have sr: "same_request m (?m2\<lparr>nvfsio := io\<rparr>)" if "io_same (nvfsio ?m2) io" for io
    using same_request_trans [OF same_request_trans [OF m1(2) sr2]] same_request_io [OF that] by simp
  let ?s2 = "s\<lparr>mgroups := (mgroups s)(p \<mapsto> ?m2), klog := piece_log ?op @ klog s, kstats := (kstats s)\<lparr>counter := st\<rparr>\<rparr>"
  have "n mod 4096 = 0" "DIV_ROUND_UP (nat n) 4096 = nr"
    unfolding n(3) by (simp_all add: DIV_ROUND_UP_def)
  then have turn: "io_turn e fs f p left k pos rdma s = io_account p n left k pos rdma n ?s2"
    using assms(2,5) n(1) m1(1) issue
    by (simp add: io_turn_def nvfs_mgroup_fill_mpages_def Let_def del: of_nat_mult)
  have acc: "io_account p n left k pos rdma n ?s2 =
      Some (if left = n then LoopExit False n (k + n)
            else NextPiece (left - n) (k + n) (pos + n) (if use_rkeys (nvfsio m) then 0 else rdma),
        s\<lparr>mgroups := (mgroups s)(p \<mapsto> ?m'), klog := piece_log ?op @ klog s, kstats := (kstats s)\<lparr>counter := st\<rparr>\<rparr>)"
    using n(2) io1 by (simp add: io_account_def upd_defs upd_mgroup_def served_fields)
  show ?thesis
  proof (rule that [of ?m' st])
    show "mgroup_wf e ?m'" "settled ?m'" using wf2 by (simp_all add: mgroup_wf_def settled_def block_state_def)
    have "io_same (nvfsio ?m2) (nvfsio ?m')"
      using io_advance_linear(3) [of n "nvfsio ?m3"] n(2) by (simp add: io_same_def)
    then have "same_request m (?m2\<lparr>nvfsio := nvfsio ?m'\<rparr>)" by (rule sr)
    moreover have "?m2\<lparr>nvfsio := nvfsio ?m'\<rparr> = ?m'" by simp
    ultimately show "same_request m ?m'" by (simp only:)
    show "gpu_page_offset (nvfsio ?m') = (gpu_page_offset (nvfsio m) + nat n) mod 65536" if "left \<noteq> n"
      using that n(2) m1(3) by (simp add: io_advance_linear(2) served_fields)
  qed (use turn acc in simp_all)
qed

section \<open>The whole run\<close>

text \<open>
  The request can be cut into pieces that fit: it is one piece, or it starts at a GPU page and
  the shadow buffer holds whole GPU pages, so that every piece but the last is made of whole
  GPU pages.
\<close>

definition run_fits :: "nvfs_io_mgroup \<Rightarrow> int \<Rightarrow> nat \<Rightarrow> bool" where
  "run_fits m left rdma_off \<longleftrightarrow> 0 < left \<and> left mod 4096 = 0 \<and> rdma_off mod 4096 = 0 \<and>
     rdma_off < nvfs_blocks_count m * 4096 \<and> gpu_page_offset (nvfsio m) mod 4096 = 0 \<and>
     (left \<le> int (nvfs_blocks_count m * 4096) - int rdma_off \<and>
        (gpu_page_offset (nvfsio m) = 0 \<or> int (gpu_page_offset (nvfsio m)) + left \<le> 65536 \<and> 16 \<le> nvfs_blocks_count m) \<or>
      gpu_page_offset (nvfsio m) = 0 \<and> nvfs_blocks_count m mod 16 = 0 \<and> rdma_off mod 65536 = 0 \<and>
        (use_rkeys (nvfsio m) \<or> rdma_off = 0))"

lemma run_fits_piece:
  assumes "run_fits m left rdma"
  shows "piece_fits m left rdma (min left (int (nvfs_blocks_count m * 4096) - int rdma))"
proof -
  let ?n = "min left (int (nvfs_blocks_count m * 4096) - int rdma)" and ?g = "gpu_page_offset (nvfsio m)"
  obtain l where l: "left = int l * 4096" "0 < l"
  proof
    show "left = int (nat (left div 4096)) * 4096" "0 < nat (left div 4096)"
      using assms by (auto simp: run_fits_def)
  qed
  obtain r g where r: "rdma = r * 4096" "r < nvfs_blocks_count m" "?g = g * 4096"
  proof
    show "rdma = rdma div 4096 * 4096" "rdma div 4096 < nvfs_blocks_count m" "?g = ?g div 4096 * 4096"
      using assms by (auto simp: run_fits_def div_less_iff_less_mult)
  qed
  let ?nr = "min l (nvfs_blocks_count m - r)"
  have n: "?n = int (?nr * 4096)" using l r by (auto simp: min_def of_nat_diff)
  moreover have "g + ?nr \<le> nvfs_blocks_count m" "g = 0 \<or> g + ?nr \<le> 16"
    using assms l r by (auto simp: run_fits_def)
  ultimately show ?thesis unfolding piece_fits_def using l r by (intro conjI exI [of _ ?nr] exI [of _ g]) auto
qed

lemma run_fits_next:
  assumes "run_fits m left rdma" and "n = min left (int (nvfs_blocks_count m * 4096) - int rdma)" and "left \<noteq> n"
    and "same_request m m'" and "gpu_page_offset (nvfsio m') = (gpu_page_offset (nvfsio m) + nat n) mod 65536"
  shows "run_fits m' (left - n) (if use_rkeys (nvfsio m) then 0 else rdma)"
proof -
  let ?b = "nvfs_blocks_count m"
  have n: "n = int (?b * 4096) - int rdma" and al: "gpu_page_offset (nvfsio m) = 0" "?b mod 16 = 0"
    "rdma mod 65536 = 0" "use_rkeys (nvfsio m) \<or> rdma = 0" and sz: "left mod 4096 = 0" "rdma < ?b * 4096"
    using assms(1-3) by (auto simp: run_fits_def)
  obtain b r where b: "?b = b * 16" "rdma = r * 65536" using al(2,3) by (metis mod_eq_0_iff_dvd dvdE mult.commute)
  have "r < b" using sz(2) b by simp
  then obtain d where "b = r + d" by (auto dest: less_imp_add_positive)
  then have "n = int (d * 65536)" using n b by simp
  then have "nat n = d * 65536" "n mod 4096 = 0" by (simp_all only: nat_int) simp
  then have "gpu_page_offset (nvfsio m') = 0" "n mod 4096 = 0" using assms(5) al(1) by simp_all
  moreover have "(left - n) mod 4096 = 0" using calculation(2) sz(1) by (simp add: mod_diff_eq [symmetric])
  moreover have "n < left" using assms(2,3) by simp
  ultimately show ?thesis
    using al b sz \<open>r < b\<close> same_request_group(3,5) [OF assms(4)] by (auto simp: run_fits_def io_same_def)
qed

lemma io_loop_served:
  assumes "run_env e fs f p (io_op (nvfsio m))" and "mgroups s p = Some m" and "mgroup_wf e m" and "settled m"
    and "io_state (gpu_info m) = IO_IN_PROGRESS" and "io_sync (nvfsio m)"
    and "run_fits m left rdma" and "left \<le> uint (io_length (nvfsio m))" and "0 \<le> pos" and "pos + left < 2 ^ 63"
  shows "\<exists>m' st c ret. mgroup_wf e m' \<and> settled m' \<and> same_request m m' \<and> 0 < ret \<and>
    io_loop e fs f p left k pos rdma s = Some (False, ret, k + left,
      s\<lparr>mgroups := (mgroups s)(p \<mapsto> m'), klog := concat (replicate c (piece_log (io_op (nvfsio m)))) @ klog s, kstats := (kstats s)\<lparr>counter := st\<rparr>\<rparr>)"
  using assms
proof (induction "nat left" arbitrary: left k pos rdma s m rule: less_induct)
  case less
  let ?n = "min left (int (nvfs_blocks_count m * 4096) - int rdma)" and ?op = "io_op (nvfsio m)"
  have fit: "piece_fits m left rdma ?n" by (rule run_fits_piece [OF less.prems(7)])
  then have n: "0 < ?n" "?n \<le> left" by (simp_all add: piece_fits_def)
  obtain m' st where m': "mgroup_wf e m'" "settled m'" "same_request m m'"
    and last: "left = ?n \<Longrightarrow> io_turn e fs f p left k pos rdma s = Some (LoopExit False ?n (k + ?n),
       s\<lparr>mgroups := (mgroups s)(p \<mapsto> m'), klog := piece_log ?op @ klog s, kstats := (kstats s)\<lparr>counter := st\<rparr>\<rparr>)"
    and more: "left \<noteq> ?n \<Longrightarrow> io_turn e fs f p left k pos rdma s =
       Some (NextPiece (left - ?n) (k + ?n) (pos + ?n) (if use_rkeys (nvfsio m) then 0 else rdma),
         s\<lparr>mgroups := (mgroups s)(p \<mapsto> m'), klog := piece_log ?op @ klog s, kstats := (kstats s)\<lparr>counter := st\<rparr>\<rparr>)"
    and gpo: "left \<noteq> ?n \<Longrightarrow> gpu_page_offset (nvfsio m') = (gpu_page_offset (nvfsio m) + nat ?n) mod 65536"
    using io_turn_served [OF less.prems(1-6) fit less.prems(8-10), of k] by metis
  show ?case
  proof (cases "left = ?n")
    case True
    then have "io_loop e fs f p left k pos rdma s = Some (False, ?n, k + left,
        s\<lparr>mgroups := (mgroups s)(p \<mapsto> m'), klog := concat (replicate 1 (piece_log ?op)) @ klog s, kstats := (kstats s)\<lparr>counter := st\<rparr>\<rparr>)"
      using last by (subst io_loop.simps) simp
    with m' n(1) show ?thesis by blast
  next
    case False
    let ?s1 = "s\<lparr>mgroups := (mgroups s)(p \<mapsto> m'), klog := piece_log ?op @ klog s, kstats := (kstats s)\<lparr>counter := st\<rparr>\<rparr>"
    let ?rdma = "if use_rkeys (nvfsio m) then 0 else rdma"
    have io: "io_op (nvfsio m') = ?op" "io_sync (nvfsio m')" "io_length (nvfsio m') = io_length (nvfsio m)"
      using same_request_group(5) [OF m'(3)] less.prems(6) by (simp_all add: io_same_def)
    have "\<exists>m'' st' c ret. mgroup_wf e m'' \<and> settled m'' \<and> same_request m' m'' \<and> 0 < ret \<and>
      io_loop e fs f p (left - ?n) (k + ?n) (pos + ?n) ?rdma ?s1 = Some (False, ret, k + ?n + (left - ?n),
        ?s1\<lparr>mgroups := (mgroups ?s1)(p \<mapsto> m''), klog := concat (replicate c (piece_log (io_op (nvfsio m')))) @ klog ?s1, kstats := (kstats ?s1)\<lparr>counter := st'\<rparr>\<rparr>)"
    proof (rule less.hyps)
      show "run_fits m' (left - ?n) ?rdma" by (rule run_fits_next [OF less.prems(7) refl False m'(3) gpo [OF False]])
      show "left - ?n \<le> uint (io_length (nvfsio m'))" "nat (left - ?n) < nat left" "0 \<le> pos + ?n" "pos + ?n + (left - ?n) < 2 ^ 63"
        unfolding io(3) using n less.prems(8-10) by (linarith | simp)+
    qed (use less.prems m' io same_request_group(1) [OF m'(3)] in simp_all)
    then obtain m'' st' c ret where r: "mgroup_wf e m''" "settled m''" "same_request m' m''" "0 < ret"
      "io_loop e fs f p (left - ?n) (k + ?n) (pos + ?n) ?rdma ?s1 = Some (False, ret, k + left,
        s\<lparr>mgroups := (mgroups s)(p \<mapsto> m''), klog := concat (replicate c (piece_log ?op)) @ piece_log ?op @ klog s, kstats := (kstats s)\<lparr>counter := st'\<rparr>\<rparr>)"
      unfolding io(1) by auto
    have "concat (replicate c (piece_log ?op)) @ piece_log ?op @ klog s =
        concat (replicate (Suc c) (piece_log ?op)) @ klog s"
      by (induction c) simp_all
    then have "io_loop e fs f p left k pos rdma s = Some (False, ret, k + left,
        s\<lparr>mgroups := (mgroups s)(p \<mapsto> m''), klog := concat (replicate (Suc c) (piece_log ?op)) @ klog s, kstats := (kstats s)\<lparr>counter := st'\<rparr>\<rparr>)"
      using more [OF False] r(5) by (subst io_loop.simps) simp
    with r(1,2,4) same_request_trans [OF m'(3) r(3)] show ?thesis by blast
  qed
qed

section \<open>A synchronous request from end to end\<close>

text \<open>The end of a request; the result of an asynchronous one is written to the completion page.\<close>

lemma io_free_effect:
  assumes "mgroups s p = Some m" and "mg_ref m \<noteq> 1" and "io_state (gpu_info m) = IO_IN_PROGRESS" and "no_faults e"
    and "\<not> io_sync (nvfsio m) \<Longrightarrow> end_fence_page (gpu_info m) = Some fp"
  shows "\<exists>st. nvfs_io_free e p res s =
    Some (s\<lparr>mgroups := (mgroups s)(p \<mapsto> with_io_state IO_READY (m\<lparr>mg_ref := mg_ref m - 1\<rparr>)),
      klog := EvFdPut (io_fd (nvfsio m)) # klog s, kstats := (kstats s)\<lparr>counter := st\<rparr>,
      metapages := (if io_sync (nvfsio m) then metapages s
        else (metapages s)(fp := (metapages s fp)\<lparr>mp_result := res, end_fence_val := end_fence_value (nvfsio m)\<rparr>))\<rparr>)"
proof -
  define s1 where "s1 = klog_event (EvFdPut (io_fd (nvfsio m))) (kstat (io_free_stats (nvfsio m) res) s)"
  let ?m1 = "m\<lparr>mg_ref := mg_ref m - 1\<rparr>" and ?fp = "metapages s fp"
  let ?s3 = "s1\<lparr>mgroups := (mgroups s1)(p \<mapsto> with_io_state IO_READY ?m1)\<rparr>"
  have mp: "metapages s1 = metapages s" by (simp add: s1_def klog_event_def kstat_def)
  have put: "nvfs_mgroup_put e p s1 = Some (s1\<lparr>mgroups := (mgroups s1)(p \<mapsto> ?m1)\<rparr>)"
    using put_shared_effect [of s1 p m e False] assms(1,2) by (simp add: nvfs_mgroup_put_def s1_def)
  have t: "nvfs_transit_state e p b IO_IN_PROGRESS IO_READY (s1\<lparr>mgroups := (mgroups s1)(p \<mapsto> ?m1)\<rparr>) = Some (True, ?s3)" for b
    using transit_ok [of "s1\<lparr>mgroups := (mgroups s1)(p \<mapsto> ?m1)\<rparr>" p ?m1 IO_IN_PROGRESS e IO_READY] assms(3,4)
    by (simp add: no_faults_def)
  have "nvfs_io_free e p res s = Some (if io_sync (nvfsio m) then ?s3
      else ?s3\<lparr>metapages := (metapages s)(fp := ?fp\<lparr>mp_result := res, end_fence_val := end_fence_value (nvfsio m)\<rparr>)\<rparr>)"
    using assms(1,5) put t by (simp add: nvfs_io_free_def s1_def [symmetric]) (simp add: with_io_state_def mp)
  then show ?thesis
    by (intro exI [of _ "counter (io_free_stats (nvfsio m) res (kstats s))"])
      (simp add: io_stats_counters s1_def kstat_def klog_event_def)
qed

lemma io_free_sync:
  assumes "mgroups s p = Some m" and "mg_ref m \<noteq> 1" and "io_state (gpu_info m) = IO_IN_PROGRESS"
    and "io_sync (nvfsio m)" and "no_faults e"
  shows "\<exists>st. nvfs_io_free e p res s =
    Some (s\<lparr>mgroups := (mgroups s)(p \<mapsto> with_io_state IO_READY (m\<lparr>mg_ref := mg_ref m - 1\<rparr>)),
      klog := EvFdPut (io_fd (nvfsio m)) # klog s, kstats := (kstats s)\<lparr>counter := st\<rparr>\<rparr>)"
  using io_free_effect [OF assms(1-3,5), of _ res] assms(4) by simp

text \<open>A write goes ahead at once: no allocation is due and no page of the range is cached.\<close>

definition write_ready :: "kfile \<Rightarrow> bool" where
  "write_ready f \<longleftrightarrow> (f_block f \<or> \<not> nvfs_need_fallocate f \<or> f_fallocate f \<noteq> None \<and> i_size f \<noteq> 0) \<and>
     \<not> filemap_range_has_page f 0"

lemma prepare_write_ready:
  assumes "write_ready f" and "mgroups s p = Some m" and "retrycnt (nvfsio m) = 0"
  shows "io_prepare_write e f p s = Some (0, s)"
proof -
  have "flush_loop f 0 st = (0, 0, st)" for st using assms(1) by (subst flush_loop.simps) (simp add: write_ready_def)
  moreover have "m\<lparr>nvfsio := (nvfsio m)\<lparr>retrycnt := 0\<rparr>\<rparr> = m" using assms(3) by simp
  then have "upd_io p (\<lambda>io. io\<lparr>retrycnt := 0\<rparr>) s = Some (s\<lparr>mgroups := (mgroups s)(p \<mapsto> m)\<rparr>)"
    using assms(2) by (simp only: upd_io_def upd_mgroup_def option.case)
  then have "upd_io p (\<lambda>io. io\<lparr>retrycnt := 0\<rparr>) s = Some s"
    using assms(2) by (simp add: fun_upd_idem)
  ultimately have "flush_dirty_pages f p s = Some (0, s)"
    using assms(2,3) by (simp add: flush_dirty_pages_def)
  then show ?thesis
    using assms(1) by (auto simp: io_prepare_write_def write_ready_def Let_def split: option.splits)
qed

lemma io_fill_fields:
  assumes "io_fill op f a m = Some (0, io)"
  shows "io_fd io = ia_fd a" "io_op io = op" "io_sync io = ia_sync a" "io_length io = ia_size a"
    "fd_offset io = ia_offset a" "use_rkeys io = ia_use_rkeys a" "retrycnt io = 0"
    "ia_use_rkeys a \<Longrightarrow> rdma_seg_offset io =
       (cur_gpu_base_index io * 65536 + gpu_page_offset io) mod (nvfs_blocks_count m * 4096)"
proof -
  have "unat (drop_bit 16 w) * 65536 + unat (w AND 65535) = unat w" for w :: u64
  proof -
    have "int (unat (drop_bit 16 w)) * 65536 + int (unat (w AND 65535)) = uint w" by (simp only: word_split_16 div_mult_mod_eq)
    then have "int (unat (drop_bit 16 w) * 65536 + unat (w AND 65535)) = int (unat w)" by simp
    then show ?thesis by (simp only: of_nat_eq_iff)
  qed
  moreover assume "ia_use_rkeys a"
  then have "rdma_seg_offset io = unat (io_va_offset m a) mod (nvfs_blocks_count m * 4096)"
    "cur_gpu_base_index io = unat (drop_bit 16 (io_va_offset m a))"
    "gpu_page_offset io = unat (io_va_offset m a AND 65535)"
    using assms by (auto simp: io_fill_def Let_def split: if_splits)
  ultimately show "rdma_seg_offset io =
       (cur_gpu_base_index io * 65536 + gpu_page_offset io) mod (nvfs_blocks_count m * 4096)"
    by (simp only:)
qed (use assms in \<open>auto simp: io_fill_def zero_nvfs_io_def Let_def split: if_splits\<close>)

lemma fill_run_fits:
  fixes cur gpo b :: nat
  assumes "0 < b" and "gpo mod 4096 = 0" and "gpo < 65536" and "0 < left" and "left mod 4096 = 0"
    and "gpo = 0 \<or> int gpo + left \<le> 65536"
    and "nvfs_blocks_count m = b * 16" and "gpu_page_offset (nvfsio m) = gpo"
    and "r = (if use_rkeys (nvfsio m) then (cur * 65536 + gpo) mod (b * 65536) else 0)"
  shows "run_fits m left r"
proof -
  have r: "r = (if use_rkeys (nvfsio m) then cur mod b * 65536 + gpo else 0)"
  proof -
    have "(cur * 65536 + gpo) mod (b * 65536) = (cur * 65536 + gpo) mod (65536 * b)" by (simp only: mult.commute)
    also have "\<dots> = 65536 * (cur mod b) + gpo"
      using assms(3) by (subst mod_mult2_eq) (simp add: mult.commute)
    finally show ?thesis using assms(9) by simp
  qed
  have lt: "cur mod b < b" using assms(1) by simp
  then have "(cur mod b + 1) * 65536 \<le> b * 65536" by (intro mult_le_mono1) simp
  then have "r < b * 65536" "r mod 4096 = 0" using assms(1-3) r by (auto simp: mod_add_eq [symmetric])
  moreover have "left \<le> int (b * 65536) - int r" if "gpo \<noteq> 0"
    using that assms(6) r lt by (auto split: if_splits)
  moreover have "r mod 65536 = 0" "use_rkeys (nvfsio m) \<or> r = 0" if "gpo = 0" using that r by auto
  ultimately show ?thesis using assms(1-8) by (cases "gpo = 0") (simp_all add: run_fits_def)
qed

lemma start_op_served:
  assumes "run_env e fs f p (io_op (nvfsio m))" and "mgroups s p = Some m" and "mgroup_wf e m" and "settled m"
    and "io_state (gpu_info m) = IO_IN_PROGRESS" and "io_sync (nvfsio m)" and "mg_ref m \<noteq> 1"
    and "fd_file fs (io_fd (nvfsio m)) = Some f" and "retrycnt (nvfsio m) = 0"
    and "io_op (nvfsio m) = WRITE \<longrightarrow> write_ready f"
    and "run_fits m (uint (io_length (nvfsio m))) (if use_rkeys (nvfsio m) then rdma_seg_offset (nvfsio m) else 0)"
    and "0 \<le> fd_offset (nvfsio m)" and "fd_offset (nvfsio m) + uint (io_length (nvfsio m)) < 2 ^ 63"
  shows "\<exists>m' st c. mgroup_wf e m' \<and> settled m' \<and> same_request m m' \<and>
    nvfs_io_start_op e fs p s = Some (uint (io_length (nvfsio m)),
      s\<lparr>mgroups := (mgroups s)(p \<mapsto> with_io_state IO_READY (m'\<lparr>mg_ref := mg_ref m' - 1\<rparr>)),
        klog := EvFdPut (io_fd (nvfsio m)) # concat (replicate c (piece_log (io_op (nvfsio m)))) @ klog s, kstats := (kstats s)\<lparr>counter := st\<rparr>\<rparr>)"
proof -
  let ?L = "uint (io_length (nvfsio m))" and ?op = "io_op (nvfsio m)"
  let ?rdma = "if use_rkeys (nvfsio m) then rdma_seg_offset (nvfsio m) else 0"
  have L: "sint (io_length (nvfsio m)) = ?L" "0 < ?L"
    using assms(11-13) s64_id [of ?L] by (simp_all add: sint_uint run_fits_def)
  obtain m' st c ret where m': "mgroup_wf e m'" "settled m'" "same_request m m'" "0 < ret"
    and loop: "io_loop e fs f p ?L 0 (fd_offset (nvfsio m)) ?rdma s = Some (False, ret, 0 + ?L,
      s\<lparr>mgroups := (mgroups s)(p \<mapsto> m'), klog := concat (replicate c (piece_log ?op)) @ klog s, kstats := (kstats s)\<lparr>counter := st\<rparr>\<rparr>)"
    using io_loop_served [OF assms(1-6,11) order.refl assms(12,13), of 0] by blast
  let ?s1 = "s\<lparr>mgroups := (mgroups s)(p \<mapsto> m'), klog := concat (replicate c (piece_log ?op)) @ klog s, kstats := (kstats s)\<lparr>counter := st\<rparr>\<rparr>"
  have same: "gpu_info m' = gpu_info m" "mg_ref m' = mg_ref m" "io_sync (nvfsio m')" "io_fd (nvfsio m') = io_fd (nvfsio m)"
    using same_request_group [OF m'(3)] assms(6) by (simp_all add: io_same_def)
  obtain st' where free: "nvfs_io_free e p ?L ?s1 =
      Some (?s1\<lparr>mgroups := (mgroups ?s1)(p \<mapsto> with_io_state IO_READY (m'\<lparr>mg_ref := mg_ref m' - 1\<rparr>)),
        klog := EvFdPut (io_fd (nvfsio m)) # klog ?s1, kstats := (kstats ?s1)\<lparr>counter := st'\<rparr>\<rparr>)"
    using io_free_sync [of ?s1 p m' e ?L] same assms(1,5,7) by (auto simp: run_env_def)
  have prep: "(if ?op = WRITE then io_prepare_write e f p s else Some (0, s)) = Some (0, s)"
    using assms(2,9,10) by (simp add: prepare_write_ready)
  have fin: "io_finish e p False ret ?L ?s1 = Some (?L,
      s\<lparr>mgroups := (mgroups s)(p \<mapsto> with_io_state IO_READY (m'\<lparr>mg_ref := mg_ref m' - 1\<rparr>)),
        klog := EvFdPut (io_fd (nvfsio m)) # concat (replicate c (piece_log ?op)) @ klog s, kstats := (kstats s)\<lparr>counter := st'\<rparr>\<rparr>)"
    using free same(3) m'(4) by (simp add: io_finish_def)
  have "nvfs_io_start_op e fs p s = io_finish e p False ret ?L ?s1"
    using L(2) loop
    by (cases "use_rkeys (nvfsio m)") (simp_all add: nvfs_io_start_op_def assms(2,8) prep L(1))
  with fin m'(1-3) show ?thesis by auto
qed

text \<open>A request that is set up: the group is in progress and the request fits it and its file.\<close>

definition request_ready :: "kenv \<Rightarrow> fsenv \<Rightarrow> kfile \<Rightarrow> nvfs_io_mgroup \<Rightarrow> bool" where
  "request_ready e fs f m \<longleftrightarrow> mgroup_wf e m \<and> settled m \<and>
     io_state (gpu_info m) = IO_IN_PROGRESS \<and> fd_file fs (io_fd (nvfsio m)) = Some f \<and>
     retrycnt (nvfsio m) = 0 \<and> (io_op (nvfsio m) = WRITE \<longrightarrow> write_ready f) \<and>
     run_fits m (uint (io_length (nvfsio m))) (if use_rkeys (nvfsio m) then rdma_seg_offset (nvfsio m) else 0) \<and>
     0 \<le> fd_offset (nvfsio m) \<and> fd_offset (nvfsio m) + uint (io_length (nvfsio m)) < 2 ^ 63"

lemma request_ready_stats:
  "request_ready e fs f (in_flight io m) \<Longrightarrow> request_ready e fs f (in_flight (io\<lparr>rw_stats_enabled := b\<rparr>) m)"
  by (auto simp: request_ready_def in_flight_def run_fits_def mgroup_wf_def settled_def block_state_def)

text \<open>A synchronous request that is set up and will be served in full.\<close>

definition run_ready :: "kenv \<Rightarrow> fsenv \<Rightarrow> kfile \<Rightarrow> mptr \<Rightarrow> nvfs_io_mgroup \<Rightarrow> bool" where
  "run_ready e fs f p m \<longleftrightarrow> run_env e fs f p (io_op (nvfsio m)) \<and> io_sync (nvfsio m) \<and> request_ready e fs f m"

lemma run_ready_served:
  assumes "run_ready e fs f p m" and "mgroups s p = Some m" and "mg_ref m \<noteq> 1"
  shows "\<exists>m' st c. mgroup_wf e m' \<and> settled m' \<and> same_request m m' \<and>
    nvfs_io_start_op e fs p s = Some (uint (io_length (nvfsio m)),
      s\<lparr>mgroups := (mgroups s)(p \<mapsto> with_io_state IO_READY (m'\<lparr>mg_ref := mg_ref m' - 1\<rparr>)),
        klog := EvFdPut (io_fd (nvfsio m)) # concat (replicate c (piece_log (io_op (nvfsio m)))) @ klog s, kstats := (kstats s)\<lparr>counter := st\<rparr>\<rparr>)"
  using assms(1) by (intro start_op_served [OF _ assms(2) _ _ _ _ assms(3)]) (auto simp: run_ready_def request_ready_def)

lemma run_ready_stats:
  "run_ready e fs f p (in_flight io m) \<Longrightarrow> run_ready e fs f p (in_flight (io\<lparr>rw_stats_enabled := b\<rparr>) m)"
  by (auto simp: run_ready_def request_ready_stats) (simp_all add: in_flight_def)

text \<open>A request that passes the set-up is ready.\<close>

lemma io_init_request_ready:
  assumes "args_ok fs op a f" and "at_vaddr e s (ia_cpuvaddr a) p m"
    and "settled m" and "op = WRITE \<longrightarrow> write_ready f"
    and "io_fill op f a (in_flight (nvfsio m) m) = Some (0, io)" and "ia_size a \<noteq> 0"
    and "nvfs_blocks_count m = b * 16" and "0 < b"
    and "uint (gpuvaddr (gpu_info m)) mod 65536 + uint (gpu_buf_len (gpu_info m)) < 2 ^ 64"
    and "ia_offset a + uint (ia_size a) < 2 ^ 63"
  shows "request_ready e fs f (in_flight io m)"
proof -
  let ?m1 = "in_flight io m"
  note io = io_fill_fields [OF assms(5)]
  have gi: "gpuvaddr (gpu_info (in_flight (nvfsio m) m)) = gpuvaddr (gpu_info m)"
    "gpu_buf_len (gpu_info (in_flight (nvfsio m) m)) = gpu_buf_len (gpu_info m)"
    "nvfs_blocks_count (in_flight (nvfsio m) m) = nvfs_blocks_count m"
    by (simp_all add: in_flight_def with_io_state_def)
  have g: "gpu_page_offset io mod 4096 = 0" "gpu_page_offset io < 65536"
    "gpu_page_offset io = 0 \<or> int (gpu_page_offset io) + uint (ia_size a) \<le> 65536"
    using io_fill_bounds [of "in_flight (nvfsio m) m" op f a] assms(5,7,8,9) gi by auto
  have sz: "0 < uint (ia_size a)" "uint (ia_size a) mod 4096 = 0"
  proof -
    show "0 < uint (ia_size a)" using assms(6) uint_ge_0 [of "ia_size a"] by (simp add: order_less_le uint_0_iff)
    have "uint (ia_size a mod 4096) = 0" using assms(1) by (simp add: args_ok_def)
    then show "uint (ia_size a) mod 4096 = 0" by (simp add: uint_mod_distrib)
  qed
  have "run_fits ?m1 (uint (ia_size a)) (if use_rkeys io then rdma_seg_offset io else 0)"
    by (rule fill_run_fits [where cur = "cur_gpu_base_index io", OF assms(8) g(1,2) sz g(3)])
      (use assms(7) io(6,8) gi in \<open>auto simp: in_flight_def with_io_state_def mult.commute\<close>)
  moreover have "mgroup_wf e ?m1" "settled ?m1"
    using assms(2,3)
    by (auto simp: at_vaddr_def page_of_group_def in_flight_def with_io_state_def mgroup_wf_def settled_def block_state_def)
  ultimately show ?thesis
    using assms(1,4,10) io by (auto simp: request_ready_def in_flight_def args_ok_def)
qed

lemma io_init_run_ready:
  assumes "args_ok fs op a f" and "at_vaddr e s (ia_cpuvaddr a) p m"
    and "settled m" and "run_env e fs f p op" and "op = WRITE \<longrightarrow> write_ready f"
    and "io_fill op f a (in_flight (nvfsio m) m) = Some (0, io)" and "ia_sync a" and "ia_size a \<noteq> 0"
    and "nvfs_blocks_count m = b * 16" and "0 < b"
    and "uint (gpuvaddr (gpu_info m)) mod 65536 + uint (gpu_buf_len (gpu_info m)) < 2 ^ 64"
    and "ia_offset a + uint (ia_size a) < 2 ^ 63"
  shows "run_ready e fs f p (in_flight io m)"
  using io_init_request_ready [OF assms(1-3,5,6,8-12)] assms(4,7) io_fill_fields [OF assms(6)]
  by (auto simp: run_ready_def) (simp_all add: in_flight_def)

text \<open>Running a request that is set up leaves the group as it was before the set-up, but for blocks and request.\<close>

lemma run_in_flight:
  assumes "run_ready e fs f p (in_flight io m)" and "mgroups s p = Some (in_flight io m)" and "0 < mg_ref m"
    and "io_state (gpu_info m) = IO_READY"
  shows "\<exists>md io' st c. mgroup_wf e (m\<lparr>nvfs_metadata := md, nvfsio := io'\<rparr>) \<and> settled (m\<lparr>nvfs_metadata := md, nvfsio := io'\<rparr>) \<and>
    nvfs_io_start_op e fs p s = Some (uint (io_length io),
      s\<lparr>mgroups := (mgroups s)(p \<mapsto> m\<lparr>nvfs_metadata := md, nvfsio := io'\<rparr>),
        klog := EvFdPut (io_fd io) # concat (replicate c (piece_log (io_op io))) @ klog s, kstats := (kstats s)\<lparr>counter := st\<rparr>\<rparr>)"
proof -
  have io: "nvfsio (in_flight io m) = io" "mg_ref (in_flight io m) \<noteq> 1" using assms(3) by (simp_all add: in_flight_def)
  obtain m' st c where m': "mgroup_wf e m'" "settled m'" "same_request (in_flight io m) m'"
    and run: "nvfs_io_start_op e fs p s = Some (uint (io_length io),
      s\<lparr>mgroups := (mgroups s)(p \<mapsto> with_io_state IO_READY (m'\<lparr>mg_ref := mg_ref m' - 1\<rparr>)),
        klog := EvFdPut (io_fd io) # concat (replicate c (piece_log (io_op io))) @ klog s, kstats := (kstats s)\<lparr>counter := st\<rparr>\<rparr>)"
    using run_ready_served [OF assms(1,2) io(2)] unfolding io(1) by blast
  obtain md io' where "m' = (in_flight io m)\<lparr>nvfs_metadata := md, nvfsio := io'\<rparr>"
    using m'(3) unfolding same_request_def by blast
  then have eq: "with_io_state IO_READY (m'\<lparr>mg_ref := mg_ref m' - 1\<rparr>) = m\<lparr>nvfs_metadata := md, nvfsio := io'\<rparr>"
    using assms(4) by (simp add: in_flight_def with_io_state_def)
  have "mgroup_wf e (with_io_state IO_READY (m'\<lparr>mg_ref := mg_ref m' - 1\<rparr>))"
    "settled (with_io_state IO_READY (m'\<lparr>mg_ref := mg_ref m' - 1\<rparr>))"
    using m'(1,2) by (simp_all add: with_io_state_def mgroup_wf_def settled_def block_state_def)
  with run show ?thesis unfolding eq by blast
qed

lemma sync_request_outcome:
  assumes "args_ok fs op a f" and "at_vaddr e s (ia_cpuvaddr a) p m" and "io_state (gpu_info m) = IO_READY"
    and "settled m" and "run_env e fs f p op" and "op = WRITE \<longrightarrow> write_ready f"
    and "io_fill op f a (in_flight (nvfsio m) m) = Some (0, io)" and "ia_sync a" and "ia_size a \<noteq> 0"
    and "nvfs_blocks_count m = b * 16" and "0 < b"
    and "uint (gpuvaddr (gpu_info m)) mod 65536 + uint (gpu_buf_len (gpu_info m)) < 2 ^ 64"
    and "ia_offset a + uint (ia_size a) < 2 ^ 63"
  shows "\<exists>s1 md io' st c. nvfs_io_init e fs op a s = Some (Ptr p, s1) \<and>
    nvfs_io_start_op e fs p s1 = Some (uint (ia_size a),
      s\<lparr>mgroups := (mgroups s)(p \<mapsto> m\<lparr>nvfs_metadata := md, nvfsio := io'\<rparr>),
        klog := EvFdPut (ia_fd a) # concat (replicate c (piece_log op)) @ EvFdGet (ia_fd a) # klog s, kstats := (kstats s)\<lparr>counter := st\<rparr>\<rparr>) \<and>
    mgroup_wf e (m\<lparr>nvfs_metadata := md, nvfsio := io'\<rparr>) \<and> settled (m\<lparr>nvfs_metadata := md, nvfsio := io'\<rparr>)"
proof -
  let ?s1 = "s\<lparr>klog := EvFdGet (ia_fd a) # klog s, mgroups := (mgroups s)(p \<mapsto> in_flight io m)\<rparr>"
  have nf: "no_faults e" using assms(5) by (simp add: run_env_def)
  have init: "nvfs_io_init e fs op a s = Some (Ptr p, ?s1)"
    using io_init_outcome [OF assms(1-3) nf assms(7)] by simp
  have ref: "0 < mg_ref m" using assms(2) by (auto simp: at_vaddr_def page_of_group_def hash_wf_def)
  note io = io_fill_fields [OF assms(7)]
  obtain md io' st c where "mgroup_wf e (m\<lparr>nvfs_metadata := md, nvfsio := io'\<rparr>)" "settled (m\<lparr>nvfs_metadata := md, nvfsio := io'\<rparr>)"
    and run: "nvfs_io_start_op e fs p ?s1 = Some (uint (ia_size a),
      ?s1\<lparr>mgroups := (mgroups ?s1)(p \<mapsto> m\<lparr>nvfs_metadata := md, nvfsio := io'\<rparr>),
        klog := EvFdPut (ia_fd a) # concat (replicate c (piece_log op)) @ klog ?s1, kstats := (kstats ?s1)\<lparr>counter := st\<rparr>\<rparr>)"
    using run_in_flight [OF io_init_run_ready [OF assms(1,2,4-13)] _ ref assms(3), of ?s1] unfolding io by auto
  moreover have "nvfs_io_start_op e fs p ?s1 = Some (uint (ia_size a),
      s\<lparr>mgroups := (mgroups s)(p \<mapsto> m\<lparr>nvfs_metadata := md, nvfsio := io'\<rparr>),
        klog := EvFdPut (ia_fd a) # concat (replicate c (piece_log op)) @ EvFdGet (ia_fd a) # klog s, kstats := (kstats s)\<lparr>counter := st\<rparr>\<rparr>)"
    using run by simp
  ultimately show ?thesis using init by blast
qed

text \<open>
  C5. A synchronous request runs to its end. On a ready and settled buffer of whole GPU pages,
  with a file system that transfers what it is asked for, a request that passes the set-up
  is executed piece by piece and the loop ends: the call returns the number of bytes
  requested, every block is settled again, the group is ready with the references it had, the
  file is closed, every started write is ended, the count of operations is what it was, and
  nothing else of the state has changed but the statistics.
\<close>

theorem sync_request_completes:
  assumes "args_ok fs op a f" and "at_vaddr e s (ia_cpuvaddr a) p m" and "io_state (gpu_info m) = IO_READY"
    and "settled m" and "run_env e fs f p op" and "op = WRITE \<longrightarrow> write_ready f"
    and "io_fill op f a (in_flight (nvfsio m) m) = Some (0, io)" and "ia_sync a" and "ia_size a \<noteq> 0"
    and "nvfs_blocks_count m = b * 16" and "0 < b"
    and "uint (gpuvaddr (gpu_info m)) mod 65536 + uint (gpu_buf_len (gpu_info m)) < 2 ^ 64"
    and "ia_offset a + uint (ia_size a) < 2 ^ 63"
  shows "\<exists>s1 md io' st c. nvfs_io_init e fs op a s = Some (Ptr p, s1) \<and>
    nvfs_io_start_op e fs p s1 = Some (uint (ia_size a),
      s\<lparr>mgroups := (mgroups s)(p \<mapsto> m\<lparr>nvfs_metadata := md, nvfsio := io'\<rparr>),
        klog := EvFdPut (ia_fd a) # concat (replicate c (piece_log op)) @ EvFdGet (ia_fd a) # klog s, kstats := (kstats s)\<lparr>counter := st\<rparr>\<rparr>) \<and>
    mgroup_wf e (m\<lparr>nvfs_metadata := md, nvfsio := io'\<rparr>) \<and> settled (m\<lparr>nvfs_metadata := md, nvfsio := io'\<rparr>)"
  using assms by (rule sync_request_outcome)

lemma ex_run_env: "run_env ex_env ex_fs ex_file 100 READ"
  using ex_no_faults
  by (simp add: run_env_def valid_page_shift_def ex_env_def serves_def file_ok_def ex_fs_def ex_file_def nvfs_is_sparse_def)

theorem sync_request_completes_witness:
  "\<exists>s1 s2. nvfs_io_init ex_env ex_fs READ ex_args ex_io_state = Some (Ptr 100, s1) \<and>
     nvfs_io_start_op ex_env ex_fs 100 s1 = Some (0x3000, s2) \<and> mg_refs s2 100 = Some 2"
proof -
  obtain io where io: "io_fill READ ex_file ex_args (in_flight (nvfsio ex_io_group) ex_io_group) = Some (0, io)"
    using ex_io_fill by blast
  have g: "nvfs_blocks_count ex_io_group = 1 * 16" "mg_ref ex_io_group = 2"
    "gpuvaddr (gpu_info ex_io_group) = 0x20000" "gpu_buf_len (gpu_info ex_io_group) = 0x10000"
    by (simp_all add: ex_io_group_def ex_init_group_def ex_group_def ex_ready_gpu_def)
  have a: "ia_sync ex_args" "ia_size ex_args = 0x3000" "ia_offset ex_args = 0" by (simp_all add: ex_args_def)
  show ?thesis
    using sync_request_completes [OF ex_args_ok ex_at_vaddr ex_io_wf(5,4) ex_run_env _ io a(1) _ g(1)] g a
    by (fastforce simp: mg_refs_def)
qed

section \<open>A write that bypasses the GPU\<close>

lemma cas_queued_write_loop:
  assumes "start + n \<le> length md" and "c_md c = md" and "c_sparse c = None"
    and "nvfs_active_blocks_start (nvfsio m) = start" and "start + n \<le> nvfs_active_blocks_end (nvfsio m) + 1"
    and "\<forall>j. start \<le> j \<and> j < start + n \<longrightarrow> nvfs_state (md ! j) = NVFS_IO_QUEUED"
    and "io_op (nvfsio m) = WRITE" and "int start \<le> l"
    and "\<not> pf_exiting e" and "io_ret (nvfsio m) \<noteq> - ERESTARTSYS"
  shows "ofold (cas_block e s m NVFS_IO_DONE True l) [start ..< start + n] c =
    Some (c\<lparr>c_md := upd_between start (start + n) (set_blk NVFS_IO_DONE) md, c_ret := (if n = 0 then c_ret c else - EIO)\<rparr>)"
  using assms(1,5,6)
proof (induction n)
  case 0
  then show ?case using assms(2) by simp
next
  case (Suc n)
  let ?md = "upd_between start (start + n) (set_blk NVFS_IO_DONE) md"
  have "?md[start + n := set_blk NVFS_IO_DONE (md ! (start + n))] =
      upd_between start (Suc (start + n)) (set_blk NVFS_IO_DONE) md"
    using Suc.prems by (intro upd_between_snoc) simp_all
  moreover have "?md ! (start + n) = md ! (start + n)" "nvfs_state (md ! (start + n)) = NVFS_IO_QUEUED"
    using Suc.prems by auto
  ultimately show ?case
    using Suc assms(3,4,7-10)
    by (auto simp add: ofold_append cas_block_def cas_done_block_def cas_frozen_def Let_def)
qed

lemma check_and_set_queued_write:
  assumes "mgroups s p = Some m" and "nvfs_metadata m = Some md" and "io_op (nvfsio m) = WRITE"
    and "nvfs_active_blocks_start (nvfsio m) \<le> nvfs_active_blocks_end (nvfsio m)"
    and "nvfs_active_blocks_end (nvfsio m) < length md"
    and "\<forall>j. nvfs_active_blocks_start (nvfsio m) \<le> j \<and> j \<le> nvfs_active_blocks_end (nvfsio m) \<longrightarrow>
      nvfs_state (md ! j) = NVFS_IO_QUEUED"
    and "0 < io_ret (nvfsio m)" and "io_ret (nvfsio m) \<le> uint (io_length (nvfsio m))" and "\<not> pf_exiting e"
  shows "nvfs_mgroup_check_and_set e p NVFS_IO_DONE True True s =
    Some (s\<lparr>mgroups := (mgroups s)(p \<mapsto> m\<lparr>nvfs_metadata := Some (upd_between (nvfs_active_blocks_start (nvfsio m))
         (nvfs_active_blocks_end (nvfsio m) + 1) (set_blk NVFS_IO_DONE) md),
       nvfsio := (nvfsio m)\<lparr>nvfs_active_blocks_start := 0, nvfs_active_blocks_end := 0, io_ret := - EIO\<rparr>\<rparr>)\<rparr>)"
proof -
  let ?start = "nvfs_active_blocks_start (nvfsio m)" and ?stop = "nvfs_active_blocks_end (nvfsio m)"
  define c where "c = \<lparr> c_md = md, c_sparse = None, c_check_sparse = check_sparse (nvfsio m), c_last_sparse = -1,
                 c_nholes = -1, c_limit = 0, c_ret = 0 \<rparr>"
  have init: "cas_init s m md NVFS_IO_DONE True = Some c"
    using assms(3,7,8) by (simp add: cas_init_def c_def Let_def)
  have "0 < DIV_ROUND_UP (nat (io_ret (nvfsio m))) 4096" using assms(7) by (simp add: DIV_ROUND_UP_def)
  then have last: "int ?start \<le> cas_last_done (nvfsio m)" using assms(4) by (simp add: cas_last_done_def Let_def)
  have "ofold (cas_block e s m NVFS_IO_DONE True (cas_last_done (nvfsio m))) [?start ..< ?start + (?stop + 1 - ?start)] c =
      Some (c\<lparr>c_md := upd_between ?start (?start + (?stop + 1 - ?start)) (set_blk NVFS_IO_DONE) md,
        c_ret := (if ?stop + 1 - ?start = 0 then c_ret c else - EIO)\<rparr>)"
    using assms(3-7,9) last by (intro cas_queued_write_loop) (auto simp: c_def)
  then have "ofold (cas_block e s m NVFS_IO_DONE True (cas_last_done (nvfsio m))) [?start ..< ?stop + 1] c =
      Some (c\<lparr>c_md := upd_between ?start (?stop + 1) (set_blk NVFS_IO_DONE) md, c_ret := - EIO\<rparr>)"
    using assms(4) by simp
  then show ?thesis
    using assms(1,2,7,9) init
    by (simp add: nvfs_mgroup_check_and_set_def cas_range_def cas_publish_def cas_io_def c_def upd_mgroup_def Let_def)
qed

text \<open>
  C34. A synchronous write that the file system carries out without asking for the DMA address
  of a single block (through the page cache, say) is detected: the completion sets the
  result of the request to \<^verbatim>\<open>-EIO\<close>. But the error does not reach the caller:
  \<^verbatim>\<open>nvfs_io_ret\<close> returns \<^verbatim>\<open>PTR_ERR\<close> of the pointer that it has just set to
  null, so that the request ends with 0 bytes and no error.
\<close>

theorem bypassed_write_reports_no_error:
  assumes "mgroups s p = Some m" and "nvfs_metadata m = Some md" and "io_op (nvfsio m) = WRITE"
    and "nvfs_active_blocks_start (nvfsio m) \<le> nvfs_active_blocks_end (nvfsio m)"
    and "nvfs_active_blocks_end (nvfsio m) < length md"
    and "\<forall>j. nvfs_active_blocks_start (nvfsio m) \<le> j \<and> j \<le> nvfs_active_blocks_end (nvfsio m) \<longrightarrow>
      nvfs_state (md ! j) = NVFS_IO_QUEUED"
    and "0 < n" and "n \<le> uint (io_length (nvfsio m))" and "\<not> pf_exiting e" and "io_sync (nvfsio m)"
  shows "\<exists>s' m'. nvfs_io_ret e fs p n s = Some (0, s') \<and> mgroups s' p = Some m' \<and> io_ret (nvfsio m') = - EIO"
proof -
  let ?m1 = "m\<lparr>nvfsio := (nvfsio m)\<lparr>io_ret := n\<rparr>\<rparr>"
  let ?s1 = "s\<lparr>mgroups := (mgroups s)(p \<mapsto> ?m1)\<rparr>"
  define m2 where "m2 = m\<lparr>nvfs_metadata := Some (upd_between (nvfs_active_blocks_start (nvfsio m))
         (nvfs_active_blocks_end (nvfsio m) + 1) (set_blk NVFS_IO_DONE) md),
       nvfsio := (nvfsio m)\<lparr>nvfs_active_blocks_start := 0, nvfs_active_blocks_end := 0, io_ret := - EIO\<rparr>\<rparr>"
  have cs: "nvfs_mgroup_check_and_set e p NVFS_IO_DONE True True ?s1 =
      Some (?s1\<lparr>mgroups := (mgroups ?s1)(p \<mapsto> m2)\<rparr>)"
    using check_and_set_queued_write [of ?s1 p ?m1 md e] assms(2-9) by (simp add: m2_def)
  have m2: "io_sync (nvfsio m2)" "io_ret (nvfsio m2) = - EIO" using assms(10) by (simp_all add: m2_def)
  have "upd_io p (\<lambda>io. io\<lparr>io_ret := n\<rparr>) s = Some ?s1" using assms(1) by (simp add: upd_defs upd_mgroup_def)
  then have "\<exists>s3. nvfs_io_complete e fs p n s = Some s3 \<and> mgroups s3 p = Some m2"
    using cs m2 assms(7) by (simp add: nvfs_io_complete_def Let_def)
  then show ?thesis
    using m2 assms(7) by (auto simp: nvfs_io_ret_def)
qed

definition ex_write_group :: nvfs_io_mgroup where
  "ex_write_group = ex_io_group\<lparr>nvfs_metadata := map_option (map (set_blk NVFS_IO_QUEUED)) (nvfs_metadata ex_io_group),
     nvfsio := zero_nvfs_io\<lparr>io_op := WRITE, io_sync := True, io_length := 0x10000, nvfs_active_blocks_start := 0,
       nvfs_active_blocks_end := 15\<rparr>\<rparr>"

theorem bypassed_write_reports_no_error_witness:
  "\<exists>s' m'. nvfs_io_ret ex_env ex_fs 100 0x10000 (ex_io_state\<lparr>mgroups := [100 \<mapsto> ex_write_group]\<rparr>) = Some (0, s') \<and>
     mgroups s' 100 = Some m' \<and> io_ret (nvfsio m') = - EIO"
proof -
  obtain md where md: "nvfs_metadata ex_io_group = Some md" "length md = 16"
    using ex_io_wf(3) by (auto simp: mgroup_wf_def ex_io_group_def ex_init_group_def ex_group_def)
  show ?thesis
    by (rule bypassed_write_reports_no_error [of _ _ ex_write_group "map (set_blk NVFS_IO_QUEUED) md"])
      (use md in \<open>simp_all add: ex_write_group_def ex_env_def\<close>)
qed

end
