(* ===== verification/Nvfs_Rdma.thy ===== *)
theory Nvfs_Rdma
  imports Nvfs_IoRun
begin

text \<open>
  RDMA registration data of a shadow buffer (\<^verbatim>\<open>nvfs-rdma.c\<close>): set, read and clear the
  record that remote file systems use to reach the GPU buffer.
\<close>

section \<open>Operations\<close>

record nvfs_ioctl_set_rdma_reg_info_args =
  rs_cpuvaddr :: u64
  rs_gid0 :: u64
  rs_gid1 :: u64
  rs_qp_num :: u32
  rs_lid :: u16
  rs_flags :: u8
  rs_version :: u8
  rs_dc_key :: u32
  rs_rkey0 :: u32
  rs_nkeys :: u32

abbreviation NVFS_RDMA_MIN_SUPPORTED_VERSION :: u8 where
  "NVFS_RDMA_MIN_SUPPORTED_VERSION \<equiv> 2"

text \<open>The record written by a registration; its 32-bit size takes the low half of the buffer length.\<close>

definition rdma_reg_info :: "nvfs_ioctl_set_rdma_reg_info_args \<Rightarrow> nvfs_gpu_args \<Rightarrow> nvfs_rdma_info" where
  "rdma_reg_info a g =
     \<lparr> rdma_version = rs_version a, rdma_flags = rs_flags a, lid = rs_lid a, qp_num = rs_qp_num a,
       rem_vaddr = gpuvaddr g, rdma_size = ucast (gpu_buf_len g), rkey = rs_rkey0 a,
       gid0 = rs_gid0 a, gid1 = rs_gid1 a, dc_key = rs_dc_key a \<rparr>"

definition nvfs_set_rdma_reg_info_to_mgroup ::
    "kenv \<Rightarrow> nvfs_ioctl_set_rdma_reg_info_args \<Rightarrow> kstate \<Rightarrow> (int \<times> kstate) option" where
  "nvfs_set_rdma_reg_info_to_mgroup e a s =
     do { (mg, s1) \<leftarrow> nvfs_get_mgroup_from_vaddr e (rs_cpuvaddr a) s;
          case mg of
            None \<Rightarrow> Some (- EINVAL, s1)
          | Some p \<Rightarrow> do {
              let error = (rs_nkeys a = 0 \<or> rs_nkeys a > 1 \<or> rs_version a < NVFS_RDMA_MIN_SUPPORTED_VERSION);
              s2 \<leftarrow> upd_mgroup p (\<lambda>m. m\<lparr>rdma_info := (if error then zero_rdma_info else rdma_reg_info a (gpu_info m))\<rparr>) s1;
              s3 \<leftarrow> nvfs_mgroup_put e p s2;
              Some (if error then - EINVAL else 0, s3) } }"

definition nvfs_get_rdma_reg_info_from_mgroup ::
    "kenv \<Rightarrow> u64 \<Rightarrow> kstate \<Rightarrow> ((int + nvfs_rdma_info) \<times> kstate) option" where
  "nvfs_get_rdma_reg_info_from_mgroup e va s =
     do { (mg, s1) \<leftarrow> nvfs_get_mgroup_from_vaddr e va s;
          case mg of
            None \<Rightarrow> Some (Inl (- EINVAL), s1)
          | Some p \<Rightarrow> do {
              m \<leftarrow> mgroups s1 p;
              s2 \<leftarrow> nvfs_mgroup_put e p s1;
              Some (Inr (rdma_info m), s2) } }"

definition nvfs_clear_rdma_reg_info_in_mgroup :: "kenv \<Rightarrow> u64 \<Rightarrow> kstate \<Rightarrow> (int \<times> kstate) option" where
  "nvfs_clear_rdma_reg_info_in_mgroup e va s =
     do { (mg, s1) \<leftarrow> nvfs_get_mgroup_from_vaddr e va s;
          case mg of
            None \<Rightarrow> Some (- 1, s1)
          | Some p \<Rightarrow> do {
              s2 \<leftarrow> upd_mgroup p (\<lambda>m. m\<lparr>rdma_info := zero_rdma_info\<rparr>) s1;
              s3 \<leftarrow> nvfs_mgroup_put e p s2;
              Some (0, s3) } }"

section \<open>Lemmas\<close>

lemma at_vaddr_live: "at_vaddr e s va p m \<Longrightarrow> mgroups s p = Some m \<and> 0 < mg_ref m"
  by (auto simp: at_vaddr_def page_of_group_def hash_wf_def)

lemma at_vaddr_rdma:
  assumes "at_vaddr e s va p m"
  shows "at_vaddr e (s\<lparr>mgroups := (mgroups s)(p \<mapsto> m\<lparr>rdma_info := r\<rparr>)\<rparr>) va p (m\<lparr>rdma_info := r\<rparr>)"
proof -
  from assms obtain pg where pg: "pin_user_pages_fast e va 1 = (1, [pg])" "page_of_group e s p m 0 pg"
    by (auto simp: at_vaddr_def)
  let ?s = "s\<lparr>mgroups := (mgroups s)(p \<mapsto> m\<lparr>rdma_info := r\<rparr>)\<rparr>"
  have "page_of_group e ?s p (m\<lparr>rdma_info := r\<rparr>) 0 pg"
    using pg(2) by (simp add: page_of_group_def page_base_index_def rel_page_def NVFS_PAGE_INDEX_def mgroup_wf_def)
  moreover have "hash_wf ?s"
    using assms at_vaddr_live [OF assms] by (auto simp: at_vaddr_def hash_wf_def split: if_splits)
  ultimately show ?thesis using assms pg(1) by (simp add: at_vaddr_def)
qed

lemma set_rdma_effect:
  assumes "at_vaddr e s (rs_cpuvaddr a) p m"
  shows "nvfs_set_rdma_reg_info_to_mgroup e a s =
    (let ok = (rs_nkeys a = 1 \<and> 2 \<le> rs_version a)
     in Some (if ok then 0 else - EINVAL, s\<lparr>mgroups := (mgroups s)(p \<mapsto>
          m\<lparr>rdma_info := (if ok then rdma_reg_info a (gpu_info m) else zero_rdma_info)\<rparr>)\<rparr>))"
proof -
  have one: "(rs_nkeys a = 0 \<or> 1 < rs_nkeys a) = (rs_nkeys a \<noteq> 1)"
    by (auto simp: word_less_nat_alt word_unat_eq_iff)
  have put: "nvfs_mgroup_put e p (s\<lparr>mgroups := (mgroups s)(p \<mapsto> m\<lparr>mg_ref := mg_ref m + 1, rdma_info := r\<rparr>)\<rparr>) =
      Some (s\<lparr>mgroups := (mgroups s)(p \<mapsto> m\<lparr>rdma_info := r\<rparr>)\<rparr>)" for r
    using at_vaddr_live [OF assms] by (subst put_visited [where m = m]) simp_all
  show ?thesis
    by (cases "rs_nkeys a = 1 \<and> 2 \<le> rs_version a")
      (auto simp: nvfs_set_rdma_reg_info_to_mgroup_def get_mgroup_from_vaddr_ok [OF assms] upd_mgroup_def put Let_def not_le
        disj_assoc [symmetric] one)
qed

lemma get_rdma_effect:
  assumes "at_vaddr e s va p m"
  shows "nvfs_get_rdma_reg_info_from_mgroup e va s = Some (Inr (rdma_info m), s)"
  using get_mgroup_from_vaddr_ok [OF assms] put_visited [of s p m _ e] at_vaddr_live [OF assms]
  by (simp add: nvfs_get_rdma_reg_info_from_mgroup_def fun_upd_idem)

lemma clear_rdma_effect:
  assumes "at_vaddr e s va p m"
  shows "nvfs_clear_rdma_reg_info_in_mgroup e va s =
    Some (0, s\<lparr>mgroups := (mgroups s)(p \<mapsto> m\<lparr>rdma_info := zero_rdma_info\<rparr>)\<rparr>)"
  using get_mgroup_from_vaddr_ok [OF assms] put_visited [of s p m _ e] at_vaddr_live [OF assms]
  by (simp add: nvfs_clear_rdma_reg_info_in_mgroup_def upd_mgroup_def)

text \<open>
  C37. Registration data make a round trip. After a valid registration for the buffer at an
  address, reading it back gives the data of the request with the address of the GPU
  buffer, and leaves the state as it is; clearing it afterwards leaves the group with an empty
  record, as does a registration with a wrong number of keys or an old version, which fails with
  \<^verbatim>\<open>-EINVAL\<close>. No reference is left behind. The length that is handed out is the length of the
  GPU buffer modulo 4 GiB.
\<close>

theorem rdma_registration_roundtrip:
  assumes "at_vaddr e s (rs_cpuvaddr a) p m" and "rs_nkeys a = 1" and "2 \<le> rs_version a"
    and "s1 = s\<lparr>mgroups := (mgroups s)(p \<mapsto> m\<lparr>rdma_info := rdma_reg_info a (gpu_info m)\<rparr>)\<rparr>"
  shows "nvfs_set_rdma_reg_info_to_mgroup e a s = Some (0, s1) \<and>
    nvfs_get_rdma_reg_info_from_mgroup e (rs_cpuvaddr a) s1 = Some (Inr (rdma_reg_info a (gpu_info m)), s1) \<and>
    uint (rdma_size (rdma_reg_info a (gpu_info m))) = uint (gpu_buf_len (gpu_info m)) mod 2 ^ 32 \<and>
    nvfs_clear_rdma_reg_info_in_mgroup e (rs_cpuvaddr a) s1 =
     Some (0, s\<lparr>mgroups := (mgroups s)(p \<mapsto> m\<lparr>rdma_info := zero_rdma_info\<rparr>)\<rparr>) \<and>
    (\<forall>b. rs_cpuvaddr b = rs_cpuvaddr a \<and> (rs_nkeys b \<noteq> 1 \<or> rs_version b < 2) \<longrightarrow>
      nvfs_set_rdma_reg_info_to_mgroup e b s1 =
       Some (- EINVAL, s\<lparr>mgroups := (mgroups s)(p \<mapsto> m\<lparr>rdma_info := zero_rdma_info\<rparr>)\<rparr>))"
proof -
  have at1: "at_vaddr e s1 (rs_cpuvaddr a) p (m\<lparr>rdma_info := rdma_reg_info a (gpu_info m)\<rparr>)"
    unfolding assms(4) by (rule at_vaddr_rdma [OF assms(1)])
  have "nvfs_set_rdma_reg_info_to_mgroup e a s = Some (0, s1)"
    using set_rdma_effect [OF assms(1)] assms(2-4) by (simp add: Let_def)
  moreover have "nvfs_get_rdma_reg_info_from_mgroup e (rs_cpuvaddr a) s1 = Some (Inr (rdma_reg_info a (gpu_info m)), s1)"
    using get_rdma_effect [OF at1] by simp
  moreover have "uint (rdma_size (rdma_reg_info a (gpu_info m))) = uint (gpu_buf_len (gpu_info m)) mod 2 ^ 32"
    by (simp add: rdma_reg_info_def unsigned_ucast_eq take_bit_eq_mod)
  moreover have "nvfs_clear_rdma_reg_info_in_mgroup e (rs_cpuvaddr a) s1 =
      Some (0, s\<lparr>mgroups := (mgroups s)(p \<mapsto> m\<lparr>rdma_info := zero_rdma_info\<rparr>)\<rparr>)"
    using clear_rdma_effect [OF at1] assms(4) by simp
  moreover have "nvfs_set_rdma_reg_info_to_mgroup e b s1 =
      Some (- EINVAL, s\<lparr>mgroups := (mgroups s)(p \<mapsto> m\<lparr>rdma_info := zero_rdma_info\<rparr>)\<rparr>)"
    if "rs_cpuvaddr b = rs_cpuvaddr a" and "rs_nkeys b \<noteq> 1 \<or> rs_version b < 2" for b
    using set_rdma_effect [of e s1 b p] at1 assms(4) that by (auto simp: Let_def not_le)
  ultimately show ?thesis by blast
qed

definition ex_rdma :: nvfs_ioctl_set_rdma_reg_info_args where
  "ex_rdma = \<lparr> rs_cpuvaddr = 0x10000, rs_gid0 = 1, rs_gid1 = 2, rs_qp_num = 7, rs_lid = 3, rs_flags = 1,
     rs_version = 2, rs_dc_key = 9, rs_rkey0 = 11, rs_nkeys = 1 \<rparr>"

theorem rdma_registration_roundtrip_witness:
  "\<exists>s1. nvfs_set_rdma_reg_info_to_mgroup ex_env ex_rdma ex_io_state = Some (0, s1) \<and>
     nvfs_get_rdma_reg_info_from_mgroup ex_env 0x10000 s1 = Some (Inr (rdma_reg_info ex_rdma (gpu_info ex_io_group)), s1)"
proof -
  have "rs_cpuvaddr ex_rdma = ia_cpuvaddr ex_args" "rs_cpuvaddr ex_rdma = 0x10000" "rs_nkeys ex_rdma = 1" "2 \<le> rs_version ex_rdma"
    by (simp_all add: ex_rdma_def ex_args_def)
  then show ?thesis
    using rdma_registration_roundtrip [of ex_env ex_io_state ex_rdma 100 ex_io_group] ex_at_vaddr by auto
qed

end
