(* ===== verification/Nvfs_Batch.thy ===== *)
theory Nvfs_Batch
  imports Nvfs_Rdma
begin

text \<open>
  Batches of requests (\<^verbatim>\<open>nvfs-batch.c\<close>): all requests of a batch are set up first, and
  started one after the other afterwards.
\<close>

section \<open>Operations\<close>

abbreviation NVFS_MAX_BATCH_ENTRIES :: nat where "NVFS_MAX_BATCH_ENTRIES \<equiv> 256"

text \<open>
  A batch is the list of its requests, \<^verbatim>\<open>nvfsio[0..nents-1]\<close>. The clean-up of both operations
  frees the requests that it finds there.
\<close>

primrec batch_cleanup :: "kenv \<Rightarrow> mptr list \<Rightarrow> kstate \<Rightarrow> kstate option" where
  "batch_cleanup e [] s = Some s"
| "batch_cleanup e (p # ps) s = do { s1 \<leftarrow> nvfs_io_free e p (- EINVAL) s; batch_cleanup e ps s1 }"

definition batch_entry_stats :: "bool \<Rightarrow> nvfs_op \<Rightarrow> nvfs_stats \<Rightarrow> nvfs_stats" where
  "batch_entry_stats rw op st =
     (if \<not> rw then st
      else if op = READ then nvfs_stat nvfs_n_op_reads (nvfs_stat64 nvfs_n_reads st)
      else nvfs_stat nvfs_n_op_writes (nvfs_stat64 nvfs_n_writes st))"

text \<open>
  The loop of the set-up, over the entries as \<^verbatim>\<open>copy_from_user\<close> delivers them (\<open>None\<close> when it
  fails), with the requests set up so far.
\<close>

primrec batch_fill ::
    "kenv \<Rightarrow> fsenv \<Rightarrow> (nvfs_op \<times> nvfs_ioctl_ioargs) option list \<Rightarrow> mptr list \<Rightarrow> kstate \<Rightarrow> (mptr list errptr \<times> kstate) option" where
  "batch_fill e fs [] ps s = Some (Ptr ps, s)"
| "batch_fill e fs (x # xs) ps s =
     (case x of
        None \<Rightarrow> do { s1 \<leftarrow> batch_cleanup e ps s; Some (ErrPtr (- EFAULT), s1) }
      | Some (op, a) \<Rightarrow> do {
          (io, s1) \<leftarrow> nvfs_io_init e fs op a s;
          case io of
            Ptr p \<Rightarrow> do {
              s2 \<leftarrow> upd_io p (\<lambda>io. io\<lparr>rw_stats_enabled := rw_stats_on fs\<rparr>) (kstat (batch_entry_stats (rw_stats_on fs) op) s1);
              batch_fill e fs xs (ps @ [p]) s2 }
          | ErrPtr ret \<Rightarrow> do { s2 \<leftarrow> batch_cleanup e ps s1; Some (ErrPtr ret, s2) }
          | NullPtr \<Rightarrow> None })"

definition nvfs_io_batch_init ::
    "kenv \<Rightarrow> fsenv \<Rightarrow> u64 \<Rightarrow> (nat \<Rightarrow> (nvfs_op \<times> nvfs_ioctl_ioargs) option) \<Rightarrow> kstate \<Rightarrow> (mptr list errptr \<times> kstate) option" where
  "nvfs_io_batch_init e fs nents io_entries s =
     (if nents = 0 \<or> unat nents > NVFS_MAX_BATCH_ENTRIES then Some (ErrPtr (- EINVAL), s)
      else if \<not> kalloc_ok e AllocBatch then Some (ErrPtr (- ENOMEM), s)
      else batch_fill e fs (map io_entries [0 ..< unat nents]) [] s)"

text \<open>
  The loop of the submission, with the requests started so far: when one fails, the clean-up
  frees all others, started or not.
\<close>

primrec batch_start :: "kenv \<Rightarrow> fsenv \<Rightarrow> mptr list \<Rightarrow> mptr list \<Rightarrow> int \<Rightarrow> kstate \<Rightarrow> (int \<times> kstate) option" where
  "batch_start e fs [] started ret s =
     Some (ret, kstat (nvfs_update_batch_latency (clock_now fs) (clock_now' fs) (io_latency fs)) s)"
| "batch_start e fs (p # ps) started _ s =
     do { (ret, s1) \<leftarrow> nvfs_io_start_op e fs p s;
          if ret < 0
          then do { s2 \<leftarrow> batch_cleanup e (started @ ps) s1; Some (ret, s2) }
          else batch_start e fs ps (started @ [p]) ret s1 }"

definition nvfs_io_batch_submit :: "kenv \<Rightarrow> fsenv \<Rightarrow> mptr list \<Rightarrow> kstate \<Rightarrow> (int \<times> kstate) option" where
  "nvfs_io_batch_submit e fs nvfs_batch s = batch_start e fs nvfs_batch [] 0 s"

section \<open>A batch entry with an unknown operation\<close>

text \<open>
  C39. The operation of a batch entry is not validated. An entry whose \<^verbatim>\<open>optype\<close> is neither read
  nor write passes the permission check, whatever the mode of the file, and is executed as a
  read: with a file system that transfers what it is asked to read and refuses every write, the submission of such an entry
  for a file that is not open for reading transfers all its bytes into the GPU buffer, and no write is started; a read
  request on the same file is refused with \<^verbatim>\<open>-EBADF\<close>.
\<close>

theorem batch_optype_bypasses_permissions:
  assumes "args_ok fs OP_OTHER a f" and "at_vaddr e s (ia_cpuvaddr a) p m" and "io_state (gpu_info m) = IO_READY"
    and "settled m" and "run_env e fs f p OP_OTHER"
    and "io_fill OP_OTHER f a (in_flight (nvfsio m) m) = Some (0, io)" and "ia_sync a" and "ia_size a \<noteq> 0"
    and "nvfs_blocks_count m = b * 16" and "0 < b"
    and "uint (gpuvaddr (gpu_info m)) mod 65536 + uint (gpu_buf_len (gpu_info m)) < 2 ^ 64"
    and "ia_offset a + uint (ia_size a) < 2 ^ 63"
    and "\<not> fmode_read f" and "\<not> ia_allowreads a" and "\<not> rw_stats_on fs" and "kalloc_ok e AllocBatch"
    and "\<forall>fd buf len pos t. call_iter fs WRITE fd buf len pos t = Some (- EBADF, t)"
  shows "nvfs_io_init e fs READ a s =
      Some (ErrPtr (- EBADF), s\<lparr>klog := EvFdPut (ia_fd a) # EvFdGet (ia_fd a) # klog s\<rparr>) \<and>
    (\<exists>s1 s2 md io'. nvfs_io_batch_init e fs 1 (\<lambda>_. Some (OP_OTHER, a)) s = Some (Ptr [p], s1) \<and>
       nvfs_io_batch_submit e fs [p] s1 = Some (uint (ia_size a), s2) \<and>
       klog s2 = EvFdPut (ia_fd a) # EvFdGet (ia_fd a) # klog s \<and>
       mgroups s2 = (mgroups s)(p \<mapsto> m\<lparr>nvfs_metadata := md, nvfsio := io'\<rparr>) \<and> settled (m\<lparr>nvfs_metadata := md, nvfsio := io'\<rparr>))"
proof -
  have refused: "nvfs_io_init e fs READ a s =
      Some (ErrPtr (- EBADF), s\<lparr>klog := EvFdPut (ia_fd a) # EvFdGet (ia_fd a) # klog s\<rparr>)"
    using assms(1,13,14)
    by (simp add: nvfs_io_init_def args_ok_def nvfs_check_file_permissions_def klog_event_def Let_def not_less)
  have no_log: "concat (replicate c (piece_log OP_OTHER)) = []" for c by (induction c) (simp_all add: piece_log_def)
  obtain md io' s2 where run: "nvfs_io_start_op e fs p
      (s\<lparr>klog := EvFdGet (ia_fd a) # klog s, mgroups := (mgroups s)(p \<mapsto> in_flight io m)\<rparr>) = Some (uint (ia_size a), s2)"
      "klog s2 = EvFdPut (ia_fd a) # EvFdGet (ia_fd a) # klog s" "settled (m\<lparr>nvfs_metadata := md, nvfsio := io'\<rparr>)"
      "mgroups s2 = (mgroups s)(p \<mapsto> m\<lparr>nvfs_metadata := md, nvfsio := io'\<rparr>)"
    and init: "nvfs_io_init e fs OP_OTHER a s =
      Some (Ptr p, s\<lparr>klog := EvFdGet (ia_fd a) # klog s, mgroups := (mgroups s)(p \<mapsto> in_flight io m)\<rparr>)"
    using sync_request_outcome [OF assms(1-5) _ assms(6-12)] io_init_outcome [OF assms(1-3) _ assms(6)] assms(5)
    by (auto simp: run_env_def no_log)
  have "rw_stats_enabled io = False"
    using assms(6) by (auto simp: io_fill_def zero_nvfs_io_def Let_def split: if_splits)
  then have "io\<lparr>rw_stats_enabled := False\<rparr> = io" by simp
  then have "upd_io p (\<lambda>io. io\<lparr>rw_stats_enabled := False\<rparr>)
      (s\<lparr>klog := EvFdGet (ia_fd a) # klog s, mgroups := (mgroups s)(p \<mapsto> in_flight io m)\<rparr>) =
      Some (s\<lparr>klog := EvFdGet (ia_fd a) # klog s, mgroups := (mgroups s)(p \<mapsto> in_flight io m)\<rparr>)"
    by (simp add: upd_defs upd_mgroup_def in_flight_def)
  then have "nvfs_io_batch_init e fs 1 (\<lambda>_. Some (OP_OTHER, a)) s =
      Some (Ptr [p], s\<lparr>klog := EvFdGet (ia_fd a) # klog s, mgroups := (mgroups s)(p \<mapsto> in_flight io m)\<rparr>)"
    using init assms(15,16) by (simp add: nvfs_io_batch_init_def batch_entry_stats_def kstat_def)
  then show ?thesis using refused run by (auto simp: nvfs_io_batch_submit_def kstat_def)
qed

text \<open>A file that is not open for reading, in a file system that carries out reads only.\<close>

definition ex_wronly_fs :: fsenv where
  "ex_wronly_fs = ex_fs\<lparr>fd_file := [5 \<mapsto> ex_file\<lparr>fmode_read := False\<rparr>],
     call_iter := (\<lambda>op fd buf len pos s. if op = WRITE then Some (- EBADF, s) else call_iter ex_fs op fd buf len pos s)\<rparr>"

theorem batch_optype_bypasses_permissions_witness:
  "\<exists>s1 s2. nvfs_io_batch_init ex_env ex_wronly_fs 1 (\<lambda>_. Some (OP_OTHER, ex_args)) ex_io_state = Some (Ptr [100], s1) \<and>
     nvfs_io_batch_submit ex_env ex_wronly_fs [100] s1 = Some (0x3000, s2) \<and> klog s2 = EvFdPut 5 # EvFdGet 5 # klog ex_io_state"
proof -
  let ?f = "ex_file\<lparr>fmode_read := False\<rparr>"
  have g: "nvfs_blocks_count ex_io_group = 1 * 16" "gpuvaddr (gpu_info ex_io_group) = 0x20000"
    "gpu_buf_len (gpu_info ex_io_group) = 0x10000"
    by (simp_all add: ex_io_group_def ex_init_group_def ex_group_def ex_ready_gpu_def)
  have fill: "\<exists>io. io_fill OP_OTHER ?f ex_args (in_flight (nvfsio ex_io_group) ex_io_group) = Some (0, io)"
    using g by (simp add: io_fill_def io_va_offset_def ex_file_def ex_args_def GPU_PAGE_MASK_def zero_nvfs_io_def Let_def
        in_flight_def with_io_state_def)
  then obtain io where io: "io_fill OP_OTHER ?f ex_args (in_flight (nvfsio ex_io_group) ex_io_group) = Some (0, io)" by blast
  have args: "args_ok ex_wronly_fs OP_OTHER ex_args ?f"
    by (simp add: args_ok_def ex_args_def ex_wronly_fs_def ex_file_def nvfs_check_file_permissions_def io_check_file_def)
  have env: "run_env ex_env ex_wronly_fs ?f 100 OP_OTHER"
    using ex_run_env by (simp add: run_env_def file_ok_def serves_def ex_wronly_fs_def ex_file_def ex_fs_def)
  have a: "ia_sync ex_args" "ia_size ex_args = 0x3000" "ia_offset ex_args = 0" "\<not> ia_allowreads ex_args"
    "\<not> rw_stats_on ex_wronly_fs" "kalloc_ok ex_env AllocBatch" "ia_fd ex_args = 5"
    "\<forall>fd buf len pos t. call_iter ex_wronly_fs WRITE fd buf len pos t = Some (- EBADF, t)"
    by (simp_all add: ex_args_def ex_wronly_fs_def ex_fs_def ex_env_def)
  show ?thesis
    using batch_optype_bypasses_permissions [OF args ex_at_vaddr ex_io_wf(5,4) env io a(1) _ g(1)] g a by auto
qed

section \<open>A failed submission\<close>

text \<open>A write to a file system that needs \<^verbatim>\<open>fallocate\<close> but does not have it ends at once.\<close>

lemma start_op_no_fallocate:
  assumes "mgroups s q = Some m" and "io_op (nvfsio m) = WRITE" and "io_sync (nvfsio m)"
    and "io_state (gpu_info m) = IO_IN_PROGRESS" and "mg_ref m \<noteq> 1" and "no_faults e"
    and "fd_file fs (io_fd (nvfsio m)) = Some f" and "\<not> f_block f" and "nvfs_need_fallocate f" and "f_fallocate f = None"
  shows "\<exists>st. nvfs_io_start_op e fs q s = Some (- EIO,
    s\<lparr>mgroups := (mgroups s)(q \<mapsto> with_io_state IO_READY (m\<lparr>mg_ref := mg_ref m - 1\<rparr>)),
      klog := EvFdPut (io_fd (nvfsio m)) # klog s, kstats := st\<rparr>)"
proof -
  obtain st where "nvfs_io_free e q (- EIO) s = Some
    (s\<lparr>mgroups := (mgroups s)(q \<mapsto> with_io_state IO_READY (m\<lparr>mg_ref := mg_ref m - 1\<rparr>)),
      klog := EvFdPut (io_fd (nvfsio m)) # klog s, kstats := st\<rparr>)"
    using io_free_sync [OF assms(1,5,4,3,6)] by blast
  then show ?thesis
    using assms by (intro exI [of _ st]) (simp add: nvfs_io_start_op_def io_prepare_write_def)
qed

text \<open>Freeing a request that has been freed before: one more reference is dropped, and the group is poisoned.\<close>

lemma io_free_again:
  assumes "mgroups s p = Some m" and "io_state (gpu_info m) = IO_READY" and "io_sync (nvfsio m)"
    and "mg_ref m \<noteq> 1" and "no_faults e"
  shows "\<exists>st. nvfs_io_free e p res s = Some
    (s\<lparr>mgroups := (mgroups s)(p \<mapsto> with_io_state IO_CALLBACK_END (m\<lparr>mg_ref := mg_ref m - 1\<rparr>)),
      klog := EvWakeUp p # EvFdPut (io_fd (nvfsio m)) # klog s, kstats := st\<rparr>)"
proof -
  define s1 where "s1 = klog_event (EvFdPut (io_fd (nvfsio m))) (kstat (io_free_stats (nvfsio m) res) s)"
  let ?m1 = "m\<lparr>mg_ref := mg_ref m - 1\<rparr>"
  let ?s2 = "s1\<lparr>mgroups := (mgroups s1)(p \<mapsto> ?m1)\<rparr>"
  have put: "nvfs_mgroup_put e p s1 = Some ?s2"
    using put_shared_effect [of s1 p m e False] assms(1,4) by (simp add: nvfs_mgroup_put_def s1_def)
  have t: "nvfs_transit_state e p True IO_IN_PROGRESS IO_READY ?s2 =
      Some (False, klog_event (EvWakeUp p) (?s2\<lparr>mgroups := (mgroups ?s2)(p \<mapsto> with_io_state IO_CALLBACK_END ?m1)\<rparr>))"
    using assms(2,5) by (intro transit_fail_end) (simp_all add: no_faults_def)
  have "nvfs_io_free e p res s =
      Some (klog_event (EvWakeUp p) (s1\<lparr>mgroups := (mgroups s1)(p \<mapsto> with_io_state IO_CALLBACK_END ?m1)\<rparr>))"
    using assms(1,3) put t by (simp add: nvfs_io_free_def s1_def [symmetric])
  then show ?thesis
    by (intro exI [of _ "io_free_stats (nvfsio m) res (kstats s)"]) (simp add: s1_def kstat_def klog_event_def)
qed

text \<open>
  C40. A batch that fails on the way frees finished requests again. If a synchronous request of
  the batch has completed and the next one fails to start, the clean-up frees the completed
  one a second time: the group loses a reference that the request did not hold any more, its
  state is overwritten with \<^verbatim>\<open>IO_CALLBACK_END\<close>, so that no later request can use
  the buffer, and the file is put twice.
\<close>

theorem batch_failure_frees_twice:
  assumes "mgroups s p = Some m" and "run_ready e fs f p m" and "2 < mg_ref m"
    and "mgroups s q = Some n" and "q \<noteq> p" and "io_op (nvfsio n) = WRITE" and "io_sync (nvfsio n)"
    and "io_state (gpu_info n) = IO_IN_PROGRESS" and "mg_ref n \<noteq> 1"
    and "fd_file fs (io_fd (nvfsio n)) = Some f'" and "\<not> f_block f'" and "nvfs_need_fallocate f'" and "f_fallocate f' = None"
  shows "\<exists>s' m' c. nvfs_io_batch_submit e fs [p, q] s = Some (- EIO, s') \<and> mgroups s' p = Some m' \<and>
    io_state (gpu_info m') = IO_CALLBACK_END \<and> mg_ref m' = mg_ref m - 2 \<and>
    klog s' = EvWakeUp p # EvFdPut (io_fd (nvfsio m)) # EvFdPut (io_fd (nvfsio n)) #
      EvFdPut (io_fd (nvfsio m)) # concat (replicate c (piece_log (io_op (nvfsio m)))) @ klog s"
proof -
  have nf: "no_faults e" using assms(2) by (simp add: run_ready_def request_ready_def run_env_def)
  have ref: "mg_ref m \<noteq> 1" using assms(3) by simp
  obtain m1 st c where m1: "same_request m m1" and run: "nvfs_io_start_op e fs p s = Some (uint (io_length (nvfsio m)),
      s\<lparr>mgroups := (mgroups s)(p \<mapsto> with_io_state IO_READY (m1\<lparr>mg_ref := mg_ref m1 - 1\<rparr>)),
        klog := EvFdPut (io_fd (nvfsio m)) # concat (replicate c (piece_log (io_op (nvfsio m)))) @ klog s, kstats := st\<rparr>)"
    using run_ready_served [OF assms(2,1) ref] by blast
  define m2 where "m2 = with_io_state IO_READY (m1\<lparr>mg_ref := mg_ref m1 - 1\<rparr>)"
  have m2: "io_state (gpu_info m2) = IO_READY" "mg_ref m2 = mg_ref m - 1" "io_sync (nvfsio m2)"
    "io_fd (nvfsio m2) = io_fd (nvfsio m)"
    using same_request_group [OF m1] assms(2) by (simp_all add: m2_def io_same_def run_ready_def request_ready_def)
  define s1 where "s1 = s\<lparr>mgroups := (mgroups s)(p \<mapsto> m2),
        klog := EvFdPut (io_fd (nvfsio m)) # concat (replicate c (piece_log (io_op (nvfsio m)))) @ klog s, kstats := st\<rparr>"
  have s1: "mgroups s1 q = Some n" "mgroups s1 p = Some m2" using assms(4,5) by (simp_all add: s1_def)
  obtain st2 where fail: "nvfs_io_start_op e fs q s1 = Some (- EIO,
      s1\<lparr>mgroups := (mgroups s1)(q \<mapsto> with_io_state IO_READY (n\<lparr>mg_ref := mg_ref n - 1\<rparr>)),
        klog := EvFdPut (io_fd (nvfsio n)) # klog s1, kstats := st2\<rparr>)" (is "_ = Some (_, ?s2)")
    using start_op_no_fallocate [OF s1(1) assms(6-9) nf assms(10-13)] by blast
  have "mgroups ?s2 p = Some m2" using s1(2) assms(5) by simp
  then obtain st3 where again: "nvfs_io_free e p (- EINVAL) ?s2 = Some
      (?s2\<lparr>mgroups := (mgroups ?s2)(p \<mapsto> with_io_state IO_CALLBACK_END (m2\<lparr>mg_ref := mg_ref m2 - 1\<rparr>)),
        klog := EvWakeUp p # EvFdPut (io_fd (nvfsio m2)) # klog ?s2, kstats := st3\<rparr>)"
    using io_free_again [of ?s2 p m2 e "- EINVAL"] m2 assms(3) nf by auto
  have "nvfs_io_start_op e fs p s = Some (uint (io_length (nvfsio m)), s1)" using run by (simp add: s1_def m2_def)
  then have "nvfs_io_batch_submit e fs [p, q] s = Some (- EIO,
      ?s2\<lparr>mgroups := (mgroups ?s2)(p \<mapsto> with_io_state IO_CALLBACK_END (m2\<lparr>mg_ref := mg_ref m2 - 1\<rparr>)),
        klog := EvWakeUp p # EvFdPut (io_fd (nvfsio m2)) # klog ?s2, kstats := st3\<rparr>)"
    using fail again by (simp add: nvfs_io_batch_submit_def)
  then show ?thesis using m2 by (auto simp: s1_def)
qed

text \<open>Two requests of a batch: a read of three blocks, and a write to a file without \<^verbatim>\<open>fallocate\<close>.\<close>

definition ex_read_group :: nvfs_io_mgroup where
  "ex_read_group = in_flight (zero_nvfs_io\<lparr>io_op := READ, io_sync := True, io_fd := 5, io_length := 0x3000,
     gpu_page_offset := 0x2000\<rparr>) ex_io_group"

definition ex_nofalloc_group :: nvfs_io_mgroup where
  "ex_nofalloc_group = in_flight (zero_nvfs_io\<lparr>io_op := WRITE, io_sync := True, io_fd := 6, io_length := 0x1000\<rparr>) ex_io_group"

definition ex_batch_fs :: fsenv where
  "ex_batch_fs = ex_fs\<lparr>fd_file := [5 \<mapsto> ex_file, 6 \<mapsto> ex_file\<lparr>f_fallocate := None\<rparr>]\<rparr>"

lemma ex_run_ready: "run_ready ex_env ex_batch_fs ex_file 100 ex_read_group"
proof -
  have "run_env ex_env ex_batch_fs ex_file 100 READ"
    using ex_run_env by (simp add: run_env_def file_ok_def serves_def ex_batch_fs_def)
  moreover have "mgroup_wf ex_env ex_read_group" "settled ex_read_group"
    using ex_io_wf(3,4)
    by (simp_all add: ex_read_group_def in_flight_def with_io_state_def mgroup_wf_def settled_def block_state_def)
  moreover have "nvfs_blocks_count ex_read_group = 16"
    by (simp add: ex_read_group_def in_flight_def with_io_state_def ex_io_group_def ex_init_group_def ex_group_def)
  ultimately show ?thesis
    by (simp add: run_ready_def request_ready_def run_fits_def ex_batch_fs_def ex_read_group_def in_flight_def zero_nvfs_io_def)
qed

theorem batch_failure_frees_twice_witness:
  "\<exists>s' m'. nvfs_io_batch_submit ex_env ex_batch_fs [100, 101]
       (ex_io_state\<lparr>mgroups := [100 \<mapsto> ex_read_group, 101 \<mapsto> ex_nofalloc_group]\<rparr>) = Some (- EIO, s') \<and>
     mgroups s' 100 = Some m' \<and> io_state (gpu_info m') = IO_CALLBACK_END \<and> mg_ref m' = 1"
proof -
  have "mg_ref ex_read_group = 3" by (simp add: ex_read_group_def in_flight_def ex_io_group_def)
  moreover have "io_op (nvfsio ex_nofalloc_group) = WRITE" "io_sync (nvfsio ex_nofalloc_group)"
    "io_state (gpu_info ex_nofalloc_group) = IO_IN_PROGRESS" "mg_ref ex_nofalloc_group \<noteq> 1"
    "io_fd (nvfsio ex_nofalloc_group) = 6"
    by (simp_all add: ex_nofalloc_group_def in_flight_def ex_io_group_def)
  moreover have "fd_file ex_batch_fs 6 = Some (ex_file\<lparr>f_fallocate := None\<rparr>)" "\<not> f_block ex_file" "nvfs_need_fallocate (ex_file\<lparr>f_fallocate := None\<rparr>)"
    by (simp_all add: ex_batch_fs_def nvfs_need_fallocate_def ex_file_def)
  ultimately show ?thesis
    using batch_failure_frees_twice [OF _ ex_run_ready, of "ex_io_state\<lparr>mgroups := [100 \<mapsto> ex_read_group, 101 \<mapsto> ex_nofalloc_group]\<rparr>"
      101 ex_nofalloc_group "ex_file\<lparr>f_fallocate := None\<rparr>"] by fastforce
qed

end
