(* ===== verification/Nvfs_Ioctl.thy ===== *)
theory Nvfs_Ioctl
  imports Nvfs_Batch
begin

text \<open>
  The dispatch of the requests from user space, \<^verbatim>\<open>nvfs_ioctl\<close> of \<^verbatim>\<open>nvfs-core.c\<close>.
\<close>

section \<open>The dispatcher\<close>

text \<open>
  The requests with their argument, the union \<^verbatim>\<open>nvfs_ioctl_param_union\<close> as the handler reads it;
  \<open>IOCTL_OTHER\<close> is any other number.
\<close>

datatype ioctl_cmd =
    NVFS_IOCTL_REMOVE
  | NVFS_IOCTL_READ nvfs_ioctl_ioargs
  | NVFS_IOCTL_WRITE nvfs_ioctl_ioargs
  | NVFS_IOCTL_MAP nvfs_ioctl_map
  | NVFS_IOCTL_BATCH_IO u64 "nat \<Rightarrow> (nvfs_op \<times> nvfs_ioctl_ioargs) option"
  | NVFS_IOCTL_SET_RDMA_REG_INFO nvfs_ioctl_set_rdma_reg_info_args
  | NVFS_IOCTL_GET_RDMA_REG_INFO u64
  | NVFS_IOCTL_CLEAR_RDMA_REG_INFO u64
  | IOCTL_OTHER

text \<open>What the caller finds in its parameter block: \<^verbatim>\<open>ioctl_return\<close>, or the registration data.\<close>

datatype ioctl_out = NoOut | IoctlReturn int | RdmaOut nvfs_rdma_info

text \<open>The copies to and from user space: the number of bytes that could not be copied.\<close>

record ucopy =
  copy_from_user :: nat
  copy_to_user :: nat

text \<open>
  The caller receives the result when the copy succeeds and reaches it: \<^verbatim>\<open>ioctl_return\<close> occupies the
  bytes 32 to 39 of the parameter block. The block has 104 bytes, the size of its largest member,
  the arguments of an RDMA registration; the arguments of a batch have 24.
\<close>

abbreviation SIZEOF_PARAM_UNION :: nat where "SIZEOF_PARAM_UNION \<equiv> 104"
abbreviation SIZEOF_BATCH_IOARGS :: nat where "SIZEOF_BATCH_IOARGS \<equiv> 24"
abbreviation OFFSETOF_IOCTL_RETURN :: nat where "OFFSETOF_IOCTL_RETURN \<equiv> 32"

definition copied_out :: "ucopy \<Rightarrow> nat \<Rightarrow> int \<Rightarrow> ioctl_out" where
  "copied_out u n r =
     (if copy_to_user u = 0 \<and> OFFSETOF_IOCTL_RETURN + 8 \<le> n then IoctlReturn r else NoOut)"

definition get_rwop :: "ioctl_cmd \<Rightarrow> nvfs_op option" where
  "get_rwop c = (case c of NVFS_IOCTL_READ _ \<Rightarrow> Some READ | NVFS_IOCTL_WRITE _ \<Rightarrow> Some WRITE
     | NVFS_IOCTL_BATCH_IO _ _ \<Rightarrow> Some READ | _ \<Rightarrow> None)"

definition rw_begin_stats :: "bool \<Rightarrow> nvfs_op \<Rightarrow> nvfs_stats \<Rightarrow> nvfs_stats" where
  "rw_begin_stats rw op st =
     (if \<not> rw then st
      else if op = READ then nvfs_stat nvfs_n_op_reads (nvfs_stat64 nvfs_n_reads st)
      else nvfs_stat nvfs_n_op_writes (nvfs_stat64 nvfs_n_writes st))"

definition rw_fail_stats :: "bool \<Rightarrow> nvfs_op \<Rightarrow> nvfs_stats \<Rightarrow> nvfs_stats" where
  "rw_fail_stats rw op st =
     (if op = READ then
        let st1 = nvfs_stat nvfs_n_read_err st in if rw then nvfs_stat_d nvfs_n_op_reads st1 else st1
      else
        let st1 = nvfs_stat nvfs_n_write_err st in if rw then nvfs_stat_d nvfs_n_op_writes st1 else st1)"

definition ioctl_rw ::
    "kenv \<Rightarrow> fsenv \<Rightarrow> ucopy \<Rightarrow> nvfs_op \<Rightarrow> nvfs_ioctl_ioargs \<Rightarrow> kstate \<Rightarrow> (int \<times> ioctl_out \<times> kstate) option" where
  "ioctl_rw e fs u op a s =
     do { let rw = rw_stats_on fs;
          (io, s1) \<leftarrow> nvfs_io_init e fs op a (kstat (rw_begin_stats rw op) s);
          case io of
            ErrPtr r \<Rightarrow> Some (- 1, copied_out u SIZEOF_PARAM_UNION r, kstat (rw_fail_stats rw op) s1)
          | Ptr p \<Rightarrow> do {
              s2 \<leftarrow> upd_io p (\<lambda>io. io\<lparr>rw_stats_enabled := rw\<rparr>) s1;
              (r, s3) \<leftarrow> nvfs_io_start_op e fs p s2;
              Some (if copy_to_user u \<noteq> 0 \<or> r < 0 then - 1 else 0, copied_out u SIZEOF_PARAM_UNION r, s3) }
          | NullPtr \<Rightarrow> None }"

definition ioctl_batch ::
    "kenv \<Rightarrow> fsenv \<Rightarrow> ucopy \<Rightarrow> u64 \<Rightarrow> (nat \<Rightarrow> (nvfs_op \<times> nvfs_ioctl_ioargs) option) \<Rightarrow> kstate \<Rightarrow>
     (int \<times> ioctl_out \<times> kstate) option" where
  "ioctl_batch e fs u nents entries s =
     do { let rw = rw_stats_on fs;
          let begin_ops = (\<lambda>st. if rw then nvfs_stat nvfs_n_op_batches (nvfs_stat64 nvfs_n_batches st) else st);
          let end_ops = (\<lambda>st. if rw then nvfs_stat_d nvfs_n_op_batches st else st);
          (b, s1) \<leftarrow> nvfs_io_batch_init e fs nents entries (kstat begin_ops s);
          case b of
            ErrPtr r \<Rightarrow> Some (- 1, copied_out u SIZEOF_BATCH_IOARGS r, kstat (\<lambda>st. end_ops (nvfs_stat nvfs_n_batch_err st)) s1)
          | Ptr ps \<Rightarrow> do {
              (r, s2) \<leftarrow> nvfs_io_batch_submit e fs ps s1;
              let s3 = kstat (if r < 0 then nvfs_stat nvfs_n_batch_err else nvfs_stat64 nvfs_n_batches_ok) s2;
              let s4 = (if copy_to_user u \<noteq> 0 then kstat (nvfs_stat nvfs_n_batch_err) s3 else s3);
              Some (if copy_to_user u \<noteq> 0 \<or> r < 0 then - 1 else 0, copied_out u SIZEOF_BATCH_IOARGS r, kstat end_ops s4) }
          | NullPtr \<Rightarrow> None }"

definition ioctl_map ::
    "kenv \<Rightarrow> ucopy \<Rightarrow> nvfs_ioctl_map \<Rightarrow> kstate \<Rightarrow> (int \<times> ioctl_out \<times> kstate) option" where
  "ioctl_map e u inp s =
     do { (ret, s1) \<leftarrow> nvfs_map e inp (kstat (\<lambda>st. nvfs_stat nvfs_n_op_maps (nvfs_stat64 nvfs_n_maps st)) s);
          if ret \<noteq> 0
          then Some (- 1, copied_out u SIZEOF_PARAM_UNION ret, kstat (\<lambda>st. nvfs_stat_d nvfs_n_op_maps (nvfs_stat nvfs_n_map_err st)) s1)
          else Some (if copy_to_user u \<noteq> 0 then - EFAULT else 0, NoOut, kstat (nvfs_stat64 nvfs_n_maps_ok) s1) }"

text \<open>The three requests on the registration of a buffer; the errors of the operations are passed on.\<close>

definition ioctl_set_rdma :: "kenv \<Rightarrow> nvfs_ioctl_set_rdma_reg_info_args \<Rightarrow> kstate \<Rightarrow> (int \<times> ioctl_out \<times> kstate) option" where
  "ioctl_set_rdma e a s = do { (ret, s1) \<leftarrow> nvfs_set_rdma_reg_info_to_mgroup e a s; Some (ret, NoOut, s1) }"

definition ioctl_get_rdma :: "kenv \<Rightarrow> ucopy \<Rightarrow> u64 \<Rightarrow> kstate \<Rightarrow> (int \<times> ioctl_out \<times> kstate) option" where
  "ioctl_get_rdma e u va s =
     do { (r, s1) \<leftarrow> nvfs_get_rdma_reg_info_from_mgroup e va s;
          case r of
            Inl ret \<Rightarrow> Some (ret, NoOut, s1)
          | Inr info \<Rightarrow> Some (int (copy_to_user u), if copy_to_user u = 0 then RdmaOut info else NoOut, s1) }"

definition ioctl_clear_rdma :: "kenv \<Rightarrow> u64 \<Rightarrow> kstate \<Rightarrow> (int \<times> ioctl_out \<times> kstate) option" where
  "ioctl_clear_rdma e va s = do { (ret, s1) \<leftarrow> nvfs_clear_rdma_reg_info_in_mgroup e va s; Some (ret, NoOut, s1) }"

definition nvfs_ioctl ::
    "kenv \<Rightarrow> fsenv \<Rightarrow> bool \<Rightarrow> ucopy \<Rightarrow> ioctl_cmd \<Rightarrow> kstate \<Rightarrow> (int \<times> ioctl_out \<times> kstate) option" where
  "nvfs_ioctl e fs nvfs_shutdown u cmd s =
     (if copy_from_user u \<noteq> 0 then Some (- ENOMEM, NoOut, s)
      else if nvfs_shutdown then Some (- EINVAL, NoOut, s)
      else case cmd of
        NVFS_IOCTL_REMOVE \<Rightarrow> Some (0, NoOut, s)
      | NVFS_IOCTL_READ a \<Rightarrow> ioctl_rw e fs u (the (get_rwop cmd)) a s
      | NVFS_IOCTL_WRITE a \<Rightarrow> ioctl_rw e fs u (the (get_rwop cmd)) a s
      | NVFS_IOCTL_BATCH_IO n entries \<Rightarrow> ioctl_batch e fs u n entries s
      | NVFS_IOCTL_MAP inp \<Rightarrow> ioctl_map e u inp s
      | NVFS_IOCTL_SET_RDMA_REG_INFO a \<Rightarrow> ioctl_set_rdma e a s
      | NVFS_IOCTL_GET_RDMA_REG_INFO va \<Rightarrow> ioctl_get_rdma e u va s
      | NVFS_IOCTL_CLEAR_RDMA_REG_INFO va \<Rightarrow> ioctl_clear_rdma e va s
      | IOCTL_OTHER \<Rightarrow> Some (- ENOTTY, NoOut, s))"

section \<open>A request from user space\<close>

lemma at_vaddr_kstat: "at_vaddr e s va p m \<Longrightarrow> at_vaddr e (kstat f s) va p m"
  by (auto simp: at_vaddr_def page_of_group_def page_base_index_def rel_page_def NVFS_PAGE_INDEX_def elim: hash_wf_same)

text \<open>What a request does to the log of the driver: files are opened and closed, writes started and ended.\<close>

definition io_event :: "kevent \<Rightarrow> bool" where
  "io_event ev = (case ev of EvFdGet _ \<Rightarrow> True | EvFdPut _ \<Rightarrow> True | EvStartWrite \<Rightarrow> True | EvEndWrite \<Rightarrow> True | _ \<Rightarrow> False)"

text \<open>The effect of a request on the state: the blocks and the request of its group, the log and the counters.\<close>

definition request_done :: "mptr \<Rightarrow> nvfs_io_mgroup \<Rightarrow> nvfs_io_mgroup \<Rightarrow> kstate \<Rightarrow> kstate \<Rightarrow> bool" where
  "request_done p m m' s s' \<longleftrightarrow> (\<exists>md io L ct. m' = m\<lparr>nvfs_metadata := md, nvfsio := io\<rparr> \<and> (\<forall>ev \<in> set L. io_event ev) \<and>
     s' = s\<lparr>mgroups := (mgroups s)(p \<mapsto> m'), klog := L @ klog s, kstats := (kstats s)\<lparr>counter := ct\<rparr>\<rparr>)"

lemma request_doneE:
  assumes "request_done p m m' s s'"
  obtains md io L where "m' = m\<lparr>nvfs_metadata := md, nvfsio := io\<rparr>" "mgroups s' = (mgroups s)(p \<mapsto> m')" "page_refs s' = page_refs s"
    "nvfs_n_ops s' = nvfs_n_ops s" "kpages s' = kpages s" "nvfs_io_mgroup_hash s' = nvfs_io_mgroup_hash s"
    "gpu_stat_hash (kstats s') = gpu_stat_hash (kstats s)" "klog s' = L @ klog s" "\<forall>ev \<in> set L. io_event ev"
proof -
  from assms obtain md io L ct where m': "m' = m\<lparr>nvfs_metadata := md, nvfsio := io\<rparr>" and L: "\<forall>ev \<in> set L. io_event ev"
    and s': "s' = s\<lparr>mgroups := (mgroups s)(p \<mapsto> m'), klog := L @ klog s, kstats := (kstats s)\<lparr>counter := ct\<rparr>\<rparr>"
    unfolding request_done_def by (elim exE conjE)
  show ?thesis by (rule that [OF m' _ _ _ _ _ _ _ L]) (simp_all add: s')
qed

lemma rw_stats_counters:
  "gpu_stat_hash (rw_begin_stats rw op st) = gpu_stat_hash st" "gpu_stat_hash (rw_fail_stats rw op st) = gpu_stat_hash st"
  by (simp_all add: rw_begin_stats_def rw_fail_stats_def stat_ops Let_def)

lemma piece_log_events: "ev \<in> set (concat (replicate c (piece_log op))) \<Longrightarrow> io_event ev"
  by (auto simp: piece_log_def io_event_def split: if_splits)

text \<open>A request that passes the set-up is started; what the start returns is handed out.\<close>

definition request_started :: "fsenv \<Rightarrow> nvfs_op \<Rightarrow> nvfs_ioctl_ioargs \<Rightarrow> mptr \<Rightarrow> nvfs_io \<Rightarrow> nvfs_io_mgroup \<Rightarrow> kstate \<Rightarrow> kstate" where
  "request_started fs op a p io m s = (kstat (rw_begin_stats (rw_stats_on fs) op) s)\<lparr>klog := EvFdGet (ia_fd a) # klog s,
     mgroups := (mgroups s)(p \<mapsto> in_flight (io\<lparr>rw_stats_enabled := rw_stats_on fs\<rparr>) m)\<rparr>"

lemma ioctl_accepted:
  assumes "cmd = NVFS_IOCTL_READ a \<and> op = READ \<or> cmd = NVFS_IOCTL_WRITE a \<and> op = WRITE"
    and "copy_from_user u = 0" and "copy_to_user u = 0"
    and "args_ok fs op a f" and "at_vaddr e s (ia_cpuvaddr a) p m" and "io_state (gpu_info m) = IO_READY"
    and "no_faults e" and "io_fill op f a (in_flight (nvfsio m) m) = Some (0, io)"
  shows "nvfs_ioctl e fs False u cmd s =
    map_option (\<lambda>(r, s'). (if r < 0 then - 1 else 0, IoctlReturn r, s')) (nvfs_io_start_op e fs p (request_started fs op a p io m s))"
proof -
  let ?s0 = "kstat (rw_begin_stats (rw_stats_on fs) op) s"
  let ?s1 = "?s0\<lparr>klog := EvFdGet (ia_fd a) # klog ?s0, mgroups := (mgroups ?s0)(p \<mapsto> in_flight io m)\<rparr>"
  have call: "nvfs_ioctl e fs False u cmd s = ioctl_rw e fs u op a s"
    using assms(1,2) by (auto simp: nvfs_ioctl_def get_rwop_def)
  have "at_vaddr e ?s0 (ia_cpuvaddr a) p m" by (rule at_vaddr_kstat [OF assms(5)])
  then have init: "nvfs_io_init e fs op a ?s0 = Some (Ptr p, ?s1)"
    using io_init_outcome [OF assms(4) _ assms(6-8)] by simp
  have upd: "upd_io p (\<lambda>io. io\<lparr>rw_stats_enabled := rw_stats_on fs\<rparr>) ?s1 = Some (request_started fs op a p io m s)"
    by (simp add: request_started_def upd_defs upd_mgroup_def in_flight_def) (simp add: kstat_def)
  show ?thesis
    unfolding call using init upd
    by (cases "nvfs_io_start_op e fs p (request_started fs op a p io m s)") (auto simp: ioctl_rw_def copied_out_def assms(3) Let_def)
qed

lemma ioctl_request_effect:
  assumes "cmd = NVFS_IOCTL_READ a \<and> op = READ \<or> cmd = NVFS_IOCTL_WRITE a \<and> op = WRITE"
    and "copy_from_user u = 0" and "copy_to_user u = 0"
    and "args_ok fs op a f" and "at_vaddr e s (ia_cpuvaddr a) p m" and "io_state (gpu_info m) = IO_READY"
    and "settled m" and "run_env e fs f p op" and "op = WRITE \<longrightarrow> write_ready f"
    and "io_fill op f a (in_flight (nvfsio m) m) = Some (ret, io)" and "ia_sync a" and "ia_size a \<noteq> 0"
    and "nvfs_blocks_count m = b * 16" and "0 < b"
    and "uint (gpuvaddr (gpu_info m)) mod 65536 + uint (gpu_buf_len (gpu_info m)) < 2 ^ 64"
    and "ia_offset a + uint (ia_size a) < 2 ^ 63"
  shows "\<exists>s' m'. nvfs_ioctl e fs False u cmd s =
      Some (if ret = 0 then 0 else - 1, IoctlReturn (if ret = 0 then uint (ia_size a) else ret), s') \<and>
    request_done p m m' s s' \<and> settled m' \<and> mgroup_wf e m'"
proof -
  let ?s0 = "kstat (rw_begin_stats (rw_stats_on fs) op) s"
  have call: "nvfs_ioctl e fs False u cmd s = ioctl_rw e fs u op a s"
    using assms(1,2) by (auto simp: nvfs_ioctl_def get_rwop_def)
  have nf: "no_faults e" using assms(8) by (simp add: run_env_def)
  have at0: "at_vaddr e ?s0 (ia_cpuvaddr a) p m" by (rule at_vaddr_kstat [OF assms(5)])
  note init = io_init_outcome [OF assms(4) at0 assms(6) nf assms(10)]
  have wf: "mgroup_wf e m" using assms(5) by (auto simp: at_vaddr_def page_of_group_def)
  show ?thesis
  proof (cases "ret = 0")
    case False
    let ?m = "m\<lparr>nvfs_metadata := nvfs_metadata m, nvfsio := io\<rparr>"
    let ?s = "kstat (rw_fail_stats (rw_stats_on fs) op) (?s0\<lparr>klog := EvFdPut (ia_fd a) # EvFdGet (ia_fd a) # klog ?s0,
      mgroups := (mgroups ?s0)(p \<mapsto> m\<lparr>nvfsio := io\<rparr>)\<rparr>)"
    have "request_done p m ?m s ?s"
      unfolding request_done_def
      by (rule exI [of _ "nvfs_metadata m"], rule exI [of _ io], rule exI [of _ "[EvFdPut (ia_fd a), EvFdGet (ia_fd a)]"],
          rule exI [of _ "counter (kstats ?s)"]) (simp add: io_event_def kstat_def rw_stats_counters)
    moreover have "settled ?m" "mgroup_wf e ?m" using assms(7) wf by (simp_all add: settled_def block_state_def mgroup_wf_def)
    moreover have "nvfs_ioctl e fs False u cmd s = Some (- 1, IoctlReturn ret, ?s)"
      using False init unfolding call by (simp add: ioctl_rw_def copied_out_def assms(3) kstat_def Let_def)
    ultimately show ?thesis using False by (intro exI [of _ ?s] exI [of _ ?m]) simp
  next
    case True
    let ?io = "io\<lparr>rw_stats_enabled := rw_stats_on fs\<rparr>" and ?s2 = "request_started fs op a p io m s"
    have fill: "io_fill op f a (in_flight (nvfsio m) m) = Some (0, io)" using assms(10) True by simp
    have s2: "mgroups ?s2 p = Some (in_flight ?io m)" by (simp add: request_started_def)
    have "run_ready e fs f p (in_flight ?io m)"
      by (rule run_ready_stats [OF io_init_run_ready [OF assms(4,5,7-9) fill assms(11-16)]])
    then obtain md io' st c where fin: "settled (m\<lparr>nvfs_metadata := md, nvfsio := io'\<rparr>)" "mgroup_wf e (m\<lparr>nvfs_metadata := md, nvfsio := io'\<rparr>)"
      "nvfs_io_start_op e fs p ?s2 = Some (uint (io_length ?io),
        ?s2\<lparr>mgroups := (mgroups ?s2)(p \<mapsto> m\<lparr>nvfs_metadata := md, nvfsio := io'\<rparr>),
          klog := EvFdPut (io_fd ?io) # concat (replicate c (piece_log (io_op ?io))) @ klog ?s2,
          kstats := (kstats ?s2)\<lparr>counter := st\<rparr>\<rparr>)" (is "_ = Some (_, ?s3)")
      using run_in_flight [OF _ s2 _ assms(6), of e fs f] at_vaddr_live [OF assms(5)] by auto
    have len: "io_length ?io = ia_size a" using io_fill_fields(4) [OF fill] by simp
    have "nvfs_ioctl e fs False u cmd s = Some (0, IoctlReturn (uint (ia_size a)), ?s3)"
      using ioctl_accepted [OF assms(1-6) nf fill] fin(3) unfolding len by (simp add: not_less)
    moreover have "request_done p m (m\<lparr>nvfs_metadata := md, nvfsio := io'\<rparr>) s ?s3"
      unfolding request_done_def
      by (rule exI [of _ md], rule exI [of _ io'],
          rule exI [of _ "EvFdPut (io_fd ?io) # concat (replicate c (piece_log (io_op ?io))) @ [EvFdGet (ia_fd a)]"], rule exI [of _ st])
        (auto simp: io_event_def kstat_def request_started_def rw_stats_counters intro!: piece_log_events [unfolded io_event_def])
    ultimately show ?thesis
      using fin(1,2) True by (intro exI [of _ ?s3] exI [of _ "m\<lparr>nvfs_metadata := md, nvfsio := io'\<rparr>"]) simp
  qed
qed

text \<open>
  What user space sees of a synchronous read or write. With a ready and settled buffer of
  whole GPU pages, arguments and file in order and a file system that transfers what it is asked
  for, the request follows the checks on the GPU offsets: if they pass, the call succeeds and
  hands out the number of bytes requested; if not, it fails and hands out the error. Either
  way the group is afterwards what it was, apart from its blocks and its request, which are
  settled; no page is left pinned and the operation count is unchanged.
\<close>

theorem ioctl_request_outcome:
  assumes "cmd = NVFS_IOCTL_READ a \<and> op = READ \<or> cmd = NVFS_IOCTL_WRITE a \<and> op = WRITE"
    and "copy_from_user u = 0" and "copy_to_user u = 0"
    and "args_ok fs op a f" and "at_vaddr e s (ia_cpuvaddr a) p m" and "io_state (gpu_info m) = IO_READY"
    and "settled m" and "run_env e fs f p op" and "op = WRITE \<longrightarrow> write_ready f"
    and "io_fill op f a (in_flight (nvfsio m) m) = Some (ret, io)" and "ia_sync a" and "ia_size a \<noteq> 0"
    and "nvfs_blocks_count m = b * 16" and "0 < b"
    and "uint (gpuvaddr (gpu_info m)) mod 65536 + uint (gpu_buf_len (gpu_info m)) < 2 ^ 64"
    and "ia_offset a + uint (ia_size a) < 2 ^ 63"
  shows "\<exists>s' md io'. nvfs_ioctl e fs False u cmd s =
      Some (if ret = 0 then 0 else - 1, IoctlReturn (if ret = 0 then uint (ia_size a) else ret), s') \<and>
    mgroups s' = (mgroups s)(p \<mapsto> m\<lparr>nvfs_metadata := md, nvfsio := io'\<rparr>) \<and>
    settled (m\<lparr>nvfs_metadata := md, nvfsio := io'\<rparr>) \<and> page_refs s' = page_refs s \<and> nvfs_n_ops s' = nvfs_n_ops s"
proof -
  from ioctl_request_effect [OF assms] obtain s' m' where
    run: "nvfs_ioctl e fs False u cmd s = Some (if ret = 0 then 0 else - 1, IoctlReturn (if ret = 0 then uint (ia_size a) else ret), s')"
      "request_done p m m' s s'" "settled m'"
    by blast
  from run(2) show ?thesis
    by (rule request_doneE) (use run(1,3) in \<open>intro exI [of _ s'] exI, simp\<close>)
qed

theorem ioctl_request_outcome_witness:
  "\<exists>s'. nvfs_ioctl ex_env ex_fs False \<lparr> copy_from_user = 0, copy_to_user = 0 \<rparr> (NVFS_IOCTL_READ ex_args) ex_io_state =
     Some (0, IoctlReturn 0x3000, s') \<and> page_refs s' = page_refs ex_io_state"
proof -
  obtain io where io: "io_fill READ ex_file ex_args (in_flight (nvfsio ex_io_group) ex_io_group) = Some (0, io)"
    using ex_io_fill by blast
  have g: "nvfs_blocks_count ex_io_group = 1 * 16"
    "gpuvaddr (gpu_info ex_io_group) = 0x20000" "gpu_buf_len (gpu_info ex_io_group) = 0x10000"
    by (simp_all add: ex_io_group_def ex_init_group_def ex_group_def ex_ready_gpu_def)
  have a: "ia_sync ex_args" "ia_size ex_args = 0x3000" "ia_offset ex_args = 0" by (simp_all add: ex_args_def)
  show ?thesis
    using ioctl_request_outcome [OF _ _ _ ex_args_ok ex_at_vaddr ex_io_wf(5,4) ex_run_env _ io a(1) _ g(1),
        of "NVFS_IOCTL_READ ex_args" "\<lparr> copy_from_user = 0, copy_to_user = 0 \<rparr>"] g a
    by auto
qed

section \<open>The result of a batch\<close>

text \<open>
  The result of a batch does not reach the caller. The handler stores it in \<^verbatim>\<open>ioctl_return\<close>, at
  byte 32 of the parameter block, but copies back only the 24 bytes of the batch arguments:
  whatever becomes of the batch, the caller finds no result in its block, and has the return
  value of the call, 0 or -1, alone.
\<close>

theorem batch_result_not_returned:
  assumes "copy_from_user u = 0" and "nvfs_ioctl e fs False u (NVFS_IOCTL_BATCH_IO nents entries) s = Some (r, out, s')"
  shows "out = NoOut \<and> r \<in> {0, - 1}"
proof -
  let ?start = "\<lambda>st. if rw_stats_on fs then nvfs_stat nvfs_n_op_batches (nvfs_stat64 nvfs_n_batches st) else st"
  have call: "ioctl_batch e fs u nents entries s = Some (r, out, s')" using assms by (simp add: nvfs_ioctl_def)
  then obtain b s1 where init: "nvfs_io_batch_init e fs nents entries (kstat ?start s) = Some (b, s1)"
    by (auto simp: ioctl_batch_def Let_def bind_eq_Some_conv)
  show ?thesis
  proof (cases b)
    case (Ptr ps)
    then obtain ret s2 where "nvfs_io_batch_submit e fs ps s1 = Some (ret, s2)"
      using call init by (auto simp: ioctl_batch_def Let_def bind_eq_Some_conv)
    then show ?thesis using call init Ptr by (auto simp: ioctl_batch_def copied_out_def Let_def split: if_splits)
  qed (use call init in \<open>auto simp: ioctl_batch_def copied_out_def Let_def\<close>)
qed

theorem batch_result_not_returned_witness:
  "\<exists>s' out. nvfs_ioctl ex_env ex_fs False \<lparr> copy_from_user = 0, copy_to_user = 0 \<rparr>
     (NVFS_IOCTL_BATCH_IO 0 (\<lambda>_. None)) ex_io_state = Some (- 1, out, s') \<and> out = NoOut"
proof -
  let ?u = "\<lparr> copy_from_user = 0, copy_to_user = 0 \<rparr>"
  obtain s' out where call: "nvfs_ioctl ex_env ex_fs False ?u (NVFS_IOCTL_BATCH_IO 0 (\<lambda>_. None)) ex_io_state =
      Some (- 1, out, s')"
    by (simp add: nvfs_ioctl_def ioctl_batch_def nvfs_io_batch_init_def Let_def)
  show ?thesis using batch_result_not_returned [OF _ call] call by simp
qed

end
