(* ===== verification/Nvfs_Life.thy ===== *)
theory Nvfs_Life
  imports Nvfs_Ioctl
begin

text \<open>
  The life of one buffer as user space drives it, across the components: \<^verbatim>\<open>mmap\<close>, the map request, any number of
  synchronous reads and writes, and \<^verbatim>\<open>munmap\<close>. Here are the steps between; the whole is put together in the root theory.
\<close>

section \<open>What user space does\<close>

text \<open>Requests one after the other, with what each call returns and hands out.\<close>

fun ioctl_seq :: "kenv \<Rightarrow> fsenv \<Rightarrow> ucopy \<Rightarrow> ioctl_cmd list \<Rightarrow> kstate \<Rightarrow> ((int \<times> ioctl_out) list \<times> kstate) option" where
  "ioctl_seq e fs u [] s = Some ([], s)"
| "ioctl_seq e fs u (cmd # cmds) s =
     do { (r, out, s1) \<leftarrow> nvfs_ioctl e fs False u cmd s;
          (rs, s2) \<leftarrow> ioctl_seq e fs u cmds s1;
          Some ((r, out) # rs, s2) }"

text \<open>A synchronous read or write of the buffer at \<open>va\<close>, with file and arguments in order; nothing is said about the range of the GPU buffer it names.\<close>

definition sync_request :: "kenv \<Rightarrow> fsenv \<Rightarrow> mptr \<Rightarrow> u64 \<Rightarrow> ioctl_cmd \<Rightarrow> bool" where
  "sync_request e fs p va cmd \<longleftrightarrow> (\<exists>op a f. (cmd = NVFS_IOCTL_READ a \<and> op = READ \<or> cmd = NVFS_IOCTL_WRITE a \<and> op = WRITE) \<and>
     args_ok fs op a f \<and> ia_cpuvaddr a = va \<and> run_env e fs f p op \<and> (op = WRITE \<longrightarrow> write_ready f) \<and> ia_sync a \<and> ia_size a \<noteq> 0 \<and>
     ia_offset a + uint (ia_size a) < 2 ^ 63)"

text \<open>What the caller finds: all bytes transferred, or the request refused.\<close>

definition request_result :: "ioctl_cmd \<Rightarrow> int \<times> ioctl_out \<Rightarrow> bool" where
  "request_result cmd r = (case cmd of
     NVFS_IOCTL_READ a \<Rightarrow> r \<in> {(0, IoctlReturn (uint (ia_size a))), (- 1, IoctlReturn (- EINVAL))}
   | NVFS_IOCTL_WRITE a \<Rightarrow> r \<in> {(0, IoctlReturn (uint (ia_size a))), (- 1, IoctlReturn (- EINVAL))}
   | _ \<Rightarrow> False)"

section \<open>Requests in sequence\<close>

lemma request_done_refl: "mgroups s p = Some m \<Longrightarrow> request_done p m m s s"
  unfolding request_done_def
  by (rule exI [of _ "nvfs_metadata m"], rule exI [of _ "nvfsio m"], rule exI [of _ "[]"], rule exI [of _ "counter (kstats s)"])
    (simp add: fun_upd_idem)

lemma request_done_trans:
  assumes "request_done p m m' s s'" and "request_done p m' m'' s' s''"
  shows "request_done p m m'' s s''"
proof -
  from assms(1) obtain md io L ct where 1: "m' = m\<lparr>nvfs_metadata := md, nvfsio := io\<rparr>" "\<forall>ev \<in> set L. io_event ev"
    "s' = s\<lparr>mgroups := (mgroups s)(p \<mapsto> m'), klog := L @ klog s, kstats := (kstats s)\<lparr>counter := ct\<rparr>\<rparr>"
    unfolding request_done_def by (elim exE conjE)
  from assms(2) obtain md2 io2 L2 ct2 where 2: "m'' = m'\<lparr>nvfs_metadata := md2, nvfsio := io2\<rparr>" "\<forall>ev \<in> set L2. io_event ev"
    "s'' = s'\<lparr>mgroups := (mgroups s')(p \<mapsto> m''), klog := L2 @ klog s', kstats := (kstats s')\<lparr>counter := ct2\<rparr>\<rparr>"
    unfolding request_done_def by (elim exE conjE)
  show ?thesis
    unfolding request_done_def
    by (rule exI [of _ md2], rule exI [of _ io2], rule exI [of _ "L2 @ L"], rule exI [of _ ct2])
      (use 1(2) 2(2) in \<open>auto simp: 2(3) 1(3) 2(1) 1(1)\<close>)
qed

lemma at_vaddr_done:
  assumes "at_vaddr e s va p m" and "request_done p m m' s s'" and "mgroup_wf e m'"
  shows "at_vaddr e s' va p m'"
  using assms(2)
proof (rule request_doneE)
  fix md io L
  assume m': "m' = m\<lparr>nvfs_metadata := md, nvfsio := io\<rparr>" and s': "mgroups s' = (mgroups s)(p \<mapsto> m')" "kpages s' = kpages s"
    "nvfs_io_mgroup_hash s' = nvfs_io_mgroup_hash s"
  have wf: "hash_wf s" using assms(1) by (simp add: at_vaddr_def)
  have same: "base_index m' = base_index m" "mg_ref m' = mg_ref m" "cpu_base_vaddr m' = cpu_base_vaddr m"
    "nvfs_blocks_count m' = nvfs_blocks_count m" "nvfs_ppages m' = nvfs_ppages m"
    unfolding m' by simp_all
  note live = at_vaddr_live [OF assms(1)]
  have "hash_wf (s\<lparr>mgroups := (mgroups s)(p \<mapsto> m')\<rparr>)"
    by (rule hash_wf_upd [OF wf]) (use live same in simp_all)
  then have "hash_wf s'" by (rule hash_wf_same) (simp_all add: s')
  moreover from assms(1) obtain pg where "pin_user_pages_fast e va 1 = (1, [pg])" "page_of_group e s p m 0 pg"
    by (auto simp: at_vaddr_def)
  moreover from this(2) have "page_of_group e s' p m' 0 pg"
    using assms(3) same s' by (simp add: page_of_group_def page_base_index_def rel_page_def NVFS_PAGE_INDEX_def)
  ultimately show ?thesis using assms(1) same by (auto simp: at_vaddr_def)
qed

lemma io_fill_refuses_EINVAL: "io_fill op f a m = Some (ret, io) \<Longrightarrow> ret = 0 \<or> ret = - EINVAL"
  by (auto simp: io_fill_def Let_def split: if_splits)

lemma sync_request_runs:
  assumes "sync_request e fs p va cmd" and "copy_from_user u = 0" and "copy_to_user u = 0"
    and "at_vaddr e s va p m" and "io_state (gpu_info m) = IO_READY" and "settled m" and "nvfs_blocks_count m = b * 16" and "0 < b"
    and "uint (gpuvaddr (gpu_info m)) mod 65536 + uint (gpu_buf_len (gpu_info m)) < 2 ^ 64"
  shows "\<exists>r out s' m'. nvfs_ioctl e fs False u cmd s = Some (r, out, s') \<and> request_result cmd (r, out) \<and>
    request_done p m m' s s' \<and> settled m' \<and> mgroup_wf e m'"
proof -
  from assms(1) obtain op a f where req: "cmd = NVFS_IOCTL_READ a \<and> op = READ \<or> cmd = NVFS_IOCTL_WRITE a \<and> op = WRITE"
    "args_ok fs op a f" "ia_cpuvaddr a = va" "run_env e fs f p op" "op = WRITE \<longrightarrow> write_ready f" "ia_sync a" "ia_size a \<noteq> 0"
    "ia_offset a + uint (ia_size a) < 2 ^ 63"
    unfolding sync_request_def by blast
  have "gpuvaddr (gpu_info (in_flight (nvfsio m) m)) = gpuvaddr (gpu_info m)"
    "gpu_buf_len (gpu_info (in_flight (nvfsio m) m)) = gpu_buf_len (gpu_info m)"
    "nvfs_blocks_count (in_flight (nvfsio m) m) = nvfs_blocks_count m"
    by (simp_all add: in_flight_def with_io_state_def)
  then obtain ret io where fill: "io_fill op f a (in_flight (nvfsio m) m) = Some (ret, io)"
    using io_fill_bounds [of "in_flight (nvfsio m) m" op f a] assms(7-9) by auto
  have at: "at_vaddr e s (ia_cpuvaddr a) p m" using assms(4) req(3) by simp
  from ioctl_request_effect [OF req(1) assms(2,3) req(2) at assms(5,6) req(4,5) fill req(6,7) assms(7-9) req(8)]
  obtain s' m' where "nvfs_ioctl e fs False u cmd s =
      Some (if ret = 0 then 0 else - 1, IoctlReturn (if ret = 0 then uint (ia_size a) else ret), s')"
    "request_done p m m' s s'" "settled m'" "mgroup_wf e m'"
    by blast
  moreover have "request_result cmd (if ret = 0 then 0 else - 1, IoctlReturn (if ret = 0 then uint (ia_size a) else ret))"
    using req(1) io_fill_refuses_EINVAL [OF fill] by (auto simp: request_result_def)
  ultimately show ?thesis by blast
qed

lemma ioctl_seq_runs:
  assumes "\<forall>cmd \<in> set cmds. sync_request e fs p va cmd" and "copy_from_user u = 0" and "copy_to_user u = 0"
    and "at_vaddr e s va p m" and "io_state (gpu_info m) = IO_READY" and "settled m" and "nvfs_blocks_count m = b * 16" and "0 < b"
    and "uint (gpuvaddr (gpu_info m)) mod 65536 + uint (gpu_buf_len (gpu_info m)) < 2 ^ 64"
  shows "\<exists>rs s' m'. ioctl_seq e fs u cmds s = Some (rs, s') \<and> list_all2 request_result cmds rs \<and>
    request_done p m m' s s' \<and> at_vaddr e s' va p m'"
  using assms(1,4-7,9)
proof (induction cmds arbitrary: s m)
  case Nil
  then show ?case using request_done_refl at_vaddr_live by fastforce
next
  case (Cons cmd cmds)
  obtain r out s1 m1 where 1: "nvfs_ioctl e fs False u cmd s = Some (r, out, s1)" "request_result cmd (r, out)"
    "request_done p m m1 s s1" "settled m1" "mgroup_wf e m1"
    using sync_request_runs [OF _ assms(2,3) Cons.prems(2-5) assms(8) Cons.prems(6), of fs cmd] Cons.prems(1) by auto
  have at: "at_vaddr e s1 va p m1" by (rule at_vaddr_done [OF Cons.prems(2) 1(3,5)])
  have same: "gpu_info m1 = gpu_info m" "nvfs_blocks_count m1 = nvfs_blocks_count m"
    using 1(3) by (auto elim: request_doneE)
  obtain rs s2 m2 where 2: "ioctl_seq e fs u cmds s1 = Some (rs, s2)" "list_all2 request_result cmds rs" "request_done p m1 m2 s1 s2"
    "at_vaddr e s2 va p m2"
    using Cons.IH [OF _ at _ 1(4)] Cons.prems same by auto
  show ?case
    using 1(1,2) 2(1,2,4) request_done_trans [OF 1(3) 2(3)]
    by (intro exI [of _ "(r, out) # rs"] exI [of _ s2] exI [of _ m2]) simp
qed

section \<open>From the mapping to the ready buffer\<close>

text \<open>
  What a mapping of whole GPU pages and a map request for all of it need: memory, an unused index among the ten draws, the pages of
  the buffer at the address that the request names; and on the side of the GPU a completion page and a valid page table of
  a GPU that has an identity.
\<close>

definition buffer_pages :: "kenv \<Rightarrow> vm_area \<Rightarrow> nat" where
  "buffer_pages e vma = DIV_ROUND_UP (unat (vm_end vma - vm_start vma)) (PAGE_SIZE (page_shift e))"

definition buffer_setup :: "kenv \<Rightarrow> vm_area \<Rightarrow> nvfs_ioctl_map \<Rightarrow> kstate \<Rightarrow> bool" where
  "buffer_setup e vma inp s \<longleftrightarrow>
     valid_page_shift (page_shift e) \<and> no_faults e \<and> cpus_ok e \<and> hash_wf s \<and> mgroups s (kzalloc_mgroup e) = None \<and>
     (\<forall>site. kalloc_ok e site) \<and> vm_pgoff vma = 0 \<and> mmap_request_ok e vma \<and> vm_private_data vma = None \<and>
     pages_available e (buffer_pages e vma) \<and> (\<exists>i < 10. \<not> index_used s (drawn e i)) \<and>
     map_cpuvaddr inp \<noteq> 0 \<and> map_cpuvaddr inp mod 4096 = 0 \<and> sbuf_block inp \<noteq> 0 \<and> unat (sbuf_block inp) mod 16 = 0 \<and>
     unat (sbuf_block inp) * 4096 = unat (vm_end vma - vm_start vma) \<and>
     (\<forall>n \<in> {1, buffer_pages e vma}. pin_user_pages_fast e (map_cpuvaddr inp) n = (int n, map (\<lambda>j. the (alloc_page e j)) [0 ..< n]))"

definition gpu_setup :: "kenv \<Rightarrow> nvfs_ioctl_map \<Rightarrow> pageid \<Rightarrow> p2p_page_table \<Rightarrow> bool" where
  "gpu_setup e inp fp pt \<longleftrightarrow> fence_ok e inp fp \<and> gpu_request_ok inp \<and> case_prod (p2p_get_pages e) (pin_request inp) = (0, Some pt) \<and>
     good_table pt \<and> gpu_uuid pt \<noteq> None \<and> map_gpuvaddr inp AND GPU_PAGE_MASK \<noteq> 0 \<and>
     uint (map_gpuvaddr inp) mod 65536 + uint (map_size inp) < 2 ^ 64"

lemma mmap_for_map:
  assumes "buffer_setup e vma inp s" and "p = kzalloc_mgroup e"
  obtains vma1 s1 m where "nvfs_mgroup_mmap e vma s = Some (0, vma1, s1)" "vm_private_data vma1 = Some p"
    "shadow_ok e inp s1 p m" "mgroups s1 = (mgroups s)(p \<mapsto> m)" "mg_ref m = 1" "io_state (gpu_info m) = IO_FREE"
    "\<not> fault_injected m" "\<not> use_legacy_p2p_allocation (gpu_info m)" "page_of_group e s1 p m 0 (the (alloc_page e 0))"
    "nvfs_ppages m = Some (map (alloc_page e) [0 ..< buffer_pages e vma])" "nvfs_blocks_count m = unat (sbuf_block inp)"
    "nvfs_n_ops s1 = nvfs_n_ops s" "klog s1 = klog s"
    "page_refs s1 = (\<lambda>pg. if \<exists>k < buffer_pages e vma. alloc_page e k = Some pg then 2 else page_refs s pg)"
proof -
  let ?len = "unat (vm_end vma - vm_start vma)"
  have su: "valid_page_shift (page_shift e)" "hash_wf s" "mgroups s p = None" "vm_pgoff vma = 0" "mmap_request_ok e vma"
    "vm_private_data vma = None" "\<forall>site. kalloc_ok e site" "pages_available e (DIV_ROUND_UP ?len (PAGE_SIZE (page_shift e)))"
    "\<exists>i < 10. \<not> index_used s (drawn e i)" "unat (sbuf_block inp) * 4096 = ?len" "sbuf_block inp \<noteq> 0"
    using assms by (simp_all add: buffer_setup_def buffer_pages_def)
  from mmap_outcome [OF su(1,2) su(3) [unfolded assms(2)] su(4-7) refl su(8,9)]
  obtain vma1 s1 m b blocks np where run: "nvfs_mgroup_mmap e vma s = Some (0, vma1, s1)" "vm_private_data vma1 = Some p"
      "\<not> index_used s b" "NVFS_MIN_BASE_INDEX \<le> b"
    and m: "m = (filled_group e blocks np blocks np (zero_mgroup\<lparr>base_index := b, mg_ref := 1\<rparr>))\<lparr>nvfs_blocks_count := blocks,
      gpu_info := (gpu_info zero_mgroup)\<lparr>io_state := IO_FREE\<rparr>\<rparr>"
    and s1: "mgroups s1 = (mgroups s)(p \<mapsto> m)" "nvfs_io_mgroup_hash s1 = p # nvfs_io_mgroup_hash s"
      "\<forall>k < np. \<forall>pg. alloc_page e k = Some pg \<longrightarrow> kpages s1 pg =
        \<lparr> page_index = b * NVFS_MAX_SHADOW_PAGES (page_shift e) + k, page_mapping = False \<rparr>"
    and np: "blocks * 4096 = ?len" "np = DIV_ROUND_UP blocks (nvfs_block_count_per_page (page_shift e))"
      "np \<le> NVFS_MAX_SHADOW_PAGES (page_shift e)" "pages_available e np"
    and fr: "nvfs_n_ops s1 = nvfs_n_ops s" "klog s1 = klog s"
      "\<forall>k < np. \<forall>pg. alloc_page e k = Some pg \<longrightarrow> page_refs s1 pg = 2"
      "\<forall>pg. (\<forall>k < np. alloc_page e k \<noteq> Some pg) \<longrightarrow> page_refs s1 pg = page_refs s pg"
    unfolding assms(2) [symmetric] by (elim exE conjE)
  note rb = request_blocks(1,2) [OF su(5,1) refl]
  have b: "DIV_ROUND_UP ?len 4096 = blocks" using rb(1) np(1) by simp
  have n: "buffer_pages e vma = np" "blocks = unat (sbuf_block inp)"
    using np(1) su(10) by (simp_all add: buffer_pages_def rb(2) b np(2))
  have mf: "mg_ref m = 1" "base_index m = b" "io_state (gpu_info m) = IO_FREE" "nvfs_blocks_count m = blocks"
    "nvfs_ppages m = Some (map (alloc_page e) [0 ..< np])" "\<not> fault_injected m" "\<not> use_legacy_p2p_allocation (gpu_info m)"
    by (simp_all add: m filled_group_def zero_mgroup_def zero_gpu_args_def)
  have "hash_wf ((new_group_state p b s)\<lparr>mgroups := (mgroups (new_group_state p b s))(p \<mapsto> m)\<rparr>)"
    using hash_wf_new [OF su(2,3) run(3)] mf(1,2) by (intro hash_wf_upd) (auto simp: new_group_state_def)
  then have wf: "hash_wf s1" by (rule hash_wf_same) (simp_all add: s1 new_group_state_def)
  have wfm: "mgroup_wf e m" unfolding m using filled_group_wf [OF _ np(2,4)] su(1) by simp
  have bpp: "0 < nvfs_block_count_per_page (page_shift e)" using su(1) by simp
  have pg: "page_of_group e s1 p m j (the (alloc_page e j))" if j: "j < np" for j
  proof -
    obtain q where q: "alloc_page e j = Some q" using np(4) j by (auto simp: pages_available_def)
    let ?bpp = "nvfs_block_count_per_page (page_shift e)"
    have "?bpp * Suc j \<le> ?bpp * np" using j by (intro mult_le_mono2) simp
    then have "j * ?bpp < blocks" using DIV_ROUND_UP_bounds(2) [OF bpp, of blocks] np(2) by (simp add: mult.commute)
    then show ?thesis
      using q j s1 np(3) run(4) mf wfm page_index_roundtrip [of s1 q b e j]
      by (simp add: page_of_group_def NVFS_PAGE_INDEX_def)
  qed
  have "0 < blocks" using su(11) n(2) by (simp add: unat_gt_0)
  then have np0: "0 < np" using page_of_block [OF bpp, of 0 blocks] np(2) by simp
  have "shadow_mapped e s1 (map_cpuvaddr inp) p m np"
    using assms(1) pg mf(5) n(1) by (auto simp: shadow_mapped_def buffer_setup_def)
  moreover have "DIV_ROUND_UP (unat (sbuf_block inp) * 4096) (PAGE_SIZE (page_shift e)) = np"
    using n(1) su(10) by (simp add: buffer_pages_def)
  ultimately have sh: "shadow_ok e inp s1 p m"
    using assms(1) wf s1(1) mf(4) n np(3) by (simp add: shadow_ok_def buffer_setup_def Let_def)
  have refs: "page_refs s1 = (\<lambda>pg. if \<exists>k < np. alloc_page e k = Some pg then 2 else page_refs s pg)"
    using fr(3,4) by (auto simp: fun_eq_iff)
  show ?thesis
    by (rule that [OF run(1,2) sh s1(1) mf(1,3,6,7) pg [OF np0] _ _ fr(1,2)]) (use mf(4,5) n refs in simp_all)
qed

text \<open>The map request leads to a buffer that requests can use and that \<^verbatim>\<open>munmap\<close> can release.\<close>

lemma alloc_gpustat_found:
  assumes "page_table g = Some pt" and "gpu_uuid pt = Some uuid"
  shows "nvfs_get_gpustat_unlocked (nvfs_update_alloc_gpustat True g st) uuid \<noteq> None"
  using assms
  by (auto simp: nvfs_update_alloc_gpustat_def Let_def gpu_table.lookup_update gpu_table.lookup_insert raise_max_def add_pinned_def
      split: option.splits)

lemma map_for_requests:
  assumes "shadow_ok e inp s p m" and "gpu_setup e inp fp pt" and "io_state (gpu_info m) = IO_FREE" and "\<forall>site. kalloc_ok e site"
    and "pin_user_pages_fast e (map_cpuvaddr inp) 1 = (1, [pg])" and "page_of_group e s p m 0 pg"
    and "copy_from_user u = 0" and "copy_to_user u = 0"
  obtains s' m' where "nvfs_ioctl e fs False u (NVFS_IOCTL_MAP inp) s = Some (0, NoOut, s')"
    "mgroups s' = (mgroups s)(p \<mapsto> m')" "at_vaddr e s' (map_cpuvaddr inp) p m'" "io_state (gpu_info m') = IO_READY" "settled m'"
    "mg_ref m' = mg_ref m + 1" "nvfs_blocks_count m' = nvfs_blocks_count m" "nvfs_ppages m' = nvfs_ppages m"
    "fault_injected m' = fault_injected m" "gpu_releasable e (kstats s') (gpu_info m')" "end_fence_page (gpu_info m') = Some fp"
    "gpuvaddr (gpu_info m') = map_gpuvaddr inp" "gpu_buf_len (gpu_info m') = map_size inp" "buckets (gpu_info m') = []"
    "use_legacy_p2p_allocation (gpu_info m') = (nvfs_use_legacy_p2p_allocation e \<or> use_legacy_p2p_allocation (gpu_info m))"
    "page_refs s' = (page_refs s)(fp := page_refs s fp + 1)" "klog s' = get_pages_event e inp # klog s" "ops_total e s' = ops_total e s + 1"
proof -
  let ?s0 = "kstat (\<lambda>st. nvfs_stat nvfs_n_op_maps (nvfs_stat64 nvfs_n_maps st)) s"
  have g: "fence_ok e inp fp" "gpu_request_ok inp" "case_prod (p2p_get_pages e) (pin_request inp) = (0, Some pt)" "good_table pt"
    "gpu_uuid pt \<noteq> None" "map_gpuvaddr inp AND GPU_PAGE_MASK \<noteq> 0"
    using assms(2) by (simp_all add: gpu_setup_def)
  have "shadow_ok e inp ?s0 p m"
    using assms(1) shadow_mapped_cong [of ?s0 s] by (simp add: shadow_ok_def)
  from map_outcome [OF this g(1) assms(3) g(2-4)]
  obtain s1 m' g' where map: "nvfs_map e inp ?s0 = Some (0, s1)" "mgroups s1 = (mgroups s)(p \<mapsto> m')" "hash_wf s1"
      "io_state (gpu_info m') = IO_READY" "mg_ref m' = mg_ref m + 1" "mgroup_wf e m'" "settled m'"
      "cpu_base_vaddr m' = map_cpuvaddr inp" "page_table (gpu_info m') = Some pt" "buckets (gpu_info m') = []"
      "gpuvaddr (gpu_info m') = map_gpuvaddr inp" "gpu_buf_len (gpu_info m') = map_size inp" "end_fence_page (gpu_info m') = Some fp"
    and fr: "page_refs s1 = (page_refs s)(fp := page_refs s fp + 1)" "klog s1 = get_pages_event e inp # klog s"
      "ops_total e s1 = ops_total e s + 1" "nvfs_ppages m' = nvfs_ppages m" "nvfs_blocks_count m' = nvfs_blocks_count m"
      "base_index m' = base_index m" "fault_injected m' = fault_injected m" "kpages s1 = kpages s" "dma_mapping_in_progress (gpu_info m') = 0"
      "use_legacy_p2p_allocation (gpu_info m') = (nvfs_use_legacy_p2p_allocation e \<or> use_legacy_p2p_allocation (gpu_info m))"
    and st: "page_table g' = Some pt" "kstats s1 = nvfs_update_alloc_gpustat True g' (kstats ?s0)"
    using assms(4) by (fastforce simp: kstat_def ops_total_def)
  let ?s' = "kstat (nvfs_stat64 nvfs_n_maps_ok) s1"
  have "page_of_group e ?s' p m' 0 pg"
    using assms(6) map(2,6) fr(4-6,8) by (simp add: page_of_group_def page_base_index_def rel_page_def NVFS_PAGE_INDEX_def)
  moreover have "hash_wf ?s'" using map(3) by simp
  ultimately have at: "at_vaddr e ?s' (map_cpuvaddr inp) p m'"
    using assms(1,5) map(8) by (auto simp: at_vaddr_def shadow_ok_def)
  obtain uuid where uuid: "gpu_uuid pt = Some uuid" using g(5) by blast
  have "nvfs_get_gpustat_unlocked (kstats ?s') uuid \<noteq> None"
    using alloc_gpustat_found [OF st(1) uuid, of "kstats ?s0"] st(2)
    by (simp add: kstat_def stat_ops set_counter_def nvfs_get_gpustat_unlocked_def)
  then have rel: "gpu_releasable e (kstats ?s') (gpu_info m')"
    using map(9-11) fr(9) g(6) uuid by (auto simp: gpu_releasable_def)
  have "nvfs_ioctl e fs False u (NVFS_IOCTL_MAP inp) s = Some (0, NoOut, ?s')"
    using map(1) assms(7,8) by (simp add: nvfs_ioctl_def ioctl_map_def)
  then show ?thesis
    by (rule that [OF _ _ at map(4,7,5) fr(5,4,7) rel map(13,11,12,10) fr(10)]) (use map(2) fr(1-3) in \<open>simp_all add: kstat_def ops_total_def\<close>)
qed

section \<open>Unmapping after the requests\<close>

lemma count_list_distinct: "distinct xs \<Longrightarrow> count_list xs x = (if x \<in> set xs then 1 else 0)"
  by (induction xs) auto

lemma buffer_page_uses:
  assumes "pages_available e n"
  shows "page_uses pg (map (alloc_page e) [0 ..< n]) = (if \<exists>k < n. alloc_page e k = Some pg then 1 else 0)"
proof -
  have "distinct (map (alloc_page e) [0 ..< n])" using assms by (auto simp: distinct_map inj_on_def pages_available_def)
  moreover have "Some pg \<in> set (map (alloc_page e) [0 ..< n]) \<longleftrightarrow> (\<exists>k < n. alloc_page e k = Some pg)" by force
  ultimately show ?thesis by (simp add: page_uses_def count_list_distinct del: set_map)
qed

text \<open>The call by which the GPU pages of a map request are given back.\<close>

definition put_pages_event :: "kenv \<Rightarrow> nvfs_ioctl_map \<Rightarrow> kevent" where
  "put_pages_event e inp = (if nvfs_use_legacy_p2p_allocation e then EvPutPages (fst (pin_request inp))
     else EvPutPagesPersistent (fst (pin_request inp)))"

lemma munmap_after_requests:
  assumes "request_done p m m' s s'" and "at_vaddr e s' va p m'" and "vm_private_data vma = Some p"
    and "io_state (gpu_info m) = IO_READY" and "mg_ref m = 2" and "\<not> fault_injected m" and "cpus_ok e"
    and "gpu_releasable e (kstats s) (gpu_info m)"
  obtains vma'' s'' where "nvfs_vma_close e vma s' = Some (vma'', s'')" "vm_private_data vma'' = None"
    "mgroups s'' = (mgroups s)(p := None)" "hash_wf s''" "ops_total e s'' = ops_total e s - 1"
    "page_refs s'' = (\<lambda>pg. page_refs s pg - group_page_uses m pg)"
    "filter (\<lambda>ev. \<not> io_event ev) (klog s'') = filter (\<lambda>ev. \<not> io_event ev) (release_log (gpu_info m) @ klog s)"
  using assms(1)
proof (rule request_doneE)
  fix md io L
  assume m': "m' = m\<lparr>nvfs_metadata := md, nvfsio := io\<rparr>"
    and s': "mgroups s' = (mgroups s)(p \<mapsto> m')" "page_refs s' = page_refs s" "nvfs_n_ops s' = nvfs_n_ops s"
      "gpu_stat_hash (kstats s') = gpu_stat_hash (kstats s)" "klog s' = L @ klog s" "\<forall>ev \<in> set L. io_event ev"
  have same: "gpu_info m' = gpu_info m" "mg_ref m' = 2" "\<not> fault_injected m'" "group_page_uses m' = group_page_uses m"
    using assms(5,6) by (simp_all add: m' group_page_uses_def fun_eq_iff)
  have "hash_wf s'" "ppages_wf e m'"
    using assms(2) by (auto simp: at_vaddr_def page_of_group_def mgroup_wf_def ppages_wf_def)
  moreover have "gpu_releasable e (kstats s') (gpu_info m')"
    using assms(8) s'(4) by (simp add: gpu_releasable_def same(1) nvfs_get_gpustat_unlocked_def)
  ultimately obtain vma'' s'' where un: "nvfs_vma_close e vma s' = Some (vma'', s'')" "vm_private_data vma'' = None"
    "mgroups s'' = (mgroups s')(p := None)" "hash_wf s''" "klog s'' = release_log (gpu_info m') @ klog s'"
    "page_refs s'' = (\<lambda>pg. page_refs s' pg - group_page_uses m' pg)" "ops_total e s'' = ops_total e s' - 1"
    using munmap_outcome [OF _ assms(3) _ _ same(2,3) _ _ assms(7), of s'] at_vaddr_live [OF assms(2)] assms(4) same(1) by auto
  have "filter (\<lambda>ev. \<not> io_event ev) L = []" using s'(6) by (simp add: filter_empty_conv)
  with un show ?thesis
    by (intro that [OF un(1,2) _ un(4)]) (simp_all add: s' same ops_total_def)
qed

end
