(* ===== verification/Nvfs_Machine.thy ===== *)
theory Nvfs_Machine
  imports Nvfs_IoState
begin

text \<open>
  The I/O state of a buffer under interleaving. One I/O at a time begins and ends on it, while any number of other
  threads unmap it or call back from the GPU driver, and take and drop references. The two routines of \<^verbatim>\<open>nvfs-core.c\<close> that move the state,
  \<^verbatim>\<open>nvfs_transit_state\<close> and \<^verbatim>\<open>nvfs_io_terminate_requested\<close>, are chains of atomic operations without a lock
  around them. Here each atomic operation is a step of its own, so that other threads
  run between any two of them; run alone, the steps are the routines of \<open>Nvfs_IoState\<close>.
\<close>

section \<open>The routines, one atomic operation at a time\<close>

text \<open>
  A transition: the compare-and-exchange, and after its failure that from \<^verbatim>\<open>IO_TERMINATE_REQ\<close> (of a synchronous I/O), the put or the store of
  \<^verbatim>\<open>IO_CALLBACK_END\<close>, and the read for the message.
\<close>

datatype transit_pc = X_CAS | X_TREQ | X_PUT | X_SET | X_LOG | X_RET bool

fun transit_step :: "kenv \<Rightarrow> mptr \<Rightarrow> bool \<Rightarrow> nvfs_io_state \<Rightarrow> nvfs_io_state \<Rightarrow> transit_pc \<Rightarrow> kstate \<Rightarrow> (transit_pc \<times> kstate) option" where
  "transit_step e p sync from to X_CAS s =
     do { (io_transit, s1) \<leftarrow> try_transit e p from to s; Some (if io_transit then X_RET True else X_TREQ, s1) }"
| "transit_step e p sync from to X_TREQ s =
     (if sync
      then do { (old, s1) \<leftarrow> cmpxchg_io_state p IO_TERMINATE_REQ IO_TERMINATED s;
                Some (if old = IO_TERMINATE_REQ then X_PUT else X_SET, s1) }
      else Some (X_SET, s))"
| "transit_step e p sync from to X_PUT s =
     do { s1 \<leftarrow> nvfs_mgroup_put e p (klog_event (EvWakeUp p) s); Some (X_LOG, s1) }"
| "transit_step e p sync from to X_SET s =
     do { s1 \<leftarrow> set_io_state p IO_CALLBACK_END s; Some (X_LOG, klog_event (EvWakeUp p) s1) }"
| "transit_step e p sync from to X_LOG s = do { st \<leftarrow> get_io_state p s; Some (X_RET False, s) }"
| "transit_step e p sync from to (X_RET ok) s = None"

text \<open>A request to end: its compare-and-exchange operations in their order, and the two reads at the end.\<close>

datatype term_pc = T_FREE | T_INIT | T_READY | T_PROG | T_TREQ | T_READ1 | T_READ2 | T_RET bool

fun term_step :: "mptr \<Rightarrow> bool \<Rightarrow> term_pc \<Rightarrow> kstate \<Rightarrow> (term_pc \<times> kstate) option" where
  "term_step p callback T_FREE s =
     do { (old, s1) \<leftarrow> cmpxchg_io_state p IO_FREE IO_TERMINATED s;
          Some (if old = IO_FREE then T_RET False else T_INIT, s1) }"
| "term_step p callback T_INIT s =
     do { (old, s1) \<leftarrow> cmpxchg_io_state p IO_INIT (if callback then IO_CALLBACK_END else IO_TERMINATED) s;
          Some (if old = IO_INIT then T_RET False else T_READY, s1) }"
| "term_step p callback T_READY s =
     do { (old, s1) \<leftarrow> cmpxchg_io_state p IO_READY (if callback then IO_CALLBACK_END else IO_TERMINATED) s;
          Some (if old = IO_READY then T_RET False else T_PROG, s1) }"
| "term_step p callback T_PROG s =
     do { (old, s1) \<leftarrow> cmpxchg_io_state p IO_IN_PROGRESS (if callback then IO_CALLBACK_REQ else IO_TERMINATE_REQ) s;
          Some (if old = IO_IN_PROGRESS then T_RET True else if callback then T_TREQ else T_READ1, s1) }"
| "term_step p callback T_TREQ s =
     do { (old, s1) \<leftarrow> cmpxchg_io_state p IO_TERMINATE_REQ IO_CALLBACK_REQ s;
          Some (if old = IO_TERMINATE_REQ then T_RET True else T_READ1, s1) }"
| "term_step p callback T_READ1 s =
     do { st \<leftarrow> get_io_state p s; Some (if st = IO_TERMINATE_REQ then T_RET True else T_READ2, s) }"
| "term_step p callback T_READ2 s =
     do { st \<leftarrow> get_io_state p s; Some (T_RET (st = IO_CALLBACK_REQ), s) }"
| "term_step p callback (T_RET w) s = None"

text \<open>Run alone, the steps are the routines; five and eight of them are always enough.\<close>

primrec transit_run :: "nat \<Rightarrow> kenv \<Rightarrow> mptr \<Rightarrow> bool \<Rightarrow> nvfs_io_state \<Rightarrow> nvfs_io_state \<Rightarrow> transit_pc \<Rightarrow> kstate \<Rightarrow> (bool \<times> kstate) option" where
  "transit_run 0 e p sync from to x s = None"
| "transit_run (Suc n) e p sync from to x s = (case x of X_RET ok \<Rightarrow> Some (ok, s)
     | _ \<Rightarrow> do { (x', s') \<leftarrow> transit_step e p sync from to x s; transit_run n e p sync from to x' s' })"

primrec term_run :: "nat \<Rightarrow> mptr \<Rightarrow> bool \<Rightarrow> term_pc \<Rightarrow> kstate \<Rightarrow> (bool \<times> kstate) option" where
  "term_run 0 p callback t s = None"
| "term_run (Suc n) p callback t s = (case t of T_RET w \<Rightarrow> Some (w, s)
     | _ \<Rightarrow> do { (t', s') \<leftarrow> term_step p callback t s; term_run n p callback t' s' })"

lemma transit_run_alone: "transit_run 5 e p sync from to X_CAS s = nvfs_transit_state e p sync from to s"
proof (cases "try_transit e p from to s")
  case None
  then show ?thesis by (simp add: nvfs_transit_state_def eval_nat_numeral)
next
  case (Some r)
  obtain ok s1 where r: "r = (ok, s1)" by fastforce
  show ?thesis
  proof (cases "mgroups s1 p")
    case None
    then show ?thesis
      using Some r by (cases ok; cases sync) (simp_all add: nvfs_transit_state_def eval_nat_numeral cmpxchg_io_state_def upd_defs upd_mgroup_def)
  next
    case (Some m)
    note m = this
    have set: "set_io_state p IO_CALLBACK_END s1 = Some (s1\<lparr>mgroups := (mgroups s1)(p \<mapsto> with_io_state IO_CALLBACK_END m)\<rparr>)"
      using m by (simp add: upd_defs with_io_state_def)
    have get: "get_io_state p s1 = Some (io_state (gpu_info m))" using m by (simp add: get_io_state_def)
    show ?thesis
      using \<open>try_transit e p from to s = Some r\<close> r m set get
      by (cases ok; cases sync; cases "io_state (gpu_info m) = IO_TERMINATE_REQ")
        (simp_all add: nvfs_transit_state_def eval_nat_numeral cmpxchg_live bind_assoc)
  qed
qed

lemma term_run_alone: "term_run 8 p callback T_FREE s = nvfs_io_terminate_requested p callback s"
proof (cases "mgroups s p")
  case None
  then show ?thesis by (simp add: nvfs_io_terminate_requested_def eval_nat_numeral cmpxchg_io_state_def get_io_state_def)
next
  case (Some m)
  then show ?thesis
    by (cases "io_state (gpu_info m)"; cases callback)
      (simp_all add: nvfs_io_terminate_requested_def eval_nat_numeral cmpxchg_live get_io_state_def Let_def)
qed

section \<open>The interleaving\<close>

text \<open>
  Where the thread that does I/O is. A configuration is the state of the driver, that thread, the requests to end that
  are being made, each with its kind and its place, and two values for the record: the number of I/O that have ended
  with the buffer ready again, and for each request that number at its beginning.
\<close>

datatype io_place = IoIdle | IoBegin bool transit_pc | IoRunning | IoEnd bool transit_pc

record io_conf =
  conf_state :: kstate
  io_thread :: io_place
  io_ends :: nat
  requests :: "nat \<Rightarrow> (bool \<times> nat \<times> term_pc) option"

definition io_start :: "kstate \<Rightarrow> io_conf" where
  "io_start s = \<lparr> conf_state = s, io_thread = IoIdle, io_ends = 0, requests = Map.empty \<rparr>"

inductive io_step :: "mptr \<Rightarrow> io_conf \<Rightarrow> io_conf \<Rightarrow> bool" for p :: mptr where
  io_begin: "io_thread c = IoIdle \<Longrightarrow> io_step p c (c\<lparr>io_thread := IoBegin sync X_CAS\<rparr>)"
| io_begin_step: "io_thread c = IoBegin sync x \<Longrightarrow>
    transit_step e p sync IO_READY IO_IN_PROGRESS x (conf_state c) = Some (x', s') \<Longrightarrow>
    io_step p c (c\<lparr>conf_state := s', io_thread := IoBegin sync x'\<rparr>)"
| io_begun: "io_thread c = IoBegin sync (X_RET ok) \<Longrightarrow> io_step p c (c\<lparr>io_thread := if ok then IoRunning else IoIdle\<rparr>)"
| io_end: "io_thread c = IoRunning \<Longrightarrow> io_step p c (c\<lparr>io_thread := IoEnd sync X_CAS\<rparr>)"
| io_end_step: "io_thread c = IoEnd sync x \<Longrightarrow>
    transit_step e p sync IO_IN_PROGRESS IO_READY x (conf_state c) = Some (x', s') \<Longrightarrow>
    io_step p c (c\<lparr>conf_state := s', io_thread := IoEnd sync x', io_ends := io_ends c + (if x' = X_RET True then 1 else 0)\<rparr>)"
| io_ended: "io_thread c = IoEnd sync (X_RET ok) \<Longrightarrow> io_step p c (c\<lparr>io_thread := IoIdle\<rparr>)"
| req_begin: "requests c i = None \<Longrightarrow> io_step p c (c\<lparr>requests := (requests c)(i \<mapsto> (callback, io_ends c, T_FREE))\<rparr>)"
| req_step: "requests c i = Some (callback, k, t) \<Longrightarrow> term_step p callback t (conf_state c) = Some (t', s') \<Longrightarrow>
    io_step p c (c\<lparr>conf_state := s', requests := (requests c)(i \<mapsto> (callback, k, t'))\<rparr>)"
| req_end: "requests c i = Some (callback, k, T_RET w) \<Longrightarrow> io_step p c (c\<lparr>requests := (requests c)(i := None)\<rparr>)"
| take_ref: "nvfs_mgroup_get_ref p (conf_state c) = Some s' \<Longrightarrow> io_step p c (c\<lparr>conf_state := s'\<rparr>)"
| drop_ref: "nvfs_mgroup_put e p (conf_state c) = Some s' \<Longrightarrow> io_step p c (c\<lparr>conf_state := s'\<rparr>)"

abbreviation io_steps :: "mptr \<Rightarrow> io_conf \<Rightarrow> io_conf \<Rightarrow> bool" where
  "io_steps p \<equiv> (io_step p)\<^sup>*\<^sup>*"

text \<open>An I/O runs from the operation that moves the state to \<^verbatim>\<open>IO_IN_PROGRESS\<close> to the one that moves it on.\<close>

definition running :: "io_conf \<Rightarrow> bool" where
  "running c \<longleftrightarrow> (case io_thread c of IoIdle \<Rightarrow> False | IoBegin sync x \<Rightarrow> x = X_RET True | IoRunning \<Rightarrow> True
     | IoEnd sync x \<Rightarrow> x = X_CAS \<or> x = X_TREQ \<or> x = X_SET)"

text \<open>The states the group can have, which is none once it is freed.\<close>

abbreviation state_in :: "mptr \<Rightarrow> io_conf \<Rightarrow> nvfs_io_state set \<Rightarrow> bool" where
  "state_in p c A \<equiv> set_option (get_io_state p (conf_state c)) \<subseteq> A"

definition consistent :: "mptr \<Rightarrow> io_conf \<Rightarrow> bool" where
  "consistent p c \<longleftrightarrow> state_in p c (if running c then {IO_IN_PROGRESS, IO_TERMINATE_REQ, IO_CALLBACK_REQ}
     else {IO_READY, IO_TERMINATED, IO_CALLBACK_END})"

text \<open>Its end has been asked for, or has come.\<close>

definition ending :: "mptr \<Rightarrow> io_conf \<Rightarrow> bool" where
  "ending p c \<longleftrightarrow> state_in p c (if running c then {IO_TERMINATE_REQ, IO_CALLBACK_REQ} else {IO_TERMINATED, IO_CALLBACK_END})"

text \<open>
  What is known at each place of a request: past the test for \<^verbatim>\<open>IO_READY\<close> the state is not \<^verbatim>\<open>IO_READY\<close>, and past that for
  \<^verbatim>\<open>IO_IN_PROGRESS\<close> the group is ending, unless an I/O has ended since the request began.
\<close>

fun request_ok :: "mptr \<Rightarrow> io_conf \<Rightarrow> bool \<times> nat \<times> term_pc \<Rightarrow> bool" where
  "request_ok p c (callback, k, t) \<longleftrightarrow> k \<le> io_ends c \<and> (io_ends c = k \<longrightarrow>
     (case t of T_PROG \<Rightarrow> state_in p c (- {IO_READY}) | T_TREQ \<Rightarrow> ending p c | T_READ1 \<Rightarrow> ending p c
      | T_READ2 \<Rightarrow> ending p c \<and> state_in p c (- {IO_TERMINATE_REQ})
      | T_RET w \<Rightarrow> ending p c | _ \<Rightarrow> True))"

definition machine_inv :: "mptr \<Rightarrow> io_conf \<Rightarrow> bool" where
  "machine_inv p c \<longleftrightarrow> consistent p c \<and> (\<forall>r \<in> ran (requests c). request_ok p c r)"

section \<open>What a step can do to the state\<close>

lemma put_keeps_state:
  assumes "nvfs_mgroup_put e p s = Some s'"
  shows "set_option (get_io_state p s') \<subseteq> set_option (get_io_state p s)"
proof (cases "mgroups s p")
  case None
  then show ?thesis using assms by (simp add: nvfs_mgroup_put_def nvfs_mgroup_put_internal_def nvfs_mgroup_put_ref_def)
next
  case (Some m)
  show ?thesis
  proof (cases "mg_ref m = 1")
    case True
    then show ?thesis using put_last_effect [of s p m e False s'] assms Some by (simp add: nvfs_mgroup_put_def get_io_state_def)
  next
    case False
    then show ?thesis using put_shared_effect [of s p m e False] assms Some by (auto simp: nvfs_mgroup_put_def get_io_state_def)
  qed
qed

lemma get_ref_keeps_state:
  "nvfs_mgroup_get_ref p s = Some s' \<Longrightarrow> get_io_state p s' = get_io_state p s"
  by (auto simp: nvfs_mgroup_get_ref_def upd_mgroup_def get_io_state_def split: option.splits)

lemma get_klog_event [simp]: "get_io_state p (klog_event ev s) = get_io_state p s"
  by (simp add: get_io_state_def klog_event_def)

lemma cmpxchg_state:
  assumes "cmpxchg_io_state p a b s = Some (old, s')"
  shows "get_io_state p s = Some old \<and> get_io_state p s' = Some (if old = a then b else old)"
proof -
  obtain m where m: "mgroups s p = Some m" using assms by (auto simp: cmpxchg_io_state_def get_io_state_def bind_eq_Some_conv)
  show ?thesis
    using assms m by (auto simp: cmpxchg_live get_io_state_def)
qed

lemma set_state: "set_io_state p st s = Some s' \<Longrightarrow> get_io_state p s' = Some st"
  by (auto simp: upd_defs upd_mgroup_def split: option.splits)

lemma try_transit_state:
  assumes "try_transit e p from to s = Some (ok, s')" and "from \<noteq> IO_INIT"
  shows "if ok then get_io_state p s = Some from \<and> get_io_state p s' = Some to else get_io_state p s' = get_io_state p s"
  using assms cmpxchg_state [of p "from" to s] by (auto simp: try_transit_def bind_eq_Some_conv split: if_splits)

lemma transit_step_state:
  assumes "transit_step e p sync from to x s = Some (x', s')" and "from \<noteq> IO_INIT"
  shows "case x of
      X_CAS \<Rightarrow> x' = X_RET True \<and> get_io_state p s = Some from \<and> get_io_state p s' = Some to \<or>
        x' = X_TREQ \<and> get_io_state p s' = get_io_state p s
    | X_TREQ \<Rightarrow> x' = X_PUT \<and> get_io_state p s = Some IO_TERMINATE_REQ \<and> get_io_state p s' = Some IO_TERMINATED \<or>
        x' = X_SET \<and> get_io_state p s' = get_io_state p s
    | X_PUT \<Rightarrow> x' = X_LOG \<and> set_option (get_io_state p s') \<subseteq> set_option (get_io_state p s)
    | X_SET \<Rightarrow> x' = X_LOG \<and> get_io_state p s' = Some IO_CALLBACK_END
    | X_LOG \<Rightarrow> x' = X_RET False \<and> s' = s
    | X_RET ok \<Rightarrow> False"
  using assms
proof (cases x)
  case X_CAS
  then show ?thesis using assms try_transit_state [of e p "from" to s] by (force simp: bind_eq_Some_conv split: if_splits)
next
  case X_TREQ
  then show ?thesis
    using assms(1) cmpxchg_state [of p IO_TERMINATE_REQ IO_TERMINATED s] by (auto simp: bind_eq_Some_conv split: if_splits)
next
  case X_PUT
  then show ?thesis using assms(1) put_keeps_state [of e p "klog_event (EvWakeUp p) s"] by (auto simp: bind_eq_Some_conv)
next
  case X_SET
  then show ?thesis using assms(1) set_state by (auto simp: bind_eq_Some_conv)
qed (auto simp: bind_eq_Some_conv)

text \<open>A request to end, on the state alone: its next place, and the state after.\<close>

fun term_table :: "bool \<Rightarrow> term_pc \<Rightarrow> nvfs_io_state \<Rightarrow> term_pc \<times> nvfs_io_state" where
  "term_table callback T_FREE st = (if st = IO_FREE then (T_RET False, IO_TERMINATED) else (T_INIT, st))"
| "term_table callback T_INIT st =
     (if st = IO_INIT then (T_RET False, if callback then IO_CALLBACK_END else IO_TERMINATED) else (T_READY, st))"
| "term_table callback T_READY st =
     (if st = IO_READY then (T_RET False, if callback then IO_CALLBACK_END else IO_TERMINATED) else (T_PROG, st))"
| "term_table callback T_PROG st =
     (if st = IO_IN_PROGRESS then (T_RET True, if callback then IO_CALLBACK_REQ else IO_TERMINATE_REQ)
      else (if callback then T_TREQ else T_READ1, st))"
| "term_table callback T_TREQ st = (if st = IO_TERMINATE_REQ then (T_RET True, IO_CALLBACK_REQ) else (T_READ1, st))"
| "term_table callback T_READ1 st = (if st = IO_TERMINATE_REQ then T_RET True else T_READ2, st)"
| "term_table callback T_READ2 st = (T_RET (st = IO_CALLBACK_REQ), st)"
| "term_table callback (T_RET w) st = (T_RET w, st)"

lemma term_step_state:
  assumes "term_step p callback t s = Some (t', s')"
  obtains st where "get_io_state p s = Some st" "t' = fst (term_table callback t st)" "get_io_state p s' = Some (snd (term_table callback t st))"
    "\<forall>w. t \<noteq> T_RET w"
proof -
  obtain st where "get_io_state p s = Some st"
    using assms by (cases t) (auto simp: bind_eq_Some_conv dest!: cmpxchg_state)
  moreover from this have "t' = fst (term_table callback t st) \<and> get_io_state p s' = Some (snd (term_table callback t st)) \<and> (\<forall>w. t \<noteq> T_RET w)"
    using assms by (cases t) (auto simp: bind_eq_Some_conv dest!: cmpxchg_state)
  ultimately show ?thesis using that by blast
qed

section \<open>The invariant\<close>

text \<open>What a step keeps: consistency, and that the group is ending; without an end of an I/O, a group that is not ready does not become ready.\<close>

definition kept_by :: "mptr \<Rightarrow> io_conf \<Rightarrow> io_conf \<Rightarrow> bool" where
  "kept_by p c c' \<longleftrightarrow> consistent p c' \<and> io_ends c \<le> io_ends c' \<and>
     (ending p c \<longrightarrow> ending p c' \<and> (running c' \<longrightarrow> running c) \<and> (state_in p c (- {IO_TERMINATE_REQ}) \<longrightarrow> state_in p c' (- {IO_TERMINATE_REQ}))) \<and>
     (io_ends c' = io_ends c \<longrightarrow> state_in p c (- {IO_READY}) \<longrightarrow> state_in p c' (- {IO_READY}))"

lemmas machine_defs = kept_by_def consistent_def ending_def running_def

lemma state_kept:
  assumes "consistent p c" and "running c' = running c" and "io_ends c' = io_ends c"
    and "set_option (get_io_state p (conf_state c')) \<subseteq> set_option (get_io_state p (conf_state c))"
  shows "kept_by p c c'"
  using assms unfolding kept_by_def consistent_def ending_def by auto

lemma begin_kept:
  assumes "consistent p c" and "io_thread c = IoBegin sync x"
    and "transit_step e p sync IO_READY IO_IN_PROGRESS x (conf_state c) = Some (x', s')"
  shows "kept_by p c (c\<lparr>conf_state := s', io_thread := IoBegin sync x'\<rparr>)"
  using transit_step_state [OF assms(3)] assms(1,2)
  by (cases x; cases "get_io_state p (conf_state c)") (auto simp: machine_defs)

lemma end_kept:
  assumes "consistent p c" and "io_thread c = IoEnd sync x"
    and "transit_step e p sync IO_IN_PROGRESS IO_READY x (conf_state c) = Some (x', s')"
  shows "kept_by p c (c\<lparr>conf_state := s', io_thread := IoEnd sync x', io_ends := io_ends c + (if x' = X_RET True then 1 else 0)\<rparr>)"
  using transit_step_state [OF assms(3)] assms(1,2)
  by (cases x; cases "get_io_state p (conf_state c)") (auto simp: machine_defs)

lemma request_kept:
  assumes "consistent p c" and "term_step p callback t (conf_state c) = Some (t', s')"
  shows "kept_by p c (c\<lparr>conf_state := s', requests := R\<rparr>)"
proof -
  obtain st where st: "get_io_state p (conf_state c) = Some st" "get_io_state p s' = Some (snd (term_table callback t st))"
    using term_step_state [OF assms(2)] by metis
  have run: "running (c\<lparr>conf_state := s', requests := R\<rparr>) = running c" by (simp add: running_def)
  show ?thesis
    using assms(1) st run unfolding kept_by_def consistent_def ending_def
    by (cases t; cases callback; cases "running c") auto
qed

lemma io_step_kept:
  assumes "io_step p c c'" and "consistent p c"
  shows "kept_by p c c'"
  using assms(1)
proof (cases rule: io_step.cases)
  case (io_begin_step sync x e x' s')
  then show ?thesis using begin_kept [OF assms(2)] by simp
next
  case (io_end_step sync x e x' s')
  then show ?thesis using end_kept [OF assms(2)] by simp
next
  case (req_step i callback k t t' s')
  then show ?thesis using request_kept [OF assms(2)] by simp
next
  case (take_ref s')
  then show ?thesis using get_ref_keeps_state [of p "conf_state c" s'] by (intro state_kept [OF assms(2)]) (auto simp: running_def)
next
  case (drop_ref e s')
  then show ?thesis using put_keeps_state [of e p "conf_state c" s'] by (intro state_kept [OF assms(2)]) (auto simp: running_def)
qed (auto intro!: state_kept [OF assms(2)] simp: running_def)

text \<open>Requests that a step does not move stay in order.\<close>

lemma request_ok_kept:
  assumes "kept_by p c c'" and "request_ok p c r"
  shows "request_ok p c' r"
proof -
  obtain callback k t where r: "r = (callback, k, t)" by (cases r)
  show ?thesis using assms unfolding r by (cases t) (auto simp: kept_by_def)
qed

lemma request_ok_step:
  assumes "request_ok p c (callback, k, t)" and "consistent p c" and "term_step p callback t (conf_state c) = Some (t', s')"
    and "c' = c\<lparr>conf_state := s', requests := R\<rparr>"
  shows "request_ok p c' (callback, k, t')"
proof -
  obtain st where st: "get_io_state p (conf_state c) = Some st" "t' = fst (term_table callback t st)"
    "get_io_state p s' = Some (snd (term_table callback t st))"
    using term_step_state [OF assms(3)] by metis
  have run: "running c' = running c" unfolding assms(4) by (simp add: running_def)
  show ?thesis
    using assms(1,2) st run unfolding consistent_def ending_def
    by (cases t; cases callback; cases "running c") (auto simp: assms(4) ending_def split: if_splits)
qed

lemma step_inv:
  assumes "io_step p c c'" and "machine_inv p c"
  shows "machine_inv p c'"
proof -
  have inv: "consistent p c" "\<forall>r \<in> ran (requests c). request_ok p c r" using assms(2) by (simp_all add: machine_inv_def)
  have kept: "kept_by p c c'" by (rule io_step_kept [OF assms(1) inv(1)])
  have old: "request_ok p c' r" if "r \<in> ran (requests c)" for r using request_ok_kept [OF kept] inv(2) that by blast
  have "request_ok p c' r" if "r \<in> ran (requests c')" for r
    using assms(1)
  proof (cases rule: io_step.cases)
    case (req_begin i callback)
    then have "r \<in> ran (requests c) \<or> r = (callback, io_ends c', T_FREE)" using that by (auto simp: ran_def split: if_splits)
    then show ?thesis using old by fastforce
  next
    case (req_step i callback k t t' s')
    have "(callback, k, t) \<in> ran (requests c)" using req_step(2) by (rule ranI)
    then have "request_ok p c (callback, k, t)" using inv(2) by blast
    then have "request_ok p c' (callback, k, t')" by (rule request_ok_step [OF _ inv(1) req_step(3,1)])
    moreover have "r \<in> ran (requests c) \<or> r = (callback, k, t')" using that req_step(1) by (auto simp: ran_def split: if_splits)
    ultimately show ?thesis using old by blast
  next
    case (req_end i callback k w)
    then have "r \<in> ran (requests c)" using that by (auto simp: ran_def split: if_splits)
    then show ?thesis by (rule old)
  qed (use that old in auto)
  then show ?thesis using kept by (simp add: machine_inv_def kept_by_def)
qed

lemma steps_inv: "io_steps p c c' \<Longrightarrow> machine_inv p c \<Longrightarrow> machine_inv p c'"
  by (induction rule: rtranclp_induct) (auto dest: step_inv)

lemma start_inv: "get_io_state p s = Some IO_READY \<Longrightarrow> machine_inv p (io_start s)"
  by (simp add: machine_inv_def io_start_def consistent_def running_def)

lemma steps_ending:
  assumes "io_steps p c c'" and "machine_inv p c" and "ending p c"
  shows "ending p c' \<and> (running c' \<longrightarrow> running c)"
  using assms
proof (induction rule: rtranclp_induct)
  case (step c1 c2)
  then have "consistent p c1" using steps_inv by (auto simp: machine_inv_def)
  then show ?case using io_step_kept [OF step(2)] step by (auto simp: kept_by_def)
qed simp

text \<open>The moment in which a request returns.\<close>

lemma request_returns:
  assumes "machine_inv p c" and "requests c i = Some (callback, k, t)"
    and "term_step p callback t (conf_state c) = Some (T_RET w, s')" and "w \<or> io_ends c = k"
    and "c' = c\<lparr>conf_state := s', requests := R\<rparr>"
  shows "w = running c'" "ending p c'"
proof -
  obtain st where st: "get_io_state p (conf_state c) = Some st" "T_RET w = fst (term_table callback t st)"
    "get_io_state p s' = Some (snd (term_table callback t st))" "\<forall>w. t \<noteq> T_RET w"
    using term_step_state [OF assms(3)] by metis
  have run: "running c' = running c" unfolding assms(5) by (simp add: running_def)
  have "(callback, k, t) \<in> ran (requests c)" using assms(2) by (rule ranI)
  then have inv: "consistent p c" "request_ok p c (callback, k, t)"
    using assms(1) unfolding machine_inv_def by blast+
  show "w = running c'" "ending p c'"
    using inv st run assms(4) unfolding consistent_def ending_def
    by (cases t; cases callback; cases "running c"; auto simp: assms(5) ending_def split: if_splits)+
qed

text \<open>
  C18. A request to end a buffer, from \<^verbatim>\<open>munmap\<close> or from the callback of the GPU driver, under interleaving. From a ready buffer, with one I/O at a time and
  any number of requests, where other threads run between any two atomic operations of each routine: a request that
  returns is told to wait exactly if an I/O runs at that moment, and from then on, as long as the group is not freed, it is
  asked to end while that I/O runs and is terminated, or at the end of a callback, once it does not, and no further I/O begins.
  This holds for every request that is told to wait, and for one that is not if no I/O has ended with success since the request began.
\<close>

theorem io_machine_safe:
  assumes "get_io_state p s0 = Some IO_READY" and "io_steps p (io_start s0) c"
    and "requests c i = Some (callback, k, t)" and "term_step p callback t (conf_state c) = Some (T_RET w, s')"
    and "c' = c\<lparr>conf_state := s', requests := (requests c)(i \<mapsto> (callback, k, T_RET w))\<rparr>"
    and "w \<or> io_ends c = k" and "io_steps p c' c2" and "get_io_state p (conf_state c2) = Some st"
  shows "w = running c' \<and> (running c2 \<longrightarrow> running c') \<and>
    st \<in> (if running c2 then {IO_TERMINATE_REQ, IO_CALLBACK_REQ} else {IO_TERMINATED, IO_CALLBACK_END})"
proof -
  have inv: "machine_inv p c" by (rule steps_inv [OF assms(2) start_inv [OF assms(1)]])
  have "io_step p c c'" unfolding assms(5) by (rule req_step [OF assms(3,4)])
  then have inv': "machine_inv p c'" using inv by (rule step_inv)
  note ret = request_returns [OF inv assms(3,4,6,5)]
  have "ending p c2 \<and> (running c2 \<longrightarrow> running c')" by (rule steps_ending [OF assms(7) inv' ret(2)])
  then show ?thesis using ret(1) assms(8) by (auto simp: ending_def)
qed

text \<open>The group of the examples in a given state, and configurations with one request.\<close>

definition ex_in :: "nvfs_io_state \<Rightarrow> kstate" where
  "ex_in x = ex_ready_state\<lparr>mgroups := (mgroups ex_ready_state)(100 \<mapsto> with_io_state x ex_ready_group)\<rparr>"

abbreviation ex_conf :: "nvfs_io_state \<Rightarrow> io_place \<Rightarrow> nat \<Rightarrow> bool \<Rightarrow> term_pc \<Rightarrow> io_conf" where
  "ex_conf x pl n cb t \<equiv> \<lparr> conf_state = ex_in x, io_thread = pl, io_ends = n, requests = [0 \<mapsto> (cb, 0, t)] \<rparr>"

lemma ex_in_live [simp]:
  "mgroups (ex_in x) 100 = Some (with_io_state x ex_ready_group)" "get_io_state 100 (ex_in x) = Some x"
  by (simp_all add: ex_in_def get_io_state_def)

lemma ex_in_move [simp]: "(ex_in x)\<lparr>mgroups := (mgroups (ex_in x))(100 \<mapsto> with_io_state y ex_ready_group)\<rparr> = ex_in y"
  by (simp add: ex_in_def)

lemma ex_in_ready: "ex_ready_state = ex_in IO_READY"
  by (simp add: ex_in_def ex_ready_state_def ex_ready_group_def ex_ready_gpu_def)

lemma ex_cmpxchg [simp]: "cmpxchg_io_state 100 a b (ex_in x) = Some (x, ex_in (if x = a then b else x))"
  by (simp add: cmpxchg_live)

lemma ex_no_fault [simp]: "try_transit ex_env 100 a b (ex_in x) = Some (x = a, ex_in (if x = a then b else x))"
  by (simp add: try_transit_def ex_env_def)

lemma ex_request_step:
  assumes "term_step 100 cb t (ex_in x) = Some (t', ex_in y)"
  shows "io_step 100 (ex_conf x pl n cb t) (ex_conf y pl n cb t')"
  using req_step [of "ex_conf x pl n cb t" 0 cb 0 t 100 t' "ex_in y"] assms by simp

lemma ex_begins:
  "io_steps 100 (io_start (ex_in IO_READY)) (ex_conf IO_IN_PROGRESS IoRunning 0 cb T_PROG)"
proof -
  let ?c = "\<lambda>x pl. \<lparr> conf_state = ex_in x, io_thread = pl, io_ends = 0, requests = Map.empty \<rparr>"
  have "io_step 100 (io_start (ex_in IO_READY)) (?c IO_READY (IoBegin True X_CAS))"
    using io_begin [of "io_start (ex_in IO_READY)" 100 True] by (simp add: io_start_def)
  moreover have "io_step 100 (?c IO_READY (IoBegin True X_CAS)) (?c IO_IN_PROGRESS (IoBegin True (X_RET True)))"
    using io_begin_step [of "?c IO_READY (IoBegin True X_CAS)" True X_CAS ex_env 100 "X_RET True" "ex_in IO_IN_PROGRESS"] by simp
  moreover have "io_step 100 (?c IO_IN_PROGRESS (IoBegin True (X_RET True))) (?c IO_IN_PROGRESS IoRunning)"
    using io_begun [of "?c IO_IN_PROGRESS (IoBegin True (X_RET True))" True True 100] by simp
  moreover have "io_step 100 (?c IO_IN_PROGRESS IoRunning) (ex_conf IO_IN_PROGRESS IoRunning 0 cb T_FREE)"
    using req_begin [of "?c IO_IN_PROGRESS IoRunning" 0 100 cb] by simp
  moreover have "io_step 100 (ex_conf IO_IN_PROGRESS IoRunning 0 cb T_FREE) (ex_conf IO_IN_PROGRESS IoRunning 0 cb T_INIT)"
    "io_step 100 (ex_conf IO_IN_PROGRESS IoRunning 0 cb T_INIT) (ex_conf IO_IN_PROGRESS IoRunning 0 cb T_READY)"
    "io_step 100 (ex_conf IO_IN_PROGRESS IoRunning 0 cb T_READY) (ex_conf IO_IN_PROGRESS IoRunning 0 cb T_PROG)"
    by (rule ex_request_step; simp)+
  ultimately show ?thesis by (meson converse_rtranclp_into_rtranclp rtranclp.rtrancl_refl)
qed

text \<open>A run: an I/O begins, the buffer is unmapped, and the I/O ends.\<close>

theorem io_machine_safe_witness:
  "\<exists>c c' c2. io_steps 100 (io_start ex_ready_state) c \<and> term_step 100 False T_PROG (conf_state c) = Some (T_RET True, conf_state c') \<and>
     running c' \<and> io_steps 100 c' c2 \<and> \<not> running c2 \<and> get_io_state 100 (conf_state c2) = Some IO_TERMINATED"
proof -
  let ?c = "ex_conf IO_IN_PROGRESS IoRunning 0 False T_PROG"
  let ?c' = "\<lambda>x pl. ex_conf x pl 0 False (T_RET True)"
  have "io_step 100 (?c' IO_TERMINATE_REQ IoRunning) (?c' IO_TERMINATE_REQ (IoEnd True X_CAS))"
    using io_end [of "?c' IO_TERMINATE_REQ IoRunning" 100 True] by simp
  moreover have "io_step 100 (?c' IO_TERMINATE_REQ (IoEnd True X_CAS)) (?c' IO_TERMINATE_REQ (IoEnd True X_TREQ))"
    using io_end_step [of "?c' IO_TERMINATE_REQ (IoEnd True X_CAS)" True X_CAS ex_env 100 X_TREQ "ex_in IO_TERMINATE_REQ"] by simp
  moreover have "io_step 100 (?c' IO_TERMINATE_REQ (IoEnd True X_TREQ)) (?c' IO_TERMINATED (IoEnd True X_PUT))"
    using io_end_step [of "?c' IO_TERMINATE_REQ (IoEnd True X_TREQ)" True X_TREQ ex_env 100 X_PUT "ex_in IO_TERMINATED"] by simp
  ultimately have run: "io_steps 100 (?c' IO_TERMINATE_REQ IoRunning) (?c' IO_TERMINATED (IoEnd True X_PUT))"
    by (meson converse_rtranclp_into_rtranclp rtranclp.rtrancl_refl)
  have step: "term_step 100 False T_PROG (conf_state ?c) = Some (T_RET True, ex_in IO_TERMINATE_REQ)" by simp
  have "running (?c' IO_TERMINATE_REQ IoRunning)"
    using io_machine_safe [of 100 "ex_in IO_READY" ?c 0 False 0 T_PROG True "ex_in IO_TERMINATE_REQ" "?c' IO_TERMINATE_REQ IoRunning"
        "?c' IO_TERMINATED (IoEnd True X_PUT)" IO_TERMINATED] ex_begins [of False] run by simp
  moreover have "\<not> running (?c' IO_TERMINATED (IoEnd True X_PUT))" by (simp add: running_def)
  ultimately show ?thesis unfolding ex_in_ready using ex_begins [of False] step run
    by (intro exI [of _ ?c] exI [of _ "?c' IO_TERMINATE_REQ IoRunning"] exI [of _ "?c' IO_TERMINATED (IoEnd True X_PUT)"]) simp
qed

section \<open>What the interleaving breaks\<close>

text \<open>
  The condition on a request that is not told to wait is needed. An I/O runs while the request makes its test for \<^verbatim>\<open>IO_READY\<close>, and has ended when it makes
  that for \<^verbatim>\<open>IO_IN_PROGRESS\<close>: all tests fail, the request returns without an order to wait, and the buffer is as ready as before. The
  callback of the GPU driver, which then waits for a termination that nobody has asked for, spins; another I/O can begin.
\<close>

lemma ended_io_hides_buffer:
  "\<exists>c c2. io_steps 100 (io_start ex_ready_state) c \<and> requests c 0 = Some (callback, 0, T_RET False) \<and>
     get_io_state 100 (conf_state c) = Some IO_READY \<and> io_steps 100 c c2 \<and> running c2"
proof -
  let ?c = "\<lambda>x pl t. ex_conf x pl 1 callback t"
  let ?r = "IoEnd True (X_RET True)"
  have b: "io_steps 100 (io_start (ex_in IO_READY)) (ex_conf IO_IN_PROGRESS IoRunning 0 callback T_PROG)" by (rule ex_begins)
  have e1: "io_step 100 (ex_conf IO_IN_PROGRESS IoRunning 0 callback T_PROG) (ex_conf IO_IN_PROGRESS (IoEnd True X_CAS) 0 callback T_PROG)"
    using io_end [of "ex_conf IO_IN_PROGRESS IoRunning 0 callback T_PROG" 100 True] by simp
  have e2: "io_step 100 (ex_conf IO_IN_PROGRESS (IoEnd True X_CAS) 0 callback T_PROG) (?c IO_READY ?r T_PROG)"
    using io_end_step [of "ex_conf IO_IN_PROGRESS (IoEnd True X_CAS) 0 callback T_PROG" True X_CAS ex_env 100 "X_RET True" "ex_in IO_READY"] by simp
  have t: "io_steps 100 (?c IO_READY ?r T_PROG) (?c IO_READY ?r T_READ1)"
  proof (cases callback)
    case True
    then have "io_step 100 (?c IO_READY ?r T_PROG) (?c IO_READY ?r T_TREQ)" "io_step 100 (?c IO_READY ?r T_TREQ) (?c IO_READY ?r T_READ1)"
      by (auto intro!: ex_request_step)
    then show ?thesis by (meson converse_rtranclp_into_rtranclp rtranclp.rtrancl_refl)
  next
    case False
    then have "io_step 100 (?c IO_READY ?r T_PROG) (?c IO_READY ?r T_READ1)" by (auto intro!: ex_request_step)
    then show ?thesis by blast
  qed
  have r: "io_step 100 (?c IO_READY ?r T_READ1) (?c IO_READY ?r T_READ2)" "io_step 100 (?c IO_READY ?r T_READ2) (?c IO_READY ?r (T_RET False))"
    by (rule ex_request_step; simp)+
  have first: "io_steps 100 (io_start (ex_in IO_READY)) (?c IO_READY ?r (T_RET False))"
    using b e1 e2 t r by (meson rtranclp.rtrancl_into_rtrancl rtranclp_trans)
  let ?d = "\<lambda>x pl. ?c x pl (T_RET False)"
  have "io_step 100 (?d IO_READY ?r) (?d IO_READY IoIdle)" using io_ended [of "?d IO_READY ?r" True True 100] by simp
  moreover have "io_step 100 (?d IO_READY IoIdle) (?d IO_READY (IoBegin True X_CAS))" using io_begin [of "?d IO_READY IoIdle" 100 True] by simp
  moreover have "io_step 100 (?d IO_READY (IoBegin True X_CAS)) (?d IO_IN_PROGRESS (IoBegin True (X_RET True)))"
    using io_begin_step [of "?d IO_READY (IoBegin True X_CAS)" True X_CAS ex_env 100 "X_RET True" "ex_in IO_IN_PROGRESS"] by simp
  ultimately have "io_steps 100 (?d IO_READY ?r) (?d IO_IN_PROGRESS (IoBegin True (X_RET True)))"
    by (meson converse_rtranclp_into_rtranclp rtranclp.rtrancl_refl)
  with first show ?thesis unfolding ex_in_ready
    by (intro exI [of _ "?d IO_READY ?r"] exI [of _ "?d IO_IN_PROGRESS (IoBegin True (X_RET True))"]) (simp add: running_def)
qed

text \<open>
  The restriction to one I/O at a time is needed, too. A second I/O on a busy buffer leaves it at the end of a callback
  (\<open>second_io_poisons_group\<close>), and a callback that comes then does not wait for the first one.
\<close>

lemma second_io_defeats_wait:
  assumes "mgroups s p = Some m" and "io_state (gpu_info m) = IO_IN_PROGRESS"
    and "\<not> should_fail e (nvfs_io_transit_state_fail IO_READY IO_IN_PROGRESS)"
  shows "\<exists>s1 s2. nvfs_transit_state e p sync IO_READY IO_IN_PROGRESS s = Some (False, s1) \<and>
    nvfs_io_terminate_requested p callback s1 = Some (False, s2)"
  using transit_fail_end [OF assms(1) _ assms(3), of sync] assms(2)
  by (simp add: terminate_requested_live [of _ p "with_io_state IO_CALLBACK_END m"] klog_event_def)

end
