(* ===== verification/Nvfs_Async.thy ===== *)
theory Nvfs_Async
  imports Nvfs_Ioctl
begin

text \<open>
  Asynchronous requests (\<^verbatim>\<open>nvfs_io_start_op\<close>, \<^verbatim>\<open>nvfs_io_complete\<close> and \<^verbatim>\<open>nvfs_io_free\<close> of \<^verbatim>\<open>nvfs-core.c\<close>): the file system queues the
  request and answers \<^verbatim>\<open>-EIOCBQUEUED\<close>, the call returns to user space, and the completion arrives later, on any
  processor, and writes its result to the completion page that user space watches. Also here: what happens when the file
  system answers such a request at once.
\<close>

section \<open>A request is queued\<close>

definition queues :: "fsenv \<Rightarrow> bool" where
  "queues fs \<longleftrightarrow> (\<forall>op fd buf len pos s. call_iter fs op fd buf len pos s = Some (- EIOCBQUEUED, s))"

definition async_env :: "kenv \<Rightarrow> fsenv \<Rightarrow> kfile \<Rightarrow> nvfs_op \<Rightarrow> bool" where
  "async_env e fs f op \<longleftrightarrow> valid_page_shift (page_shift e) \<and> no_faults e \<and> file_ok fs op f"

text \<open>The request as it is issued, and as the file system holds it.\<close>

definition issued :: "nvfs_io_mgroup \<Rightarrow> nvfs_io_mgroup" where
  "issued m = m\<lparr>nvfsio := (nvfsio m)\<lparr>io_meta := NVFS_IO_META_CLEAN, io_ret := - EINVAL, check_sparse := False\<rparr>\<rparr>"

definition held_by_fs :: "nvfs_op \<Rightarrow> nvfs_io_mgroup \<Rightarrow> nvfs_io_mgroup" where
  "held_by_fs op m = m\<lparr>nvfsio := (nvfsio m)\<lparr>ki_write := (op = WRITE)\<rparr>\<rparr>"

definition write_log :: "kevent \<Rightarrow> nvfs_op \<Rightarrow> kevent list" where
  "write_log ev op = (if op = WRITE then [ev] else [])"

lemma issued_fields [simp]:
  "io_sync (nvfsio (issued m)) = io_sync (nvfsio m)" "io_length (nvfsio (issued m)) = io_length (nvfsio m)"
  "io_op (nvfsio (issued m)) = io_op (nvfsio m)" "io_fd (nvfsio (issued m)) = io_fd (nvfsio m)"
  "gpu_info (issued m) = gpu_info m" "mg_ref (issued m) = mg_ref m" "nvfs_metadata (issued m) = nvfs_metadata m"
  "nvfs_active_blocks_start (nvfsio (issued m)) = nvfs_active_blocks_start (nvfsio m)"
  "nvfs_active_blocks_end (nvfsio (issued m)) = nvfs_active_blocks_end (nvfsio m)" "\<not> check_sparse (nvfsio (issued m))"
  by (simp_all add: issued_def)

text \<open>Up to the call of the file system, the two kinds of requests do the same.\<close>

lemma issue_calls_fs:
  assumes "async_env e fs f op" and "mgroups s p = Some m" and "op = io_op (nvfsio m)" and "0 \<le> pos" and "0 \<le> n" and "pos + n < 2 ^ 63"
  shows "io_issue e fs f p n pos s =
    do { (r, s2) \<leftarrow> call_iter fs (if op = WRITE then WRITE else READ) (io_fd (nvfsio m)) (cpuvaddr (nvfsio m)) (word_of_int n) pos
           ((nvfs_get_ops e s)\<lparr>mgroups := (mgroups s)(p \<mapsto> held_by_fs op (issued m)), klog := write_log EvStartWrite op @ klog s\<rparr>);
         (ret, s3) \<leftarrow> nvfs_io_ret e fs p r s2;
         if ret = - EIOCBQUEUED
         then do { m3 \<leftarrow> mgroups s3 p; if io_sync (nvfsio m3) then None else Some (ret, s3) }
         else Some (ret, s3) }"
proof -
  have f: "op = READ \<longrightarrow> \<not> nvfs_is_sparse f" "has_read_iter f" "has_write_iter f" "no_faults e"
    using assms(1) by (auto simp: async_env_def file_ok_def)
  have v: "nvfs_rw_verify_area fs op f buf pos (word_of_int n) = 0" for buf
    using verify_area_ok [of fs op f pos n] assms(1,4-6) by (simp add: async_env_def)
  define S where "S = nvfs_get_ops e s"
  have S: "mgroups S = mgroups s" "klog S = klog s" "S\<lparr>mgroups := g, klog := klog s\<rparr> = S\<lparr>mgroups := g\<rparr>" for g
    by (simp_all add: S_def nvfs_get_ops_def)
  let ?m0 = "issued m"
  let ?s0 = "s\<lparr>mgroups := (mgroups s)(p \<mapsto> ?m0)\<rparr>"
  have get: "nvfs_get_ops e ?s0 = S\<lparr>mgroups := (mgroups s)(p \<mapsto> ?m0)\<rparr>" by (simp add: S_def nvfs_get_ops_def)
  have "io_issue e fs f p n pos s = nvfs_direct_io e fs op f p (cpuvaddr (nvfsio m)) (word_of_int n) pos (nvfs_get_ops e ?s0)"
    using assms(2,3) f by (auto simp: io_issue_def upd_defs upd_mgroup_def issued_def Let_def)
  then show ?thesis
    unfolding get S_def [symmetric] using f(4) v
    by (cases op) (simp_all add: nvfs_direct_io_def upd_defs upd_mgroup_def no_faults_def S held_by_fs_def write_log_def klog_event_def)
qed

lemma issue_queued:
  assumes "async_env e fs f op" and "queues fs" and "mgroups s p = Some m" and "op = io_op (nvfsio m)" and "0 \<le> pos" and "0 \<le> n"
    and "pos + n < 2 ^ 63" and "\<not> io_sync (nvfsio m)"
  shows "io_issue e fs f p n pos s = Some (- EIOCBQUEUED,
    (nvfs_get_ops e s)\<lparr>mgroups := (mgroups s)(p \<mapsto> held_by_fs op (issued m)), klog := write_log EvStartWrite op @ klog s\<rparr>)"
  using issue_calls_fs [OF assms(1,3-7)] assms(2,8) by (simp add: queues_def nvfs_io_ret_def held_by_fs_def issued_def)

text \<open>The piece that is issued: its blocks are queued, and the group is settled once the transfer is.\<close>

definition piece_of :: "kenv \<Rightarrow> int \<Rightarrow> nvfs_io_mgroup \<Rightarrow> nvfs_io_mgroup \<Rightarrow> bool" where
  "piece_of e n m m1 \<longleftrightarrow> same_request m m1 \<and>
     fill_groups e m (DIV_ROUND_UP (nat n) 4096) = Some (0, m1) \<and> end_fence_value (nvfsio m1) = end_fence_value (nvfsio m) \<and>
     (\<forall>k op. 0 \<le> k \<longrightarrow> k \<le> uint (io_length (nvfsio m)) \<longrightarrow> piece_queued (issued m1) k \<and>
        mgroup_wf e (served op k (issued m1)) \<and> settled (served op k (issued m1)))"

lemma piece_exists:
  assumes "valid_page_shift (page_shift e)" and "mgroup_wf e m" and "settled m" and "piece_fits m left rdma n"
  obtains m1 where "piece_of e n m m1" "0 < n" "n mod 4096 = 0"
    "n = min left (int (nvfs_blocks_count m * 4096) - int rdma)"
proof -
  obtain nr off where n: "n = min left (int (nvfs_blocks_count m * 4096) - int rdma)" "0 < n" "n = int (nr * 4096)"
    and fit: "gpu_page_offset (nvfsio m) = off * 4096" "off + nr \<le> nvfs_blocks_count m" "off = 0 \<or> off + nr \<le> 16"
    using assms(4) unfolding piece_fits_def by blast
  have nr: "0 < nr" "nr \<le> nvfs_blocks_count m" using n(2,3) fit(2) by auto
  then have off: "fill_blockoff m nr = Some off" using fit by (auto simp: fill_blockoff_Some)
  have fence: "end_fence_value (nvfsio m1) = end_fence_value (nvfsio m)" if "fill_groups e m nr = Some (0, m1)" for m1
    using that fill_groups_ok [OF assms(1-3) nr(2) off] by auto
  obtain m1 where m1: "fill_groups e m nr = Some (0, m1)" "same_request m m1"
    "nvfs_active_blocks_start (nvfsio m1) = off" "nvfs_active_blocks_end (nvfsio m1) = off + nr - 1"
    "\<exists>md. nvfs_metadata m1 = Some md \<and> off + nr \<le> length md"
    and keep: "\<And>f op n. nvfs_active_blocks_start (f (nvfsio m1)) = off \<Longrightarrow> nvfs_active_blocks_end (f (nvfsio m1)) = off + nr - 1 \<Longrightarrow>
       mgroup_wf e (served op n (m1\<lparr>nvfsio := f (nvfsio m1)\<rparr>)) \<and> settled (served op n (m1\<lparr>nvfsio := f (nvfsio m1)\<rparr>))"
    using fill_then_served [OF assms(1-3) nr(1) off nr(2)] by metis
  have "DIV_ROUND_UP (nat n) 4096 = nr" "n mod 4096 = 0" unfolding n(3) by (simp_all add: DIV_ROUND_UP_def)
  moreover have "mgroup_wf e (served op k (issued m1)) \<and> settled (served op k (issued m1))" for op k
    using keep [of "\<lambda>io. io\<lparr>io_meta := NVFS_IO_META_CLEAN, io_ret := - EINVAL, check_sparse := False\<rparr>" op k] m1(3,4)
    by (simp add: issued_def)
  moreover have "piece_queued (issued m1) k" if "0 \<le> k" "k \<le> uint (io_length (nvfsio m))" for k
    using that m1(3-5) nr(1) same_request_group(5) [OF m1(2)] by (auto simp: piece_queued_def io_same_def)
  moreover note fence [OF m1(1)]
  ultimately show ?thesis using that n(1,2) m1(1,2) by (simp add: piece_of_def)
qed

text \<open>A request that is set up, asynchronous, and is queued: the first piece is with the file system, and the call returns 0.\<close>

lemma turn_queued:
  assumes "async_env e fs f (io_op (nvfsio m))" and "queues fs" and "mgroups s p = Some m" and "io_state (gpu_info m) = IO_IN_PROGRESS"
    and "\<not> io_sync (nvfsio m)" and "piece_of e n m m1" and "0 < n" and "n mod 4096 = 0"
    and "n = min left (int (nvfs_blocks_count m * 4096) - int rdma)" and "0 \<le> pos" and "pos + left < 2 ^ 63"
  shows "io_turn e fs f p left k pos rdma s = Some (LoopExit False 0 k,
    (nvfs_get_ops e s)\<lparr>mgroups := (mgroups s)(p \<mapsto> held_by_fs (io_op (nvfsio m)) (issued m1)),
      klog := write_log EvStartWrite (io_op (nvfsio m)) @ klog s\<rparr>)"
proof -
  let ?s1 = "s\<lparr>mgroups := (mgroups s)(p \<mapsto> m1)\<rparr>" and ?op = "io_op (nvfsio m)"
  have m1: "io_op (nvfsio m1) = ?op" "\<not> io_sync (nvfsio m1)" "fill_groups e m (DIV_ROUND_UP (nat n) 4096) = Some (0, m1)"
    using assms(5,6) same_request_group(5) [of m m1] by (auto simp: piece_of_def io_same_def)
  have "io_issue e fs f p n pos ?s1 = Some (- EIOCBQUEUED,
      (nvfs_get_ops e ?s1)\<lparr>mgroups := (mgroups ?s1)(p \<mapsto> held_by_fs ?op (issued m1)), klog := write_log EvStartWrite ?op @ klog ?s1\<rparr>)"
    by (rule issue_queued) (use assms(1,2,7,9-11) m1 in auto)
  then have issue: "io_issue e fs f p n pos ?s1 = Some (- EIOCBQUEUED,
      (nvfs_get_ops e s)\<lparr>mgroups := (mgroups s)(p \<mapsto> held_by_fs ?op (issued m1)), klog := write_log EvStartWrite ?op @ klog s\<rparr>)"
    by (simp add: nvfs_get_ops_def)
  show ?thesis
    using assms(3,4,8,9) m1 issue
    by (simp add: io_turn_def io_account_def nvfs_mgroup_fill_mpages_def held_by_fs_def Let_def del: of_nat_mult)
qed

lemma start_op_queued:
  assumes "async_env e fs f (io_op (nvfsio m))" and "queues fs" and "mgroups s p = Some m" and "request_ready e fs f m"
    and "\<not> io_sync (nvfsio m)"
  obtains n m1 where "piece_of e n m m1" "0 < n"
    "n = min (uint (io_length (nvfsio m))) (int (nvfs_blocks_count m * 4096) - int (if use_rkeys (nvfsio m) then rdma_seg_offset (nvfsio m) else 0))"
    "nvfs_io_start_op e fs p s = Some (0,
      (nvfs_get_ops e s)\<lparr>mgroups := (mgroups s)(p \<mapsto> held_by_fs (io_op (nvfsio m)) (issued m1)),
        klog := write_log EvStartWrite (io_op (nvfsio m)) @ klog s\<rparr>)"
proof -
  let ?L = "uint (io_length (nvfsio m))" and ?op = "io_op (nvfsio m)"
  let ?rdma = "if use_rkeys (nvfsio m) then rdma_seg_offset (nvfsio m) else 0"
  have R: "mgroup_wf e m" "settled m" "io_state (gpu_info m) = IO_IN_PROGRESS" "fd_file fs (io_fd (nvfsio m)) = Some f"
    "retrycnt (nvfsio m) = 0" "?op = WRITE \<longrightarrow> write_ready f" "run_fits m ?L ?rdma" "0 \<le> fd_offset (nvfsio m)"
    "fd_offset (nvfsio m) + ?L < 2 ^ 63" "valid_page_shift (page_shift e)"
    using assms(1,4) by (auto simp: request_ready_def async_env_def)
  have L: "sint (io_length (nvfsio m)) = ?L" "0 < ?L"
    using R(7-9) s64_id [of ?L] by (simp_all add: sint_uint run_fits_def)
  obtain n m1 where n: "piece_of e n m m1" "0 < n" "n mod 4096 = 0" "n = min ?L (int (nvfs_blocks_count m * 4096) - int ?rdma)"
    using piece_exists [OF R(10,1,2) run_fits_piece [OF R(7)]] by metis
  let ?s1 = "(nvfs_get_ops e s)\<lparr>mgroups := (mgroups s)(p \<mapsto> held_by_fs ?op (issued m1)), klog := write_log EvStartWrite ?op @ klog s\<rparr>"
  have "io_turn e fs f p ?L 0 (fd_offset (nvfsio m)) ?rdma s = Some (LoopExit False 0 0, ?s1)"
    by (rule turn_queued [OF assms(1-3) R(3) assms(5) n R(8,9)])
  then have loop: "io_loop e fs f p ?L 0 (fd_offset (nvfsio m)) ?rdma s = Some (False, 0, 0, ?s1)"
    by (subst io_loop.simps) simp
  have prep: "(if ?op = WRITE then io_prepare_write e f p s else Some (0, s)) = Some (0, s)"
    using assms(3) R(5,6) by (simp add: prepare_write_ready)
  have "\<not> io_sync (nvfsio m1)" using n(1) assms(5) same_request_group(5) [of m m1] by (simp add: piece_of_def io_same_def)
  then have "io_finish e p False 0 0 ?s1 = Some (0, ?s1)" by (simp add: io_finish_def held_by_fs_def)
  then have "nvfs_io_start_op e fs p s = Some (0, ?s1)"
    using L loop by (cases "use_rkeys (nvfsio m)") (simp_all add: nvfs_io_start_op_def assms(3) R(4) prep)
  then show ?thesis using that n(1,2,4) by blast
qed

section \<open>The completion\<close>

lemma served_fence: "end_fence_value (nvfsio (served op k (issued m))) = end_fence_value (nvfsio m)"
  by (simp add: served_def settled_piece_def dma_started_def issued_def)

text \<open>
  The end of an asynchronous request. The reference of the request is given back and the state moves on: to \<^verbatim>\<open>IO_READY\<close>, or, if it is no longer
  \<^verbatim>\<open>IO_IN_PROGRESS\<close> since somebody has asked for the end of the buffer, to \<^verbatim>\<open>IO_CALLBACK_END\<close>, with a wake-up.
\<close>

definition given_back :: "nvfs_gpu_args \<Rightarrow> int \<Rightarrow> nvfs_io_mgroup \<Rightarrow> nvfs_io_mgroup" where
  "given_back g r m =
     m\<lparr>mg_ref := r - 1, gpu_info := g\<lparr>io_state := (if io_state g = IO_IN_PROGRESS then IO_READY else IO_CALLBACK_END)\<rparr>\<rparr>"

definition wake_log :: "mptr \<Rightarrow> nvfs_gpu_args \<Rightarrow> kevent list" where
  "wake_log p g = (if io_state g = IO_IN_PROGRESS then [] else [EvWakeUp p])"

lemma io_free_async:
  assumes "mgroups s p = Some m" and "mg_ref m \<noteq> 1" and "no_faults e" and "\<not> io_sync (nvfsio m)" and "end_fence_page (gpu_info m) = Some fp"
  shows "\<exists>st. nvfs_io_free e p res s =
    Some (s\<lparr>mgroups := (mgroups s)(p \<mapsto> given_back (gpu_info m) (mg_ref m) m),
      klog := wake_log p (gpu_info m) @ EvFdPut (io_fd (nvfsio m)) # klog s, kstats := (kstats s)\<lparr>counter := st\<rparr>,
      metapages := (metapages s)(fp := (metapages s fp)\<lparr>mp_result := res, end_fence_val := end_fence_value (nvfsio m)\<rparr>)\<rparr>)"
proof (cases "io_state (gpu_info m) = IO_IN_PROGRESS")
  case True
  then show ?thesis
    using io_free_effect [OF assms(1,2) _ assms(3), of fp res] assms(4,5) by (simp add: given_back_def wake_log_def with_io_state_def)
next
  case False
  define s1 where "s1 = klog_event (EvFdPut (io_fd (nvfsio m))) (kstat (io_free_stats (nvfsio m) res) s)"
  let ?m1 = "m\<lparr>mg_ref := mg_ref m - 1\<rparr>"
  let ?s2 = "s1\<lparr>mgroups := (mgroups s1)(p \<mapsto> ?m1)\<rparr>"
  have put: "nvfs_mgroup_put e p s1 = Some ?s2"
    using put_shared_effect [of s1 p m e False] assms(1,2) by (simp add: nvfs_mgroup_put_def s1_def)
  have t: "nvfs_transit_state e p False IO_IN_PROGRESS IO_READY ?s2 =
      Some (False, klog_event (EvWakeUp p) (s1\<lparr>mgroups := (mgroups s1)(p \<mapsto> with_io_state IO_CALLBACK_END ?m1)\<rparr>))"
    using transit_fail_end [of ?s2 p ?m1 IO_IN_PROGRESS e IO_READY False] False assms(3) by (simp add: no_faults_def)
  show ?thesis
    using assms(1,4,5) False
    by (intro exI [of _ "counter (io_free_stats (nvfsio m) res (kstats s))"])
      (simp add: nvfs_io_free_def s1_def [symmetric] put t,
        simp add: s1_def klog_event_def kstat_def io_stats_counters given_back_def wake_log_def with_io_state_def)
qed

text \<open>
  A completion on any processor, at a time when the references of the group and its GPU part have become \<open>r\<close> and \<open>g\<close>: the group is given back, and the
  completion page has the result and the value that user space waits for.
\<close>

lemma async_completes_meanwhile:
  assumes "piece_of e n m m1" and "m = in_flight io m0" and "\<not> io_sync io" and "no_faults e'" and "\<not> pf_exiting e'"
    and "0 \<le> k" and "k \<le> uint (io_length io)" and "end_fence_page g = Some fp" and "r \<noteq> 1"
    and "mgroups t p = Some ((dma_started (held_by_fs op (issued m1)))\<lparr>gpu_info := g, mg_ref := r\<rparr>)"
  shows "\<exists>md io' st. nvfs_io_complete e' fs p k t =
      Some (nvfs_put_ops e' (t\<lparr>mgroups := (mgroups t)(p \<mapsto> given_back g r (m0\<lparr>nvfs_metadata := md, nvfsio := io'\<rparr>)),
        klog := wake_log p g @ EvFdPut (io_fd io) # write_log EvEndWrite op @ klog t, kstats := (kstats t)\<lparr>counter := st\<rparr>,
        metapages := (metapages t)(fp := (metapages t fp)\<lparr>mp_result := k, end_fence_val := end_fence_value io\<rparr>)\<rparr>)) \<and>
    \<not> io_sync io' \<and> io_meta io' = NVFS_IO_META_CLEAN \<and> mgroup_wf e (m0\<lparr>nvfs_metadata := md, nvfsio := io'\<rparr>) \<and> settled (m0\<lparr>nvfs_metadata := md, nvfsio := io'\<rparr>)"
proof -
  let ?m2 = "served op k (issued m1)" and ?at = "\<lambda>m. m\<lparr>gpu_info := g, mg_ref := r\<rparr>"
  have io: "nvfsio m = io" using assms(2) by (simp add: in_flight_def)
  have q: "piece_queued (issued m1) k" "mgroup_wf e ?m2" "settled ?m2" "same_request m m1" "end_fence_value (nvfsio m1) = end_fence_value io"
    using assms(1,6,7) io by (auto simp: piece_of_def)
  have same: "io_same io (nvfsio m1)" using same_request_group(5) [OF q(4)] io by simp
  have mid: "piece_queued (?at (issued m1)) k" "served op k (?at (issued m1)) = ?at ?m2"
    "(dma_started (held_by_fs op (issued m1)))\<lparr>gpu_info := g, mg_ref := r\<rparr> =
       dma_started ((?at (issued m1))\<lparr>nvfsio := (nvfsio (?at (issued m1)))\<lparr>ki_write := (op = WRITE)\<rparr>\<rparr>)"
    using q(1) by (simp_all add: piece_queued_def served_def settled_piece_def dma_started_def held_by_fs_def)
  let ?t1 = "\<lambda>st. t\<lparr>mgroups := (mgroups t)(p \<mapsto> ?at ?m2), klog := write_log EvEndWrite op @ klog t, kstats := (kstats t)\<lparr>counter := st\<rparr>\<rparr>"
  obtain st where c: "nvfs_io_complete e' fs p k t = map_option (nvfs_put_ops e') (nvfs_io_free e' p k (?t1 st))"
    using complete_settles [OF mid(1) assms(5), of t p op fs] assms(3,10) same
    by (auto simp: mid(2,3) io_same_def write_log_def)
  have "same_request m1 ?m2"
    unfolding served_def settled_piece_def dma_started_def issued_def by simp (rule same_requestI, simp add: io_same_def)
  from same_request_trans [OF q(4) this] obtain md io' where m2: "?m2 = m\<lparr>nvfs_metadata := md, nvfsio := io'\<rparr>" "io_same io io'"
    unfolding same_request_def io by blast
  have fields: "\<not> io_sync io'" "io_fd io' = io_fd io" "io_meta io' = NVFS_IO_META_CLEAN" "end_fence_value io' = end_fence_value io"
    using m2 assms(3) served_fields(2) [of op k "issued m1"] q(5) served_fence [of op k m1] by (simp_all add: io_same_def issued_def)
  have m3: "given_back g r (?at ?m2) = given_back g r (m0\<lparr>nvfs_metadata := md, nvfsio := io'\<rparr>)"
    unfolding m2(1) assms(2) by (simp add: given_back_def in_flight_def with_io_state_def)
  have wf: "mgroup_wf e (m0\<lparr>nvfs_metadata := md, nvfsio := io'\<rparr>)" "settled (m0\<lparr>nvfs_metadata := md, nvfsio := io'\<rparr>)"
    using q(2,3) unfolding m2(1) assms(2) by (simp_all add: in_flight_def with_io_state_def mgroup_wf_def settled_def block_state_def)
  obtain st' where "nvfs_io_free e' p k (?t1 st) = Some ((?t1 st)\<lparr>mgroups := (mgroups (?t1 st))(p \<mapsto> given_back g r (?at ?m2)),
      klog := wake_log p g @ EvFdPut (io_fd io') # klog (?t1 st), kstats := (kstats (?t1 st))\<lparr>counter := st'\<rparr>,
      metapages := (metapages t)(fp := (metapages t fp)\<lparr>mp_result := k, end_fence_val := end_fence_value io'\<rparr>)\<rparr>)"
    using io_free_async [of "?t1 st" p "?at ?m2" e' fp k] fields m2(1) assms(4,8,9) by auto
  then show ?thesis
    using c wf fields(1,3) unfolding m3 by (intro exI [of _ md] exI [of _ io'] exI [of _ st']) (simp add: fields(2,4))
qed

text \<open>If nobody else has touched the group meanwhile, it is what it was before the request.\<close>

lemma async_completes:
  assumes "piece_of e n m m1" and "m = in_flight io m0" and "io_state (gpu_info m0) = IO_READY" and "0 < mg_ref m0"
    and "\<not> io_sync io" and "end_fence_page (gpu_info m0) = Some fp" and "no_faults e'" and "\<not> pf_exiting e'"
    and "0 \<le> k" and "k \<le> uint (io_length io)" and "mgroups t p = Some (dma_started (held_by_fs op (issued m1)))"
  shows "\<exists>md io' st. nvfs_io_complete e' fs p k t = Some (nvfs_put_ops e' (t\<lparr>mgroups := (mgroups t)(p \<mapsto> m0\<lparr>nvfs_metadata := md, nvfsio := io'\<rparr>),
      klog := EvFdPut (io_fd io) # write_log EvEndWrite op @ klog t, kstats := (kstats t)\<lparr>counter := st\<rparr>,
      metapages := (metapages t)(fp := (metapages t fp)\<lparr>mp_result := k, end_fence_val := end_fence_value io\<rparr>)\<rparr>)) \<and>
    \<not> io_sync io' \<and> io_meta io' = NVFS_IO_META_CLEAN \<and> mgroup_wf e (m0\<lparr>nvfs_metadata := md, nvfsio := io'\<rparr>) \<and> settled (m0\<lparr>nvfs_metadata := md, nvfsio := io'\<rparr>)"
proof -
  let ?g = "(gpu_info m0)\<lparr>io_state := IO_IN_PROGRESS\<rparr>" and ?r = "mg_ref m0 + 1"
  have "gpu_info m1 = ?g" "mg_ref m1 = ?r"
    using assms(1,2) same_request_group(1,2) [of m m1] by (simp_all add: piece_of_def in_flight_def with_io_state_def)
  then have mid: "(dma_started (held_by_fs op (issued m1)))\<lparr>gpu_info := ?g, mg_ref := ?r\<rparr> = dma_started (held_by_fs op (issued m1))"
    by (simp add: dma_started_def held_by_fs_def issued_def)
  have given: "given_back ?g ?r (m0\<lparr>nvfs_metadata := md, nvfsio := io'\<rparr>) = m0\<lparr>nvfs_metadata := md, nvfsio := io'\<rparr>" "wake_log p ?g = []" for md io'
    using assms(3) by (simp_all add: given_back_def wake_log_def)
  show ?thesis
    using async_completes_meanwhile [OF assms(1,2,5,7-10), of ?g fp ?r t p op fs] assms(4,6,11) unfolding mid given by simp
qed

lemma async_completion_effect:
  assumes "piece_of e n m m1" and "m = in_flight io m0" and "\<not> io_sync io"
    and "no_faults e' \<and> \<not> pf_exiting e' \<and> cpus_ok e' \<and> 0 \<le> k \<and> k \<le> uint (io_length io) \<and> 1 < r \<and> end_fence_page g = Some fp \<and>
      mgroups t p = Some ((dma_started (held_by_fs op (issued m1)))\<lparr>gpu_info := g, mg_ref := r\<rparr>)"
  shows "\<exists>t' md io'. nvfs_io_complete e' fs p k t = Some t' \<and>
    mgroups t' = (mgroups t)(p \<mapsto> given_back g r (m0\<lparr>nvfs_metadata := md, nvfsio := io'\<rparr>)) \<and>
    settled (m0\<lparr>nvfs_metadata := md, nvfsio := io'\<rparr>) \<and> mgroup_wf e (m0\<lparr>nvfs_metadata := md, nvfsio := io'\<rparr>) \<and>
    ops_total e' t' = ops_total e' t - 1 \<and> page_refs t' = page_refs t \<and>
    klog t' = wake_log p g @ EvFdPut (io_fd io) # write_log EvEndWrite op @ klog t \<and>
    metapages t' = (metapages t)(fp := (metapages t fp)\<lparr>mp_result := k, end_fence_val := end_fence_value io\<rparr>)"
proof -
  obtain md io' st where c: "nvfs_io_complete e' fs p k t =
      Some (nvfs_put_ops e' (t\<lparr>mgroups := (mgroups t)(p \<mapsto> given_back g r (m0\<lparr>nvfs_metadata := md, nvfsio := io'\<rparr>)),
        klog := wake_log p g @ EvFdPut (io_fd io) # write_log EvEndWrite op @ klog t, kstats := (kstats t)\<lparr>counter := st\<rparr>,
        metapages := (metapages t)(fp := (metapages t fp)\<lparr>mp_result := k, end_fence_val := end_fence_value io\<rparr>)\<rparr>))"
    "mgroup_wf e (m0\<lparr>nvfs_metadata := md, nvfsio := io'\<rparr>)" "settled (m0\<lparr>nvfs_metadata := md, nvfsio := io'\<rparr>)"
    using async_completes_meanwhile [OF assms(1-3), of e' k g fp r t p op fs] assms(4) by blast
  moreover have "ops_total e' (nvfs_put_ops e' t) = ops_total e' t - 1" using assms(4) by simp
  ultimately show ?thesis
    by (intro exI conjI) (assumption | simp add: nvfs_put_ops_def ops_total_def)+
qed

section \<open>Asynchronous requests from user space\<close>

lemma fill_fence: "io_fill op f a m = Some (0, io) \<Longrightarrow> \<not> ia_sync a \<Longrightarrow> end_fence_value io = ia_end_fence_value a"
  by (auto simp: io_fill_def zero_nvfs_io_def Let_def split: if_splits)

text \<open>The request in flight, when it is accepted.\<close>

lemma accepted_ready:
  assumes "args_ok fs op a f" and "at_vaddr e s (ia_cpuvaddr a) p m" and "settled m" and "op = WRITE \<longrightarrow> write_ready f"
    and "io_fill op f a (in_flight (nvfsio m) m) = Some (0, io)" and "\<not> ia_sync a" and "ia_size a \<noteq> 0"
    and "nvfs_blocks_count m = b * 16" and "0 < b"
    and "uint (gpuvaddr (gpu_info m)) mod 65536 + uint (gpu_buf_len (gpu_info m)) < 2 ^ 64"
    and "ia_offset a + uint (ia_size a) < 2 ^ 63" and "M = in_flight (io\<lparr>rw_stats_enabled := rw\<rparr>) m"
  shows "request_ready e fs f M" "io_op (nvfsio M) = op" "\<not> io_sync (nvfsio M)" "io_length (nvfsio M) = ia_size a"
    "io_fd (nvfsio M) = ia_fd a" "end_fence_value (nvfsio M) = ia_end_fence_value a" "use_rkeys (nvfsio M) = use_rkeys io"
    "rdma_seg_offset (nvfsio M) = rdma_seg_offset io" "nvfs_blocks_count M = nvfs_blocks_count m" "0 < mg_ref m"
  using request_ready_stats [OF io_init_request_ready [OF assms(1-5,7-11)]] io_fill_fields [OF assms(5)] fill_fence [OF assms(5,6)]
    assms(6,12) at_vaddr_live [OF assms(2)]
  by (simp_all add: in_flight_def with_io_state_def)

text \<open>
  C6. An asynchronous request, from its submission to its completion. On a ready and settled buffer of whole GPU pages, with arguments and file in
  order, and a file system that queues the request, the call returns 0 at once; the group is in progress with one more
  reference, the file is open, and the operation is counted, so that the module cannot be unloaded. The completion may arrive on any
  processor, with any number of bytes, in any later state of the driver in which the storage driver has asked for the addresses of all blocks
  of the piece and the request of the group is untouched; the number of references may be any that leaves one beside that of the request, and
  the GPU part of the group, with its DMA mappings and its I/O state, may be any that has a completion page, so that the buffer may have been
  unmapped meanwhile. Then the completion does not fail; the blocks of the group are settled, the reference of the request is given back, the file is
  closed, a started write is ended, the operation is no longer counted, and the completion page has the number of bytes and the fence value of this request. The
  buffer is ready again if the I/O was still in progress; if its end was asked for meanwhile, it is left at the end of a callback, and waiters are woken up.
\<close>

theorem async_request_completes:
  assumes "cmd = NVFS_IOCTL_READ a \<and> op = READ \<or> cmd = NVFS_IOCTL_WRITE a \<and> op = WRITE"
    and "copy_from_user u = 0" and "copy_to_user u = 0"
    and "args_ok fs op a f" and "at_vaddr e s (ia_cpuvaddr a) p m" and "io_state (gpu_info m) = IO_READY"
    and "settled m" and "async_env e fs f op" and "queues fs" and "cpus_ok e" and "op = WRITE \<longrightarrow> write_ready f"
    and "io_fill op f a (in_flight (nvfsio m) m) = Some (0, io)" and "\<not> ia_sync a" and "ia_size a \<noteq> 0"
    and "nvfs_blocks_count m = b * 16" and "0 < b"
    and "uint (gpuvaddr (gpu_info m)) mod 65536 + uint (gpu_buf_len (gpu_info m)) < 2 ^ 64"
    and "ia_offset a + uint (ia_size a) < 2 ^ 63"
  shows "\<exists>s1 mq. nvfs_ioctl e fs False u cmd s = Some (0, IoctlReturn 0, s1) \<and> mgroups s1 = (mgroups s)(p \<mapsto> mq) \<and>
    gpu_info mq = (gpu_info m)\<lparr>io_state := IO_IN_PROGRESS\<rparr> \<and> mg_ref mq = mg_ref m + 1 \<and> ops_total e s1 = ops_total e s + 1 \<and>
    page_refs s1 = page_refs s \<and> metapages s1 = metapages s \<and> klog s1 = write_log EvStartWrite op @ EvFdGet (ia_fd a) # klog s \<and>
    (\<forall>e' k t g r fp. no_faults e' \<and> \<not> pf_exiting e' \<and> cpus_ok e' \<and> 0 \<le> k \<and> k \<le> uint (ia_size a) \<and> 1 < r \<and> end_fence_page g = Some fp \<and>
        mgroups t p = Some ((dma_started mq)\<lparr>gpu_info := g, mg_ref := r\<rparr>) \<longrightarrow>
      (\<exists>t' md io'. nvfs_io_complete e' fs p k t = Some t' \<and>
        mgroups t' = (mgroups t)(p \<mapsto> given_back g r (m\<lparr>nvfs_metadata := md, nvfsio := io'\<rparr>)) \<and>
        settled (m\<lparr>nvfs_metadata := md, nvfsio := io'\<rparr>) \<and> mgroup_wf e (m\<lparr>nvfs_metadata := md, nvfsio := io'\<rparr>) \<and>
        ops_total e' t' = ops_total e' t - 1 \<and> page_refs t' = page_refs t \<and>
        klog t' = wake_log p g @ EvFdPut (ia_fd a) # write_log EvEndWrite op @ klog t \<and>
        metapages t' = (metapages t)(fp := (metapages t fp)\<lparr>mp_result := k, end_fence_val := ia_end_fence_value a\<rparr>)))"
proof -
  let ?io = "io\<lparr>rw_stats_enabled := rw_stats_on fs\<rparr>" and ?s2 = "request_started fs op a p io m s"
  define M where "M = in_flight ?io m"
  note R = accepted_ready [OF assms(4,5,7,11-18) M_def]
  have s2: "mgroups ?s2 p = Some M" by (simp add: request_started_def M_def)
  have env: "async_env e fs f (io_op (nvfsio M))" using assms(8) R(2) by simp
  obtain n m1 where piece: "piece_of e n M m1" and start: "nvfs_io_start_op e fs p ?s2 = Some (0,
      (nvfs_get_ops e ?s2)\<lparr>mgroups := (mgroups ?s2)(p \<mapsto> held_by_fs op (issued m1)), klog := write_log EvStartWrite op @ klog ?s2\<rparr>)"
    (is "_ = Some (0, ?s3)")
    using start_op_queued [OF env assms(9) s2 R(1,3)] unfolding R(2) by metis
  let ?mq = "held_by_fs op (issued m1)"
  have nf: "no_faults e" using assms(8) by (simp add: async_env_def)
  have "nvfs_ioctl e fs False u cmd s = Some (0, IoctlReturn 0, ?s3)"
    using ioctl_accepted [OF assms(1-6) nf assms(12)] start by simp
  moreover have "mgroups ?s3 = (mgroups s)(p \<mapsto> ?mq)" by (simp add: request_started_def)
  moreover have "gpu_info ?mq = (gpu_info m)\<lparr>io_state := IO_IN_PROGRESS\<rparr>" "mg_ref ?mq = mg_ref m + 1"
    using piece same_request_group(1,2) [of M m1] by (simp_all add: piece_of_def held_by_fs_def M_def in_flight_def with_io_state_def)
  moreover have "ops_total e ?s3 = ops_total e s + 1"
    using assms(10) ops_total_get [OF assms(10), of ?s2] by (simp add: ops_total_def request_started_def kstat_def)
  moreover have "page_refs ?s3 = page_refs s" "metapages ?s3 = metapages s"
    "klog ?s3 = write_log EvStartWrite op @ EvFdGet (ia_fd a) # klog s"
    by (simp_all add: request_started_def nvfs_get_ops_def kstat_def)
  moreover have io: "nvfsio M = ?io" by (simp add: M_def in_flight_def)
  note async_completion_effect [OF piece M_def R(3) [unfolded io]]
  ultimately show ?thesis using R(4-6) unfolding io by (intro exI [of _ ?s3] exI [of _ ?mq] conjI) (blast | simp)+
qed

text \<open>For the examples: a GPU buffer of two GPU pages behind a shadow buffer of one, and requests of any size.\<close>

definition ex_queue_fs :: fsenv where
  "ex_queue_fs = ex_fs\<lparr>call_iter := (\<lambda>op fd buf len pos s. Some (- EIOCBQUEUED, s))\<rparr>"

definition ex_async_args :: "u64 \<Rightarrow> nvfs_ioctl_ioargs" where
  "ex_async_args sz = ex_args\<lparr>ia_sync := False, ia_end_fence_value := 7, ia_devptroff := 0, ia_size := sz\<rparr>"

definition ex_wide_group :: nvfs_io_mgroup where
  "ex_wide_group = ex_io_group\<lparr>gpu_info := (gpu_info ex_io_group)\<lparr>gpu_buf_len := 0x20000\<rparr>\<rparr>"

definition ex_wide_state :: kstate where
  "ex_wide_state = ex_io_state\<lparr>mgroups := [100 \<mapsto> ex_wide_group]\<rparr>"

lemma ex_async_args_ok:
  assumes "sz = 0x10000 \<or> sz = 0x20000"
  shows "args_ok ex_fs READ (ex_async_args sz) ex_file" "args_ok ex_queue_fs READ (ex_async_args sz) ex_file"
  using assms
  by (auto simp: args_ok_def ex_async_args_def ex_args_def ex_queue_fs_def ex_fs_def ex_file_def nvfs_check_file_permissions_def io_check_file_def)

lemma ex_queue_env: "queues ex_queue_fs" "async_env ex_env ex_queue_fs ex_file READ" "cpus_ok ex_env"
  using ex_run_env by (simp_all add: queues_def run_env_def async_env_def file_ok_def ex_queue_fs_def cpus_ok_def ex_env_def)

lemma ex_wide:
  "at_vaddr ex_env ex_wide_state (ia_cpuvaddr (ex_async_args sz)) 100 ex_wide_group" "settled ex_wide_group"
  "io_state (gpu_info ex_wide_group) = IO_READY" "nvfs_blocks_count ex_wide_group = 1 * 16"
  "gpuvaddr (gpu_info ex_wide_group) = 0x20000" "gpu_buf_len (gpu_info ex_wide_group) = 0x20000"
  "end_fence_page (gpu_info ex_wide_group) = Some 900"
proof -
  have pg: "page_of_group ex_env ex_wide_state 100 ex_wide_group 0 500"
    using ex_io_page [of 0] by (auto simp: page_of_group_def ex_wide_state_def ex_wide_group_def mgroup_wf_def page_base_index_def rel_page_def NVFS_PAGE_INDEX_def)
  have "nvfs_io_mgroup_hash ex_wide_state = [100]" "mgroups ex_wide_state = [100 \<mapsto> ex_wide_group]" "0 < mg_ref ex_wide_group"
    by (simp_all add: ex_wide_state_def ex_wide_group_def ex_io_state_def ex_io_group_def ex_paged_state_def ex_state_def)
  then have "hash_wf ex_wide_state" by (simp add: hash_wf_def)
  moreover have "cpu_base_vaddr ex_wide_group = 0x10000" "ia_cpuvaddr (ex_async_args sz) = 0x10000"
    by (simp_all add: ex_wide_group_def ex_io_group_def ex_init_group_def ex_group_def ex_async_args_def ex_args_def)
  moreover have "pin_user_pages_fast ex_env 0x10000 1 = (1, [500])" "valid_page_shift (page_shift ex_env)"
    by (simp_all add: ex_env_def valid_page_shift_def)
  ultimately show "at_vaddr ex_env ex_wide_state (ia_cpuvaddr (ex_async_args sz)) 100 ex_wide_group"
    using pg by (simp add: at_vaddr_def)
  show "settled ex_wide_group" "io_state (gpu_info ex_wide_group) = IO_READY"
    using ex_io_wf(4,5) by (simp_all add: ex_wide_group_def settled_def block_state_def)
qed (simp_all add: ex_wide_group_def ex_io_group_def ex_init_group_def ex_group_def ex_ready_gpu_def)

lemma ex_async_fill:
  assumes "sz = 0x10000 \<or> sz = 0x20000"
  obtains io where "io_fill READ ex_file (ex_async_args sz) (in_flight (nvfsio ex_wide_group) ex_wide_group) = Some (0, io)" "\<not> use_rkeys io"
  using that assms ex_wide(5,6)
  by (auto simp: io_fill_def io_va_offset_def ex_file_def ex_async_args_def ex_args_def GPU_PAGE_MASK_def zero_nvfs_io_def Let_def
      in_flight_def with_io_state_def)

text \<open>The completion of a request on a buffer that nobody else has touched, and on one that was unmapped meanwhile.\<close>

theorem async_request_completes_witness:
  "\<exists>s1 mq t1 t2. nvfs_ioctl ex_env ex_queue_fs False \<lparr> copy_from_user = 0, copy_to_user = 0 \<rparr> (NVFS_IOCTL_READ (ex_async_args 0x10000)) ex_wide_state =
     Some (0, IoctlReturn 0, s1) \<and> mgroups s1 100 = Some mq \<and>
     nvfs_io_complete ex_env ex_queue_fs 100 0x10000 (s1\<lparr>mgroups := [100 \<mapsto> dma_started mq]\<rparr>) = Some t1 \<and>
     get_io_state 100 t1 = Some IO_READY \<and> mp_result (metapages t1 900) = 0x10000 \<and> end_fence_val (metapages t1 900) = 7 \<and>
     nvfs_io_complete ex_env ex_queue_fs 100 0x10000
       (s1\<lparr>mgroups := [100 \<mapsto> (with_io_state IO_TERMINATE_REQ (dma_started mq))\<lparr>mg_ref := mg_ref mq - 1\<rparr>]\<rparr>) = Some t2 \<and>
     get_io_state 100 t2 = Some IO_CALLBACK_END \<and> mp_result (metapages t2 900) = 0x10000"
proof -
  let ?a = "ex_async_args 0x10000" and ?u = "\<lparr> copy_from_user = 0, copy_to_user = 0 \<rparr>"
  obtain io where io: "io_fill READ ex_file ?a (in_flight (nvfsio ex_wide_group) ex_wide_group) = Some (0, io)"
    using ex_async_fill [of "0x10000"] by blast
  have a: "\<not> ia_sync ?a" "ia_size ?a = 0x10000" "ia_offset ?a = 0" "ia_end_fence_value ?a = 7"
    by (simp_all add: ex_async_args_def ex_args_def)
  have e: "no_faults ex_env" "\<not> pf_exiting ex_env" using ex_run_env by (simp_all add: run_env_def)
  have u: "copy_from_user ?u = 0" "copy_to_user ?u = 0" "READ = WRITE \<longrightarrow> write_ready ex_file" "ia_size ?a \<noteq> 0" "0 < (1 :: nat)"
    "uint (gpuvaddr (gpu_info ex_wide_group)) mod 65536 + uint (gpu_buf_len (gpu_info ex_wide_group)) < 2 ^ 64"
    "ia_offset ?a + uint (ia_size ?a) < 2 ^ 63"
    using ex_wide(5,6) a by simp_all
  obtain s1 mq where s1: "nvfs_ioctl ex_env ex_queue_fs False ?u (NVFS_IOCTL_READ ?a) ex_wide_state = Some (0, IoctlReturn 0, s1)"
    "mgroups s1 = (mgroups ex_wide_state)(100 \<mapsto> mq)" "gpu_info mq = (gpu_info ex_wide_group)\<lparr>io_state := IO_IN_PROGRESS\<rparr>"
    "mg_ref mq = mg_ref ex_wide_group + 1"
    and fin: "\<forall>e' k t g r fp. no_faults e' \<and> \<not> pf_exiting e' \<and> cpus_ok e' \<and> 0 \<le> k \<and> k \<le> uint (ia_size ?a) \<and> 1 < r \<and> end_fence_page g = Some fp \<and>
        mgroups t 100 = Some ((dma_started mq)\<lparr>gpu_info := g, mg_ref := r\<rparr>) \<longrightarrow> (\<exists>t' md io'. nvfs_io_complete e' ex_queue_fs 100 k t = Some t' \<and>
        mgroups t' = (mgroups t)(100 \<mapsto> given_back g r (ex_wide_group\<lparr>nvfs_metadata := md, nvfsio := io'\<rparr>)) \<and>
        metapages t' = (metapages t)(fp := (metapages t fp)\<lparr>mp_result := k, end_fence_val := ia_end_fence_value ?a\<rparr>))"
    using async_request_completes [OF disjI1 [OF conjI [OF refl refl]] u(1,2) ex_async_args_ok(2) [OF disjI1 [OF refl]] ex_wide(1,3,2)
        ex_queue_env(2,1,3) u(3) io a(1) u(4) ex_wide(4) u(5-7)]
    by (elim exE conjE, intro that) (assumption | (intro allI impI, elim allE impE, assumption, blast))+
  have r: "mg_ref ex_wide_group = 2" by (simp add: ex_wide_group_def ex_io_group_def)
  have finished: "\<exists>t'. nvfs_io_complete ex_env ex_queue_fs 100 0x10000 (s1\<lparr>mgroups := [100 \<mapsto> (dma_started mq)\<lparr>gpu_info := g, mg_ref := r\<rparr>]\<rparr>) = Some t' \<and>
      get_io_state 100 t' = Some (if io_state g = IO_IN_PROGRESS then IO_READY else IO_CALLBACK_END) \<and>
      metapages t' = (metapages s1)(900 := (metapages s1 900)\<lparr>mp_result := 0x10000, end_fence_val := 7\<rparr>)"
    if "1 < r" "end_fence_page g = Some 900" for g r
    using fin [rule_format, of ex_env "0x10000" r g 900 "s1\<lparr>mgroups := [100 \<mapsto> (dma_started mq)\<lparr>gpu_info := g, mg_ref := r\<rparr>]\<rparr>"]
      that e ex_queue_env(3) a by (auto simp: get_io_state_def given_back_def)
  have d: "(dma_started mq)\<lparr>gpu_info := gpu_info mq, mg_ref := mg_ref mq\<rparr> = dma_started mq"
    "(dma_started mq)\<lparr>gpu_info := (gpu_info mq)\<lparr>io_state := IO_TERMINATE_REQ\<rparr>, mg_ref := mg_ref mq - 1\<rparr> =
      (with_io_state IO_TERMINATE_REQ (dma_started mq))\<lparr>mg_ref := mg_ref mq - 1\<rparr>"
    by (simp_all add: dma_started_def with_io_state_def)
  show ?thesis
    using s1 r ex_wide(7) finished [of "mg_ref mq" "gpu_info mq"] finished [of "mg_ref mq - 1" "(gpu_info mq)\<lparr>io_state := IO_TERMINATE_REQ\<rparr>"]
    unfolding d by auto
qed

section \<open>An asynchronous request that is answered at once\<close>

text \<open>The state after the completion inside the call, which has freed the request.\<close>

definition answered :: "mptr \<Rightarrow> nvfs_io \<Rightarrow> nvfs_op \<Rightarrow> pageid \<Rightarrow> int \<Rightarrow> nvfs_io_mgroup \<Rightarrow> kstate \<Rightarrow> kstate \<Rightarrow> bool" where
  "answered p io op fp n m' s s' \<longleftrightarrow> (\<exists>st. s' = s\<lparr>mgroups := (mgroups s)(p \<mapsto> m'),
     klog := EvFdPut (io_fd io) # write_log EvEndWrite op @ write_log EvStartWrite op @ klog s, kstats := (kstats s)\<lparr>counter := st\<rparr>,
     metapages := (metapages s)(fp := (metapages s fp)\<lparr>mp_result := n, end_fence_val := end_fence_value io\<rparr>)\<rparr>)"

lemma answered_again:
  assumes "answered p io op fp n m' (s\<lparr>mgroups := (mgroups s)(p \<mapsto> m1)\<rparr>) s'"
  shows "answered p io op fp n m'' s (s'\<lparr>mgroups := (mgroups s)(p \<mapsto> m'')\<rparr>)"
proof -
  obtain st where "s' = (s\<lparr>mgroups := (mgroups s)(p \<mapsto> m1)\<rparr>)\<lparr>mgroups := (mgroups (s\<lparr>mgroups := (mgroups s)(p \<mapsto> m1)\<rparr>))(p \<mapsto> m'),
     klog := EvFdPut (io_fd io) # write_log EvEndWrite op @ write_log EvStartWrite op @ klog s, kstats := (kstats s)\<lparr>counter := st\<rparr>,
     metapages := (metapages s)(fp := (metapages s fp)\<lparr>mp_result := n, end_fence_val := end_fence_value io\<rparr>)\<rparr>"
    using assms by (auto simp: answered_def)
  then show ?thesis unfolding answered_def by (intro exI [of _ st]) simp
qed

lemma issue_answered:
  assumes "run_env e fs f p op" and "mgroups s p = Some m1" and "op = io_op io" and "piece_of e n m m1" and "m = in_flight io m0"
    and "io_state (gpu_info m0) = IO_READY" and "0 < mg_ref m0" and "\<not> io_sync io" and "end_fence_page (gpu_info m0) = Some fp"
    and "0 \<le> pos" and "0 < n" and "n \<le> uint (io_length io)" and "pos + n < 2 ^ 63"
  shows "\<exists>md io' s'. io_issue e fs f p n pos s = Some (n, s') \<and> answered p io op fp n (m0\<lparr>nvfs_metadata := md, nvfsio := io'\<rparr>) s s' \<and>
    \<not> io_sync io' \<and> io_meta io' = NVFS_IO_META_CLEAN \<and> mgroup_wf e (m0\<lparr>nvfs_metadata := md, nvfsio := io'\<rparr>) \<and>
    settled (m0\<lparr>nvfs_metadata := md, nvfsio := io'\<rparr>)"
proof -
  have env: "async_env e fs f op" "no_faults e" "\<not> pf_exiting e" "serves fs (fs_call op) p" using assms(1) by (simp_all add: run_env_def async_env_def)
  have op: "op = io_op (nvfsio m1)"
    using assms(3-5) same_request_group(5) [of m m1] by (simp add: piece_of_def io_same_def in_flight_def)
  let ?mq = "held_by_fs op (issued m1)"
  let ?S = "(nvfs_get_ops e s)\<lparr>mgroups := (mgroups s)(p \<mapsto> ?mq), klog := write_log EvStartWrite op @ klog s\<rparr>"
  let ?t = "?S\<lparr>mgroups := (mgroups s)(p \<mapsto> dma_started ?mq)\<rparr>"
  have n: "uint (word_of_int n :: u64) = n" using assms(10,11,13) by (simp add: uint_word_of_int)
  have call: "call_iter fs (fs_call op) fd buf (word_of_int n) pos ?S = Some (n, ?t)" for fd buf
    using serves_call [OF env(4), of ?S ?mq] n by simp
  obtain md io' st where c: "nvfs_io_complete e fs p n ?t = Some (nvfs_put_ops e (?t\<lparr>mgroups := (mgroups ?t)(p \<mapsto> m0\<lparr>nvfs_metadata := md, nvfsio := io'\<rparr>),
      klog := EvFdPut (io_fd io) # write_log EvEndWrite op @ klog ?t, kstats := (kstats ?t)\<lparr>counter := st\<rparr>,
      metapages := (metapages ?t)(fp := (metapages ?t fp)\<lparr>mp_result := n, end_fence_val := end_fence_value io\<rparr>)\<rparr>))" (is "_ = Some ?t'")
    and io': "\<not> io_sync io'" "io_meta io' = NVFS_IO_META_CLEAN" "mgroup_wf e (m0\<lparr>nvfs_metadata := md, nvfsio := io'\<rparr>)"
    "settled (m0\<lparr>nvfs_metadata := md, nvfsio := io'\<rparr>)"
    using async_completes [OF assms(4-9) env(2,3), of n ?t p op fs] assms(11,12) by auto
  have t': "mgroups ?t' p = Some (m0\<lparr>nvfs_metadata := md, nvfsio := io'\<rparr>)" by (simp add: nvfs_put_ops_def)
  then have "nvfs_io_ret e fs p n ?t = Some (n, ?t')" using c io'(1) assms(11) by (simp add: nvfs_io_ret_def)
  then have "io_issue e fs f p n pos s = Some (n, ?t')"
    using issue_calls_fs [OF env(1) assms(2) op assms(10) _ assms(13)] assms(11) by (simp add: call)
  moreover have "answered p io op fp n (m0\<lparr>nvfs_metadata := md, nvfsio := io'\<rparr>) s ?t'"
    unfolding answered_def by (intro exI [of _ st]) (simp add: nvfs_put_ops_def nvfs_get_ops_def)
  ultimately show ?thesis using io' by blast
qed

text \<open>The turn of the loop ends the request if the piece was all of it; otherwise it runs into \<^verbatim>\<open>BUG_ON(!nvfsio->sync)\<close>.\<close>

lemma turn_answered:
  assumes "run_env e fs f p op" and "mgroups s p = Some m" and "op = io_op io" and "piece_of e n m m1" and "m = in_flight io m0"
    and "io_state (gpu_info m0) = IO_READY" and "0 < mg_ref m0" and "\<not> io_sync io" and "end_fence_page (gpu_info m0) = Some fp"
    and "0 \<le> pos" and "0 < n" and "n mod 4096 = 0" and "left \<le> uint (io_length io)" and "pos + left < 2 ^ 63"
    and "n = min left (int (nvfs_blocks_count m * 4096) - int rdma)"
  shows "\<exists>md io' s'. io_turn e fs f p left k pos rdma s = (if left = n then Some (LoopExit False n (k + n), s') else None) \<and>
    answered p io op fp n (m0\<lparr>nvfs_metadata := md, nvfsio := io'\<rparr>) s s' \<and> \<not> io_sync io' \<and>
    mgroup_wf e (m0\<lparr>nvfs_metadata := md, nvfsio := io'\<rparr>) \<and> settled (m0\<lparr>nvfs_metadata := md, nvfsio := io'\<rparr>)"
proof -
  let ?s1 = "s\<lparr>mgroups := (mgroups s)(p \<mapsto> m1)\<rparr>"
  have fill: "fill_groups e m (DIV_ROUND_UP (nat n) 4096) = Some (0, m1)" "io_state (gpu_info m) = IO_IN_PROGRESS"
    using assms(4,5) by (simp_all add: piece_of_def in_flight_def with_io_state_def)
  have le: "n \<le> left" using assms(15) by simp
  then have "n \<le> uint (io_length io)" "pos + n < 2 ^ 63" using assms(13,14) by linarith+
  then obtain md io' s2 where s2: "io_issue e fs f p n pos ?s1 = Some (n, s2)"
    "answered p io op fp n (m0\<lparr>nvfs_metadata := md, nvfsio := io'\<rparr>) ?s1 s2" "\<not> io_sync io'" "io_meta io' = NVFS_IO_META_CLEAN"
    "mgroup_wf e (m0\<lparr>nvfs_metadata := md, nvfsio := io'\<rparr>)" "settled (m0\<lparr>nvfs_metadata := md, nvfsio := io'\<rparr>)"
    using issue_answered [OF assms(1) _ assms(3-11), of ?s1] by auto
  let ?io = "io'\<lparr>fd_offset := pos + n\<rparr>"
  let ?m' = "m0\<lparr>nvfs_metadata := md, nvfsio := ?io\<rparr>"
  let ?s' = "s2\<lparr>mgroups := (mgroups s)(p \<mapsto> ?m')\<rparr>"
  have m2: "mgroups s2 = (mgroups s)(p \<mapsto> m0\<lparr>nvfs_metadata := md, nvfsio := io'\<rparr>)" using s2(2) by (auto simp: answered_def)
  have "io_turn e fs f p left k pos rdma s = io_account p n left k pos rdma n s2"
    using assms(2,12,15) fill s2(1) by (simp add: io_turn_def nvfs_mgroup_fill_mpages_def Let_def del: of_nat_mult)
  moreover have "io_account p n left k pos rdma n s2 = (if left = n then Some (LoopExit False n (k + n), ?s') else None)"
    using assms(11) s2(3,4) m2 by (simp add: io_account_def upd_defs upd_mgroup_def)
  moreover have "answered p io op fp n ?m' s ?s'"
    by (rule answered_again [OF s2(2)])
  moreover have "mgroup_wf e ?m'" "settled ?m'" using s2(5,6) by (simp_all add: mgroup_wf_def settled_def block_state_def)
  ultimately show ?thesis using s2(3) by (intro exI [of _ md] exI [of _ ?io] exI [of _ ?s']) simp
qed

lemma start_op_answered:
  assumes "run_env e fs f p op" and "mgroups s p = Some m" and "op = io_op io" and "m = in_flight io m0" and "request_ready e fs f m"
    and "io_state (gpu_info m0) = IO_READY" and "0 < mg_ref m0" and "\<not> io_sync io" and "end_fence_page (gpu_info m0) = Some fp"
    and "room = int (nvfs_blocks_count m * 4096) - int (if use_rkeys io then rdma_seg_offset io else 0)"
  shows "\<exists>md io' s'. nvfs_io_start_op e fs p s = (if uint (io_length io) \<le> room then Some (uint (io_length io), s') else None) \<and>
    answered p io op fp (min (uint (io_length io)) room) (m0\<lparr>nvfs_metadata := md, nvfsio := io'\<rparr>) s s' \<and>
    mgroup_wf e (m0\<lparr>nvfs_metadata := md, nvfsio := io'\<rparr>) \<and> settled (m0\<lparr>nvfs_metadata := md, nvfsio := io'\<rparr>)"
proof -
  let ?L = "uint (io_length io)" and ?rdma = "if use_rkeys io then rdma_seg_offset io else 0"
  have io: "nvfsio m = io" using assms(4) by (simp add: in_flight_def)
  have R: "mgroup_wf e m" "settled m" "fd_file fs (io_fd io) = Some f"
    "retrycnt io = 0" "io_op io = WRITE \<longrightarrow> write_ready f" "run_fits m ?L ?rdma" "0 \<le> fd_offset io"
    "fd_offset io + ?L < 2 ^ 63" "valid_page_shift (page_shift e)"
    using assms(1,5) by (auto simp: request_ready_def run_env_def io)
  have L: "sint (io_length io) = ?L" "0 < ?L"
    using R(6-8) s64_id [of ?L] by (simp_all add: sint_uint run_fits_def)
  obtain n m1 where n: "piece_of e n m m1" "0 < n" "n mod 4096 = 0" "n = min ?L (int (nvfs_blocks_count m * 4096) - int ?rdma)"
    using piece_exists [OF R(9,1,2) run_fits_piece [OF R(6)]] by metis
  have nr: "n = min ?L room" using n(4) assms(10) by simp
  obtain md io' s' where t: "io_turn e fs f p ?L 0 (fd_offset io) ?rdma s = (if ?L = n then Some (LoopExit False n (0 + n), s') else None)"
    and s': "answered p io op fp n (m0\<lparr>nvfs_metadata := md, nvfsio := io'\<rparr>) s s'" "\<not> io_sync io'"
    "mgroup_wf e (m0\<lparr>nvfs_metadata := md, nvfsio := io'\<rparr>)" "settled (m0\<lparr>nvfs_metadata := md, nvfsio := io'\<rparr>)"
    using turn_answered [OF assms(1-3) n(1) assms(4,6-9) R(7) n(2,3) order.refl R(8) n(4), of 0] by blast
  have loop: "io_loop e fs f p ?L 0 (fd_offset io) ?rdma s = (if ?L = n then Some (False, n, n, s') else None)"
    by (subst io_loop.simps) (simp add: t)
  have prep: "(if io_op io = WRITE then io_prepare_write e f p s else Some (0, s)) = Some (0, s)"
    using assms(2) R(4,5) io by (simp add: prepare_write_ready)
  have "mgroups s' p = Some (m0\<lparr>nvfs_metadata := md, nvfsio := io'\<rparr>)" using s'(1) by (auto simp: answered_def)
  then have "io_finish e p False n n s' = Some (n, s')" using s'(2) n(2) by (simp add: io_finish_def)
  then have "nvfs_io_start_op e fs p s = (if ?L = n then Some (?L, s') else None)"
    using L loop by (cases "use_rkeys io") (simp_all add: nvfs_io_start_op_def assms(2) io R(3) prep)
  moreover have "?L = n \<longleftrightarrow> ?L \<le> room" using nr by auto
  ultimately show ?thesis using s'(1,3,4) unfolding nr by (intro exI [of _ md] exI [of _ io'] exI [of _ s']) simp
qed

text \<open>
  C7. An asynchronous request may be answered at once, since a file system is free to complete it before it returns. If the request fits
  the shadow buffer, this is as good as a later completion: the call hands out the number of bytes, the result and the fence value are in
  the completion page, the group is what it was, and no operation stays counted. If it does not fit, the kernel dies: the loop goes on to
  the next piece, which the code takes to be impossible for an asynchronous request (\<^verbatim>\<open>BUG_ON(!nvfsio->sync)\<close>), while the set-up has only compared
  the size with the GPU buffer, which may be larger than the shadow buffer.
\<close>

theorem async_answered_at_once:
  assumes "cmd = NVFS_IOCTL_READ a \<and> op = READ \<or> cmd = NVFS_IOCTL_WRITE a \<and> op = WRITE"
    and "copy_from_user u = 0" and "copy_to_user u = 0"
    and "args_ok fs op a f" and "at_vaddr e s (ia_cpuvaddr a) p m" and "io_state (gpu_info m) = IO_READY"
    and "settled m" and "run_env e fs f p op" and "op = WRITE \<longrightarrow> write_ready f"
    and "io_fill op f a (in_flight (nvfsio m) m) = Some (0, io)" and "\<not> ia_sync a" and "ia_size a \<noteq> 0"
    and "nvfs_blocks_count m = b * 16" and "0 < b"
    and "uint (gpuvaddr (gpu_info m)) mod 65536 + uint (gpu_buf_len (gpu_info m)) < 2 ^ 64"
    and "ia_offset a + uint (ia_size a) < 2 ^ 63" and "end_fence_page (gpu_info m) = Some fp"
  shows "if uint (ia_size a) \<le> int (nvfs_blocks_count m * 4096) - int (if use_rkeys io then rdma_seg_offset io else 0)
    then \<exists>s' md io'. nvfs_ioctl e fs False u cmd s = Some (0, IoctlReturn (uint (ia_size a)), s') \<and>
      mgroups s' = (mgroups s)(p \<mapsto> m\<lparr>nvfs_metadata := md, nvfsio := io'\<rparr>) \<and> settled (m\<lparr>nvfs_metadata := md, nvfsio := io'\<rparr>) \<and>
      nvfs_n_ops s' = nvfs_n_ops s \<and> page_refs s' = page_refs s \<and>
      metapages s' = (metapages s)(fp := (metapages s fp)\<lparr>mp_result := uint (ia_size a), end_fence_val := ia_end_fence_value a\<rparr>)
    else nvfs_ioctl e fs False u cmd s = None"
proof -
  let ?io = "io\<lparr>rw_stats_enabled := rw_stats_on fs\<rparr>" and ?s2 = "request_started fs op a p io m s"
  define M where "M = in_flight ?io m"
  note R = accepted_ready [OF assms(4,5,7,9-16) M_def]
  have io: "nvfsio M = ?io" by (simp add: M_def in_flight_def)
  note Q = R(2-6) [unfolded io]
  have s2: "mgroups ?s2 p = Some M" by (simp add: request_started_def M_def)
  define room where "room = int (nvfs_blocks_count M * 4096) - int (if use_rkeys ?io then rdma_seg_offset ?io else 0)"
  obtain md io' s' where start: "nvfs_io_start_op e fs p ?s2 = (if uint (ia_size a) \<le> room then Some (uint (ia_size a), s') else None)"
    and s': "answered p ?io op fp (min (uint (ia_size a)) room) (m\<lparr>nvfs_metadata := md, nvfsio := io'\<rparr>) ?s2 s'"
    "settled (m\<lparr>nvfs_metadata := md, nvfsio := io'\<rparr>)"
    using start_op_answered [OF assms(8) s2 Q(1) [symmetric] M_def R(1) assms(6) R(10) Q(2) assms(17) room_def] unfolding Q(3) by blast
  have nf: "no_faults e" using assms(8) by (simp add: run_env_def)
  have call: "nvfs_ioctl e fs False u cmd s = (if uint (ia_size a) \<le> room then Some (0, IoctlReturn (uint (ia_size a)), s') else None)"
    using ioctl_accepted [OF assms(1-6) nf assms(10)] start by (simp add: not_less)
  have room: "room = int (nvfs_blocks_count m * 4096) - int (if use_rkeys io then rdma_seg_offset io else 0)"
    unfolding room_def R(9) by simp
  show ?thesis
  proof (cases "uint (ia_size a) \<le> room")
    case True
    have "mgroups s' = (mgroups s)(p \<mapsto> m\<lparr>nvfs_metadata := md, nvfsio := io'\<rparr>)" "nvfs_n_ops s' = nvfs_n_ops s" "page_refs s' = page_refs s"
      "metapages s' = (metapages s)(fp := (metapages s fp)\<lparr>mp_result := uint (ia_size a), end_fence_val := ia_end_fence_value a\<rparr>)"
      using s'(1) True Q(5) by (auto simp: answered_def request_started_def kstat_def)
    with call True s'(2) show ?thesis unfolding room by auto
  next
    case False
    with call show ?thesis unfolding room by simp
  qed
qed

theorem async_answered_at_once_witness:
  "(\<exists>s'. nvfs_ioctl ex_env ex_fs False \<lparr> copy_from_user = 0, copy_to_user = 0 \<rparr> (NVFS_IOCTL_READ (ex_async_args 0x10000)) ex_wide_state =
     Some (0, IoctlReturn 0x10000, s') \<and> mp_result (metapages s' 900) = 0x10000) \<and>
   nvfs_ioctl ex_env ex_fs False \<lparr> copy_from_user = 0, copy_to_user = 0 \<rparr> (NVFS_IOCTL_READ (ex_async_args 0x20000)) ex_wide_state = None"
proof -
  let ?u = "\<lparr> copy_from_user = 0, copy_to_user = 0 \<rparr>"
  have a: "\<not> ia_sync (ex_async_args sz)" "ia_size (ex_async_args sz) = sz" "ia_offset (ex_async_args sz) = 0" for sz
    by (simp_all add: ex_async_args_def ex_args_def)
  obtain io1 where io1: "io_fill READ ex_file (ex_async_args 0x10000) (in_flight (nvfsio ex_wide_group) ex_wide_group) = Some (0, io1)" "\<not> use_rkeys io1"
    using ex_async_fill [of "0x10000"] by blast
  obtain io2 where io2: "io_fill READ ex_file (ex_async_args 0x20000) (in_flight (nvfsio ex_wide_group) ex_wide_group) = Some (0, io2)" "\<not> use_rkeys io2"
    using ex_async_fill [of "0x20000"] by blast
  show ?thesis
    using async_answered_at_once [OF _ _ _ ex_async_args_ok(1) ex_wide(1,3,2) ex_run_env _ io1(1) a(1) _ ex_wide(4) _ _ _ ex_wide(7),
        of "NVFS_IOCTL_READ (ex_async_args 0x10000)" ?u]
      async_answered_at_once [OF _ _ _ ex_async_args_ok(1) ex_wide(1,3,2) ex_run_env _ io2(1) a(1) _ ex_wide(4) _ _ _ ex_wide(7),
        of "NVFS_IOCTL_READ (ex_async_args 0x20000)" ?u] io1(2) io2(2) ex_wide(4-6) a
    by auto
qed

text \<open>
  After such a completion the request is no longer the caller's: the group is ready and another thread may have set up its own
  request. The rest of the turn still stores the file offset, and stores it into that request, which then starts at the
  wrong place of its file.
\<close>

lemma late_account_moves_other_request:
  assumes "mgroups s p = Some (in_flight io m)" and "0 \<le> n"
  shows "\<exists>t s'. io_account p n n k pos rdma n s = Some (t, s') \<and> mgroups s' p = Some (in_flight (io\<lparr>fd_offset := pos + n\<rparr>) m)"
  using assms by (simp add: io_account_def upd_defs upd_mgroup_def in_flight_def)

end
