(* ===== verification/Nvfs_Sg.thy ===== *)
theory Nvfs_Sg
  imports Nvfs_Io
begin

text \<open>
  The hooks of the storage drivers (\<^verbatim>\<open>nvfs-dma.c\<close>): a block request is turned into a
  scatter/gather list that follows the physical layout of the GPU memory, its entries are given DMA
  addresses, and the list is released again after the transfer. The last hook hands out the RDMA
  registration behind a list.
\<close>

section \<open>Block requests and scatter/gather lists\<close>

datatype req_op = REQ_OP_READ | REQ_OP_WRITE | REQ_OP_OTHER

record bio_vec =
  bv_page :: pageid
  bv_len :: nat
  bv_offset :: nat

text \<open>
  A block request as the hook sees it: its queue and bio may be missing; the flags of special
  payloads and copied pages; the pages it transfers, in order.
\<close>

record request =
  rq_has_queue :: bool
  rq_has_bio :: bool
  rq_special_payload :: bool
  rq_copy_user :: bool
  req_op :: req_op
  rq_bvecs :: "bio_vec list"
  blk_integrity_rq :: bool
  blk_rq_payload_bytes :: nat
  dma_drain_needed :: bool
  nr_phys_segments :: nat

text \<open>
  A scatter/gather list is the array of its entries, without chaining, as the NVMe driver allocates
  it: the entries up to the one with the end mark are in use, those after it are allocated only.
\<close>

record scatterlist =
  sg_page :: "pageid option"
  sg_length :: nat
  sg_offset :: nat
  sg_last :: bool
  sg_dma_address :: u64
  sg_dma_len :: nat

definition sg_zero :: scatterlist where
  "sg_zero = \<lparr> sg_page = None, sg_length = 0, sg_offset = 0, sg_last = False, sg_dma_address = 0, sg_dma_len = 0 \<rparr>"

definition sg_set_page :: "pageid option \<Rightarrow> nat \<Rightarrow> nat \<Rightarrow> scatterlist \<Rightarrow> scatterlist" where
  "sg_set_page page len off g = g\<lparr>sg_page := page, sg_length := len, sg_offset := off\<rparr>"

text \<open>The entries of a list are counted up to its end mark; without one the count runs out of the array.\<close>

fun sg_nents :: "scatterlist list \<Rightarrow> nat option" where
  "sg_nents [] = None"
| "sg_nents (g # gs) = (if sg_last g then Some 1 else map_option Suc (sg_nents gs))"

text \<open>
  The entry at position \<open>i\<close> of \<^verbatim>\<open>for_each_sg\<close>: \<open>Some None\<close> is the null pointer that \<^verbatim>\<open>sg_next\<close> gives after the
  end mark.
\<close>

fun sg_nth :: "scatterlist list \<Rightarrow> nat \<Rightarrow> scatterlist option option" where
  "sg_nth [] i = None"
| "sg_nth (g # gs) 0 = Some (Some g)"
| "sg_nth (g # gs) (Suc i) = (if sg_last g then Some None else sg_nth gs i)"

definition nvfs_clear_sglist_page :: "scatterlist list \<Rightarrow> scatterlist list option" where
  "nvfs_clear_sglist_page sgl =
     do { n \<leftarrow> sg_nents sgl; Some (map (sg_set_page None 0 0) (take n sgl) @ drop n sgl) }"

section \<open>The checks of a request\<close>

abbreviation (input) NVME_MAX_SEGS :: nat where "NVME_MAX_SEGS \<equiv> 127"
abbreviation (input) NVFS_P2P_MAX_CONTIG_GPU_PAGES :: nat where "NVFS_P2P_MAX_CONTIG_GPU_PAGES \<equiv> 65535"

definition nvfs_blk_rq_check :: "request option \<Rightarrow> bool" where
  "nvfs_blk_rq_check req =
     (case req of
        None \<Rightarrow> False
      | Some r \<Rightarrow> rq_has_queue r \<and> rq_has_bio r \<and> \<not> (rq_special_payload r \<or> rq_copy_user r) \<and>
          \<not> (req_op r \<noteq> REQ_OP_WRITE \<and> req_op r \<noteq> REQ_OP_READ))"

definition nvfs_req_payload_supported :: "request \<Rightarrow> bool" where
  "nvfs_req_payload_supported r = (\<not> blk_rq_payload_bytes r > NVME_MAX_SEGS * GPU_PAGE_SIZE)"

text \<open>The flags for GPU and CPU pages after one more page, and whether the request is still of one kind.\<close>

definition nvfs_is_request_valid :: "bool \<Rightarrow> bool \<Rightarrow> bool \<Rightarrow> bool \<times> bool \<times> bool" where
  "nvfs_is_request_valid found_gpu_page found_cpu_page curr_page_gpu =
     (let g = (if curr_page_gpu then True else found_gpu_page);
          c = (if curr_page_gpu then found_cpu_page else True)
      in (g, c, \<not> (c \<and> g)))"

definition is_gpu_page_contiguous :: "kenv \<Rightarrow> u64 \<Rightarrow> u64 \<Rightarrow> bool" where
  "is_gpu_page_contiguous e prev_phys_addr curr_phys_addr =
     (prev_phys_addr + of_nat (PAGE_SIZE (page_shift e)) = curr_phys_addr)"

text \<open>
  Moving past the end mark. Kernels before 4.18 refuse it. Otherwise the mark moves to the next entry
  of the array, which is cleared; the array must have one.
\<close>

definition nvfs_extend_sg_markers :: "bool \<Rightarrow> nat \<Rightarrow> scatterlist list \<Rightarrow> (int \<times> nat \<times> scatterlist list) option" where
  "nvfs_extend_sg_markers before_4_18 i sgl =
     (if before_4_18 then Some (- 1, i, sgl)
      else do {
        sgl1 \<leftarrow> arr_upd sgl i (\<lambda>g. g\<lparr>sg_last := False\<rparr>);
        sgl2 \<leftarrow> arr_upd sgl1 (i + 1) (\<lambda>_. sg_zero\<lparr>sg_last := True\<rparr>);
        Some (0, i + 1, sgl2) })"

section \<open>From a block request to a scatter/gather list\<close>

text \<open>
  What the hook knows of the queue and the kernel: whether the caller is the NVMe driver, the largest
  segment the device takes, and whether the kernel is older than 4.18.
\<close>

record blkenv =
  be_nvme :: bool
  queue_max_segment_size :: nat
  before_4_18 :: bool

text \<open>The variables of the loop; \<open>sm_sg\<close> is the index of the current entry.\<close>

record sgmap =
  nsegs :: nat
  found_cpu_page :: bool
  found_gpu_page :: bool
  sm_sg :: "nat option"
  prev_phys_addr :: u64
  iod_sglist :: "scatterlist list"

text \<open>
  The code at \<^verbatim>\<open>new_segment\<close>. The first component of a result is the return value of the whole
  function when it ends here.
\<close>

definition new_segment ::
    "blkenv \<Rightarrow> bio_vec \<Rightarrow> u64 \<Rightarrow> sgmap \<Rightarrow> kstate \<Rightarrow> (int option \<times> sgmap \<times> kstate) option" where
  "new_segment q bv curr_phys_addr sm s =
     do { let n = nsegs sm + 1;
          (r, i, sgl) \<leftarrow>
            (if n = 1 then Some (0, 0, iod_sglist sm)
             else do {
               i \<leftarrow> sm_sg sm;
               g \<leftarrow> arr_get (iod_sglist sm) i;
               if \<not> sg_last g then Some (0, i + 1, iod_sglist sm)
               else if n \<ge> NVME_MAX_SEGS then Some (- 1, i, iod_sglist sm)
               else nvfs_extend_sg_markers (before_4_18 q) i (iod_sglist sm) });
          if r \<noteq> 0
          then Some (Some NVFS_IO_ERR, sm\<lparr>nsegs := n, iod_sglist := sgl\<rparr>, kstat (nvfs_stat nvfs_n_err_sg_err) s)
          else do {
            sgl1 \<leftarrow> arr_upd sgl i (sg_set_page (Some (bv_page bv)) (bv_len bv) (bv_offset bv));
            Some (None, sm\<lparr>nsegs := n, sm_sg := Some i, prev_phys_addr := curr_phys_addr, iod_sglist := sgl1\<rparr>, s) } }"

text \<open>The code between the lookup of the group and \<^verbatim>\<open>new_segment\<close>, for a page of the group \<open>p\<close>.\<close>

definition add_gpu_bvec ::
    "kenv \<Rightarrow> blkenv \<Rightarrow> mptr \<Rightarrow> bio_vec \<Rightarrow> sgmap \<Rightarrow> kstate \<Rightarrow> (int option \<times> sgmap \<times> kstate) option" where
  "add_gpu_bvec e q p bv sm s =
     do { m \<leftarrow> mgroups s p;
          curr \<leftarrow> nvfs_mgroup_get_gpu_physical_address e s m (bv_page bv);
          let (gpu_page_index, pgoff) = nvfs_mgroup_get_gpu_index_and_off e s m (bv_page bv);
          s1 \<leftarrow> nvfs_mgroup_put e p s;
          case sm_sg sm of
            None \<Rightarrow> new_segment q bv curr sm s1
          | Some i \<Rightarrow> do {
              g \<leftarrow> arr_get (iod_sglist sm) i;
              if \<not> be_nvme q \<and> sg_length g + bv_len bv > queue_max_segment_size q then new_segment q bv curr sm s1
              else if prev_phys_addr sm \<noteq> 0 \<and> is_gpu_page_contiguous e (prev_phys_addr sm) curr \<and>
                (gpu_page_index = 0 \<or> gpu_page_index mod NVFS_P2P_MAX_CONTIG_GPU_PAGES \<noteq> 0)
              then do {
                sgl \<leftarrow> arr_upd (iod_sglist sm) i (\<lambda>g. g\<lparr>sg_length := sg_length g + bv_len bv\<rparr>);
                Some (None, sm\<lparr>prev_phys_addr := curr, iod_sglist := sgl\<rparr>, s1) }
              else new_segment q bv curr sm s1 } }"

definition map_bvec ::
    "kenv \<Rightarrow> blkenv \<Rightarrow> request \<Rightarrow> bio_vec \<Rightarrow> sgmap \<Rightarrow> kstate \<Rightarrow> (int option \<times> sgmap \<times> kstate) option" where
  "map_bvec e q r bv sm s =
     do { (mg, s1) \<leftarrow> nvfs_mgroup_from_page e (Some (bv_page bv)) s;
          let check_and_put = (\<lambda>s. case mg of Ptr p \<Rightarrow> nvfs_mgroup_put e p s | _ \<Rightarrow> Some s);
          let (gpu, cpu, valid) = nvfs_is_request_valid (found_gpu_page sm) (found_cpu_page sm) (mg \<noteq> NullPtr);
          let sm1 = sm\<lparr>found_gpu_page := gpu, found_cpu_page := cpu\<rparr>;
          (ret, s2) \<leftarrow>
            (case mg of
               NullPtr \<Rightarrow> Some (0, s1)
             | ErrPtr _ \<Rightarrow> Some (NVFS_IO_ERR, s1)
             | Ptr p \<Rightarrow> nvfs_mgroup_metadata_set_dma_state e (bv_page bv) mg (bv_len bv) (bv_offset bv) s1);
          if ret \<noteq> 0 then Some (Some NVFS_IO_ERR, sm, s2)
          else if \<not> valid then do {
            sgl \<leftarrow> nvfs_clear_sglist_page (iod_sglist sm1);
            s3 \<leftarrow> check_and_put (kstat (nvfs_stat nvfs_n_err_mix_cpu_gpu) s2);
            Some (Some NVFS_IO_ERR, sm1\<lparr>iod_sglist := sgl\<rparr>, s3) }
          else if cpu then do { s3 \<leftarrow> check_and_put s2; Some (None, sm1, s3) }
          else if nsegs sm = 0 \<and> (blk_integrity_rq r \<or> \<not> nvfs_req_payload_supported r \<or> dma_drain_needed r)
          then do { s3 \<leftarrow> check_and_put s2; Some (Some NVFS_IO_ERR, sm1, s3) }
          else case mg of Ptr p \<Rightarrow> add_gpu_bvec e q p bv sm1 s2 | _ \<Rightarrow> None }"

fun map_bvecs ::
    "kenv \<Rightarrow> blkenv \<Rightarrow> request \<Rightarrow> bio_vec list \<Rightarrow> sgmap \<Rightarrow> kstate \<Rightarrow> (int option \<times> sgmap \<times> kstate) option" where
  "map_bvecs e q r [] sm s = Some (None, sm, s)"
| "map_bvecs e q r (bv # bvs) sm s =
     do { (ret, sm1, s1) \<leftarrow> map_bvec e q r bv sm s;
          case ret of Some _ \<Rightarrow> Some (ret, sm1, s1) | None \<Rightarrow> map_bvecs e q r bvs sm1 s1 }"

text \<open>The result is the return value, the number of segments recorded in the request, the list and the state.\<close>

definition nvfs_blk_rq_map_sg_internal ::
    "kenv \<Rightarrow> blkenv \<Rightarrow> request option \<Rightarrow> scatterlist list option \<Rightarrow> kstate \<Rightarrow>
     (int \<times> request option \<times> scatterlist list option \<times> kstate) option" where
  "nvfs_blk_rq_map_sg_internal e q req sgl s =
     (case (if nvfs_blk_rq_check req then req else None, sgl) of
        (None, _) \<Rightarrow> Some (0, req, sgl, s)
      | (Some r, None) \<Rightarrow> Some (NVFS_IO_ERR, req, sgl, s)
      | (Some r, Some gs) \<Rightarrow> do {
          (ret, sm, s1) \<leftarrow> map_bvecs e q r (rq_bvecs r)
            \<lparr> nsegs = 0, found_cpu_page = False, found_gpu_page = False, sm_sg = None, prev_phys_addr = 0, iod_sglist = gs \<rparr> s;
          case ret of
            Some c \<Rightarrow> Some (c, req, Some (iod_sglist sm), s1)
          | None \<Rightarrow>
              if found_gpu_page sm then do {
                i \<leftarrow> sm_sg sm;
                gs1 \<leftarrow> arr_upd (iod_sglist sm) i (\<lambda>g. g\<lparr>sg_last := True\<rparr>);
                Some (int (nsegs sm), Some (r\<lparr>nr_phys_segments := max (nsegs sm) (nr_phys_segments r)\<rparr>), Some gs1, s1) }
              else Some (0, req, Some (iod_sglist sm), s1) })"

definition nvfs_blk_rq_map_sg where
  "nvfs_blk_rq_map_sg e q = nvfs_blk_rq_map_sg_internal e (q\<lparr>be_nvme := False\<rparr>)"

definition nvfs_nvme_blk_rq_map_sg where
  "nvfs_nvme_blk_rq_map_sg e q = nvfs_blk_rq_map_sg_internal e (q\<lparr>be_nvme := True\<rparr>)"

section \<open>DMA addresses for a scatter/gather list\<close>

text \<open>
  One entry of the list, with the numbers of GPU and CPU entries so far. The NVMe driver passes a length of
  -1, which skips the contiguity check of \<^verbatim>\<open>nvfs_get_dma\<close>; taking its plug away meanwhile has no
  effect on the state of the driver. Other drivers have their blocks marked here. The group reference
  that \<^verbatim>\<open>nvfs_mgroup_metadata_set_dma_state\<close> drops when it fails is dropped here once more.
\<close>

definition sg_dma ::
    "kenv \<Rightarrow> blkenv \<Rightarrow> pci_dev \<Rightarrow> scatterlist \<Rightarrow> kstate \<Rightarrow> (int option \<times> int \<times> u64 \<times> kstate) option" where
  "sg_dma e q dev g s =
     (if be_nvme q then do {
        (ret, a, s1) \<leftarrow> nvfs_get_dma e dev (sg_page g) True (- 1) s; Some (None, ret, a, s1) }
      else do {
        (ret, a, s1) \<leftarrow> nvfs_get_dma e dev (sg_page g) True (int (sg_length g)) s;
        if ret \<noteq> 0 then Some (None, ret, a, s1)
        else do {
          (mg, s2) \<leftarrow> nvfs_mgroup_from_page e (sg_page g) s1;
          if mg = NullPtr then Some (Some NVFS_IO_ERR, ret, a, s2)
          else do {
            pg \<leftarrow> sg_page g;
            (r, s3) \<leftarrow> nvfs_mgroup_metadata_set_dma_state e pg mg (sg_length g) (sg_offset g) s2;
            s4 \<leftarrow> (case mg of Ptr p \<Rightarrow> nvfs_mgroup_put e p s3 | _ \<Rightarrow> None);
            Some (None, if r < 0 then NVFS_IO_ERR else ret, a, s4) } } })"

fun dma_map_entries ::
    "kenv \<Rightarrow> blkenv \<Rightarrow> pci_dev \<Rightarrow> nat \<Rightarrow> nat \<Rightarrow> nat list \<Rightarrow> scatterlist list \<Rightarrow> kstate \<Rightarrow>
     (int option \<times> nat \<times> scatterlist list \<times> kstate) option" where
  "dma_map_entries e q dev nr_gpu_dma nr_cpu_dma [] sgl s = Some (None, nr_gpu_dma, sgl, s)"
| "dma_map_entries e q dev nr_gpu_dma nr_cpu_dma (i # is) sgl s =
     do { entry \<leftarrow> sg_nth sgl i;
          g \<leftarrow> entry;
          (end_ret, ret, gpu_base_dma, s1) \<leftarrow> sg_dma e q dev g s;
          case end_ret of
            Some r \<Rightarrow> Some (Some r, nr_gpu_dma, sgl, s1)
          | None \<Rightarrow>
              if ret = NVFS_IO_ERR then Some (Some NVFS_IO_ERR, nr_gpu_dma, sgl, s1)
              else if ret = NVFS_BAD_REQ then
                if nr_gpu_dma \<noteq> 0 then Some (Some NVFS_IO_ERR, nr_gpu_dma, sgl, s1)
                else dma_map_entries e q dev nr_gpu_dma (nr_cpu_dma + 1) is sgl s1
              else if nr_cpu_dma \<noteq> 0 then Some (Some NVFS_IO_ERR, nr_gpu_dma, sgl, s1)
              else if gpu_base_dma = 0 then None
              else dma_map_entries e q dev (nr_gpu_dma + 1) nr_cpu_dma is
                (sgl[i := g\<lparr>sg_dma_address := gpu_base_dma + of_nat (sg_offset g), sg_dma_len := sg_length g\<rparr>]) s1 }"

definition nvfs_dma_map_sg_attrs_internal ::
    "kenv \<Rightarrow> blkenv \<Rightarrow> pci_dev \<Rightarrow> scatterlist list \<Rightarrow> nat \<Rightarrow> kstate \<Rightarrow> (int \<times> scatterlist list \<times> kstate) option" where
  "nvfs_dma_map_sg_attrs_internal e q dev sgl nents s =
     (if nents = 0 then Some (NVFS_IO_ERR, sgl, s)
      else do {
        (ret, nr_gpu_dma, sgl1, s1) \<leftarrow> dma_map_entries e q dev 0 0 [0 ..< nents] sgl s;
        case ret of
          Some r \<Rightarrow> Some (r, sgl1, s1)
        | None \<Rightarrow> Some (if nr_gpu_dma = 0 then NVFS_BAD_REQ else int nents, sgl1, s1) })"

section \<open>After the transfer\<close>

fun unmap_entries ::
    "kenv \<Rightarrow> scatterlist list \<Rightarrow> nat \<Rightarrow> nat \<Rightarrow> nat list \<Rightarrow> kstate \<Rightarrow> (int \<times> kstate) option" where
  "unmap_entries e sgl gpu_segs cpu_segs [] s =
     (if gpu_segs \<noteq> 0 \<and> cpu_segs \<noteq> 0 then Some (NVFS_IO_ERR, kstat (nvfs_stat nvfs_n_err_mix_cpu_gpu) s)
      else Some (int gpu_segs, s))"
| "unmap_entries e sgl gpu_segs cpu_segs (i # is) s =
     do { entry \<leftarrow> sg_nth sgl i;
          case entry of
            None \<Rightarrow> Some (NVFS_IO_ERR, s)
          | Some g \<Rightarrow>
              if sg_page g = None then unmap_entries e sgl gpu_segs cpu_segs is s
              else do {
                (ret, s1) \<leftarrow> nvfs_check_gpu_page_and_error e (sg_page g) s;
                if ret = 0 then unmap_entries e sgl gpu_segs (cpu_segs + 1) is s1
                else if ret = - 1 then Some (NVFS_IO_ERR, s1)
                else unmap_entries e sgl (gpu_segs + 1) cpu_segs is s1 } }"

definition nvfs_dma_unmap_sg :: "kenv \<Rightarrow> scatterlist list option \<Rightarrow> int \<Rightarrow> kstate \<Rightarrow> (int \<times> kstate) option" where
  "nvfs_dma_unmap_sg e sglist nents s =
     do { sgl \<leftarrow> sglist; if nents < 0 then None else unmap_entries e sgl 0 0 [0 ..< nat nents] s }"

section \<open>The RDMA registration behind a list\<close>

text \<open>The registration for the piece in flight: its address from the GPU page of the piece, its size from the active blocks.\<close>

definition rdma_of_piece :: "nvfs_io_mgroup \<Rightarrow> nvfs_rdma_info" where
  "rdma_of_piece m =
     (let r = rdma_info m; io = nvfsio m
      in r\<lparr>rem_vaddr := rem_vaddr r - (rem_vaddr r AND (GPU_PAGE_SIZE - 1)) +
             push_bit GPU_PAGE_SHIFT (of_nat (cur_gpu_base_index io)) + of_nat (gpu_page_offset io),
           rdma_size := ucast ((of_nat (nvfs_active_blocks_end io) - of_nat (nvfs_active_blocks_start io) + 1) * (4096 :: u64))\<rparr>)"

text \<open>
  The size is compared as a signed 32-bit number that is converted to 64 bits, with what is
  left of the shadow buffer after the segment offset.
\<close>

definition rdma_size_wrong :: "nvfs_io_mgroup \<Rightarrow> bool" where
  "rdma_size_wrong m =
     (let sz = rdma_size (rdma_of_piece m); shadow_buf_size = of_nat (nvfs_blocks_count m * NVFS_BLOCK_SIZE) :: u64
      in (scast sz :: u64) > shadow_buf_size - of_nat (rdma_seg_offset (nvfsio m)) \<or> sint sz < 0)"

fun rdma_entries ::
    "kenv \<Rightarrow> scatterlist list \<Rightarrow> mptr \<Rightarrow> nat \<Rightarrow> nat \<Rightarrow> nat list \<Rightarrow> kstate \<Rightarrow> (int option \<times> kstate) option" where
  "rdma_entries e sgl prev shadow_buf_size total_size [] s =
     Some (if total_size > shadow_buf_size then Some NVFS_IO_ERR else None, s)"
| "rdma_entries e sgl prev shadow_buf_size total_size (i # is) s =
     do { entry \<leftarrow> sg_nth sgl i;
          case entry of
            None \<Rightarrow> Some (Some NVFS_BAD_REQ, s)
          | Some g \<Rightarrow>
              if sg_page g = None then Some (Some NVFS_BAD_REQ, s)
              else do {
                (mg, s1) \<leftarrow> nvfs_mgroup_from_page_range e (sg_page g) (DIV_ROUND_UP (sg_length g) NVFS_BLOCK_SIZE) (sg_offset g) s;
                case mg of
                  NullPtr \<Rightarrow> Some (Some NVFS_BAD_REQ, s1)
                | ErrPtr _ \<Rightarrow> Some (Some NVFS_IO_ERR, s1)
                | Ptr p \<Rightarrow> do {
                    s2 \<leftarrow> nvfs_mgroup_put e p s1;
                    if prev \<noteq> p then Some (Some NVFS_IO_ERR, s2)
                    else rdma_entries e sgl prev shadow_buf_size (total_size + sg_length g) is s2 } } }"

text \<open>The second component is the caller's record afterwards; \<open>None\<close> stands for a null pointer.\<close>

definition nvfs_get_gpu_sglist_rdma_info ::
    "kenv \<Rightarrow> scatterlist list \<Rightarrow> int \<Rightarrow> nvfs_rdma_info option \<Rightarrow> kstate \<Rightarrow> (int \<times> nvfs_rdma_info option \<times> kstate) option" where
  "nvfs_get_gpu_sglist_rdma_info e sgl nents rdma_infop s =
     (if nents \<le> 0 \<or> rdma_infop = None then Some (NVFS_BAD_REQ, rdma_infop, s)
      else do {
        g \<leftarrow> arr_get sgl 0;
        if sg_page g = None then Some (NVFS_IO_ERR, rdma_infop, s)
        else do {
          (mg, s1) \<leftarrow> nvfs_mgroup_from_page e (sg_page g) s;
          case mg of
            ErrPtr _ \<Rightarrow> Some (NVFS_IO_ERR, rdma_infop, s1)
          | NullPtr \<Rightarrow> Some (NVFS_BAD_REQ, rdma_infop, s1)
          | Ptr p \<Rightarrow> do {
              m \<leftarrow> mgroups s1 p;
              s2 \<leftarrow> nvfs_mgroup_put e p s1;
              if rdma_version (rdma_info m) = 0 then Some (NVFS_IO_ERR, rdma_infop, s2)
              else if rdma_size_wrong m then Some (NVFS_IO_ERR, Some (rdma_of_piece m), s2)
              else do {
                (ret, s3) \<leftarrow> rdma_entries e sgl p (nvfs_blocks_count m * NVFS_BLOCK_SIZE) 0 [0 ..< nat nents] s2;
                case ret of
                  Some r \<Rightarrow> Some (r, Some zero_rdma_info, s3)
                | None \<Rightarrow> Some (nents, Some (rdma_of_piece m), s3) } } } })"

section \<open>Splitting a list into runs\<close>

text \<open>
  The reference for the coalescing: a list is cut wherever the next element does not join the run so far.
\<close>

fun runs_from :: "('a list \<Rightarrow> 'a \<Rightarrow> bool) \<Rightarrow> 'a list \<Rightarrow> 'a list \<Rightarrow> 'a list list" where
  "runs_from J run [] = [run]"
| "runs_from J run (x # xs) = (if J run x then runs_from J (run @ [x]) xs else run # runs_from J [x] xs)"

fun runs :: "('a list \<Rightarrow> 'a \<Rightarrow> bool) \<Rightarrow> 'a list \<Rightarrow> 'a list list" where
  "runs J [] = []"
| "runs J (x # xs) = runs_from J [x] xs"

definition joined :: "('a list \<Rightarrow> 'a \<Rightarrow> bool) \<Rightarrow> 'a list \<Rightarrow> bool" where
  "joined J run \<longleftrightarrow> run \<noteq> [] \<and> (\<forall>k. 0 < k \<and> k < length run \<longrightarrow> J (take k run) (run ! k))"

definition cut_right :: "('a list \<Rightarrow> 'a \<Rightarrow> bool) \<Rightarrow> 'a list list \<Rightarrow> bool" where
  "cut_right J rs \<longleftrightarrow> (\<forall>i. Suc i < length rs \<longrightarrow> \<not> J (rs ! i) (hd (rs ! Suc i)))"

lemma joined_snoc: "joined J run \<Longrightarrow> J run x \<Longrightarrow> joined J (run @ [x])"
  by (auto simp: joined_def nth_append less_Suc_eq)

lemma runs_from_spec:
  assumes "joined J run"
  shows "concat (runs_from J run xs) = run @ xs \<and> (\<forall>r \<in> set (runs_from J run xs). joined J r) \<and>
    cut_right J (runs_from J run xs) \<and> (\<exists>r rs. runs_from J run xs = r # rs \<and> hd r = hd run)"
  using assms
proof (induction xs arbitrary: run)
  case Nil
  then show ?case by (auto simp: cut_right_def)
next
  case (Cons x xs)
  have ne: "run \<noteq> []" using Cons.prems by (simp add: joined_def)
  show ?case
  proof (cases "J run x")
    case True
    then show ?thesis using Cons.IH [OF joined_snoc [OF Cons.prems True]] ne by simp
  next
    case False
    obtain r rs where r: "runs_from J [x] xs = r # rs" "hd r = x"
      and IH: "concat (r # rs) = x # xs" "\<forall>r \<in> set (r # rs). joined J r" "cut_right J (r # rs)"
      using Cons.IH [of "[x]"] by (force simp: joined_def)
    have "cut_right J (run # r # rs)"
      using IH(3) r(2) False by (auto simp: cut_right_def nth_Cons split: nat.splits)
    then show ?thesis using IH(1,2) r False Cons.prems by auto
  qed
qed

lemma runs_spec:
  "concat (runs J xs) = xs \<and> (\<forall>r \<in> set (runs J xs). joined J r) \<and> cut_right J (runs J xs)"
proof (cases xs)
  case (Cons x ys)
  have "joined J [x]" by (simp add: joined_def)
  then show ?thesis using runs_from_spec [of J "[x]" ys] Cons by auto
qed (simp add: cut_right_def)

section \<open>One page of a request\<close>

definition dma_mark :: "nat \<Rightarrow> nvfs_io_mgroup \<Rightarrow> nvfs_io_mgroup" where
  "dma_mark j m = m\<lparr>nvfs_metadata := map_option (\<lambda>md. md[j := set_blk NVFS_IO_DMA_START (md ! j)]) (nvfs_metadata m)\<rparr>"

lemma nth_update_if: "(xs[i := x]) ! j = (if i = j \<and> j < length xs then x else xs ! j)"
  by (cases "i < length xs") (auto simp: nth_list_update not_less list_update_beyond)

lemma dma_mark_simps [simp]:
  "nvfsio (dma_mark j m) = nvfsio m" "gpu_info (dma_mark j m) = gpu_info m" "mg_ref (dma_mark j m) = mg_ref m"
  "base_index (dma_mark j m) = base_index m" "nvfs_blocks_count (dma_mark j m) = nvfs_blocks_count m"
  by (simp_all add: dma_mark_def)

lemma dma_mark_ref [simp]: "(dma_mark j (m\<lparr>mg_ref := r\<rparr>))\<lparr>mg_ref := r'\<rparr> = dma_mark j (m\<lparr>mg_ref := r'\<rparr>)"
  by (simp add: dma_mark_def)

lemma page_in_flight_mark:
  assumes "page_in_flight e s p m j pg"
  shows "page_in_flight e (s\<lparr>mgroups := (mgroups s)(p \<mapsto> dma_mark k m)\<rparr>) p (dma_mark k m) j pg"
proof -
  have pg: "page_of_group e s p m j pg" and wf: "hash_wf s" using assms by (simp_all add: page_in_flight_def)
  obtain md where md: "nvfs_metadata m = Some md" "length md = nvfs_blocks_count m" "mgroups s p = Some m"
    using pg by (auto simp: page_of_group_def mgroup_wf_def)
  have "hash_wf (s\<lparr>mgroups := (mgroups s)(p \<mapsto> dma_mark k m)\<rparr>)"
    using wf md(3) by (intro hash_wf_upd [of s p m]) (auto simp: hash_wf_def)
  moreover have "mgroup_wf e (dma_mark k m)"
    using pg by (auto simp: page_of_group_def mgroup_wf_def dma_mark_def nth_update_if)
  moreover have "block_state (dma_mark k m) j \<in> {NVFS_IO_QUEUED, NVFS_IO_DMA_START}"
    using assms md pg by (auto simp: page_in_flight_def page_of_group_def block_state_def dma_mark_def nvfs_geom nth_update_if)
  ultimately show ?thesis
    using assms by (auto simp: page_in_flight_def page_of_group_def page_base_index_def rel_page_def NVFS_PAGE_INDEX_def dma_mark_def)
qed

text \<open>A vector lies in its page: it is not empty and ends before the end of the page.\<close>

definition bvec_ok :: "bio_vec \<Rightarrow> bool" where
  "bvec_ok bv \<longleftrightarrow> 0 < bv_len bv \<and> bv_offset bv + bv_len bv \<le> 4096"

lemma set_dma_in_flight:
  assumes "page_in_flight e s p m j pg" and "0 < len" and "off + len \<le> 4096"
  shows "nvfs_mgroup_metadata_set_dma_state e pg (Ptr p) len off (s\<lparr>mgroups := (mgroups s)(p \<mapsto> m\<lparr>mg_ref := r\<rparr>)\<rparr>) =
    Some (0, s\<lparr>mgroups := (mgroups s)(p \<mapsto> dma_mark j (m\<lparr>mg_ref := r\<rparr>))\<rparr>)"
proof -
  let ?s = "s\<lparr>mgroups := (mgroups s)(p \<mapsto> m\<lparr>mg_ref := r\<rparr>)\<rparr>"
  have pg: "page_of_group e s p m j pg" and ps: "page_shift e = 12" using assms by (simp_all add: page_in_flight_def)
  obtain md where md: "nvfs_metadata m = Some md" "j < length md" "nvfs_state (md ! j) \<in> {NVFS_IO_QUEUED, NVFS_IO_DMA_START}"
    using pg assms(1) ps by (auto simp: page_of_group_def mgroup_wf_def page_in_flight_def block_state_def nvfs_geom)
  have rp: "rel_page e ?s pg = j" using pg by (simp add: page_of_group_def rel_page_def NVFS_PAGE_INDEX_def)
  obtain l where l: "len = Suc l" using assms(2) by (cases len) auto
  then have e: "(off + len + 4294967295) mod 4294967296 = off + l" using assms(3) by simp
  have idx: "METADATA_BLOCK_START_INDEX off = 0" "METADATA_BLOCK_END_INDEX off len = 0"
    unfolding METADATA_BLOCK_START_INDEX_def METADATA_BLOCK_END_INDEX_def e using assms(3) l by simp_all
  show ?thesis
    using md by (auto simp: nvfs_mgroup_metadata_set_dma_state_def rp idx ps nvfs_geom upd_md_def upd_mgroup_def dma_mark_def)
qed

text \<open>The physical address of page \<open>j\<close> of the buffer in the memory of the GPU.\<close>

definition gpu_addr :: "nvfs_io_mgroup \<Rightarrow> nat \<Rightarrow> u64" where
  "gpu_addr m j = pt_physical (the (page_table (gpu_info m))) ! (cur_gpu_base_index (nvfsio m) + j div 16) +
     of_nat ((j mod 16) * 4096)"

definition has_phys :: "nvfs_io_mgroup \<Rightarrow> nat \<Rightarrow> bool" where
  "has_phys m j \<longleftrightarrow> (\<exists>pt. page_table (gpu_info m) = Some pt \<and> cur_gpu_base_index (nvfsio m) + j div 16 < length (pt_physical pt))"

lemma gpu_addr_mark [simp]: "gpu_addr (dma_mark k m) = gpu_addr m" "has_phys (dma_mark k m) = has_phys m"
  by (auto simp: gpu_addr_def has_phys_def fun_eq_iff)

section \<open>The list follows the runs\<close>

text \<open>
  A vector joins a run when the run may grow by it, its page continues the last page of the run in GPU memory, and it is
  not at the first page of a stretch of 65535 GPU pages. \<open>pn\<close> numbers the pages.
\<close>

definition joins :: "blkenv \<Rightarrow> nvfs_io_mgroup \<Rightarrow> (pageid \<Rightarrow> nat) \<Rightarrow> bio_vec list \<Rightarrow> bio_vec \<Rightarrow> bool" where
  "joins q m pn run bv \<longleftrightarrow>
     (be_nvme q \<or> sum_list (map bv_len run) + bv_len bv \<le> queue_max_segment_size q) \<and>
     gpu_addr m (pn (bv_page (last run))) \<noteq> 0 \<and>
     gpu_addr m (pn (bv_page (last run))) + 4096 = gpu_addr m (pn (bv_page bv)) \<and>
     (let i = cur_gpu_base_index (nvfsio m) + pn (bv_page bv) div 16 in i = 0 \<or> i mod 65535 \<noteq> 0)"

definition holds_run :: "scatterlist \<Rightarrow> bio_vec list \<Rightarrow> bool" where
  "holds_run g run \<longleftrightarrow> sg_page g = Some (bv_page (hd run)) \<and> sg_offset g = bv_offset (hd run) \<and>
     sg_length g = sum_list (map bv_len run)"

text \<open>The array with \<open>k\<close> entries used: the end mark is on the last used entry, or on the last of the \<open>n0\<close> given ones.\<close>

definition sg_marked :: "nat \<Rightarrow> nat \<Rightarrow> scatterlist list \<Rightarrow> bool" where
  "sg_marked n0 k sgl \<longleftrightarrow> max n0 k \<le> length sgl \<and> (\<forall>i < max n0 k. sg_last (sgl ! i) \<longleftrightarrow> Suc i = max n0 k)"

definition sm_runs :: "nat \<Rightarrow> nvfs_io_mgroup \<Rightarrow> (pageid \<Rightarrow> nat) \<Rightarrow> bio_vec list list \<Rightarrow> sgmap \<Rightarrow> bool" where
  "sm_runs n0 m pn rs sm \<longleftrightarrow> rs \<noteq> [] \<and> nsegs sm = length rs \<and> found_gpu_page sm \<and> \<not> found_cpu_page sm \<and>
     sm_sg sm = Some (length rs - 1) \<and> prev_phys_addr sm = gpu_addr m (pn (bv_page (last (last rs)))) \<and>
     NVME_MAX_SEGS \<le> length (iod_sglist sm) \<and> sg_marked n0 (length rs) (iod_sglist sm) \<and>
     (\<forall>i < length rs. holds_run (iod_sglist sm ! i) (rs ! i))"

text \<open>The list has room for \<open>k\<close> segments: it was given so many entries, or the end mark may be moved.\<close>

definition sg_fits :: "blkenv \<Rightarrow> nat \<Rightarrow> nat \<Rightarrow> bool" where
  "sg_fits q n0 k \<longleftrightarrow> k \<le> n0 \<or> k < NVME_MAX_SEGS \<and> \<not> before_4_18 q"

lemma new_segment_ok:
  assumes "sm_runs n0 m pn rs sm" and "sg_fits q n0 (Suc (length rs))" and "a = gpu_addr m (pn (bv_page bv))"
  shows "\<exists>sm'. new_segment q bv a sm s = Some (None, sm', s) \<and> sm_runs n0 m pn (rs @ [[bv]]) sm'"
proof -
  let ?L = "iod_sglist sm" and ?n = "length rs"
  have rs: "0 < ?n" "?n \<le> length ?L" "nsegs sm = ?n" "sm_sg sm = Some (?n - 1)" "127 \<le> length ?L"
    and mk: "n0 \<le> length ?L" "\<And>i. i < max n0 ?n \<Longrightarrow> sg_last (?L ! i) \<longleftrightarrow> Suc i = max n0 ?n"
    and h: "\<And>i. i < ?n \<Longrightarrow> holds_run (?L ! i) (rs ! i)"
    using assms(1) by (auto simp: sm_runs_def sg_marked_def)
  let ?set = "sg_set_page (Some (bv_page bv)) (bv_len bv) (bv_offset bv)"
  have hold: "holds_run (?set g) [bv]" "sg_last (?set g) = sg_last g" for g by (simp_all add: holds_run_def sg_set_page_def)
  show ?thesis
  proof (cases "?n < n0")
    case True
    then have "\<not> sg_last (?L ! (?n - 1))" using mk(2) [of "?n - 1"] rs(1) by auto
    moreover have "?n < length ?L" using True mk(1) by simp
    ultimately have "new_segment q bv a sm s = Some (None, sm\<lparr>nsegs := ?n + 1, sm_sg := Some ?n, prev_phys_addr := a,
        iod_sglist := ?L[?n := ?set (?L ! ?n)]\<rparr>, s)"
      using rs by (simp add: new_segment_def Let_def)
    then show ?thesis
      using assms True rs mk h hold
      by (auto simp: sm_runs_def sg_marked_def nth_append nth_update_if less_Suc_eq)
  next
    case False
    then have "sg_last (?L ! (?n - 1))" using mk(2) [of "?n - 1"] rs(1) by auto
    moreover have n: "?n + 1 < 127" "\<not> before_4_18 q" using assms(2) False by (auto simp: sg_fits_def)
    moreover have lt: "?n < length ?L" using n(1) rs(5) by simp
    ultimately have "new_segment q bv a sm s = Some (None, sm\<lparr>nsegs := ?n + 1, sm_sg := Some ?n, prev_phys_addr := a,
        iod_sglist := ?L[?n - 1 := (?L ! (?n - 1))\<lparr>sg_last := False\<rparr>, ?n := ?set (sg_zero\<lparr>sg_last := True\<rparr>)]\<rparr>, s)"
      using rs by (simp add: new_segment_def nvfs_extend_sg_markers_def Let_def)
    moreover have "sg_last (?set (sg_zero\<lparr>sg_last := True\<rparr>))" by (simp add: sg_set_page_def)
    moreover have "holds_run (g\<lparr>sg_last := b\<rparr>) r = holds_run g r" for g b r by (simp add: holds_run_def)
    ultimately show ?thesis
      using assms False rs mk h hold lt
      by (auto simp: sm_runs_def sg_marked_def nth_append nth_update_if less_Suc_eq)
  qed
qed

text \<open>The first segment, and a vector that joins the current one.\<close>

definition sm_empty :: "scatterlist list \<Rightarrow> sgmap" where
  "sm_empty gs = \<lparr> nsegs = 0, found_cpu_page = False, found_gpu_page = False, sm_sg = None, prev_phys_addr = 0, iod_sglist = gs \<rparr>"

lemma first_segment_ok:
  assumes "0 < n0" and "127 \<le> length gs" and "sg_marked n0 0 gs" and "a = gpu_addr m (pn (bv_page bv))"
  shows "\<exists>sm'. new_segment q bv a ((sm_empty gs)\<lparr>found_gpu_page := True\<rparr>) s = Some (None, sm', s) \<and>
    sm_runs n0 m pn [[bv]] sm'"
proof -
  have "0 < length gs" using assms(2) by linarith
  then show ?thesis
    using assms by (auto simp: new_segment_def sm_empty_def sm_runs_def sg_marked_def holds_run_def sg_set_page_def nth_update_if
        max_def Suc_le_eq)
qed

lemma join_segment_ok:
  assumes "sm_runs n0 m pn (ds @ [cur]) sm" and "cur \<noteq> []"
  shows "sm_runs n0 m pn (ds @ [cur @ [bv]]) (sm\<lparr>prev_phys_addr := gpu_addr m (pn (bv_page bv)),
    iod_sglist := (iod_sglist sm)[length ds := (iod_sglist sm ! length ds)\<lparr>sg_length := sg_length (iod_sglist sm ! length ds) + bv_len bv\<rparr>]\<rparr>)"
proof -
  have "holds_run (iod_sglist sm ! length ds) cur" using assms(1) by (auto simp: sm_runs_def nth_append)
  then have "holds_run ((iod_sglist sm ! length ds)\<lparr>sg_length := sg_length (iod_sglist sm ! length ds) + bv_len bv\<rparr>) (cur @ [bv])"
    using assms(2) by (auto simp: holds_run_def)
  then show ?thesis
    using assms by (auto simp: sm_runs_def sg_marked_def nth_append nth_update_if less_Suc_eq)
qed

section \<open>One vector, all vectors\<close>

text \<open>A page of the buffer in flight with its GPU page in the page table, as the loop finds it.\<close>

definition mappable :: "kenv \<Rightarrow> kstate \<Rightarrow> mptr \<Rightarrow> nvfs_io_mgroup \<Rightarrow> bio_vec \<Rightarrow> bool" where
  "mappable e s p m bv \<longleftrightarrow> bvec_ok bv \<and> page_in_flight e s p m (rel_page e s (bv_page bv)) (bv_page bv) \<and>
     has_phys m (rel_page e s (bv_page bv))"

lemma rel_page_mgroups [simp]: "rel_page e (s\<lparr>mgroups := x\<rparr>) pg = rel_page e s pg"
  by (simp add: rel_page_def NVFS_PAGE_INDEX_def)

lemma mappable_mark:
  "mappable e s p m bv \<Longrightarrow> mappable e (s\<lparr>mgroups := (mgroups s)(p \<mapsto> dma_mark k m)\<rparr>) p (dma_mark k m) bv"
  using page_in_flight_mark by (auto simp: mappable_def)

lemma map_bvec_mappable:
  assumes "mappable e s p m bv" and "\<not> found_cpu_page sm" and "j = rel_page e s (bv_page bv)"
    and "nsegs sm = 0 \<longrightarrow> \<not> blk_integrity_rq r \<and> nvfs_req_payload_supported r \<and> \<not> dma_drain_needed r"
  shows "map_bvec e q r bv sm s =
    (let s' = s\<lparr>mgroups := (mgroups s)(p \<mapsto> dma_mark j m)\<rparr>; sm1 = sm\<lparr>found_gpu_page := True, found_cpu_page := False\<rparr>;
         a = gpu_addr m j; i = cur_gpu_base_index (nvfsio m) + j div 16
     in case sm_sg sm of
          None \<Rightarrow> new_segment q bv a sm1 s'
        | Some k \<Rightarrow> do {
            g \<leftarrow> arr_get (iod_sglist sm) k;
            if \<not> be_nvme q \<and> sg_length g + bv_len bv > queue_max_segment_size q then new_segment q bv a sm1 s'
            else if prev_phys_addr sm \<noteq> 0 \<and> prev_phys_addr sm + 4096 = a \<and> (i = 0 \<or> i mod 65535 \<noteq> 0)
            then do {
              sgl \<leftarrow> arr_upd (iod_sglist sm) k (\<lambda>g. g\<lparr>sg_length := sg_length g + bv_len bv\<rparr>);
              Some (None, sm1\<lparr>prev_phys_addr := a, iod_sglist := sgl\<rparr>, s') }
            else new_segment q bv a sm1 s' })"
proof -
  have pf: "page_in_flight e s p m j (bv_page bv)" and ok: "0 < bv_len bv" "bv_offset bv + bv_len bv \<le> 4096"
    using assms(1,3) by (simp_all add: mappable_def bvec_ok_def)
  have ps: "page_shift e = 12" and live: "mgroups s p = Some m" "0 < mg_ref m"
    using pf by (auto simp: page_in_flight_def page_of_group_def hash_wf_def)
  obtain pt where pt: "page_table (gpu_info m) = Some pt" "cur_gpu_base_index (nvfsio m) + j div 16 < length (pt_physical pt)"
    using assms(1,3) by (auto simp: mappable_def has_phys_def)
  let ?m1 = "dma_mark j (m\<lparr>mg_ref := mg_ref m + 1\<rparr>)"
  let ?s2 = "s\<lparr>mgroups := (mgroups s)(p \<mapsto> ?m1)\<rparr>"
  define i where "i = cur_gpu_base_index (nvfsio m) + j div 16"
  note look = from_page_in_flight [OF pf]
  note mark = set_dma_in_flight [OF pf ok, of "mg_ref m + 1"]
  have idx: "nvfs_mgroup_get_gpu_index_and_off e ?s2 ?m1 (bv_page bv) =
      (i, (j mod 16) * 4096)"
    using ps assms(3) by (simp add: i_def nvfs_mgroup_get_gpu_index_and_off_def PAGE_PER_GPU_PAGE_SHIFT_def PAGE_SIZE_def
        drop_bit_eq_div push_bit_eq_mult Let_def)
  have phys: "nvfs_mgroup_get_gpu_physical_address e ?s2 ?m1 (bv_page bv) = Some (gpu_addr m j)"
    using pt by (simp add: nvfs_mgroup_get_gpu_physical_address_def idx gpu_addr_def i_def)
  have put: "nvfs_mgroup_put e p ?s2 = Some (s\<lparr>mgroups := (mgroups s)(p \<mapsto> dma_mark j m)\<rparr>)"
    using put_visited [OF live, of ?m1 e] by simp
  show ?thesis
    unfolding i_def [symmetric] using assms(2,4)
    by (cases "nsegs sm = 0"; cases "sm_sg sm")
      (simp_all add: map_bvec_def look mark nvfs_is_request_valid_def add_gpu_bvec_def idx phys put is_gpu_page_contiguous_def
        ps PAGE_SIZE_def Let_def split del: if_split cong: if_cong)
qed

lemma runs_mark [simp]: "joins q (dma_mark k m) = joins q m" "sm_runs n0 (dma_mark k m) = sm_runs n0 m"
  by (simp_all add: joins_def sm_runs_def fun_eq_iff)

lemma runs_from_length: "1 \<le> length (runs_from J run xs)"
  by (induction J run xs rule: runs_from.induct) auto

lemma map_bvecs_ok:
  assumes "\<forall>bv \<in> set bvs. mappable e s p m bv" and "mgroups s p = Some m" and "sm_runs n0 m (rel_page e s) (ds @ [cur]) sm"
    and "cur \<noteq> []" and "sg_fits q n0 (length (ds @ runs_from (joins q m (rel_page e s)) cur bvs))"
  shows "\<exists>sm'. map_bvecs e q r bvs sm s =
      Some (None, sm', s\<lparr>mgroups := (mgroups s)(p \<mapsto> fold dma_mark (map (\<lambda>bv. rel_page e s (bv_page bv)) bvs) m)\<rparr>) \<and>
    sm_runs n0 m (rel_page e s) (ds @ runs_from (joins q m (rel_page e s)) cur bvs) sm'"
  using assms
proof (induction bvs arbitrary: s m sm ds cur)
  case Nil
  then show ?case by (simp add: fun_upd_idem)
next
  case (Cons bv bvs)
  let ?pn = "rel_page e s" and ?j = "rel_page e s (bv_page bv)"
  let ?s = "s\<lparr>mgroups := (mgroups s)(p \<mapsto> dma_mark ?j m)\<rparr>" and ?m = "dma_mark ?j m"
  let ?J = "joins q m ?pn"
  have sm: "nsegs sm \<noteq> 0" "\<not> found_cpu_page sm" "found_gpu_page sm" "sm_sg sm = Some (length ds)"
    "prev_phys_addr sm = gpu_addr m (?pn (bv_page (last cur)))" "length ds < length (iod_sglist sm)"
    "sg_length (iod_sglist sm ! length ds) = sum_list (map bv_len cur)"
    using Cons.prems(3) by (auto simp: sm_runs_def sg_marked_def holds_run_def nth_append)
  have same: "sm\<lparr>found_gpu_page := True, found_cpu_page := False\<rparr> = sm" using sm(2,3) by simp
  have step: "map_bvec e q r bv sm s = (if ?J cur bv
      then Some (None, sm\<lparr>prev_phys_addr := gpu_addr m ?j, iod_sglist := (iod_sglist sm)[length ds :=
        (iod_sglist sm ! length ds)\<lparr>sg_length := sg_length (iod_sglist sm ! length ds) + bv_len bv\<rparr>]\<rparr>, ?s)
      else new_segment q bv (gpu_addr m ?j) sm ?s)"
    using Cons.prems(1) map_bvec_mappable [of e s p m bv sm ?j r q] sm
    by (auto simp: same joins_def Let_def not_le)
  have next_ok: "\<forall>bv \<in> set bvs. mappable e ?s p ?m bv" "mgroups ?s p = Some ?m"
    using Cons.prems(1) by (auto simp: mappable_mark)
  have go: "\<exists>sm'. map_bvecs e q r (bv # bvs) sm s =
      Some (None, sm', s\<lparr>mgroups := (mgroups s)(p \<mapsto> fold dma_mark (map (\<lambda>bv. ?pn (bv_page bv)) (bv # bvs)) m)\<rparr>) \<and>
      sm_runs n0 m ?pn (ds' @ runs_from ?J cur' bvs) sm'"
    if st: "map_bvec e q r bv sm s = Some (None, sm1, ?s)" "sm_runs n0 m ?pn (ds' @ [cur']) sm1" "cur' \<noteq> []"
      "sg_fits q n0 (length (ds' @ runs_from ?J cur' bvs))" for sm1 ds' cur'
  proof -
    have pn: "rel_page e ?s = ?pn" by (simp add: fun_eq_iff)
    obtain sm' where "map_bvecs e q r bvs sm1 ?s =
        Some (None, sm', ?s\<lparr>mgroups := (mgroups ?s)(p \<mapsto> fold dma_mark (map (\<lambda>bv. ?pn (bv_page bv)) bvs) ?m)\<rparr>)"
      "sm_runs n0 m ?pn (ds' @ runs_from ?J cur' bvs) sm'"
      using Cons.IH [OF next_ok, of ds' cur' sm1] st(2-4) unfolding pn runs_mark by blast
    moreover have "?s\<lparr>mgroups := (mgroups ?s)(p \<mapsto> x)\<rparr> = s\<lparr>mgroups := (mgroups s)(p \<mapsto> x)\<rparr>" for x by simp
    ultimately show ?thesis using st(1) by (intro exI [of _ sm']) simp
  qed
  show ?case
  proof (cases "?J cur bv")
    case True
    then have eq: "runs_from ?J cur (bv # bvs) = runs_from ?J (cur @ [bv]) bvs" by simp
    show ?thesis
      unfolding eq by (rule go [OF _ join_segment_ok [OF Cons.prems(3,4), of bv]]) (use True step Cons.prems(5) eq in simp_all)
  next
    case False
    have "sg_fits q n0 (Suc (length (ds @ [cur])))"
      using Cons.prems(5) False runs_from_length [of ?J "[bv]" bvs] by (auto simp: sg_fits_def)
    then obtain sm' where "new_segment q bv (gpu_addr m ?j) sm ?s = Some (None, sm', ?s)"
      "sm_runs n0 m ?pn ((ds @ [cur]) @ [[bv]]) sm'"
      using new_segment_ok [OF Cons.prems(3), of q _ bv ?s] by blast
    moreover have eq: "ds @ runs_from ?J cur (bv # bvs) = (ds @ [cur]) @ runs_from ?J [bv] bvs" using False by simp
    ultimately show ?thesis
      unfolding eq by (intro go [of sm']) (use False step Cons.prems(5) eq in simp_all)
  qed
qed

section \<open>The list of a request\<close>

lemma run_contiguous:
  assumes "joined (joins q m pn) run" and "k < length run"
  shows "gpu_addr m (pn (bv_page (run ! k))) = gpu_addr m (pn (bv_page (hd run))) + of_nat k * 4096"
  using assms(2)
proof (induction k)
  case 0
  then show ?case by (simp add: hd_conv_nth)
next
  case (Suc k)
  have "joins q m pn (take (Suc k) run) (run ! Suc k)" using assms(1) Suc.prems by (auto simp: joined_def)
  moreover have "last (take (Suc k) run) = run ! k" using Suc.prems by (simp add: take_Suc_conv_app_nth)
  ultimately show ?case using Suc by (simp add: joins_def algebra_simps)
qed

lemma sg_nents_marked:
  assumes "k \<le> length gs" and "0 < k" and "sg_last (gs ! (k - 1))" and "\<forall>i < k - 1. \<not> sg_last (gs ! i)"
  shows "sg_nents gs = Some k"
  using assms
proof (induction gs arbitrary: k)
  case (Cons g gs)
  show ?case
  proof (cases "k = 1")
    case False
    then have "\<not> sg_last g" using Cons.prems(2,4) by (auto dest!: spec [of _ 0])
    moreover have "sg_nents gs = Some (k - 1)"
    proof (rule Cons.IH)
      show "\<forall>i < k - 1 - 1. \<not> sg_last (gs ! i)"
        using Cons.prems(4) by (metis less_diff_conv Suc_eq_plus1 nth_Cons_Suc)
      show "sg_last (gs ! (k - 1 - 1))" using Cons.prems(2,3) False by (cases k) (auto simp: nth_Cons split: nat.splits)
    qed (use Cons.prems False in auto)
    ultimately show ?thesis using Cons.prems(2) by simp
  qed (use Cons.prems in auto)
qed simp

lemma sg_nents_bound:
  assumes "sg_nents gs = Some k"
  shows "k \<le> length gs" "\<forall>i. Suc i < k \<longrightarrow> \<not> sg_last (gs ! i)"
proof -
  have "k \<le> length gs \<and> (\<forall>i. Suc i < k \<longrightarrow> \<not> sg_last (gs ! i))"
    using assms
  proof (induction gs arbitrary: k)
    case (Cons g gs)
    then show ?case by (auto simp: nth_Cons split: if_splits nat.splits)
  qed simp
  then show "k \<le> length gs" "\<forall>i. Suc i < k \<longrightarrow> \<not> sg_last (gs ! i)" by auto
qed

lemma map_request_ok:
  assumes "rq_bvecs r \<noteq> []" and "\<forall>bv \<in> set (rq_bvecs r). mappable e s p m bv"
    and "\<not> blk_integrity_rq r" and "nvfs_req_payload_supported r" and "\<not> dma_drain_needed r"
    and "0 < n0" and "127 \<le> length gs" and "sg_marked n0 0 gs"
    and "rs = runs (joins q m (rel_page e s)) (rq_bvecs r)" and "sg_fits q n0 (length rs)"
  shows "\<exists>sm. map_bvecs e q r (rq_bvecs r) (sm_empty gs) s = Some (None, sm,
      s\<lparr>mgroups := (mgroups s)(p \<mapsto> fold dma_mark (map (\<lambda>bv. rel_page e s (bv_page bv)) (rq_bvecs r)) m)\<rparr>) \<and>
    sm_runs n0 m (rel_page e s) rs sm"
proof -
  let ?pn = "rel_page e s"
  let ?J = "joins q m ?pn"
  obtain bv bvs where bvs: "rq_bvecs r = bv # bvs" using assms(1) by (cases "rq_bvecs r") auto
  have rs: "rs = [] @ runs_from ?J [bv] bvs" using assms(9) bvs by simp
  let ?j = "?pn (bv_page bv)"
  let ?s = "s\<lparr>mgroups := (mgroups s)(p \<mapsto> dma_mark ?j m)\<rparr>"
  obtain sm where sm: "new_segment q bv (gpu_addr m ?j) ((sm_empty gs)\<lparr>found_gpu_page := True\<rparr>) ?s = Some (None, sm, ?s)"
    "sm_runs n0 m ?pn ([] @ [[bv]]) sm"
    using first_segment_ok [OF assms(6-8), of "gpu_addr m ?j" m ?pn bv q ?s] by auto
  have first: "map_bvec e q r bv (sm_empty gs) s = Some (None, sm, ?s)"
    using map_bvec_mappable [of e s p m bv "sm_empty gs" ?j r q] assms(2-5) bvs sm(1) by (simp add: sm_empty_def Let_def)
  have "\<forall>bv \<in> set bvs. mappable e ?s p (dma_mark ?j m) bv" "mgroups ?s p = Some (dma_mark ?j m)"
    using assms(2) bvs by (auto simp: mappable_mark)
  moreover have pn: "rel_page e ?s = ?pn" by (simp add: fun_eq_iff)
  moreover have upd: "?s\<lparr>mgroups := (mgroups ?s)(p \<mapsto> x)\<rparr> = s\<lparr>mgroups := (mgroups s)(p \<mapsto> x)\<rparr>" for x by simp
  ultimately obtain sm' where "map_bvecs e q r bvs sm ?s = Some (None, sm',
      s\<lparr>mgroups := (mgroups s)(p \<mapsto> fold dma_mark (map (\<lambda>bv. ?pn (bv_page bv)) bvs) (dma_mark ?j m))\<rparr>)"
      "sm_runs n0 m ?pn rs sm'"
    using map_bvecs_ok [of bvs e ?s p "dma_mark ?j m" n0 "[]" "[bv]" sm q r] sm(2) assms(10) rs
    unfolding pn runs_mark upd by auto
  then show ?thesis using first bvs by simp
qed

lemma blk_rq_map_outcome:
  assumes "nvfs_blk_rq_check (Some r)" and "rq_bvecs r \<noteq> []" and "\<forall>bv \<in> set (rq_bvecs r). mappable e s p m bv"
    and "\<not> blk_integrity_rq r" and "nvfs_req_payload_supported r" and "\<not> dma_drain_needed r"
    and "0 < n0" and "127 \<le> length gs" and "sg_marked n0 0 gs"
    and "rs = runs (joins q m (rel_page e s)) (rq_bvecs r)" and "sg_fits q n0 (length rs)"
  shows "\<exists>gs'. nvfs_blk_rq_map_sg_internal e q (Some r) (Some gs) s =
      Some (int (length rs), Some (r\<lparr>nr_phys_segments := max (length rs) (nr_phys_segments r)\<rparr>), Some gs',
        s\<lparr>mgroups := (mgroups s)(p \<mapsto> fold dma_mark (map (\<lambda>bv. rel_page e s (bv_page bv)) (rq_bvecs r)) m)\<rparr>) \<and>
    sg_nents gs' = Some (length rs) \<and> (\<forall>i < length rs. holds_run (gs' ! i) (rs ! i)) \<and> concat rs = rq_bvecs r \<and>
    (\<forall>run \<in> set rs. run \<noteq> [] \<and> (\<forall>k < length run.
       gpu_addr m (rel_page e s (bv_page (run ! k))) = gpu_addr m (rel_page e s (bv_page (hd run))) + of_nat k * 4096)) \<and>
    cut_right (joins q m (rel_page e s)) rs"
proof -
  let ?pn = "rel_page e s"
  obtain sm' where run: "map_bvecs e q r (rq_bvecs r) (sm_empty gs) s = Some (None, sm',
      s\<lparr>mgroups := (mgroups s)(p \<mapsto> fold dma_mark (map (\<lambda>bv. ?pn (bv_page bv)) (rq_bvecs r)) m)\<rparr>)"
    and sm': "sm_runs n0 m ?pn rs sm'"
    using map_request_ok [OF assms(2-11)] by blast
  let ?k = "length rs" and ?L = "iod_sglist sm'"
  have k: "0 < ?k" "?k \<le> length ?L" "sm_sg sm' = Some (?k - 1)" "nsegs sm' = ?k" "found_gpu_page sm'"
    and h: "\<And>i. i < ?k \<Longrightarrow> holds_run (?L ! i) (rs ! i)" and mk: "\<And>i. Suc i < ?k \<Longrightarrow> \<not> sg_last (?L ! i)"
    using sm' by (auto simp: sm_runs_def sg_marked_def)
  define gs' where "gs' = ?L[?k - 1 := (?L ! (?k - 1))\<lparr>sg_last := True\<rparr>]"
  have lt: "?k - 1 < length ?L" using k(1,2) by linarith
  have "sg_nents gs' = Some ?k"
    using k mk lt by (intro sg_nents_marked) (auto simp: gs'_def nth_update_if)
  moreover have "\<forall>i < ?k. holds_run (gs' ! i) (rs ! i)" using h k by (auto simp: gs'_def nth_update_if holds_run_def)
  moreover have "nvfs_blk_rq_map_sg_internal e q (Some r) (Some gs) s =
      Some (int ?k, Some (r\<lparr>nr_phys_segments := max ?k (nr_phys_segments r)\<rparr>), Some gs',
        s\<lparr>mgroups := (mgroups s)(p \<mapsto> fold dma_mark (map (\<lambda>bv. ?pn (bv_page bv)) (rq_bvecs r)) m)\<rparr>)"
    using assms(1) run k lt unfolding sm_empty_def
    by (simp add: nvfs_blk_rq_map_sg_internal_def gs'_def)
  ultimately show ?thesis
    using runs_spec [of "joins q m ?pn" "rq_bvecs r"] run_contiguous [of q m ?pn] assms(10) by (auto simp: joined_def)
qed

text \<open>
  C11. A block request becomes the scatter/gather list of its GPU memory. Let every page of the request be a page of
  the buffer in flight, and let the list have room for the segments. Then the hook returns their number
  and the list ends with the last of them. The segments are the vectors of the request, in order and without loss,
  cut into runs; entry \<open>i\<close> has the first page and offset of run \<open>i\<close> and the sum of its lengths. The pages of
  a run follow each other in the memory of the GPU, and no run can be joined with the next. The blocks of
  the pages are marked as handed out for DMA, and the references of the group are as before.
\<close>

theorem blk_rq_map_sg_correct:
  assumes "nvfs_blk_rq_check (Some r)" and "rq_bvecs r \<noteq> []" and "\<forall>bv \<in> set (rq_bvecs r). mappable e s p m bv"
    and "\<not> blk_integrity_rq r" and "nvfs_req_payload_supported r" and "\<not> dma_drain_needed r"
    and "0 < n0" and "127 \<le> length gs" and "sg_marked n0 0 gs"
    and "rs = runs (joins q m (rel_page e s)) (rq_bvecs r)" and "sg_fits q n0 (length rs)"
  shows "\<exists>gs'. nvfs_blk_rq_map_sg_internal e q (Some r) (Some gs) s =
      Some (int (length rs), Some (r\<lparr>nr_phys_segments := max (length rs) (nr_phys_segments r)\<rparr>), Some gs',
        s\<lparr>mgroups := (mgroups s)(p \<mapsto> fold dma_mark (map (\<lambda>bv. rel_page e s (bv_page bv)) (rq_bvecs r)) m)\<rparr>) \<and>
    sg_nents gs' = Some (length rs) \<and> (\<forall>i < length rs. holds_run (gs' ! i) (rs ! i)) \<and> concat rs = rq_bvecs r \<and>
    (\<forall>run \<in> set rs. run \<noteq> [] \<and> (\<forall>k < length run.
       gpu_addr m (rel_page e s (bv_page (run ! k))) = gpu_addr m (rel_page e s (bv_page (hd run))) + of_nat k * 4096)) \<and>
    cut_right (joins q m (rel_page e s)) rs"
  using assms by (rule blk_rq_map_outcome)

text \<open>A request of three pages, the first two of them neighbours, for a list with a single entry.\<close>

definition ex_blk :: blkenv where "ex_blk = \<lparr> be_nvme = True, queue_max_segment_size = 4096, before_4_18 = False \<rparr>"

definition ex_request :: request where
  "ex_request = \<lparr> rq_has_queue = True, rq_has_bio = True, rq_special_payload = False, rq_copy_user = False,
     req_op = REQ_OP_READ, rq_bvecs = map (\<lambda>pg. \<lparr> bv_page = pg, bv_len = 4096, bv_offset = 0 \<rparr>) [502, 503, 505],
     blk_integrity_rq = False, blk_rq_payload_bytes = 12288, dma_drain_needed = False, nr_phys_segments = 1 \<rparr>"

definition ex_sgl :: "scatterlist list" where "ex_sgl = sg_zero\<lparr>sg_last := True\<rparr> # replicate 126 sg_zero"

lemma ex_flight_page: "j < 16 \<Longrightarrow> rel_page ex_env ex_flight_state (500 + j) = j"
  using ex_page_in_flight [of j] by (simp add: page_in_flight_def page_of_group_def)

lemma ex_mappable:
  assumes "j < 16" and "bvec_ok bv" and "bv_page bv = 500 + j"
  shows "mappable ex_env ex_flight_state 100 ex_flight_group bv"
  using assms ex_page_in_flight [of j] ex_flight_page [of j]
  by (simp add: mappable_def has_phys_def ex_flight_group_def ex_ready_group_def ex_ready_gpu_def ex_page_table_def zero_nvfs_io_def)

lemma ex_runs: "runs (joins ex_blk ex_flight_group (rel_page ex_env ex_flight_state)) (rq_bvecs ex_request) =
    [map (\<lambda>pg. \<lparr> bv_page = pg, bv_len = 4096, bv_offset = 0 \<rparr>) [502, 503], [\<lparr> bv_page = 505, bv_len = 4096, bv_offset = 0 \<rparr>]]"
  using ex_flight_page [of 2] ex_flight_page [of 3] ex_flight_page [of 5]
  by (simp add: ex_request_def joins_def ex_blk_def gpu_addr_def ex_flight_group_def ex_ready_group_def ex_ready_gpu_def
      ex_page_table_def zero_nvfs_io_def)

lemma ex_request_ok:
  "nvfs_blk_rq_check (Some ex_request)" "rq_bvecs ex_request \<noteq> []"
  "\<forall>bv \<in> set (rq_bvecs ex_request). mappable ex_env ex_flight_state 100 ex_flight_group bv"
  "\<not> blk_integrity_rq ex_request" "nvfs_req_payload_supported ex_request" "\<not> dma_drain_needed ex_request"
  "sg_marked 1 0 ex_sgl" "127 \<le> length ex_sgl"
  using ex_mappable [of 2] ex_mappable [of 3] ex_mappable [of 5]
  by (simp_all add: ex_request_def bvec_ok_def nvfs_blk_rq_check_def nvfs_req_payload_supported_def sg_marked_def ex_sgl_def)

theorem blk_rq_map_sg_correct_witness:
  "\<exists>r' gs' s'. nvfs_blk_rq_map_sg_internal ex_env ex_blk (Some ex_request) (Some ex_sgl) ex_flight_state =
     Some (2, r', Some gs', s') \<and> sg_nents gs' = Some 2 \<and>
     holds_run (gs' ! 1) [\<lparr> bv_page = 505, bv_len = 4096, bv_offset = 0 \<rparr>]"
proof -
  let ?rs = "runs (joins ex_blk ex_flight_group (rel_page ex_env ex_flight_state)) (rq_bvecs ex_request)"
  have n: "length ?rs = 2" "?rs ! 1 = [\<lparr> bv_page = 505, bv_len = 4096, bv_offset = 0 \<rparr>]" by (simp_all add: ex_runs)
  note c = ex_request_ok
  have f: "sg_fits ex_blk 1 (length ?rs)" unfolding n by (simp add: sg_fits_def ex_blk_def)
  from blk_rq_map_sg_correct [OF c(1-6) zero_less_one c(8,7) refl f]
  obtain r' gs' s' where "nvfs_blk_rq_map_sg_internal ex_env ex_blk (Some ex_request) (Some ex_sgl) ex_flight_state =
      Some (int (length ?rs), r', Some gs', s')"
    "sg_nents gs' = Some (length ?rs)" and h: "\<forall>i < length ?rs. holds_run (gs' ! i) (?rs ! i)"
    by blast
  moreover have "holds_run (gs' ! 1) (?rs ! 1)" using h by (simp add: n(1) del: One_nat_def)
  ultimately show ?thesis unfolding n by (intro exI [of _ r'] exI [of _ gs'] exI [of _ s']) simp
qed

section \<open>DMA addresses and back\<close>

definition bus_addr :: "nvfs_io_mgroup \<Rightarrow> p2p_dma_mapping \<Rightarrow> nat \<Rightarrow> u64" where
  "bus_addr m dm j = dma_addresses dm ! (cur_gpu_base_index (nvfsio m) + j div 16) + of_nat ((j mod 16) * 4096)"

text \<open>An entry whose page is in flight and has a bus address.\<close>

definition dma_ready :: "kenv \<Rightarrow> kstate \<Rightarrow> mptr \<Rightarrow> nvfs_io_mgroup \<Rightarrow> p2p_dma_mapping \<Rightarrow> scatterlist \<Rightarrow> bool" where
  "dma_ready e s p m dm g \<longleftrightarrow> (\<exists>pg. sg_page g = Some pg \<and> page_in_flight e s p m (rel_page e s pg) pg \<and>
     cur_gpu_base_index (nvfsio m) + rel_page e s pg div 16 < dm_entries dm \<and>
     dma_addresses dm ! (cur_gpu_base_index (nvfsio m) + rel_page e s pg div 16) \<noteq> 0 \<and> bus_addr m dm (rel_page e s pg) \<noteq> 0)"

text \<open>The group with \<open>k\<close> entries handed out.\<close>

definition held :: "nat \<Rightarrow> nvfs_io_mgroup \<Rightarrow> nvfs_io_mgroup" where
  "held k m = m\<lparr>mg_ref := mg_ref m + int k, dma_ref := dma_ref m + int k\<rparr>"

lemma held_simps [simp]:
  "held 0 m = m" "held k (held l m) = held (l + k) m" "nvfsio (held k m) = nvfsio m" "gpu_info (held k m) = gpu_info m"
  "mg_ref (held k m) = mg_ref m + int k" "dma_ref (held k m) = dma_ref m + int k" "bus_addr (held k m) = bus_addr m"
  by (simp_all add: held_def bus_addr_def fun_eq_iff)

lemma page_in_flight_held:
  assumes "page_in_flight e s p m j pg"
  shows "page_in_flight e (s\<lparr>mgroups := (mgroups s)(p \<mapsto> held k m)\<rparr>) p (held k m) j pg"
proof -
  have live: "mgroups s p = Some m" "hash_wf s" "0 < mg_ref m"
    using assms by (auto simp: page_in_flight_def page_of_group_def hash_wf_def)
  then have "hash_wf (s\<lparr>mgroups := (mgroups s)(p \<mapsto> held k m)\<rparr>)" by (intro hash_wf_upd [of s p m]) (auto simp: held_def)
  then show ?thesis
    using assms by (auto simp: page_in_flight_def page_of_group_def page_base_index_def rel_page_def NVFS_PAGE_INDEX_def
        held_def mgroup_wf_def block_state_def)
qed

lemma dma_ready_held:
  "dma_ready e s p m dm g \<Longrightarrow> dma_ready e (s\<lparr>mgroups := (mgroups s)(p \<mapsto> held k m)\<rparr>) p (held k m) dm g"
  using page_in_flight_held by (auto simp: dma_ready_def)

definition sg_bus :: "kenv \<Rightarrow> kstate \<Rightarrow> nvfs_io_mgroup \<Rightarrow> p2p_dma_mapping \<Rightarrow> scatterlist \<Rightarrow> scatterlist" where
  "sg_bus e s m dm g = g\<lparr>sg_dma_address := bus_addr m dm (rel_page e s (the (sg_page g))) + of_nat (sg_offset g),
     sg_dma_len := sg_length g\<rparr>"

lemma sg_nth_before:
  "i < length gs \<Longrightarrow> \<forall>j < i. \<not> sg_last (gs ! j) \<Longrightarrow> sg_nth gs i = Some (Some (gs ! i))"
proof (induction gs i rule: sg_nth.induct)
  case (3 g gs i)
  then have "\<not> sg_last g" "\<forall>j < i. \<not> sg_last (gs ! j)" by (auto dest: spec [of _ 0] spec [of _ "Suc _"])
  then show ?case using 3 by simp
qed auto

lemma sg_dma_ready:
  assumes "dma_ready e s p m dm g" and "be_nvme q" and "mapped_for (gpu_info m) dev dm n"
    and "dm_entries dm = length (dma_addresses dm)" and "\<not> nvfs_peer_stats_enabled e"
  shows "sg_dma e q dev g s = Some (None, 0, bus_addr m dm (rel_page e s (the (sg_page g))), s\<lparr>mgroups := (mgroups s)(p \<mapsto> held 1 m)\<rparr>)"
proof -
  obtain pg where pg: "sg_page g = Some pg" "page_in_flight e s p m (rel_page e s pg) pg"
    "cur_gpu_base_index (nvfsio m) + rel_page e s pg div 16 < dm_entries dm"
    "dma_addresses dm ! (cur_gpu_base_index (nvfsio m) + rel_page e s pg div 16) \<noteq> 0"
    using assms(1) by (auto simp: dma_ready_def)
  have "dma_held m = held 1 m" by (simp add: dma_held_def held_def)
  then show ?thesis
    using get_dma_in_flight [OF pg(2) assms(5,3,4) refl pg(3,4) refl refl, of "- 1"] assms(2) pg(1)
    by (simp add: sg_dma_def bus_addr_def)
qed

lemma sg_bus_held [simp]: "sg_bus e (s\<lparr>mgroups := x\<rparr>) (held k m) dm = sg_bus e s m dm"
  by (simp add: sg_bus_def fun_eq_iff)

lemma sg_bus_fields [simp]: "sg_last (sg_bus e s m dm g) = sg_last g" "sg_page (sg_bus e s m dm g) = sg_page g"
  by (simp_all add: sg_bus_def)

lemma upd_between_Cons:
  "i < j \<Longrightarrow> i < length xs \<Longrightarrow> upd_between (Suc i) j f (xs[i := f (xs ! i)]) = upd_between i j f xs"
  by (rule nth_equalityI) (auto simp: nth_update_if not_less_eq_eq)

lemma mgroups_upd_twice:
  "s\<lparr>mgroups := (mgroups s)(p \<mapsto> x)\<rparr>\<lparr>mgroups := (mgroups (s\<lparr>mgroups := (mgroups s)(p \<mapsto> x)\<rparr>))(p \<mapsto> y)\<rparr> =
     s\<lparr>mgroups := (mgroups s)(p \<mapsto> y)\<rparr>"
  by simp

lemma dma_map_loop:
  assumes "\<forall>i. k \<le> i \<and> i < k + n \<longrightarrow> dma_ready e s p m dm (gs ! i)" and "k + n \<le> length gs"
    and "\<forall>i. Suc i < k + n \<longrightarrow> \<not> sg_last (gs ! i)" and "mgroups s p = Some m"
    and "be_nvme q" and "mapped_for (gpu_info m) dev dm l" and "dm_entries dm = length (dma_addresses dm)"
    and "\<not> nvfs_peer_stats_enabled e"
  shows "dma_map_entries e q dev c 0 [k ..< k + n] gs s =
    Some (None, c + n, upd_between k (k + n) (sg_bus e s m dm) gs, s\<lparr>mgroups := (mgroups s)(p \<mapsto> held n m)\<rparr>)"
  using assms(1-4,6)
proof (induction n arbitrary: k s m c gs)
  case 0
  then show ?case by (simp add: fun_upd_idem)
next
  case (Suc n)
  let ?s = "s\<lparr>mgroups := (mgroups s)(p \<mapsto> held 1 m)\<rparr>" and ?gs = "gs[k := sg_bus e s m dm (gs ! k)]"
  have entry: "sg_nth gs k = Some (Some (gs ! k))" using Suc.prems(2,3) by (intro sg_nth_before) auto
  have r: "dma_ready e s p m dm (gs ! k)" using Suc.prems(1) by simp
  then have "bus_addr m dm (rel_page e s (the (sg_page (gs ! k)))) \<noteq> 0" by (auto simp: dma_ready_def)
  moreover have up: "[k ..< k + Suc n] = k # [Suc k ..< Suc k + n]" by (simp add: upt_conv_Cons)
  ultimately have step: "dma_map_entries e q dev c 0 [k ..< k + Suc n] gs s =
      dma_map_entries e q dev (c + 1) 0 [Suc k ..< Suc k + n] ?gs ?s"
    using entry sg_dma_ready [OF r assms(5) Suc.prems(5) assms(7,8)] unfolding up by (simp add: sg_bus_def)
  have "dma_map_entries e q dev (c + 1) 0 [Suc k ..< Suc k + n] ?gs ?s =
      Some (None, c + 1 + n, upd_between (Suc k) (Suc k + n) (sg_bus e ?s (held 1 m) dm) ?gs,
        ?s\<lparr>mgroups := (mgroups ?s)(p \<mapsto> held n (held 1 m))\<rparr>)"
    using Suc.prems by (intro Suc.IH) (auto simp: dma_ready_held nth_update_if)
  then have "dma_map_entries e q dev c 0 [k ..< k + Suc n] gs s =
      Some (None, c + Suc n, upd_between (Suc k) (Suc k + n) (sg_bus e s m dm) ?gs, s\<lparr>mgroups := (mgroups s)(p \<mapsto> held (Suc n) m)\<rparr>)"
    unfolding step mgroups_upd_twice by simp
  moreover have "upd_between (Suc k) (Suc k + n) (sg_bus e s m dm) ?gs = upd_between k (k + Suc n) (sg_bus e s m dm) gs"
    using Suc.prems(2) upd_between_Cons [of k "k + Suc n" gs] by simp
  ultimately show ?case by (simp only:)
qed

lemma dma_ready_less:
  assumes "dma_ready e s p (held (Suc n) m) dm g" and "0 < mg_ref m"
  shows "dma_ready e (s\<lparr>mgroups := (mgroups s)(p \<mapsto> held n m)\<rparr>) p (held n m) dm g"
proof -
  obtain pg where pg: "sg_page g = Some pg" "page_in_flight e s p (held (Suc n) m) (rel_page e s pg) pg"
    using assms(1) by (auto simp: dma_ready_def)
  have "hash_wf (s\<lparr>mgroups := (mgroups s)(p \<mapsto> held n m)\<rparr>)"
    using pg(2) assms(2) by (intro hash_wf_upd [of s p "held (Suc n) m"]) (auto simp: page_in_flight_def page_of_group_def held_def)
  then have "page_in_flight e (s\<lparr>mgroups := (mgroups s)(p \<mapsto> held n m)\<rparr>) p (held n m) (rel_page e s pg) pg"
    using pg(2) by (auto simp: page_in_flight_def page_of_group_def page_base_index_def NVFS_PAGE_INDEX_def
        held_def mgroup_wf_def block_state_def)
  then show ?thesis using assms(1) pg by (auto simp: dma_ready_def)
qed

lemma ref_commute: "m\<lparr>dma_ref := b, mg_ref := a\<rparr> = m\<lparr>mg_ref := a, dma_ref := b\<rparr>"
  by simp

text \<open>Giving back one entry: its page is found, and both references of the entry are dropped.\<close>

lemma check_gpu_page_held:
  assumes "page_in_flight e s p (held (Suc k) m) j pg" and "0 \<le> dma_ref m" and "0 < mg_ref m"
  shows "nvfs_check_gpu_page_and_error e (Some pg) s = Some (1, s\<lparr>mgroups := (mgroups s)(p \<mapsto> held k m)\<rparr>)"
proof -
  let ?m = "held (Suc k) m"
  let ?s1 = "s\<lparr>mgroups := (mgroups s)(p \<mapsto> ?m\<lparr>mg_ref := mg_ref ?m + 1\<rparr>)\<rparr>"
  have ps: "page_shift e = 12" "nvfs_block_count_per_page (page_shift e) = 1"
    using assms(1) by (simp_all add: page_in_flight_def nvfs_geom)
  have pg: "page_of_group e s p ?m j pg" and wf: "hash_wf s" using assms(1) by (simp_all add: page_in_flight_def)
  obtain md where md: "nvfs_metadata ?m = Some md" "j < length md" "nvfs_start_magic (md ! j) = NVFS_START_MAGIC"
    "md_page (md ! j) = Some pg" "nvfs_state (md ! j) \<noteq> NVFS_IO_DMA_ERROR"
    using pg ps(2) assms(1) by (auto simp: page_of_group_def mgroup_wf_def page_in_flight_def block_state_def)
  have rp: "rel_page e s pg = j" using pg by (simp add: page_of_group_def)
  have "from_page_checks e ?s1 pg True (?m\<lparr>mg_ref := mg_ref ?m + 1\<rparr>) = Some (Ptr ())"
    using md assms(1) ps(2) by (simp add: from_page_checks_def rp page_in_flight_def Let_def)
  moreover have "nvfs_mgroup_get (page_base_index e s pg) s = Some (Some p, ?s1)"
    using mgroup_get_hit [OF wf, of p ?m "page_base_index e s pg"] pg
    by (simp add: nvfs_mgroup_get_def page_of_group_def)
  ultimately have raw: "nvfs_mgroup_from_page_raw e (Some pg) True s = Some (Ptr p, ?s1)"
    using pg by (simp add: nvfs_mgroup_from_page_raw_def page_of_group_def)
  have put: "nvfs_mgroup_put_dma e p (s\<lparr>mgroups := (mgroups s)(p \<mapsto> x)\<rparr>) =
      Some (s\<lparr>mgroups := (mgroups s)(p \<mapsto> x\<lparr>mg_ref := mg_ref x - 1\<rparr>)\<rparr>)" if "mg_ref x \<noteq> 1" for x
    using put_shared_effect [of "s\<lparr>mgroups := (mgroups s)(p \<mapsto> x)\<rparr>" p x e True] that by (simp add: nvfs_mgroup_put_dma_def)
  show ?thesis
    using assms(2,3) by (simp add: nvfs_check_gpu_page_and_error_def raw upd_mgroup_def put held_def ref_commute)
qed

lemma unmap_loop:
  assumes "\<forall>i. k \<le> i \<and> i < k + n \<longrightarrow> dma_ready e s p (held n m) dm (gs ! i)" and "k + n \<le> length gs"
    and "\<forall>i. Suc i < k + n \<longrightarrow> \<not> sg_last (gs ! i)" and "mgroups s p = Some (held n m)" and "0 \<le> dma_ref m" and "0 < mg_ref m"
  shows "unmap_entries e gs c 0 [k ..< k + n] s = Some (int (c + n), s\<lparr>mgroups := (mgroups s)(p \<mapsto> m)\<rparr>)"
  using assms
proof (induction n arbitrary: k s c)
  case 0
  then show ?case by (simp add: fun_upd_idem)
next
  case (Suc n)
  let ?s = "s\<lparr>mgroups := (mgroups s)(p \<mapsto> held n m)\<rparr>"
  have entry: "sg_nth gs k = Some (Some (gs ! k))" using Suc.prems(2,3) by (intro sg_nth_before) auto
  obtain pg where pg: "sg_page (gs ! k) = Some pg" "page_in_flight e s p (held (Suc n) m) (rel_page e s pg) pg"
    using Suc.prems(1) by (auto simp: dma_ready_def)
  have up: "[k ..< k + Suc n] = k # [Suc k ..< Suc k + n]" by (simp add: upt_conv_Cons)
  have step: "unmap_entries e gs c 0 [k ..< k + Suc n] s = unmap_entries e gs (c + 1) 0 [Suc k ..< Suc k + n] ?s"
    using entry pg(1) check_gpu_page_held [OF pg(2) Suc.prems(5,6)] unfolding up by simp
  have "dma_ready e ?s p (held n m) dm (gs ! i)" if "k \<le> i \<and> i < k + Suc n" for i
    using Suc.prems(1,4,6) that dma_ready_less by blast
  then have "unmap_entries e gs (c + 1) 0 [Suc k ..< Suc k + n] ?s = Some (int (c + 1 + n), ?s\<lparr>mgroups := (mgroups ?s)(p \<mapsto> m)\<rparr>)"
    using Suc.prems(2,3,5,6) by (intro Suc.IH) auto
  then show ?case unfolding step mgroups_upd_twice by (simp del: fun_upd_apply)
qed

section \<open>The three hooks in sequence\<close>

lemma fold_marks [simp]:
  "nvfsio (fold dma_mark js m) = nvfsio m" "gpu_info (fold dma_mark js m) = gpu_info m" "mg_ref (fold dma_mark js m) = mg_ref m"
  "dma_ref (fold dma_mark js m) = dma_ref m"
  by (induction js arbitrary: m) (simp_all add: dma_mark_def)

lemma page_in_flight_marks:
  assumes "page_in_flight e s p m j pg"
  shows "page_in_flight e (s\<lparr>mgroups := (mgroups s)(p \<mapsto> fold dma_mark js m)\<rparr>) p (fold dma_mark js m) j pg"
  using assms
proof (induction js arbitrary: s m)
  case Nil
  then have "mgroups s p = Some m" by (simp add: page_in_flight_def page_of_group_def)
  then show ?case using Nil by (simp add: fun_upd_idem)
next
  case (Cons k js)
  from Cons.IH [OF page_in_flight_mark [OF Cons.prems, of k]] show ?case
    unfolding mgroups_upd_twice by (simp del: fun_upd_apply)
qed

text \<open>The vector's page has a bus address in the mapping \<open>dm\<close>.\<close>

definition has_bus :: "nvfs_io_mgroup \<Rightarrow> p2p_dma_mapping \<Rightarrow> nat \<Rightarrow> bool" where
  "has_bus m dm j \<longleftrightarrow> cur_gpu_base_index (nvfsio m) + j div 16 < dm_entries dm \<and>
     dma_addresses dm ! (cur_gpu_base_index (nvfsio m) + j div 16) \<noteq> 0 \<and> bus_addr m dm j \<noteq> 0"

lemma dma_map_unmap:
  assumes "\<forall>i < n. dma_ready e s p m dm (gs ! i)" and "0 < n" and "n \<le> length gs" and "\<forall>i. Suc i < n \<longrightarrow> \<not> sg_last (gs ! i)"
    and "mgroups s p = Some m" and "be_nvme q" and "mapped_for (gpu_info m) dev dm l"
    and "dm_entries dm = length (dma_addresses dm)" and "\<not> nvfs_peer_stats_enabled e" and "0 \<le> dma_ref m" and "0 < mg_ref m"
    and "s1 = s\<lparr>mgroups := (mgroups s)(p \<mapsto> held n m)\<rparr>" and "gs1 = upd_between 0 n (sg_bus e s m dm) gs"
  shows "nvfs_dma_map_sg_attrs_internal e q dev gs n s = Some (int n, gs1, s1) \<and> nvfs_dma_unmap_sg e (Some gs1) (int n) s1 = Some (int n, s)"
proof -
  have "dma_map_entries e q dev 0 0 [0 ..< 0 + n] gs s = Some (None, 0 + n, upd_between 0 (0 + n) (sg_bus e s m dm) gs,
      s\<lparr>mgroups := (mgroups s)(p \<mapsto> held n m)\<rparr>)"
    using assms(1,3-9) by (intro dma_map_loop) auto
  then have map: "nvfs_dma_map_sg_attrs_internal e q dev gs n s = Some (int n, gs1, s1)"
    using assms(2,12,13) by (simp add: nvfs_dma_map_sg_attrs_internal_def)
  have "dma_ready e s1 p (held n m) dm (gs1 ! i)" if "i < n" for i
    using dma_ready_held [of e s p m dm "gs ! i" n] assms(1,3) that unfolding assms(12,13) by (simp add: dma_ready_def)
  then have "unmap_entries e gs1 0 0 [0 ..< 0 + n] s1 = Some (int (0 + n), s1\<lparr>mgroups := (mgroups s1)(p \<mapsto> m)\<rparr>)"
    using assms(3,4,10-13) by (intro unmap_loop) auto
  then show ?thesis
    using map assms(5,12) by (simp add: nvfs_dma_unmap_sg_def fun_upd_idem)
qed

lemma fold_marks_metadata:
  "fold dma_mark js m = m\<lparr>nvfs_metadata := map_option (\<lambda>md. map (\<lambda>i. if i \<in> set js then set_blk NVFS_IO_DMA_START (md ! i)
     else md ! i) [0 ..< length md]) (nvfs_metadata m)\<rparr>"
proof (induction js rule: rev_induct)
  case Nil
  then show ?case by (simp add: map_nth option.map_ident)
next
  case (snoc j js)
  have "(map (\<lambda>i. if i \<in> set js then set_blk NVFS_IO_DMA_START (md ! i) else md ! i) [0 ..< length md])
      [j := set_blk NVFS_IO_DMA_START ((map (\<lambda>i. if i \<in> set js then set_blk NVFS_IO_DMA_START (md ! i) else md ! i) [0 ..< length md]) ! j)] =
    map (\<lambda>i. if i \<in> set (js @ [j]) then set_blk NVFS_IO_DMA_START (md ! i) else md ! i) [0 ..< length md]" for md
    by (rule nth_equalityI) (auto simp: nth_update_if)
  moreover have app: "fold dma_mark (js @ [j]) m = dma_mark j (fold dma_mark js m)" by simp
  ultimately show ?case unfolding app snoc by (simp add: dma_mark_def option.map_comp o_def)
qed

lemma fold_marks_all:
  assumes "set js = {nvfs_active_blocks_start (nvfsio m) .. nvfs_active_blocks_end (nvfsio m)}"
  shows "fold dma_mark js m = dma_started m"
proof -
  have "(\<lambda>md. map (\<lambda>i. if i \<in> set js then set_blk NVFS_IO_DMA_START (md ! i) else md ! i) [0 ..< length md]) =
      upd_between (nvfs_active_blocks_start (nvfsio m)) (nvfs_active_blocks_end (nvfsio m) + 1) (set_blk NVFS_IO_DMA_START)"
    unfolding assms upd_between_def by (auto simp: fun_eq_iff)
  then show ?thesis unfolding fold_marks_metadata dma_started_def by simp
qed

lemma nvme_hooks_outcome:
  assumes "nvfs_blk_rq_check (Some r)" and "rq_bvecs r \<noteq> []" and "\<forall>bv \<in> set (rq_bvecs r). mappable e s p m bv"
    and "\<not> blk_integrity_rq r" and "nvfs_req_payload_supported r" and "\<not> dma_drain_needed r"
    and "0 < n0" and "127 \<le> length gs" and "sg_marked n0 0 gs"
    and "rs = runs (joins q m (rel_page e s)) (rq_bvecs r)" and "sg_fits q n0 (length rs)"
    and "be_nvme q" and "mapped_for (gpu_info m) dev dm l" and "dm_entries dm = length (dma_addresses dm)"
    and "\<forall>bv \<in> set (rq_bvecs r). has_bus m dm (rel_page e s (bv_page bv))" and "\<not> nvfs_peer_stats_enabled e" and "0 \<le> dma_ref m"
    and "m1 = fold dma_mark (map (\<lambda>bv. rel_page e s (bv_page bv)) (rq_bvecs r)) m" and "s1 = s\<lparr>mgroups := (mgroups s)(p \<mapsto> m1)\<rparr>"
    and "s2 = s\<lparr>mgroups := (mgroups s)(p \<mapsto> held (length rs) m1)\<rparr>"
  shows "\<exists>r' gs1 gs2. nvfs_blk_rq_map_sg_internal e q (Some r) (Some gs) s = Some (int (length rs), r', Some gs1, s1) \<and>
    nvfs_dma_map_sg_attrs_internal e q dev gs1 (length rs) s1 = Some (int (length rs), gs2, s2) \<and> length rs \<le> length gs2 \<and>
    (\<forall>i < length rs. sg_dma_address (gs2 ! i) = bus_addr m dm (rel_page e s (bv_page (hd (rs ! i)))) + of_nat (bv_offset (hd (rs ! i))) \<and>
       sg_dma_len (gs2 ! i) = sum_list (map bv_len (rs ! i))) \<and>
    nvfs_dma_unmap_sg e (Some gs2) (int (length rs)) s2 = Some (int (length rs), s1)"
proof -
  let ?pn = "rel_page e s" and ?n = "length rs"
  note m1_def = assms(18) and s1_def = assms(19)
  obtain gs1 where call: "nvfs_blk_rq_map_sg_internal e q (Some r) (Some gs) s =
      Some (int ?n, Some (r\<lparr>nr_phys_segments := max ?n (nr_phys_segments r)\<rparr>), Some gs1, s1)"
    and nents: "sg_nents gs1 = Some ?n" and h: "\<forall>i < ?n. holds_run (gs1 ! i) (rs ! i)"
    and rs: "concat rs = rq_bvecs r" "\<forall>run \<in> set rs. run \<noteq> []"
    using blk_rq_map_outcome [OF assms(1-11)] unfolding s1_def m1_def by blast
  have n: "0 < ?n" using rs(1) assms(2) by auto
  have ready: "dma_ready e s1 p m1 dm (gs1 ! i)" and hd_in: "hd (rs ! i) \<in> set (rq_bvecs r)" if "i < ?n" for i
  proof -
    have "rs ! i \<in> set rs" using that by simp
    then show bv: "hd (rs ! i) \<in> set (rq_bvecs r)" using rs by (auto simp flip: rs(1) intro!: bexI [of _ "rs ! i"])
    then have "page_in_flight e s1 p m1 (?pn (bv_page (hd (rs ! i)))) (bv_page (hd (rs ! i)))"
      using assms(3) unfolding s1_def m1_def by (intro page_in_flight_marks) (auto simp: mappable_def)
    then show "dma_ready e s1 p m1 dm (gs1 ! i)"
      using h that assms(15) bv by (auto simp: dma_ready_def holds_run_def has_bus_def bus_addr_def s1_def m1_def)
  qed
  have ref: "0 < mg_ref m" using assms(2,3) by (cases "rq_bvecs r") (auto simp: mappable_def page_in_flight_def page_of_group_def hash_wf_def)
  define gs2 where "gs2 = upd_between 0 ?n (sg_bus e s1 m1 dm) gs1"
  have dma: "nvfs_dma_map_sg_attrs_internal e q dev gs1 ?n s1 = Some (int ?n, gs2, s1\<lparr>mgroups := (mgroups s1)(p \<mapsto> held ?n m1)\<rparr>)"
    "nvfs_dma_unmap_sg e (Some gs2) (int ?n) (s1\<lparr>mgroups := (mgroups s1)(p \<mapsto> held ?n m1)\<rparr>) = Some (int ?n, s1)"
    using dma_map_unmap [OF _ n _ _ _ assms(12) _ assms(14,16) _ _ refl gs2_def, of p] ready sg_nents_bound [OF nents] ref assms(13,17)
    by (auto simp: s1_def m1_def)
  have "sg_dma_address (gs2 ! i) = bus_addr m dm (?pn (bv_page (hd (rs ! i)))) + of_nat (bv_offset (hd (rs ! i))) \<and>
      sg_dma_len (gs2 ! i) = sum_list (map bv_len (rs ! i))" if "i < ?n" for i
    using h that sg_nents_bound(1) [OF nents] by (auto simp: gs2_def sg_bus_def holds_run_def bus_addr_def s1_def m1_def)
  moreover have "?n \<le> length gs2" using sg_nents_bound(1) [OF nents] by (simp add: gs2_def)
  moreover have "s1\<lparr>mgroups := (mgroups s1)(p \<mapsto> held ?n m1)\<rparr> = s2" unfolding assms(19,20) mgroups_upd_twice ..
  ultimately show ?thesis using call dma by (intro exI [of _ gs1] exI [of _ gs2] exI conjI) auto
qed

text \<open>
  C10. The hooks of the NVMe driver, from a block request to the end of its transfer. For a request of pages in
  flight the list is built, every entry is given the bus address of the GPU memory behind its first page, with the
  offset and the length of its run, and the group holds one reference and one DMA reference for each entry. After the
  transfer the entries are recognised as GPU memory and all these references are given back. What remains
  are the marks on the blocks; if the request covers the active range they are just those that the
  completion of the transfer expects.
\<close>

theorem nvme_request_hooks:
  assumes "nvfs_blk_rq_check (Some r)" and "rq_bvecs r \<noteq> []" and "\<forall>bv \<in> set (rq_bvecs r). mappable e s p m bv"
    and "\<not> blk_integrity_rq r" and "nvfs_req_payload_supported r" and "\<not> dma_drain_needed r"
    and "0 < n0" and "127 \<le> length gs" and "sg_marked n0 0 gs"
    and "rs = runs (joins q m (rel_page e s)) (rq_bvecs r)" and "sg_fits q n0 (length rs)"
    and "be_nvme q" and "mapped_for (gpu_info m) dev dm l" and "dm_entries dm = length (dma_addresses dm)"
    and "\<forall>bv \<in> set (rq_bvecs r). has_bus m dm (rel_page e s (bv_page bv))" and "\<not> nvfs_peer_stats_enabled e" and "0 \<le> dma_ref m"
  shows "\<exists>r' gs1 gs2 s1 s2. nvfs_blk_rq_map_sg_internal e q (Some r) (Some gs) s = Some (int (length rs), r', Some gs1, s1) \<and>
    nvfs_dma_map_sg_attrs_internal e q dev gs1 (length rs) s1 = Some (int (length rs), gs2, s2) \<and>
    (\<forall>i < length rs. let bv = hd (rs ! i) in
       sg_dma_address (gs2 ! i) = bus_addr m dm (rel_page e s (bv_page bv)) + of_nat (bv_offset bv) \<and>
       sg_dma_len (gs2 ! i) = sum_list (map bv_len (rs ! i))) \<and>
    (\<exists>m1. mgroups s1 p = Some m1 \<and> mgroups s2 p = Some (m1\<lparr>mg_ref := mg_ref m + int (length rs), dma_ref := dma_ref m + int (length rs)\<rparr>)) \<and>
    nvfs_dma_unmap_sg e (Some gs2) (int (length rs)) s2 = Some (int (length rs), s1) \<and>
    (rel_page e s ` bv_page ` set (rq_bvecs r) = {nvfs_active_blocks_start (nvfsio m) .. nvfs_active_blocks_end (nvfsio m)} \<longrightarrow>
       s1 = s\<lparr>mgroups := (mgroups s)(p \<mapsto> dma_started m)\<rparr>)"
proof -
  define m1 where "m1 = fold dma_mark (map (\<lambda>bv. rel_page e s (bv_page bv)) (rq_bvecs r)) m"
  define s1 where "s1 = s\<lparr>mgroups := (mgroups s)(p \<mapsto> m1)\<rparr>"
  define s2 where "s2 = s\<lparr>mgroups := (mgroups s)(p \<mapsto> held (length rs) m1)\<rparr>"
  have all: "s1 = s\<lparr>mgroups := (mgroups s)(p \<mapsto> dma_started m)\<rparr>"
    if "rel_page e s ` bv_page ` set (rq_bvecs r) = {nvfs_active_blocks_start (nvfsio m) .. nvfs_active_blocks_end (nvfsio m)}"
    using that unfolding s1_def m1_def by (subst fold_marks_all) (auto simp: image_image)
  have refs: "mgroups s1 p = Some m1"
    "mgroups s2 p = Some (m1\<lparr>mg_ref := mg_ref m + int (length rs), dma_ref := dma_ref m + int (length rs)\<rparr>)"
    by (simp_all add: held_def m1_def s1_def s2_def)
  from nvme_hooks_outcome [OF assms m1_def s1_def s2_def] show ?thesis
    unfolding Let_def by (elim exE conjE, intro exI conjI) (assumption | rule refs | rule impI, erule all)+
qed

theorem nvme_request_hooks_witness:
  "\<exists>r' gs1 gs2 s1 s2. nvfs_blk_rq_map_sg_internal ex_env ex_blk (Some ex_request) (Some ex_sgl) ex_flight_state =
      Some (2, r', Some gs1, s1) \<and>
    nvfs_dma_map_sg_attrs_internal ex_env ex_blk ex_dev gs1 2 s1 = Some (2, gs2, s2) \<and>
    sg_dma_address (gs2 ! 0) = 0x202000 \<and> sg_dma_len (gs2 ! 0) = 8192 \<and>
    nvfs_dma_unmap_sg ex_env (Some gs2) 2 s2 = Some (2, s1)"
proof -
  let ?rs = "runs (joins ex_blk ex_flight_group (rel_page ex_env ex_flight_state)) (rq_bvecs ex_request)"
  have n: "length ?rs = 2" "?rs ! 0 = map (\<lambda>pg. \<lparr> bv_page = pg, bv_len = 4096, bv_offset = 0 \<rparr>) [502, 503]"
    by (simp_all add: ex_runs)
  have j: "rel_page ex_env ex_flight_state 502 = 2" "rel_page ex_env ex_flight_state 503 = 3" "rel_page ex_env ex_flight_state 505 = 5"
    using ex_flight_page [of 2] ex_flight_page [of 3] ex_flight_page [of 5] by simp_all
  have bus: "\<forall>bv \<in> set (rq_bvecs ex_request). has_bus ex_flight_group ex_mapping (rel_page ex_env ex_flight_state (bv_page bv))"
    "bus_addr ex_flight_group ex_mapping 2 = 0x202000"
    by (simp_all add: ex_request_def j has_bus_def bus_addr_def ex_mapping_def ex_flight_group_def zero_nvfs_io_def)
  have d: "dm_entries ex_mapping = length (dma_addresses ex_mapping)" "\<not> nvfs_peer_stats_enabled ex_env" "0 \<le> dma_ref ex_flight_group"
    "be_nvme ex_blk"
    by (simp_all add: ex_mapping_def ex_env_def ex_flight_group_def ex_ready_group_def ex_group_def ex_blk_def zero_mgroup_def)
  note c = ex_request_ok
  have f: "sg_fits ex_blk 1 (length ?rs)" unfolding n by (simp add: sg_fits_def ex_blk_def)
  from nvme_request_hooks [OF c(1-6) zero_less_one c(8,7) refl f d(4) ex_mapped_for d(1) bus(1) d(2,3)]
  obtain r' gs1 gs2 s1 s2 where *: "nvfs_blk_rq_map_sg_internal ex_env ex_blk (Some ex_request) (Some ex_sgl) ex_flight_state =
      Some (int (length ?rs), r', Some gs1, s1)"
    "nvfs_dma_map_sg_attrs_internal ex_env ex_blk ex_dev gs1 (length ?rs) s1 = Some (int (length ?rs), gs2, s2)"
    "\<forall>i < length ?rs. let bv = hd (?rs ! i) in
       sg_dma_address (gs2 ! i) = bus_addr ex_flight_group ex_mapping (rel_page ex_env ex_flight_state (bv_page bv)) + of_nat (bv_offset bv) \<and>
       sg_dma_len (gs2 ! i) = sum_list (map bv_len (?rs ! i))"
    "nvfs_dma_unmap_sg ex_env (Some gs2) (int (length ?rs)) s2 = Some (int (length ?rs), s1)"
    by (elim exE conjE)
  have "sg_dma_address (gs2 ! 0) = 0x202000 \<and> sg_dma_len (gs2 ! 0) = 8192"
    using *(3) n j bus(2) by (auto simp: Let_def dest: spec [of _ 0])
  then show ?thesis
    using *(1,2,4) unfolding n by (intro exI [of _ r'] exI [of _ gs1] exI [of _ gs2] exI [of _ s1] exI [of _ s2]) simp
qed

section \<open>Requests with CPU pages\<close>

text \<open>A page of host memory: it has an address space, or an index below those of the shadow buffers.\<close>

definition cpu_page :: "kenv \<Rightarrow> kstate \<Rightarrow> bio_vec \<Rightarrow> bool" where
  "cpu_page e s bv \<longleftrightarrow> page_mapping (kpages s (bv_page bv)) \<or> page_base_index e s (bv_page bv) < NVFS_MIN_BASE_INDEX"

lemma from_cpu_page: "cpu_page e s bv \<Longrightarrow> nvfs_mgroup_from_page e (Some (bv_page bv)) s = Some (NullPtr, s)"
  by (auto simp: cpu_page_def nvfs_mgroup_from_page_def nvfs_mgroup_from_page_raw_def)

lemma cpu_page_mgroups [simp]: "cpu_page e (s\<lparr>mgroups := x\<rparr>) bv = cpu_page e s bv"
  by (simp add: cpu_page_def page_base_index_def NVFS_PAGE_INDEX_def)

lemma map_bvecs_append:
  "map_bvecs e q r (xs @ ys) sm s =
     do { (ret, sm1, s1) \<leftarrow> map_bvecs e q r xs sm s;
          case ret of Some _ \<Rightarrow> Some (ret, sm1, s1) | None \<Rightarrow> map_bvecs e q r ys sm1 s1 }"
  by (induction xs arbitrary: sm s) (auto simp: split_beta split: Option.bind_splits option.splits)

lemma request_bvecs:
  "nvfs_req_payload_supported (r\<lparr>rq_bvecs := x\<rparr>) = nvfs_req_payload_supported r"
  "blk_integrity_rq (r\<lparr>rq_bvecs := x\<rparr>) = blk_integrity_rq r" "dma_drain_needed (r\<lparr>rq_bvecs := x\<rparr>) = dma_drain_needed r"
  by (simp_all add: nvfs_req_payload_supported_def)

lemma map_bvec_request: "map_bvec e q (r\<lparr>rq_bvecs := x\<rparr>) bv sm s = map_bvec e q r bv sm s"
  unfolding map_bvec_def request_bvecs by (rule refl)

lemma map_bvecs_request: "map_bvecs e q (r\<lparr>rq_bvecs := x\<rparr>) bvs sm s = map_bvecs e q r bvs sm s"
  by (induction bvs arbitrary: sm s) (simp_all add: map_bvec_request cong: option.case_cong)

lemma map_cpu_bvecs:
  assumes "\<forall>bv \<in> set bvs. cpu_page e s bv" and "\<not> found_gpu_page sm" and "found_cpu_page sm \<or> bvs \<noteq> []"
  shows "map_bvecs e q r bvs sm s = Some (None, sm\<lparr>found_cpu_page := True\<rparr>, s)"
  using assms
proof (induction bvs arbitrary: sm)
  case (Cons bv bvs)
  have "map_bvec e q r bv sm s = Some (None, sm\<lparr>found_cpu_page := True\<rparr>, s)"
    using Cons.prems by (simp add: map_bvec_def from_cpu_page nvfs_is_request_valid_def Let_def)
  then show ?case using Cons by simp
qed simp

lemma sg_nents_of_marked: "sg_marked n0 k gs \<Longrightarrow> 0 < max n0 k \<Longrightarrow> sg_nents gs = Some (max n0 k)"
  by (rule sg_nents_marked) (auto simp: sg_marked_def)

text \<open>The two ways into the mixed branch: a CPU page after GPU pages, and a GPU page after CPU pages.\<close>

lemma cpu_after_gpu:
  assumes "cpu_page e s bv" and "sm_runs n0 m pn rs sm"
  shows "\<exists>sm'. map_bvec e q r bv sm s = Some (Some NVFS_IO_ERR, sm', kstat (nvfs_stat nvfs_n_err_mix_cpu_gpu) s)"
proof -
  have "found_gpu_page sm" "sg_nents (iod_sglist sm) = Some (max n0 (length rs))"
    using assms(2) by (auto simp: sm_runs_def less_max_iff_disj intro!: sg_nents_of_marked)
  then show ?thesis
    using assms(1) by (simp add: map_bvec_def from_cpu_page nvfs_is_request_valid_def nvfs_clear_sglist_page_def Let_def)
qed

lemma gpu_after_cpu:
  assumes "mappable e s p m bv" and "found_cpu_page sm" and "sg_nents (iod_sglist sm) = Some k"
  shows "\<exists>sm'. map_bvec e q r bv sm s = Some (Some NVFS_IO_ERR, sm', kstat (nvfs_stat nvfs_n_err_mix_cpu_gpu)
    (s\<lparr>mgroups := (mgroups s)(p \<mapsto> dma_mark (rel_page e s (bv_page bv)) m)\<rparr>))"
proof -
  let ?j = "rel_page e s (bv_page bv)"
  have pf: "page_in_flight e s p m ?j (bv_page bv)" and ok: "0 < bv_len bv" "bv_offset bv + bv_len bv \<le> 4096"
    using assms(1) by (simp_all add: mappable_def bvec_ok_def)
  have live: "mgroups s p = Some m" "0 < mg_ref m" using pf by (auto simp: page_in_flight_def page_of_group_def hash_wf_def)
  let ?m1 = "dma_mark ?j (m\<lparr>mg_ref := mg_ref m + 1\<rparr>)"
  let ?mix = "kstat (nvfs_stat nvfs_n_err_mix_cpu_gpu)"
  have comm: "(?mix s)\<lparr>mgroups := x\<rparr> = ?mix (s\<lparr>mgroups := x\<rparr>)" "mgroups (?mix s) = mgroups s" for x by (simp_all add: kstat_def)
  have "nvfs_mgroup_put e p (?mix (s\<lparr>mgroups := (mgroups s)(p \<mapsto> ?m1)\<rparr>)) =
      Some (?mix (s\<lparr>mgroups := (mgroups s)(p \<mapsto> dma_mark ?j m)\<rparr>))"
    using put_visited [of "?mix s" p m ?m1 e] live unfolding comm by simp
  then show ?thesis
    using assms(2,3) from_page_in_flight [OF pf] set_dma_in_flight [OF pf ok, of "mg_ref m + 1"]
    by (simp add: map_bvec_def nvfs_is_request_valid_def nvfs_clear_sglist_page_def Let_def)
qed

text \<open>
  C26. Only requests of one kind are served. A request of host pages only is left to the kernel: the hook returns 0 and
  changes nothing. A request that has host pages and pages of a buffer in flight, in either order, is
  refused with \<^verbatim>\<open>NVFS_IO_ERR\<close> at the first page of the other kind, and counted; the group keeps the marks on
  the blocks seen so far, but no reference.
\<close>

theorem mixed_requests_refused:
  assumes "nvfs_blk_rq_check (Some r)" and "0 < n0" and "127 \<le> length gs" and "sg_marked n0 0 gs"
    and "\<not> blk_integrity_rq r" and "nvfs_req_payload_supported r" and "\<not> dma_drain_needed r"
    and "mix = kstat (nvfs_stat nvfs_n_err_mix_cpu_gpu)"
  shows "((\<forall>bv \<in> set (rq_bvecs r). cpu_page e s bv) \<longrightarrow>
      nvfs_blk_rq_map_sg_internal e q (Some r) (Some gs) s = Some (0, Some r, Some gs, s)) \<and>
    (rq_bvecs r = xs @ bv # ys \<and> xs \<noteq> [] \<longrightarrow>
      ((\<forall>x \<in> set xs. mappable e s p m x) \<and> cpu_page e s bv \<and> sg_fits q n0 (length (runs (joins q m (rel_page e s)) xs)) \<longrightarrow>
        (\<exists>gs'. nvfs_blk_rq_map_sg_internal e q (Some r) (Some gs) s = Some (NVFS_IO_ERR, Some r, Some gs',
          mix (s\<lparr>mgroups := (mgroups s)(p \<mapsto> fold dma_mark (map (\<lambda>x. rel_page e s (bv_page x)) xs) m)\<rparr>)))) \<and>
      ((\<forall>x \<in> set xs. cpu_page e s x) \<and> mappable e s p m bv \<longrightarrow>
        (\<exists>gs'. nvfs_blk_rq_map_sg_internal e q (Some r) (Some gs) s = Some (NVFS_IO_ERR, Some r, Some gs',
          mix (s\<lparr>mgroups := (mgroups s)(p \<mapsto> dma_mark (rel_page e s (bv_page bv)) m)\<rparr>)))))"
proof -
  have none: "map_bvecs e q r bvs (sm_empty gs) s = Some (None, (sm_empty gs)\<lparr>found_cpu_page := bvs \<noteq> []\<rparr>, s)"
    if "\<forall>bv \<in> set bvs. cpu_page e s bv" for bvs
    using map_cpu_bvecs [of bvs e s "sm_empty gs" q r] that by (cases bvs) (simp_all add: sm_empty_def)
  have out: "\<exists>gs'. nvfs_blk_rq_map_sg_internal e q (Some r) (Some gs) s = Some (NVFS_IO_ERR, Some r, Some gs', s')"
    if "rq_bvecs r = xs @ bv # ys" "map_bvecs e q r xs (sm_empty gs) s = Some (None, sm, s1)"
      "map_bvec e q r bv sm s1 = Some (Some NVFS_IO_ERR, sm', s')" for sm s1 sm' s'
    using assms(1) that by (simp add: nvfs_blk_rq_map_sg_internal_def map_bvecs_append sm_empty_def)
  have "nvfs_blk_rq_map_sg_internal e q (Some r) (Some gs) s = Some (0, Some r, Some gs, s)"
    if "\<forall>bv \<in> set (rq_bvecs r). cpu_page e s bv"
    using none [OF that] assms(1) by (simp add: nvfs_blk_rq_map_sg_internal_def sm_empty_def)
  moreover have "\<exists>gs'. nvfs_blk_rq_map_sg_internal e q (Some r) (Some gs) s = Some (NVFS_IO_ERR, Some r, Some gs',
      mix (s\<lparr>mgroups := (mgroups s)(p \<mapsto> fold dma_mark (map (\<lambda>x. rel_page e s (bv_page x)) xs) m)\<rparr>))"
    if l: "rq_bvecs r = xs @ bv # ys" "xs \<noteq> []" "\<forall>x \<in> set xs. mappable e s p m x" and c: "cpu_page e s bv"
      and f: "sg_fits q n0 (length (runs (joins q m (rel_page e s)) xs))"
  proof -
    let ?s1 = "s\<lparr>mgroups := (mgroups s)(p \<mapsto> fold dma_mark (map (\<lambda>x. rel_page e s (bv_page x)) xs) m)\<rparr>"
    obtain sm where sm: "map_bvecs e q r xs (sm_empty gs) s = Some (None, sm, ?s1)"
      "sm_runs n0 m (rel_page e s) (runs (joins q m (rel_page e s)) xs) sm"
      using map_request_ok [of "r\<lparr>rq_bvecs := xs\<rparr>" e s p m n0 gs _ q] l(2,3) f assms(2-7)
      by (auto simp: map_bvecs_request request_bvecs)
    show ?thesis
      using cpu_after_gpu [OF _ sm(2), of e ?s1 bv q r] c out [OF l(1) sm(1)] assms(8) by auto
  qed
  moreover have "\<exists>gs'. nvfs_blk_rq_map_sg_internal e q (Some r) (Some gs) s = Some (NVFS_IO_ERR, Some r, Some gs',
      mix (s\<lparr>mgroups := (mgroups s)(p \<mapsto> dma_mark (rel_page e s (bv_page bv)) m)\<rparr>))"
    if l: "rq_bvecs r = xs @ bv # ys" "xs \<noteq> []" "\<forall>x \<in> set xs. cpu_page e s x" and g: "mappable e s p m bv"
    using gpu_after_cpu [OF g, of "(sm_empty gs)\<lparr>found_cpu_page := True\<rparr>"] sg_nents_of_marked [OF assms(4)] assms(2,8)
      out [OF l(1) none [OF l(3)]] l(2) by (fastforce simp: sm_empty_def)
  ultimately show ?thesis by blast
qed

theorem mixed_requests_refused_witness:
  "\<exists>gs' s'. nvfs_blk_rq_map_sg_internal ex_env ex_blk (Some (ex_request\<lparr>rq_bvecs :=
       [\<lparr> bv_page = 502, bv_len = 4096, bv_offset = 0 \<rparr>, \<lparr> bv_page = 10, bv_len = 4096, bv_offset = 0 \<rparr>]\<rparr>)) (Some ex_sgl)
     ex_flight_state = Some (NVFS_IO_ERR, Some (ex_request\<lparr>rq_bvecs :=
       [\<lparr> bv_page = 502, bv_len = 4096, bv_offset = 0 \<rparr>, \<lparr> bv_page = 10, bv_len = 4096, bv_offset = 0 \<rparr>]\<rparr>), Some gs', s')"
proof -
  let ?x = "\<lparr> bv_page = 502, bv_len = 4096, bv_offset = 0 \<rparr>" and ?y = "\<lparr> bv_page = 10, bv_len = 4096, bv_offset = 0 \<rparr>"
  let ?r = "ex_request\<lparr>rq_bvecs := [?x, ?y]\<rparr>"
  have c: "cpu_page ex_env ex_flight_state ?y"
    by (simp add: cpu_page_def page_base_index_def NVFS_PAGE_INDEX_def ex_flight_state_def ex_paged_state_def)
  have f: "sg_fits ex_blk 1 (length (runs (joins ex_blk ex_flight_group (rel_page ex_env ex_flight_state)) [?x]))"
    by (simp add: sg_fits_def ex_blk_def)
  have r: "nvfs_blk_rq_check (Some ?r)" using ex_request_ok(1) by (simp add: nvfs_blk_rq_check_def)
  show ?thesis
    using mixed_requests_refused [of ?r 1 ex_sgl _ ex_env ex_flight_state ex_blk "[?x]" ?y "[]" 100 ex_flight_group, OF r _ _ _ _ _ _ refl]
      ex_request_ok(4-8) ex_mappable [of 2 ?x] c f by (auto simp: request_bvecs bvec_ok_def)
qed

section \<open>A segment that runs out of the request\<close>

text \<open>
  For drivers other than NVMe, a segment whose first page is in flight but whose second is not fails after
  its DMA address has been taken. The group reference of the lookup is then dropped twice, by the failing
  \<^verbatim>\<open>nvfs_mgroup_metadata_set_dma_state\<close> and by its caller: the reference of the DMA address is gone, while its DMA
  reference remains.
\<close>

lemma failed_segment_drops_twice:
  assumes "page_in_flight e s p m j pg" and "\<not> nvfs_peer_stats_enabled e" and "\<not> be_nvme q"
    and "mapped_for (gpu_info m) dev dm n" and "dm_entries dm = length (dma_addresses dm)" and "has_bus m dm j"
    and "sg_page g = Some pg" and "sg_offset g = 0" and "sg_length g = 8192"
    and "Suc j < nvfs_blocks_count m" and "block_state m (Suc j) \<notin> {NVFS_IO_QUEUED, NVFS_IO_DMA_START}"
  shows "\<exists>m' s'. sg_dma e q dev g s = Some (None, NVFS_IO_ERR, bus_addr m dm j, s') \<and> mgroups s' p = Some m' \<and>
    mg_ref m' = mg_ref m \<and> dma_ref m' = dma_ref m + 1"
proof -
  let ?h = "held (Suc 0) m"
  let ?s1 = "s\<lparr>mgroups := (mgroups s)(p \<mapsto> ?h)\<rparr>"
  let ?s2 = "s\<lparr>mgroups := (mgroups s)(p \<mapsto> ?h\<lparr>mg_ref := mg_ref ?h + 1\<rparr>)\<rparr>"
  have pf: "page_in_flight e ?s1 p ?h j pg" by (rule page_in_flight_held [OF assms(1)])
  have h: "dma_held m = ?h" by (simp add: dma_held_def held_def)
  have get: "nvfs_get_dma e dev (Some pg) True 8192 s = Some (0, bus_addr m dm j, ?s1)"
    using get_dma_in_flight [OF assms(1,2,4,5) refl _ _ refl refl, of 8192] assms(6)
    unfolding h by (simp add: has_bus_def bus_addr_def)
  have look: "nvfs_mgroup_from_page e (Some pg) ?s1 = Some (Ptr p, ?s2)"
    using from_page_in_flight [OF pf] by (simp del: held_simps)
  have pg: "page_of_group e s p m j pg" and ps: "page_shift e = 12" using assms(1) by (simp_all add: page_in_flight_def)
  obtain md where md: "nvfs_metadata m = Some md" "length md = nvfs_blocks_count m" "0 < mg_ref m"
    using pg assms(1) by (auto simp: page_of_group_def mgroup_wf_def page_in_flight_def hash_wf_def)
  have st: "nvfs_state (md ! j) \<in> {NVFS_IO_QUEUED, NVFS_IO_DMA_START}" "nvfs_state (md ! Suc j) \<notin> {NVFS_IO_QUEUED, NVFS_IO_DMA_START}"
    using assms(1,11) md(1) by (auto simp: page_in_flight_def block_state_def)
  have rp: "rel_page e s pg = j" using pg by (simp add: page_of_group_def)
  define md' where "md' = md[j := set_blk NVFS_IO_DMA_START (md ! j), Suc j := set_blk NVFS_IO_DMA_ERROR (md ! Suc j)]"
  have held_metadata: "nvfs_metadata ?h = nvfs_metadata m" by (simp add: held_def)
  have "dma_state_blocks [j, Suc j] md = Some (False, md')"
    using st md assms(10) by (auto simp: md'_def)
  moreover have "[j ..< Suc (Suc j)] = [j, Suc j]" by (simp add: upt_rec)
  ultimately have blocks: "dma_state_blocks [j ..< Suc (Suc j)] md = Some (False, md')" by simp
  have put: "nvfs_mgroup_put e p (s\<lparr>mgroups := (mgroups s)(p \<mapsto> x)\<rparr>) =
      Some (s\<lparr>mgroups := (mgroups s)(p \<mapsto> x\<lparr>mg_ref := mg_ref x - 1\<rparr>)\<rparr>)" if "mg_ref x \<noteq> 1" for x
    using put_shared_effect [of "s\<lparr>mgroups := (mgroups s)(p \<mapsto> x)\<rparr>" p x e False] that by (simp add: nvfs_mgroup_put_def)
  define m3 where "m3 = ?h\<lparr>mg_ref := mg_ref ?h + 1, nvfs_metadata := Some md'\<rparr>"
  have upd: "upd_md p (\<lambda>_. md') ?s2 = Some (s\<lparr>mgroups := (mgroups s)(p \<mapsto> m3)\<rparr>)"
    unfolding m3_def upd_md_def upd_mgroup_def using md(1) by (simp add: held_def)
  have "mg_ref m3 \<noteq> 1" using md(3) by (simp add: m3_def)
  then have "nvfs_mgroup_metadata_set_dma_state e pg (Ptr p) 8192 0 ?s2 =
      Some (- EIO, s\<lparr>mgroups := (mgroups s)(p \<mapsto> m3\<lparr>mg_ref := mg_ref m3 - 1\<rparr>)\<rparr>)"
    using md(1) blocks unfolding nvfs_mgroup_metadata_set_dma_state_def
    by (simp add: rp ps nvfs_geom METADATA_BLOCK_START_INDEX_def METADATA_BLOCK_END_INDEX_def upd put held_metadata
        del: dma_state_blocks.simps upt_Suc held_simps)
  then show ?thesis
    using get look md(3) assms(3,7-9) by (auto simp: sg_dma_def put m3_def)
qed

end
