(* ===== verification/Nvfs_Iter.thy ===== *)
theory Nvfs_Iter
  imports Nvfs_Sg
begin

text \<open>
  The hooks of kernels that map a block request piece by piece (\<^verbatim>\<open>nvfs-dma.c\<close>, under
  \<^verbatim>\<open>HAVE_BLK_RQ_DMA_MAP_ITER_START\<close>): the first call and each following one return one segment of GPU memory, and
  the segments are released one by one. They are compared with the scatter/gather hooks they replace.
\<close>

section \<open>The cursor of the block layer\<close>

text \<open>
  A bio is an array of vectors and a cursor into it: the bytes left, the current vector and the bytes of it that are
  done. The chain of a request is the list of its bios.
\<close>

record bvec_iter =
  bi_size :: nat
  bi_idx :: nat
  bi_bvec_done :: nat

record bio =
  bi_io_vec :: "bio_vec list"
  bi_iter :: bvec_iter

text \<open>The current bio with the bios after it, and the cursor into the current one.\<close>

record req_iterator =
  ri_bios :: "bio list"
  ri_iter :: bvec_iter

datatype blk_status = BLK_STS_OK | BLK_STS_IOERR

record blk_dma_iter =
  di_iter :: req_iterator
  di_addr :: u64
  di_len :: nat
  di_status :: blk_status

text \<open>The part of the current vector that is left, which may span several pages; and moving past some bytes of it.\<close>

definition mp_bvec_iter_bvec :: "bio_vec list \<Rightarrow> bvec_iter \<Rightarrow> bio_vec option" where
  "mp_bvec_iter_bvec vecs it =
     do { v \<leftarrow> arr_get vecs (bi_idx it);
          Some \<lparr> bv_page = bv_page v, bv_len = min (bi_size it) (bv_len v - bi_bvec_done it), bv_offset = bv_offset v + bi_bvec_done it \<rparr> }"

definition bio_advance_iter_single :: "bio_vec list \<Rightarrow> nat \<Rightarrow> bvec_iter \<Rightarrow> bvec_iter option" where
  "bio_advance_iter_single vecs n it =
     do { v \<leftarrow> arr_get vecs (bi_idx it);
          let d = bi_bvec_done it + n;
          Some (if d = bv_len v then \<lparr> bi_size = bi_size it - n, bi_idx = bi_idx it + 1, bi_bvec_done = 0 \<rparr>
                else it\<lparr>bi_size := bi_size it - n, bi_bvec_done := d\<rparr>) }"

definition nvfs_peek_next_bvec :: "req_iterator \<Rightarrow> bio_vec option option" where
  "nvfs_peek_next_bvec it =
     (if bi_size (ri_iter it) = 0 then Some None
      else case ri_bios it of
        [] \<Rightarrow> None
      | b # _ \<Rightarrow> do { bv \<leftarrow> mp_bvec_iter_bvec (bi_io_vec b) (ri_iter it); Some (Some bv) })"

definition nvfs_advance_bvec :: "bio_vec \<Rightarrow> req_iterator \<Rightarrow> req_iterator option" where
  "nvfs_advance_bvec bv it =
     (case ri_bios it of
        [] \<Rightarrow> None
      | b # _ \<Rightarrow> do { i \<leftarrow> bio_advance_iter_single (bi_io_vec b) (bv_len bv) (ri_iter it); Some (it\<lparr>ri_iter := i\<rparr>) })"

section \<open>Checks\<close>

definition nvfs_validate_gpu_request :: "request \<Rightarrow> int" where
  "nvfs_validate_gpu_request r =
     (if blk_integrity_rq r then NVFS_IO_ERR
      else if \<not> nvfs_req_payload_supported r then NVFS_IO_ERR
      else if dma_drain_needed r then NVFS_IO_ERR
      else 0)"

definition nvfs_check_page_coalescible :: "u64 \<Rightarrow> u64 \<Rightarrow> nat \<Rightarrow> nat \<Rightarrow> bool" where
  "nvfs_check_page_coalescible prev_phys curr_phys gpu_page_index segment_len =
     (if prev_phys + of_nat segment_len \<noteq> curr_phys then False
      else if gpu_page_index \<noteq> 0 \<and> gpu_page_index mod NVFS_P2P_MAX_CONTIG_GPU_PAGES = 0 then False
      else True)"

text \<open>The pages of a shadow buffer that a vector may reach.\<close>

definition shadow_page_ok :: "kenv \<Rightarrow> nvfs_io_mgroup \<Rightarrow> nat \<Rightarrow> bool" where
  "shadow_page_ok e m i =
     (\<not> (i \<ge> NVFS_MAX_SHADOW_PAGES (page_shift e) \<or> i \<ge> nvfs_blocks_count m div (PAGE_SIZE (page_shift e) div NVFS_BLOCK_SIZE)))"

text \<open>
  The page in which a vector starts, which is not its own page if the offset is beyond it: \<open>Some None\<close> if that is
  outside the shadow buffer.
\<close>

definition actual_page :: "kenv \<Rightarrow> kstate \<Rightarrow> nvfs_io_mgroup \<Rightarrow> bio_vec \<Rightarrow> pageid option option" where
  "actual_page e s m bv =
     (let page_skip = bv_offset bv div PAGE_SIZE (page_shift e)
      in if page_skip > 0 then
           let target_page_index = rel_page e s (bv_page bv) + page_skip
           in if \<not> shadow_page_ok e m target_page_index then Some None
              else do { pps \<leftarrow> nvfs_ppages m; slot \<leftarrow> arr_get pps target_page_index; pg \<leftarrow> slot; Some (Some pg) }
         else Some (Some (bv_page bv)))"

text \<open>The return code, the physical address and the index of the GPU page, which are set on success only.\<close>

definition nvfs_get_gpu_page_info :: "kenv \<Rightarrow> bio_vec \<Rightarrow> kstate \<Rightarrow> (int \<times> u64 \<times> nat \<times> kstate) option" where
  "nvfs_get_gpu_page_info e bv s =
     do { (mg, s1) \<leftarrow> nvfs_mgroup_from_page e (Some (bv_page bv)) s;
          case mg of
            ErrPtr _ \<Rightarrow> Some (NVFS_IO_ERR, 0, 0, s1)
          | NullPtr \<Rightarrow> Some (NVFS_BAD_REQ, 0, 0, s1)
          | Ptr p \<Rightarrow> do {
              m \<leftarrow> mgroups s1 p;
              pg \<leftarrow> actual_page e s1 m bv;
              case pg of
                None \<Rightarrow> do { s2 \<leftarrow> nvfs_mgroup_put e p s1; Some (NVFS_IO_ERR, 0, 0, s2) }
              | Some pg \<Rightarrow> do {
                  phys_addr \<leftarrow> nvfs_mgroup_get_gpu_physical_address e s1 m pg;
                  let (gpu_page_index, pgoff) = nvfs_mgroup_get_gpu_index_and_off e s1 m pg;
                  s2 \<leftarrow> nvfs_mgroup_put e p s1;
                  Some (0, phys_addr, gpu_page_index, s2) } } }"

text \<open>The pages of one vector after the first: how far they follow each other in GPU memory.\<close>

function contiguous_pages ::
    "kenv \<Rightarrow> kstate \<Rightarrow> nvfs_io_mgroup \<Rightarrow> nat \<Rightarrow> nat \<Rightarrow> u64 \<Rightarrow> nat \<Rightarrow> (bool \<times> nat) option" where
  "contiguous_pages e s m remaining_len checked_len prev_phys curr_page_index =
     (if remaining_len > 0 then
        if \<not> shadow_page_ok e m curr_page_index then Some (False, checked_len)
        else do {
          pps \<leftarrow> nvfs_ppages m;
          slot \<leftarrow> arr_get pps curr_page_index;
          pg \<leftarrow> slot;
          curr_phys \<leftarrow> nvfs_mgroup_get_gpu_physical_address e s m pg;
          if curr_phys \<noteq> prev_phys + of_nat (PAGE_SIZE (page_shift e)) then Some (False, checked_len)
          else let n = min remaining_len (PAGE_SIZE (page_shift e))
               in contiguous_pages e s m (remaining_len - n) (checked_len + n) curr_phys (curr_page_index + 1) }
      else Some (True, checked_len))"
  by pat_completeness auto

termination contiguous_pages
  by (relation "measure (\<lambda>(e, s, m, remaining_len, checked_len, prev, i). remaining_len)") (auto simp: PAGE_SIZE_def)

declare contiguous_pages.simps [simp del]

definition nvfs_check_bvec_contiguity ::
    "kenv \<Rightarrow> kstate \<Rightarrow> nvfs_io_mgroup \<Rightarrow> bio_vec \<Rightarrow> u64 \<Rightarrow> (bool \<times> nat) option" where
  "nvfs_check_bvec_contiguity e s m bv base_phys_addr =
     (let page_skip = bv_offset bv div PAGE_SIZE (page_shift e);
          offset_in_page = bv_offset bv mod PAGE_SIZE (page_shift e);
          start_page_index = rel_page e s (bv_page bv) + page_skip;
          bytes_in_first_page = PAGE_SIZE (page_shift e) - offset_in_page
      in if bv_len bv \<le> bytes_in_first_page then Some (True, bv_len bv)
         else contiguous_pages e s m (bv_len bv - bytes_in_first_page) bytes_in_first_page base_phys_addr (start_page_index + 1))"

section \<open>Coalescing\<close>

text \<open>
  One turn of the loop: it goes on with a cursor, the length of the vector it has added and its GPU page, or it stops
  with a cursor. Where the marking of the blocks fails, the group is put once more than it was looked up.
\<close>

datatype coalesce_turn = Added req_iterator nat nat | Stopped req_iterator

definition next_bio :: "req_iterator \<Rightarrow> req_iterator option option" where
  "next_bio it =
     (if bi_size (ri_iter it) = 0 then
        case ri_bios it of
          [] \<Rightarrow> None
        | [b] \<Rightarrow> Some None
        | b # b' # bs \<Rightarrow> Some (Some \<lparr> ri_bios = b' # bs, ri_iter = bi_iter b' \<rparr>)
      else Some (Some it))"

definition coalesce_step ::
    "kenv \<Rightarrow> req_iterator \<Rightarrow> nat \<Rightarrow> u64 \<Rightarrow> kstate \<Rightarrow> (coalesce_turn \<times> kstate) option" where
  "coalesce_step e it0 segment_len prev_phys s =
     do { nb \<leftarrow> next_bio it0;
          case nb of
            None \<Rightarrow> Some (Stopped it0, s)
          | Some it \<Rightarrow> do {
              peek \<leftarrow> nvfs_peek_next_bvec it;
              case peek of
                None \<Rightarrow> Some (Stopped it, s)
              | Some bv \<Rightarrow> do {
                  (ret, curr_phys, gpu_page_index, s1) \<leftarrow> nvfs_get_gpu_page_info e bv s;
                  if ret \<noteq> 0 then Some (Stopped it, s1)
                  else if \<not> nvfs_check_page_coalescible prev_phys curr_phys gpu_page_index segment_len
                  then Some (Stopped it, s1)
                  else do {
                    (mg, s2) \<leftarrow> nvfs_mgroup_from_page e (Some (bv_page bv)) s1;
                    case mg of
                      Ptr p \<Rightarrow> do {
                        m \<leftarrow> mgroups s2 p;
                        (_, contiguous_len) \<leftarrow> nvfs_check_bvec_contiguity e s2 m bv curr_phys;
                        (r, s3) \<leftarrow> nvfs_mgroup_metadata_set_dma_state e (bv_page bv) mg contiguous_len (bv_offset bv) s2;
                        s4 \<leftarrow> nvfs_mgroup_put e p s3;
                        if r \<noteq> 0 then Some (Stopped it, s4)
                        else do {
                          it' \<leftarrow> nvfs_advance_bvec (bv\<lparr>bv_len := contiguous_len\<rparr>) it;
                          Some (Added it' contiguous_len gpu_page_index, s4) } }
                    | _ \<Rightarrow> Some (Stopped it, s2) } } } }"

text \<open>The loop; the length of a segment is a 32-bit number.\<close>

partial_function (option) nvfs_coalesce_gpu_pages ::
    "kenv \<Rightarrow> req_iterator \<Rightarrow> nat \<Rightarrow> u64 \<Rightarrow> nat \<Rightarrow> kstate \<Rightarrow> (req_iterator \<times> nat \<times> nat \<times> kstate) option" where
  "nvfs_coalesce_gpu_pages e it segment_len prev_phys prev_gpu_page_index s =
     do { (turn, s1) \<leftarrow> coalesce_step e it segment_len prev_phys s;
          case turn of
            Stopped it' \<Rightarrow> Some (it', segment_len, prev_gpu_page_index, s1)
          | Added it' n i \<Rightarrow> nvfs_coalesce_gpu_pages e it' ((segment_len + n) mod 2 ^ 32) prev_phys i s1 }"

section \<open>One segment\<close>

text \<open>
  The body of the block after the validation, with a reference on the group \<open>p\<close>: the return code, the iterator and
  the state; on success the caller fills in the cookie. Taking the plug of the task away meanwhile has no effect on
  the state of the driver.
\<close>

definition map_gpu_segment ::
    "kenv \<Rightarrow> pci_dev \<Rightarrow> mptr \<Rightarrow> bio_vec \<Rightarrow> blk_dma_iter \<Rightarrow> kstate \<Rightarrow> (int \<times> blk_dma_iter \<times> kstate) option" where
  "map_gpu_segment e dev p bv di s =
     do { let fail = (\<lambda>s. do { s' \<leftarrow> nvfs_mgroup_put e p s; Some (NVFS_IO_ERR, di\<lparr>di_status := BLK_STS_IOERR\<rparr>, s') });
          let offset_in_page = bv_offset bv mod PAGE_SIZE (page_shift e);
          m \<leftarrow> mgroups s p;
          ap \<leftarrow> actual_page e s m bv;
          case ap of
            None \<Rightarrow> fail s
          | Some pg \<Rightarrow> do {
              curr_phys \<leftarrow> nvfs_mgroup_get_gpu_physical_address e s m pg;
              let (gpu_page_index, pgoff) = nvfs_mgroup_get_gpu_index_and_off e s m pg;
              (_, contiguous_len) \<leftarrow> nvfs_check_bvec_contiguity e s m bv curr_phys;
              (r, s1) \<leftarrow> nvfs_mgroup_metadata_set_dma_state e (bv_page bv) (Ptr p) contiguous_len (bv_offset bv) s;
              if r \<noteq> 0 then fail s1
              else do {
                it1 \<leftarrow> nvfs_advance_bvec (bv\<lparr>bv_len := contiguous_len\<rparr>) (di_iter di);
                (it2, segment_len, _, s2) \<leftarrow>
                  nvfs_coalesce_gpu_pages e it1 contiguous_len curr_phys gpu_page_index s1;
                let di2 = di\<lparr>di_iter := it2\<rparr>;
                (ret, gpu_base_dma, s3) \<leftarrow> nvfs_get_dma e dev (Some pg) True (int segment_len) s2;
                if ret = NVFS_IO_ERR \<or> ret = NVFS_BAD_REQ
                then do { s4 \<leftarrow> nvfs_mgroup_put e p s3; Some (NVFS_IO_ERR, di2\<lparr>di_status := BLK_STS_IOERR\<rparr>, s4) }
                else do {
                  s4 \<leftarrow> nvfs_mgroup_put e p s3;
                  Some (1, di2\<lparr>di_addr := gpu_base_dma + of_nat offset_in_page, di_len := segment_len, di_status := BLK_STS_OK\<rparr>, s4) } } } }"

text \<open>The third component is the cookie that is stored, if any.\<close>

definition nvfs_map_next_gpu_segment ::
    "kenv \<Rightarrow> request \<Rightarrow> pci_dev \<Rightarrow> blk_dma_iter \<Rightarrow> kstate \<Rightarrow> (int \<times> blk_dma_iter \<times> mptr option \<times> kstate) option" where
  "nvfs_map_next_gpu_segment e r dev di s =
     do { peek \<leftarrow> nvfs_peek_next_bvec (di_iter di);
          case peek of
            None \<Rightarrow> Some (0, di, None, s)
          | Some bv \<Rightarrow> do {
              (mg, s1) \<leftarrow> nvfs_mgroup_from_page e (Some (bv_page bv)) s;
              case mg of
                ErrPtr _ \<Rightarrow> Some (NVFS_IO_ERR, di\<lparr>di_status := BLK_STS_IOERR\<rparr>, None, s1)
              | NullPtr \<Rightarrow> Some (0, di, None, s1)
              | Ptr p \<Rightarrow>
                  if nvfs_validate_gpu_request r \<noteq> 0 then do {
                    s2 \<leftarrow> nvfs_mgroup_put e p s1;
                    Some (NVFS_IO_ERR, di\<lparr>di_status := BLK_STS_IOERR\<rparr>, None, s2) }
                  else do {
                    (ret, di1, s2) \<leftarrow> map_gpu_segment e dev p bv di s1;
                    Some (ret, di1, if ret = 1 then Some p else None, s2) } } }"

section \<open>The hooks\<close>

definition nvfs_blk_rq_dma_map_iter_start ::
    "kenv \<Rightarrow> request option \<Rightarrow> bio list \<Rightarrow> pci_dev \<Rightarrow> blk_dma_iter \<Rightarrow> kstate \<Rightarrow>
     (int \<times> blk_dma_iter \<times> mptr option \<times> kstate) option" where
  "nvfs_blk_rq_dma_map_iter_start e req bios dev di s =
     (if \<not> nvfs_blk_rq_check req then Some (0, di, None, s)
      else case bios of
        [] \<Rightarrow> Some (0, di\<lparr>di_iter := (di_iter di)\<lparr>ri_bios := []\<rparr>\<rparr>, None, s)
      | b # _ \<Rightarrow> do {
          r \<leftarrow> req;
          (ret, di1, cookie, s1) \<leftarrow>
            nvfs_map_next_gpu_segment e r dev (di\<lparr>di_iter := \<lparr> ri_bios = bios, ri_iter = bi_iter b \<rparr>, di_status := BLK_STS_OK\<rparr>) s;
          Some (if ret = 0 then ret else if ret > 0 then 1 else 0, di1, cookie, s1) })"

definition nvfs_blk_rq_dma_map_iter_next ::
    "kenv \<Rightarrow> request \<Rightarrow> pci_dev \<Rightarrow> blk_dma_iter \<Rightarrow> kstate \<Rightarrow> (int \<times> blk_dma_iter \<times> kstate) option" where
  "nvfs_blk_rq_dma_map_iter_next e r dev di s =
     do { (ret, di1, _, s1) \<leftarrow> nvfs_map_next_gpu_segment e r dev di s;
          Some (if ret = 0 then ret else if ret > 0 then 1 else 0, di1, s1) }"

definition nvfs_dma_unmap_page :: "kenv \<Rightarrow> mptr option \<Rightarrow> kstate \<Rightarrow> (int \<times> kstate) option" where
  "nvfs_dma_unmap_page e cookie s =
     (case cookie of
        None \<Rightarrow> Some (NVFS_IO_ERR, s)
      | Some p \<Rightarrow> do { s1 \<leftarrow> nvfs_mgroup_put_dma e p s; Some (0, s1) })"

section \<open>What a cursor has left\<close>

text \<open>
  A cursor at the start of a vector, with the vectors \<open>vs\<close> left in its bio; a chain of bios with their
  vectors; a cursor with the vectors \<open>bvs\<close> left in the request.
\<close>

definition iter_vecs :: "bio_vec list \<Rightarrow> bio_vec list \<Rightarrow> bvec_iter \<Rightarrow> bool" where
  "iter_vecs vs vecs it \<longleftrightarrow> bi_bvec_done it = 0 \<and> bi_idx it + length vs \<le> length vecs \<and>
     take (length vs) (drop (bi_idx it) vecs) = vs \<and> bi_size it = sum_list (map bv_len vs)"

definition chain_vecs :: "bio list \<Rightarrow> bio_vec list list \<Rightarrow> bool" where
  "chain_vecs bs vss \<longleftrightarrow> list_all2 (\<lambda>b vs. vs \<noteq> [] \<and> iter_vecs vs (bi_io_vec b) (bi_iter b)) bs vss"

definition cursor_at :: "req_iterator \<Rightarrow> bio_vec list \<Rightarrow> bool" where
  "cursor_at it bvs \<longleftrightarrow> (\<forall>bv \<in> set bvs. 0 < bv_len bv) \<and> (\<exists>b bs vs vss. ri_bios it = b # bs \<and>
     iter_vecs vs (bi_io_vec b) (ri_iter it) \<and> chain_vecs bs vss \<and> bvs = vs @ concat vss)"

text \<open>The cursor stands on a vector, not at the end of a bio.\<close>

abbreviation on_vec :: "req_iterator \<Rightarrow> bool" where "on_vec it \<equiv> bi_size (ri_iter it) \<noteq> 0"

lemma sum_lens_pos: "\<forall>bv \<in> set vs. 0 < bv_len bv \<Longrightarrow> sum_list (map bv_len vs) = 0 \<longleftrightarrow> vs = []"
  by (cases vs) auto

lemma chain_vecs_Cons:
  "chain_vecs bs (vs # vss) \<longleftrightarrow>
     (\<exists>b bs'. bs = b # bs' \<and> vs \<noteq> [] \<and> iter_vecs vs (bi_io_vec b) (bi_iter b) \<and> chain_vecs bs' vss)"
  by (auto simp: chain_vecs_def list_all2_Cons2)

lemma next_bio_at:
  assumes "cursor_at it bvs"
  shows "bvs = [] \<Longrightarrow> next_bio it = Some None"
    and "bvs \<noteq> [] \<Longrightarrow> \<exists>it'. next_bio it = Some (Some it') \<and> cursor_at it' bvs \<and> on_vec it'"
proof -
  obtain b bs vs vss where c: "ri_bios it = b # bs" "iter_vecs vs (bi_io_vec b) (ri_iter it)" "chain_vecs bs vss" "bvs = vs @ concat vss"
    and pos: "\<forall>bv \<in> set bvs. 0 < bv_len bv"
    using assms by (auto simp: cursor_at_def)
  have size: "bi_size (ri_iter it) = 0 \<longleftrightarrow> vs = []"
    using c(2,4) pos sum_lens_pos [of vs] by (auto simp: iter_vecs_def)
  show "next_bio it = Some None" if "bvs = []"
  proof -
    have "vss = []" using c(3,4) that by (cases vss) (auto simp: chain_vecs_Cons)
    then have "bs = []" using c(3) by (simp add: chain_vecs_def)
    then show ?thesis using c(1,4) size that by (simp add: next_bio_def)
  qed
  show "\<exists>it'. next_bio it = Some (Some it') \<and> cursor_at it' bvs \<and> on_vec it'" if ne: "bvs \<noteq> []"
  proof (cases vs)
    case Nil
    then obtain ws wss where w: "vss = ws # wss" using c(4) ne by (cases vss) auto
    then obtain b' bs' where b': "bs = b' # bs'" "ws \<noteq> []" "iter_vecs ws (bi_io_vec b') (bi_iter b')" "chain_vecs bs' wss"
      using c(3) by (auto simp: chain_vecs_Cons)
    have "cursor_at \<lparr> ri_bios = b' # bs', ri_iter = bi_iter b' \<rparr> bvs"
      using b' c(4) Nil w pos by (auto simp: cursor_at_def)
    moreover have "bi_size (bi_iter b') \<noteq> 0"
      using b' c(4) w pos sum_lens_pos [of ws] by (auto simp: iter_vecs_def)
    ultimately show ?thesis using b' c(1) size Nil by (simp add: next_bio_def)
  next
    case (Cons v vs')
    then show ?thesis using size assms by (simp add: next_bio_def)
  qed
qed

lemma peek_at:
  assumes "cursor_at it (bv # bvs)" and "on_vec it"
  shows "nvfs_peek_next_bvec it = Some (Some bv) \<and> (\<exists>it'. nvfs_advance_bvec bv it = Some it' \<and> cursor_at it' bvs)"
proof -
  obtain b bs vs vss where c: "ri_bios it = b # bs" "iter_vecs vs (bi_io_vec b) (ri_iter it)" "chain_vecs bs vss" "bv # bvs = vs @ concat vss"
    and pos: "\<forall>bv \<in> set (bv # bvs). 0 < bv_len bv"
    using assms(1) unfolding cursor_at_def by blast
  obtain vs' where vs: "vs = bv # vs'" "bvs = vs' @ concat vss"
    using c(2,4) assms(2) by (cases vs) (auto simp: iter_vecs_def)
  let ?i = "ri_iter it"
  have lt: "bi_idx ?i < length (bi_io_vec b)" and tk: "take (Suc (length vs')) (drop (bi_idx ?i) (bi_io_vec b)) = bv # vs'"
    using c(2) vs(1) by (auto simp: iter_vecs_def)
  have dr: "drop (bi_idx ?i) (bi_io_vec b) = bi_io_vec b ! bi_idx ?i # drop (Suc (bi_idx ?i)) (bi_io_vec b)"
    using lt by (rule Cons_nth_drop_Suc [symmetric])
  have idx: "bi_idx ?i < length (bi_io_vec b)" "bi_io_vec b ! bi_idx ?i = bv" "take (length vs') (drop (Suc (bi_idx ?i)) (bi_io_vec b)) = vs'"
    using lt tk unfolding dr by simp_all
  have sz: "bi_size ?i = bv_len bv + sum_list (map bv_len vs')" "bi_bvec_done ?i = 0" using c(2) vs(1) by (auto simp: iter_vecs_def)
  have "nvfs_peek_next_bvec it = Some (Some bv)"
    using c(1) idx sz assms(2) by (simp add: nvfs_peek_next_bvec_def mp_bvec_iter_bvec_def)
  moreover define i' where "i' = \<lparr> bi_size = bi_size ?i - bv_len bv, bi_idx = bi_idx ?i + 1, bi_bvec_done = 0 \<rparr>"
  have "nvfs_advance_bvec bv it = Some (it\<lparr>ri_iter := i'\<rparr>)"
    using c(1) idx sz by (simp add: nvfs_advance_bvec_def bio_advance_iter_single_def i'_def)
  moreover have "iter_vecs vs' (bi_io_vec b) i'"
    using c(2) vs(1) idx(3) sz by (auto simp: iter_vecs_def i'_def)
  ultimately show ?thesis using c vs pos by (fastforce simp: cursor_at_def)
qed

lemma start_at:
  assumes "chain_vecs bios vss" and "concat vss \<noteq> []" and "\<forall>bv \<in> set (concat vss). 0 < bv_len bv"
  shows "\<exists>b bs. bios = b # bs \<and> cursor_at \<lparr> ri_bios = bios, ri_iter = bi_iter b \<rparr> (concat vss) \<and> bi_size (bi_iter b) \<noteq> 0"
proof -
  obtain vs vss' where v: "vss = vs # vss'" using assms(2) by (cases vss) auto
  then obtain b bs where b: "bios = b # bs" "vs \<noteq> []" "iter_vecs vs (bi_io_vec b) (bi_iter b)" "chain_vecs bs vss'"
    using assms(1) by (auto simp: chain_vecs_Cons)
  then have "bi_size (bi_iter b) \<noteq> 0" using assms(3) v sum_lens_pos [of vs] by (auto simp: iter_vecs_def)
  then show ?thesis using b v assms(3) by (auto simp: cursor_at_def)
qed

section \<open>One vector\<close>

text \<open>Pages in flight do not depend on the numbers of references, as long as there are some.\<close>

lemma page_in_flight_ref:
  assumes "page_in_flight e s p m j pg" and "0 < r"
  shows "page_in_flight e (s\<lparr>mgroups := (mgroups s)(p \<mapsto> m\<lparr>mg_ref := r\<rparr>)\<rparr>) p (m\<lparr>mg_ref := r\<rparr>) j pg"
proof -
  have "hash_wf (s\<lparr>mgroups := (mgroups s)(p \<mapsto> m\<lparr>mg_ref := r\<rparr>)\<rparr>)"
    using assms by (intro hash_wf_upd [of s p m]) (auto simp: page_in_flight_def page_of_group_def)
  then show ?thesis
    using assms by (auto simp: page_in_flight_def page_of_group_def page_base_index_def rel_page_def NVFS_PAGE_INDEX_def
        mgroup_wf_def block_state_def)
qed

lemma gpu_addr_refs [simp]:
  "gpu_addr (m\<lparr>mg_ref := r\<rparr>) = gpu_addr m" "has_phys (m\<lparr>mg_ref := r\<rparr>) = has_phys m"
  "gpu_addr (held k m) = gpu_addr m" "has_phys (held k m) = has_phys m"
  by (auto simp: gpu_addr_def has_phys_def fun_eq_iff)

lemma mappable_ref:
  "mappable e s p m bv \<Longrightarrow> 0 < r \<Longrightarrow> mappable e (s\<lparr>mgroups := (mgroups s)(p \<mapsto> m\<lparr>mg_ref := r\<rparr>)\<rparr>) p (m\<lparr>mg_ref := r\<rparr>) bv"
  using page_in_flight_ref by (auto simp: mappable_def)

lemma mappable_held:
  "mappable e s p m bv \<Longrightarrow> mappable e (s\<lparr>mgroups := (mgroups s)(p \<mapsto> held k m)\<rparr>) p (held k m) bv"
  using page_in_flight_held by (auto simp: mappable_def)

lemma mappable_live: "mappable e s p m bv \<Longrightarrow> page_shift e = 12 \<and> mgroups s p = Some m \<and> 0 < mg_ref m"
  by (auto simp: mappable_def page_in_flight_def page_of_group_def hash_wf_def)

definition gpu_index :: "nvfs_io_mgroup \<Rightarrow> nat \<Rightarrow> nat" where
  "gpu_index m j = cur_gpu_base_index (nvfsio m) + j div 16"

text \<open>What the code reads of a vector in flight, with the reference it holds on the group.\<close>

lemma vector_facts:
  assumes "mappable e s p m bv" and "j = rel_page e s (bv_page bv)" and "s1 = s\<lparr>mgroups := x\<rparr>" and "m1 = m\<lparr>mg_ref := r\<rparr>"
  shows "actual_page e s1 m1 bv = Some (Some (bv_page bv))"
    "nvfs_mgroup_get_gpu_physical_address e s1 m1 (bv_page bv) = Some (gpu_addr m j)"
    "nvfs_mgroup_get_gpu_index_and_off e s1 m1 (bv_page bv) = (gpu_index m j, (j mod 16) * 4096)"
    "nvfs_check_bvec_contiguity e s1 m1 bv a = Some (True, bv_len bv)"
    "bv_offset bv mod PAGE_SIZE (page_shift e) = bv_offset bv"
proof -
  have pf: "page_in_flight e s p m j (bv_page bv)" and ok: "bv_offset bv < 4096" "bv_offset bv + bv_len bv \<le> 4096"
    using assms(1,2) by (auto simp: mappable_def bvec_ok_def)
  have ps: "page_shift e = 12" using mappable_live [OF assms(1)] by simp
  have fits: "bv_len bv \<le> 4096 - bv_offset bv" using ok by simp
  show "actual_page e s1 m1 bv = Some (Some (bv_page bv))" "bv_offset bv mod PAGE_SIZE (page_shift e) = bv_offset bv"
    "nvfs_check_bvec_contiguity e s1 m1 bv a = Some (True, bv_len bv)"
    using ok(1) fits ps by (simp_all add: actual_page_def nvfs_check_bvec_contiguity_def PAGE_SIZE_def Let_def)
  show idx: "nvfs_mgroup_get_gpu_index_and_off e s1 m1 (bv_page bv) = (gpu_index m j, (j mod 16) * 4096)"
    using gpu_index_4k [OF pf] assms(3,4) by (simp add: gpu_index_def)
  show "nvfs_mgroup_get_gpu_physical_address e s1 m1 (bv_page bv) = Some (gpu_addr m j)"
    unfolding nvfs_mgroup_get_gpu_physical_address_def idx
    using assms(1,2,4) by (auto simp: gpu_addr_def gpu_index_def mappable_def has_phys_def)
qed

lemma from_page_mappable:
  "mappable e s p m bv \<Longrightarrow> nvfs_mgroup_from_page e (Some (bv_page bv)) s =
     Some (Ptr p, s\<lparr>mgroups := (mgroups s)(p \<mapsto> m\<lparr>mg_ref := mg_ref m + 1\<rparr>)\<rparr>)"
  using from_page_in_flight by (auto simp: mappable_def)

lemma page_info_mappable:
  assumes "mappable e s p m bv" and "j = rel_page e s (bv_page bv)"
  shows "nvfs_get_gpu_page_info e bv s = Some (0, gpu_addr m j, gpu_index m j, s)"
proof -
  have live: "mgroups s p = Some m" "0 < mg_ref m" using mappable_live [OF assms(1)] by simp_all
  have "nvfs_mgroup_put e p (s\<lparr>mgroups := (mgroups s)(p \<mapsto> m\<lparr>mg_ref := mg_ref m + 1\<rparr>)\<rparr>) = Some s"
    using put_visited [OF live, of "m\<lparr>mg_ref := mg_ref m + 1\<rparr>" e] live by (simp add: fun_upd_idem)
  then show ?thesis
    using vector_facts [OF assms refl refl] from_page_mappable [OF assms(1)] by (simp add: nvfs_get_gpu_page_info_def)
qed

text \<open>A vector is added when its page is where the segment has come to in GPU memory.\<close>

definition iter_joins :: "nvfs_io_mgroup \<Rightarrow> (pageid \<Rightarrow> nat) \<Rightarrow> bio_vec list \<Rightarrow> bio_vec \<Rightarrow> bool" where
  "iter_joins m pn run bv \<longleftrightarrow>
     gpu_addr m (pn (bv_page (hd run))) + of_nat (sum_list (map bv_len run)) = gpu_addr m (pn (bv_page bv)) \<and>
     (let i = gpu_index m (pn (bv_page bv)) in i = 0 \<or> i mod 65535 \<noteq> 0)"

lemma iter_joins_refs [simp]:
  "iter_joins (dma_mark k m) = iter_joins m" "iter_joins (m\<lparr>mg_ref := r\<rparr>) = iter_joins m" "iter_joins (held k m) = iter_joins m"
  by (simp_all add: iter_joins_def gpu_index_def fun_eq_iff)

lemma coalesce_step_at:
  assumes "cursor_at it (bv # bvs)" and "mappable e s p m bv" and "j = rel_page e s (bv_page bv)"
    and "a = gpu_addr m (rel_page e s (bv_page (hd run)))" and "l = sum_list (map bv_len run)"
  shows "if iter_joins m (rel_page e s) run bv
    then \<exists>it'. coalesce_step e it l a s = Some (Added it' (bv_len bv) (gpu_index m j), s\<lparr>mgroups := (mgroups s)(p \<mapsto> dma_mark j m)\<rparr>) \<and>
      cursor_at it' bvs
    else \<exists>it'. coalesce_step e it l a s = Some (Stopped it', s) \<and> cursor_at it' (bv # bvs) \<and> on_vec it'"
proof -
  obtain it1 where n: "next_bio it = Some (Some it1)" and it1: "cursor_at it1 (bv # bvs)" "on_vec it1"
    using next_bio_at(2) [OF assms(1)] by auto
  obtain it' where pk: "nvfs_peek_next_bvec it1 = Some (Some bv)" and ad: "nvfs_advance_bvec bv it1 = Some it'" "cursor_at it' bvs"
    using peek_at [OF it1] by auto
  let ?m1 = "m\<lparr>mg_ref := mg_ref m + 1\<rparr>"
  let ?s1 = "s\<lparr>mgroups := (mgroups s)(p \<mapsto> ?m1)\<rparr>"
  note info = page_info_mappable [OF assms(2,3)]
  have chk: "nvfs_check_page_coalescible a (gpu_addr m j) (gpu_index m j) l = iter_joins m (rel_page e s) run bv"
    using assms(3-5) by (auto simp: nvfs_check_page_coalescible_def iter_joins_def Let_def)
  have look: "nvfs_mgroup_from_page e (Some (bv_page bv)) s = Some (Ptr p, ?s1)" by (rule from_page_mappable [OF assms(2)])
  have cont: "nvfs_check_bvec_contiguity e ?s1 ?m1 bv b = Some (True, bv_len bv)" for b
    by (rule vector_facts(4) [OF assms(2,3) refl refl])
  have pf: "page_in_flight e s p m j (bv_page bv)" and ok: "0 < bv_len bv" "bv_offset bv + bv_len bv \<le> 4096"
    using assms(2,3) by (simp_all add: mappable_def bvec_ok_def)
  note mark = set_dma_in_flight [OF pf ok, of "mg_ref m + 1"]
  have live: "mgroups s p = Some m" "0 < mg_ref m" using mappable_live [OF assms(2)] by simp_all
  have put: "nvfs_mgroup_put e p (s\<lparr>mgroups := (mgroups s)(p \<mapsto> dma_mark j ?m1)\<rparr>) = Some (s\<lparr>mgroups := (mgroups s)(p \<mapsto> dma_mark j m)\<rparr>)"
    using put_visited [OF live, of "dma_mark j ?m1" e] by simp
  have same: "bv\<lparr>bv_len := bv_len bv\<rparr> = bv" by simp
  show ?thesis
  proof (cases "iter_joins m (rel_page e s) run bv")
    case True
    then have "coalesce_step e it l a s = Some (Added it' (bv_len bv) (gpu_index m j), s\<lparr>mgroups := (mgroups s)(p \<mapsto> dma_mark j m)\<rparr>)"
      by (simp add: coalesce_step_def n pk info chk look cont mark put same ad(1))
    then show ?thesis using True ad(2) by auto
  next
    case False
    then have "coalesce_step e it l a s = Some (Stopped it1, s)" by (simp add: coalesce_step_def n pk info chk)
    then show ?thesis using False it1 by auto
  qed
qed

lemma coalesce_step_end: "cursor_at it [] \<Longrightarrow> coalesce_step e it l a s = Some (Stopped it, s)"
  using next_bio_at(1) [of it "[]"] by (simp add: coalesce_step_def)

section \<open>One segment is one run\<close>

text \<open>How far a run grows, and what is left.\<close>

fun grow :: "('a list \<Rightarrow> 'a \<Rightarrow> bool) \<Rightarrow> 'a list \<Rightarrow> 'a list \<Rightarrow> 'a list \<times> 'a list" where
  "grow J run [] = ([], [])"
| "grow J run (x # xs) = (if J run x then apfst ((#) x) (grow J (run @ [x]) xs) else ([], x # xs))"

lemma runs_from_grow: "grow J run xs = (ys, zs) \<Longrightarrow> runs_from J run xs = (run @ ys) # runs J zs"
  by (induction J run xs arbitrary: ys rule: grow.induct) (auto simp: apfst_def map_prod_def split: if_splits prod.splits)

lemma grow_split: "grow J run xs = (ys, zs) \<Longrightarrow> xs = ys @ zs"
  by (induction J run xs arbitrary: ys rule: grow.induct) (auto simp: apfst_def map_prod_def split: if_splits prod.splits)

lemma coalesce_at:
  assumes "cursor_at it bvs" and "\<forall>bv \<in> set bvs. mappable e s p m bv" and "mgroups s p = Some m" and "run \<noteq> []"
    and "a = gpu_addr m (rel_page e s (bv_page (hd run)))" and "sum_list (map bv_len (run @ bvs)) < 2 ^ 32"
    and "grow (iter_joins m (rel_page e s)) run bvs = (ys, zs)"
  shows "\<exists>it' i. nvfs_coalesce_gpu_pages e it (sum_list (map bv_len run)) a i0 s =
      Some (it', sum_list (map bv_len (run @ ys)), i,
        s\<lparr>mgroups := (mgroups s)(p \<mapsto> fold dma_mark (map (\<lambda>bv. rel_page e s (bv_page bv)) ys) m)\<rparr>) \<and>
    cursor_at it' zs \<and> (zs \<noteq> [] \<longrightarrow> on_vec it')"
  using assms
proof (induction bvs arbitrary: it s m run i0 ys)
  case Nil
  then show ?case using coalesce_step_end [OF Nil.prems(1)] by (subst nvfs_coalesce_gpu_pages.simps) (auto simp: fun_upd_idem)
next
  case (Cons bv bvs)
  let ?pn = "rel_page e s" and ?j = "rel_page e s (bv_page bv)" and ?l = "sum_list (map bv_len run)"
  let ?J = "iter_joins m ?pn"
  have mp: "mappable e s p m bv" using Cons.prems(2) by simp
  note step = coalesce_step_at [OF Cons.prems(1) mp refl Cons.prems(5) refl]
  show ?case
  proof (cases "?J run bv")
    case True
    let ?s = "s\<lparr>mgroups := (mgroups s)(p \<mapsto> dma_mark ?j m)\<rparr>" and ?m = "dma_mark ?j m"
    obtain it1 where it1: "coalesce_step e it ?l a s = Some (Added it1 (bv_len bv) (gpu_index m ?j), ?s)" "cursor_at it1 bvs"
      using step True by auto
    obtain xs where xs: "ys = bv # xs" "grow ?J (run @ [bv]) bvs = (xs, zs)"
      using Cons.prems(7) True by (auto simp: apfst_def map_prod_def split: prod.splits)
    have pn: "rel_page e ?s = ?pn" by (simp add: fun_eq_iff)
    have IH: "\<exists>it' i. nvfs_coalesce_gpu_pages e it1 (sum_list (map bv_len (run @ [bv]))) a (gpu_index m ?j) ?s =
        Some (it', sum_list (map bv_len ((run @ [bv]) @ xs)), i,
          ?s\<lparr>mgroups := (mgroups ?s)(p \<mapsto> fold dma_mark (map (\<lambda>bv. rel_page e ?s (bv_page bv)) xs) ?m)\<rparr>) \<and>
        cursor_at it' zs \<and> (zs \<noteq> [] \<longrightarrow> on_vec it')"
    proof (rule Cons.IH [OF it1(2)])
      show "\<forall>bv \<in> set bvs. mappable e ?s p ?m bv" using Cons.prems(2) by (auto intro: mappable_mark)
      show "grow (iter_joins ?m (rel_page e ?s)) (run @ [bv]) bvs = (xs, zs)" using xs(2) by (simp add: pn)
      show "a = gpu_addr ?m (rel_page e ?s (bv_page (hd (run @ [bv]))))" using Cons.prems(4,5) by simp
    qed (use Cons.prems(6) in simp_all)
    have len: "(?l + bv_len bv) mod 2 ^ 32 = sum_list (map bv_len (run @ [bv]))" using Cons.prems(6) by simp
    have unf: "nvfs_coalesce_gpu_pages e it ?l a i0 s =
        nvfs_coalesce_gpu_pages e it1 (sum_list (map bv_len (run @ [bv]))) a (gpu_index m ?j) ?s"
      unfolding len [symmetric] by (subst nvfs_coalesce_gpu_pages.simps) (simp add: it1(1))
    show ?thesis using IH unfolding unf pn mgroups_upd_twice xs(1) by (simp del: fun_upd_apply)
  next
    case False
    then have "ys = []" "zs = bv # bvs" using Cons.prems(7) by simp_all
    moreover obtain it1 where "coalesce_step e it ?l a s = Some (Stopped it1, s)" "cursor_at it1 (bv # bvs)" "on_vec it1"
      using step False by auto
    ultimately show ?thesis using Cons.prems(3) by (subst nvfs_coalesce_gpu_pages.simps) (simp add: fun_upd_idem)
  qed
qed

text \<open>The bus accepts a segment: it stays in a GPU page, the mapping is in one piece, or the check of its GPU pages passes.\<close>

definition seg_accepted :: "nvfs_io_mgroup \<Rightarrow> p2p_dma_mapping \<Rightarrow> nat \<Rightarrow> nat \<Rightarrow> nat \<Rightarrow> bool" where
  "seg_accepted m dm n j l \<longleftrightarrow> l \<le> 65536 \<or> n \<le> 1 \<or> dma_contiguous dm (bus_addr m dm j) (gpu_index m j) l = Some True"

lemma fold_marks_held: "fold dma_mark js (m\<lparr>mg_ref := r\<rparr>) = (fold dma_mark js m)\<lparr>mg_ref := r\<rparr>"
  by (simp add: fold_marks_metadata)

lemma rel_page_upd: "rel_page e (s\<lparr>mgroups := x\<rparr>) = rel_page e s"
  by (simp add: fun_eq_iff)

lemma map_gpu_segment_at:
  assumes "cursor_at (di_iter di) (bv # bvs)" and "on_vec (di_iter di)" and "\<forall>v \<in> set (bv # bvs). mappable e s p m v"
    and "sum_list (map bv_len (bv # bvs)) < 2 ^ 32" and "grow (iter_joins m (rel_page e s)) [bv] bvs = (ys, zs)"
    and "\<not> nvfs_peer_stats_enabled e" and "mapped_for (gpu_info m) dev dm n" and "dm_entries dm = length (dma_addresses dm)"
    and "has_bus m dm j" and "j = rel_page e s (bv_page bv)" and "seg_accepted m dm n j (sum_list (map bv_len (bv # ys)))"
  shows "\<exists>it'. map_gpu_segment e dev p bv di (s\<lparr>mgroups := (mgroups s)(p \<mapsto> m\<lparr>mg_ref := mg_ref m + 1\<rparr>)\<rparr>) =
      Some (1, di\<lparr>di_iter := it', di_addr := bus_addr m dm j + of_nat (bv_offset bv), di_len := sum_list (map bv_len (bv # ys)),
          di_status := BLK_STS_OK\<rparr>,
        s\<lparr>mgroups := (mgroups s)(p \<mapsto> held (Suc 0) (fold dma_mark (map (\<lambda>v. rel_page e s (bv_page v)) (bv # ys)) m))\<rparr>) \<and>
    cursor_at it' zs \<and> (zs \<noteq> [] \<longrightarrow> on_vec it')"
proof -
  let ?pn = "rel_page e s"
  have mp: "mappable e s p m bv" using assms(3) by simp
  have live: "page_shift e = 12" "mgroups s p = Some m" "0 < mg_ref m" using mappable_live [OF mp] by simp_all
  let ?m1 = "m\<lparr>mg_ref := mg_ref m + 1\<rparr>"
  let ?s1 = "s\<lparr>mgroups := (mgroups s)(p \<mapsto> ?m1)\<rparr>"
  let ?m2 = "dma_mark j ?m1"
  let ?s2 = "s\<lparr>mgroups := (mgroups s)(p \<mapsto> ?m2)\<rparr>"
  let ?m3 = "fold dma_mark (map (\<lambda>v. ?pn (bv_page v)) ys) ?m2"
  let ?s3 = "s\<lparr>mgroups := (mgroups s)(p \<mapsto> ?m3)\<rparr>"
  note vf = vector_facts [OF mp assms(10) refl refl]
  have pf: "page_in_flight e s p m j (bv_page bv)" and ok: "0 < bv_len bv" "bv_offset bv + bv_len bv \<le> 4096"
    using mp assms(10) by (simp_all add: mappable_def bvec_ok_def)
  note mark = set_dma_in_flight [OF pf ok, of "mg_ref m + 1"]
  obtain it1 where ad: "nvfs_advance_bvec bv (di_iter di) = Some it1" "cursor_at it1 bvs" using peek_at [OF assms(1,2)] by auto
  have pn: "rel_page e ?s2 = ?pn" by (simp add: fun_eq_iff)
  have "mappable e ?s2 p ?m2 v" if v: "v \<in> set bvs" for v
  proof -
    have "mappable e ?s1 p ?m1 v" using assms(3) v live(3) by (auto intro!: mappable_ref)
    from mappable_mark [OF this, of j] show ?thesis unfolding mgroups_upd_twice .
  qed
  then have "\<exists>it' i. nvfs_coalesce_gpu_pages e it1 (sum_list (map bv_len [bv])) (gpu_addr m j) (gpu_index m j) ?s2 =
      Some (it', sum_list (map bv_len ([bv] @ ys)), i,
        ?s2\<lparr>mgroups := (mgroups ?s2)(p \<mapsto> fold dma_mark (map (\<lambda>v. rel_page e ?s2 (bv_page v)) ys) ?m2)\<rparr>) \<and>
      cursor_at it' zs \<and> (zs \<noteq> [] \<longrightarrow> on_vec it')"
    using assms(4,5,10) by (intro coalesce_at [OF ad(2)]) (simp_all add: rel_page_upd)
  then obtain it' i where co: "nvfs_coalesce_gpu_pages e it1 (bv_len bv) (gpu_addr m j) (gpu_index m j) ?s2 =
      Some (it', sum_list (map bv_len (bv # ys)), i, ?s3)" and it': "cursor_at it' zs" "zs \<noteq> [] \<longrightarrow> on_vec it'"
    unfolding pn mgroups_upd_twice by auto
  have m3: "?m3 = (fold dma_mark (map (\<lambda>v. ?pn (bv_page v)) (bv # ys)) m)\<lparr>mg_ref := mg_ref m + 1\<rparr>"
    using assms(10) fold_marks_held [of "map (\<lambda>v. ?pn (bv_page v)) (bv # ys)" "mg_ref m + 1" m] by simp
  have "page_in_flight e ?s1 p ?m1 j (bv_page bv)" using page_in_flight_ref [OF pf] live(3) by simp
  from page_in_flight_marks [OF this, of "map (\<lambda>v. ?pn (bv_page v)) (bv # ys)"]
  have pf3: "page_in_flight e ?s3 p ?m3 j (bv_page bv)" using assms(10) unfolding mgroups_upd_twice by simp
  have ba: "bus_addr m dm j = dma_addresses dm ! (cur_gpu_base_index (nvfsio m) + j div 16) + of_nat ((j mod 16) * 4096)"
    by (simp add: bus_addr_def)
  have get: "nvfs_get_dma e dev (Some (bv_page bv)) True (int l) ?s3 =
      Some (0, bus_addr m dm j, s\<lparr>mgroups := (mgroups s)(p \<mapsto> dma_held ?m3)\<rparr>)" if "seg_accepted m dm n j l" for l
    using get_dma_in_flight [OF pf3 assms(6) _ assms(8) refl, of dev n "bus_addr m dm j" _ "int l"]
      assms(7,9) that ba unfolding mgroups_upd_twice by (auto simp: has_bus_def seg_accepted_def gpu_index_def)
  have put: "nvfs_mgroup_put e p (s\<lparr>mgroups := (mgroups s)(p \<mapsto> dma_held ?m3)\<rparr>) =
      Some (s\<lparr>mgroups := (mgroups s)(p \<mapsto> held (Suc 0) (fold dma_mark (map (\<lambda>v. ?pn (bv_page v)) (bv # ys)) m))\<rparr>)"
    using put_shared_effect [of "s\<lparr>mgroups := (mgroups s)(p \<mapsto> dma_held ?m3)\<rparr>" p "dma_held ?m3" e False] live(3)
    unfolding m3 by (simp add: nvfs_mgroup_put_def dma_held_def held_def ref_commute add.commute)
  have same: "bv\<lparr>bv_len := bv_len bv\<rparr> = bv" by simp
  have "map_gpu_segment e dev p bv di ?s1 = Some (1, di\<lparr>di_iter := it', di_addr := bus_addr m dm j + of_nat (bv_offset bv),
      di_len := sum_list (map bv_len (bv # ys)), di_status := BLK_STS_OK\<rparr>,
      s\<lparr>mgroups := (mgroups s)(p \<mapsto> held (Suc 0) (fold dma_mark (map (\<lambda>v. ?pn (bv_page v)) (bv # ys)) m))\<rparr>)"
    unfolding map_gpu_segment_def
    by (simp add: fun_upd_same vf mark ad(1) co get [OF assms(11)] put same Let_def del: fun_upd_apply list.map sum_list.Cons)
  then show ?thesis using it' by blast
qed

lemma runs_eq_Nil [simp]: "runs J xs = [] \<longleftrightarrow> xs = []"
proof (cases xs)
  case (Cons x ys)
  then show ?thesis using runs_from_length [of J "[x]" ys] by auto
qed simp

section \<open>All segments\<close>

text \<open>
  How the driver of the device calls the hooks: the first one once, the second one until it does not return 1, at most
  \<open>k\<close> times. The result is the list of the segments with their addresses and lengths, the cookie and the state.
\<close>

fun iter_drain ::
    "kenv \<Rightarrow> request \<Rightarrow> pci_dev \<Rightarrow> nat \<Rightarrow> blk_dma_iter \<Rightarrow> kstate \<Rightarrow> ((u64 \<times> nat) list \<times> kstate) option" where
  "iter_drain e r dev 0 di s = Some ([], s)"
| "iter_drain e r dev (Suc k) di s =
     do { (ret, di1, s1) \<leftarrow> nvfs_blk_rq_dma_map_iter_next e r dev di s;
          if ret \<noteq> 1 then Some ([], s1)
          else do { (segs, s2) \<leftarrow> iter_drain e r dev k di1 s1; Some ((di_addr di1, di_len di1) # segs, s2) } }"

definition iter_segments ::
    "kenv \<Rightarrow> request \<Rightarrow> bio list \<Rightarrow> pci_dev \<Rightarrow> nat \<Rightarrow> blk_dma_iter \<Rightarrow> kstate \<Rightarrow>
     (int \<times> (u64 \<times> nat) list \<times> mptr option \<times> kstate) option" where
  "iter_segments e r bios dev k di s =
     do { (ret, di1, cookie, s1) \<leftarrow> nvfs_blk_rq_dma_map_iter_start e (Some r) bios dev di s;
          if ret \<noteq> 1 then Some (ret, [], cookie, s1)
          else do { (segs, s2) \<leftarrow> iter_drain e r dev k di1 s1; Some (ret, (di_addr di1, di_len di1) # segs, cookie, s2) } }"

lemma held_marks [simp]:
  "dma_mark k (held n m) = held n (dma_mark k m)" "fold dma_mark js (held n m) = held n (fold dma_mark js m)"
  by (auto simp: dma_mark_def held_def fold_marks_metadata)

lemma refs_frame [simp]:
  "has_bus (held n m) = has_bus m" "has_bus (dma_mark k m) = has_bus m" "bus_addr (dma_mark k m) = bus_addr m"
  "gpu_index (held n m) = gpu_index m" "gpu_index (dma_mark k m) = gpu_index m"
  by (simp_all add: has_bus_def bus_addr_def gpu_index_def fun_eq_iff)

lemma fold_marks_frame [simp]:
  "has_bus (fold dma_mark js m) = has_bus m" "bus_addr (fold dma_mark js m) = bus_addr m"
  "iter_joins (fold dma_mark js m) = iter_joins m" "gpu_index (fold dma_mark js m) = gpu_index m"
  by (induction js arbitrary: m) simp_all

lemma seg_accepted_frame [simp]:
  "seg_accepted (held n m) = seg_accepted m" "seg_accepted (dma_mark k m) = seg_accepted m" "seg_accepted (fold dma_mark js m) = seg_accepted m"
  by (simp_all add: seg_accepted_def fun_eq_iff)

lemma mappable_marks:
  assumes "mappable e s p m bv"
  shows "mappable e (s\<lparr>mgroups := (mgroups s)(p \<mapsto> held n (fold dma_mark js m))\<rparr>) p (held n (fold dma_mark js m)) bv"
proof -
  have "has_phys (fold dma_mark js m) = has_phys m" by (induction js arbitrary: m) simp_all
  then have "mappable e (s\<lparr>mgroups := (mgroups s)(p \<mapsto> fold dma_mark js m)\<rparr>) p (fold dma_mark js m) bv"
    using assms page_in_flight_marks by (auto simp: mappable_def)
  from mappable_held [OF this, of n] show ?thesis unfolding mgroups_upd_twice .
qed

definition marked :: "kenv \<Rightarrow> kstate \<Rightarrow> bio_vec list \<Rightarrow> nvfs_io_mgroup \<Rightarrow> nvfs_io_mgroup" where
  "marked e s bvs = fold dma_mark (map (\<lambda>v. rel_page e s (bv_page v)) bvs)"

text \<open>What the iteration relies on: the vectors left are in flight, have bus addresses, and their runs are accepted by the bus.\<close>

definition iter_ready ::
    "kenv \<Rightarrow> kstate \<Rightarrow> mptr \<Rightarrow> nvfs_io_mgroup \<Rightarrow> pci_dev \<Rightarrow> p2p_dma_mapping \<Rightarrow> nat \<Rightarrow> bio_vec list \<Rightarrow> bool" where
  "iter_ready e s p m dev dm n bvs \<longleftrightarrow> \<not> nvfs_peer_stats_enabled e \<and> mapped_for (gpu_info m) dev dm n \<and>
     dm_entries dm = length (dma_addresses dm) \<and> sum_list (map bv_len bvs) < 2 ^ 32 \<and>
     (\<forall>bv \<in> set bvs. mappable e s p m bv \<and> has_bus m dm (rel_page e s (bv_page bv))) \<and>
     (\<forall>run \<in> set (runs (iter_joins m (rel_page e s)) bvs).
        seg_accepted m dm n (rel_page e s (bv_page (hd run))) (sum_list (map bv_len run)))"

definition run_segment :: "kenv \<Rightarrow> kstate \<Rightarrow> nvfs_io_mgroup \<Rightarrow> p2p_dma_mapping \<Rightarrow> bio_vec list \<Rightarrow> u64 \<times> nat" where
  "run_segment e s m dm run =
     (bus_addr m dm (rel_page e s (bv_page (hd run))) + of_nat (bv_offset (hd run)), sum_list (map bv_len run))"

lemma map_next_at:
  assumes "cursor_at (di_iter di) (bv # bvs)" and "on_vec (di_iter di)" and "iter_ready e s p m dev dm n (bv # bvs)"
    and "nvfs_validate_gpu_request r = 0" and "grow (iter_joins m (rel_page e s)) [bv] bvs = (ys, zs)"
  shows "\<exists>di'. nvfs_map_next_gpu_segment e r dev di s =
      Some (1, di', Some p, s\<lparr>mgroups := (mgroups s)(p \<mapsto> held (Suc 0) (marked e s (bv # ys) m))\<rparr>) \<and>
    (di_addr di', di_len di') = run_segment e s m dm (bv # ys) \<and> cursor_at (di_iter di') zs \<and> (zs \<noteq> [] \<longrightarrow> on_vec (di_iter di'))"
proof -
  let ?J = "iter_joins m (rel_page e s)"
  have mp: "mappable e s p m bv" using assms(3) by (simp add: iter_ready_def)
  have "runs ?J (bv # bvs) = (bv # ys) # runs ?J zs" using runs_from_grow [OF assms(5)] by simp
  then have acc: "seg_accepted m dm n (rel_page e s (bv_page bv)) (sum_list (map bv_len (bv # ys)))"
    using assms(3) by (auto simp: iter_ready_def)
  from assms(3) map_gpu_segment_at [OF assms(1,2) _ _ assms(5) _ _ _ _ refl acc, of p dev]
  obtain it' where "map_gpu_segment e dev p bv di (s\<lparr>mgroups := (mgroups s)(p \<mapsto> m\<lparr>mg_ref := mg_ref m + 1\<rparr>)\<rparr>) =
      Some (1, di\<lparr>di_iter := it', di_addr := bus_addr m dm (rel_page e s (bv_page bv)) + of_nat (bv_offset bv),
          di_len := sum_list (map bv_len (bv # ys)), di_status := BLK_STS_OK\<rparr>,
        s\<lparr>mgroups := (mgroups s)(p \<mapsto> held (Suc 0) (marked e s (bv # ys) m))\<rparr>)"
    and it': "cursor_at it' zs" "zs \<noteq> [] \<longrightarrow> on_vec it'"
    unfolding marked_def iter_ready_def by auto
  then show ?thesis
    using peek_at [OF assms(1,2)] from_page_mappable [OF mp] assms(4)
    by (intro exI [of _ "di\<lparr>di_iter := it', di_addr := bus_addr m dm (rel_page e s (bv_page bv)) + of_nat (bv_offset bv),
          di_len := sum_list (map bv_len (bv # ys)), di_status := BLK_STS_OK\<rparr>"])
      (simp add: nvfs_map_next_gpu_segment_def run_segment_def)
qed

lemma map_next_end:
  assumes "cursor_at it []"
  shows "nvfs_peek_next_bvec it = Some None"
  using assms sum_lens_pos by (auto simp: cursor_at_def nvfs_peek_next_bvec_def iter_vecs_def)

lemma iter_ready_step:
  assumes "iter_ready e s p m dev dm n (bv # bvs)" and "grow (iter_joins m (rel_page e s)) [bv] bvs = (ys, zs)"
    and "m' = held (Suc 0) (marked e s (bv # ys) m)" and "s' = s\<lparr>mgroups := (mgroups s)(p \<mapsto> m')\<rparr>"
  shows "iter_ready e s' p m' dev dm n zs"
proof -
  let ?J = "iter_joins m (rel_page e s)"
  have "runs ?J (bv # bvs) = (bv # ys) # runs ?J zs" using runs_from_grow [OF assms(2)] by simp
  moreover have "mappable e s' p m' v" if "mappable e s p m v" for v
    using mappable_marks [OF that] unfolding assms(3,4) marked_def .
  ultimately show ?thesis
    using assms(1) grow_split [OF assms(2)] by (auto simp: iter_ready_def assms(3,4) rel_page_upd marked_def)
qed

lemma iter_drain_at:
  assumes "cursor_at (di_iter di) bvs" and "bvs \<noteq> [] \<longrightarrow> on_vec (di_iter di)" and "iter_ready e s p m dev dm n bvs"
    and "nvfs_validate_gpu_request r = 0" and "mgroups s p = Some m" and "rs = runs (iter_joins m (rel_page e s)) bvs" and "length rs \<le> k"
  shows "iter_drain e r dev k di s = Some (map (run_segment e s m dm) rs, s\<lparr>mgroups := (mgroups s)(p \<mapsto> held (length rs) (marked e s bvs m))\<rparr>)"
  using assms
proof (induction k arbitrary: di s m bvs rs)
  case 0
  then have "bvs = []" by simp
  then show ?case using 0 by (simp add: marked_def fun_upd_idem)
next
  case (Suc k)
  show ?case
  proof (cases bvs)
    case Nil
    then have "iter_drain e r dev (Suc k) di s = Some ([], s)"
      using map_next_end [of "di_iter di"] Suc.prems(1) by (simp add: nvfs_blk_rq_dma_map_iter_next_def nvfs_map_next_gpu_segment_def)
    then show ?thesis using Suc.prems Nil by (simp add: marked_def fun_upd_idem)
  next
    case (Cons bv bvs')
    let ?J = "iter_joins m (rel_page e s)"
    obtain ys zs where g: "grow ?J [bv] bvs' = (ys, zs)" by (cases "grow ?J [bv] bvs'")
    define m' where "m' = held (Suc 0) (marked e s (bv # ys) m)"
    define s' where "s' = s\<lparr>mgroups := (mgroups s)(p \<mapsto> m')\<rparr>"
    have rs: "rs = (bv # ys) # runs ?J zs" using runs_from_grow [OF g] Suc.prems(6) Cons by simp
    obtain di' where d: "nvfs_map_next_gpu_segment e r dev di s = Some (1, di', Some p, s')"
      "(di_addr di', di_len di') = run_segment e s m dm (bv # ys)" "cursor_at (di_iter di') zs" "zs \<noteq> [] \<longrightarrow> on_vec (di_iter di')"
      using map_next_at [OF _ _ _ Suc.prems(4) g, of di p dev dm n] Suc.prems(1-3) unfolding m'_def s'_def Cons by blast
    have J: "iter_joins m' (rel_page e s') = ?J" by (simp add: m'_def s'_def rel_page_upd marked_def)
    have "iter_drain e r dev k di' s' = Some (map (run_segment e s' m' dm) (runs ?J zs),
        s'\<lparr>mgroups := (mgroups s')(p \<mapsto> held (length (runs ?J zs)) (marked e s' zs m'))\<rparr>)"
    proof (rule Suc.IH [OF d(3,4) _ Suc.prems(4)])
      show "iter_ready e s' p m' dev dm n zs"
        using Suc.prems(3) unfolding Cons by (rule iter_ready_step [OF _ g m'_def s'_def])
      show "runs ?J zs = runs (iter_joins m' (rel_page e s')) zs" unfolding J ..
      show "length (runs ?J zs) \<le> k" using Suc.prems(7) unfolding rs by simp
    qed (simp add: s'_def)
    moreover have "run_segment e s' m' dm = run_segment e s m dm"
      by (simp add: run_segment_def s'_def m'_def rel_page_upd marked_def fun_eq_iff)
    moreover have "s'\<lparr>mgroups := (mgroups s')(p \<mapsto> held (length (runs ?J zs)) (marked e s' zs m'))\<rparr> =
        s\<lparr>mgroups := (mgroups s)(p \<mapsto> held (length rs) (marked e s bvs m))\<rparr>"
      using grow_split [OF g] unfolding Cons s'_def mgroups_upd_twice by (simp add: m'_def rs marked_def rel_page_upd del: fun_upd_apply)
    ultimately show ?thesis using d(1,2) by (simp add: nvfs_blk_rq_dma_map_iter_next_def rs del: fun_upd_apply)
  qed
qed

lemma iter_segments_at:
  assumes "nvfs_blk_rq_check (Some r)" and "nvfs_validate_gpu_request r = 0" and "chain_vecs bios vss" and "concat vss = bvs"
    and "bvs \<noteq> []" and "iter_ready e s p m dev dm n bvs" and "rs = runs (iter_joins m (rel_page e s)) bvs" and "length rs \<le> Suc k"
  shows "iter_segments e r bios dev k di s =
    Some (1, map (run_segment e s m dm) rs, Some p, s\<lparr>mgroups := (mgroups s)(p \<mapsto> held (length rs) (marked e s bvs m))\<rparr>)"
proof -
  let ?J = "iter_joins m (rel_page e s)"
  obtain bv bvs' where bvs: "bvs = bv # bvs'" using assms(5) by (cases bvs) auto
  have mp: "mappable e s p m v" if "v \<in> set bvs" for v using that assms(6) by (simp add: iter_ready_def)
  then have "\<forall>v \<in> set bvs. 0 < bv_len v" by (auto simp: mappable_def bvec_ok_def)
  then obtain b bs where b: "bios = b # bs" "cursor_at \<lparr> ri_bios = bios, ri_iter = bi_iter b \<rparr> bvs" "bi_size (bi_iter b) \<noteq> 0"
    using start_at [OF assms(3)] assms(4,5) by auto
  let ?di = "di\<lparr>di_iter := \<lparr> ri_bios = bios, ri_iter = bi_iter b \<rparr>, di_status := BLK_STS_OK\<rparr>"
  obtain ys zs where g: "grow ?J [bv] bvs' = (ys, zs)" by (cases "grow ?J [bv] bvs'")
  have rs: "rs = (bv # ys) # runs ?J zs" using runs_from_grow [OF g] assms(7) bvs by simp
  define m' where "m' = held (Suc 0) (marked e s (bv # ys) m)"
  define s' where "s' = s\<lparr>mgroups := (mgroups s)(p \<mapsto> m')\<rparr>"
  obtain di' where d: "nvfs_map_next_gpu_segment e r dev ?di s = Some (1, di', Some p, s')"
    "(di_addr di', di_len di') = run_segment e s m dm (bv # ys)" "cursor_at (di_iter di') zs" "zs \<noteq> [] \<longrightarrow> on_vec (di_iter di')"
    using map_next_at [OF _ _ _ assms(2) g, of ?di p dev dm n] b(2,3) assms(6) unfolding m'_def s'_def bvs by auto
  have J: "iter_joins m' (rel_page e s') = ?J" by (simp add: m'_def s'_def rel_page_upd marked_def)
  have dr: "iter_drain e r dev k di' s' = Some (map (run_segment e s' m' dm) (runs ?J zs),
      s'\<lparr>mgroups := (mgroups s')(p \<mapsto> held (length (runs ?J zs)) (marked e s' zs m'))\<rparr>)"
  proof (rule iter_drain_at [OF d(3,4) _ assms(2)])
    show "iter_ready e s' p m' dev dm n zs" using assms(6) unfolding bvs by (rule iter_ready_step [OF _ g m'_def s'_def])
    show "runs ?J zs = runs (iter_joins m' (rel_page e s')) zs" unfolding J ..
    show "length (runs ?J zs) \<le> k" using assms(8) unfolding rs by simp
  qed (simp add: s'_def)
  have seg: "run_segment e s' m' dm = run_segment e s m dm"
    by (simp add: run_segment_def s'_def m'_def rel_page_upd marked_def fun_eq_iff)
  have st: "s'\<lparr>mgroups := (mgroups s')(p \<mapsto> held (length (runs ?J zs)) (marked e s' zs m'))\<rparr> =
      s\<lparr>mgroups := (mgroups s)(p \<mapsto> held (length rs) (marked e s bvs m))\<rparr>"
    using grow_split [OF g] unfolding bvs s'_def mgroups_upd_twice by (simp add: m'_def rs marked_def rel_page_upd del: fun_upd_apply)
  have "nvfs_blk_rq_dma_map_iter_start e (Some r) bios dev di s = Some (1, di', Some p, s')"
    using assms(1) d(1) b(1) by (simp add: nvfs_blk_rq_dma_map_iter_start_def)
  then show ?thesis using d(2) dr by (simp add: iter_segments_def seg st rs del: fun_upd_apply)
qed

text \<open>
  Where all vectors but the last are whole pages, the segments are those of the scatter/gather list. The
  addresses in GPU memory must not be 0, which that list takes for the lack of one.
\<close>

lemma iter_runs:
  assumes "be_nvme q" and "\<forall>v \<in> set (butlast (run @ bvs)). bv_len v = 4096" and "joined (joins q m pn) run"
    and "\<forall>v \<in> set (run @ bvs). gpu_addr m (pn (bv_page v)) \<noteq> 0"
  shows "runs_from (iter_joins m pn) run bvs = runs_from (joins q m pn) run bvs"
  using assms(2-)
proof (induction bvs arbitrary: run)
  case (Cons bv bvs)
  have ne: "run \<noteq> []" using Cons.prems(2) by (simp add: joined_def)
  have full: "\<forall>v \<in> set run. bv_len v = 4096" using Cons.prems(1) by (auto simp: butlast_append)
  have "map bv_len run = replicate (length run) 4096" using full by (simp add: map_replicate_const [symmetric])
  then have "sum_list (map bv_len run) = length run * 4096" by (simp add: sum_list_replicate)
  moreover have "gpu_addr m (pn (bv_page (last run))) = gpu_addr m (pn (bv_page (hd run))) + of_nat (length run - 1) * 4096"
    using run_contiguous [OF Cons.prems(2), of "length run - 1"] ne by (simp add: last_conv_nth)
  moreover have "of_nat (length run) = of_nat (length run - 1) + (1 :: u64)" using ne by (simp add: of_nat_diff Suc_le_eq)
  ultimately have J: "iter_joins m pn run bv \<longleftrightarrow> joins q m pn run bv"
    using assms(1) Cons.prems(3) ne by (auto simp: iter_joins_def joins_def gpu_index_def algebra_simps)
  show ?case
  proof (cases "joins q m pn run bv")
    case True
    then show ?thesis using Cons.IH [of "run @ [bv]"] Cons.prems J joined_snoc [OF Cons.prems(2) True] by simp
  next
    case False
    have "joined (joins q m pn) [bv]" by (simp add: joined_def)
    then show ?thesis using Cons.IH [of "[bv]"] Cons.prems J False by (auto simp: butlast_append)
  qed
qed simp

section \<open>The iterator replaces the scatter/gather list\<close>

text \<open>
  C12. The hooks for newer kernels do what the scatter/gather hooks do. For a request of the NVMe driver whose pages are in
  flight, all vectors but the last being whole pages, let the bus accept each run. However the vectors are divided among the bios of
  the request, the first call and enough further ones yield the segments of the scatter/gather list, with the
  same addresses and lengths in the same order, and leave the driver in the same state, down to the marks on the blocks
  and the references held; the cookie is the group.
\<close>

theorem iterator_equals_scatter_gather:
  assumes "nvfs_blk_rq_check (Some r)" and "rq_bvecs r \<noteq> []" and "\<forall>bv \<in> set (rq_bvecs r). mappable e s p m bv"
    and "\<not> blk_integrity_rq r" and "nvfs_req_payload_supported r" and "\<not> dma_drain_needed r"
    and "0 < n0" and "127 \<le> length gs" and "sg_marked n0 0 gs"
    and "rs = runs (joins q m (rel_page e s)) (rq_bvecs r)" and "sg_fits q n0 (length rs)"
    and "be_nvme q" and "mapped_for (gpu_info m) dev dm l" and "dm_entries dm = length (dma_addresses dm)"
    and "\<forall>bv \<in> set (rq_bvecs r). has_bus m dm (rel_page e s (bv_page bv))" and "\<not> nvfs_peer_stats_enabled e" and "0 \<le> dma_ref m"
    and "blk_rq_payload_bytes r = sum_list (map bv_len (rq_bvecs r))" and "\<forall>bv \<in> set (butlast (rq_bvecs r)). bv_len bv = 4096"
    and "\<forall>bv \<in> set (rq_bvecs r). gpu_addr m (rel_page e s (bv_page bv)) \<noteq> 0"
    and "\<forall>run \<in> set rs. seg_accepted m dm l (rel_page e s (bv_page (hd run))) (sum_list (map bv_len run))"
    and "chain_vecs bios vss" and "concat vss = rq_bvecs r" and "length rs \<le> Suc k"
  shows "\<exists>r' gs1 gs2 s1 s2. nvfs_blk_rq_map_sg_internal e q (Some r) (Some gs) s = Some (int (length rs), r', Some gs1, s1) \<and>
    nvfs_dma_map_sg_attrs_internal e q dev gs1 (length rs) s1 = Some (int (length rs), gs2, s2) \<and>
    iter_segments e r bios dev k di s =
      Some (1, map (\<lambda>g. (sg_dma_address g, sg_dma_len g)) (take (length rs) gs2), Some p, s2)"
proof -
  let ?bvs = "rq_bvecs r"
  define m1 where "m1 = fold dma_mark (map (\<lambda>bv. rel_page e s (bv_page bv)) ?bvs) m"
  from nvme_hooks_outcome [OF assms(1-17) m1_def refl refl]
  obtain r' gs1 gs2 where sg: "nvfs_blk_rq_map_sg_internal e q (Some r) (Some gs) s =
      Some (int (length rs), r', Some gs1, s\<lparr>mgroups := (mgroups s)(p \<mapsto> m1)\<rparr>)"
    "nvfs_dma_map_sg_attrs_internal e q dev gs1 (length rs) (s\<lparr>mgroups := (mgroups s)(p \<mapsto> m1)\<rparr>) =
      Some (int (length rs), gs2, s\<lparr>mgroups := (mgroups s)(p \<mapsto> held (length rs) m1)\<rparr>)"
    and len: "length rs \<le> length gs2"
    and ent: "\<forall>i < length rs. sg_dma_address (gs2 ! i) = bus_addr m dm (rel_page e s (bv_page (hd (rs ! i)))) + of_nat (bv_offset (hd (rs ! i))) \<and>
       sg_dma_len (gs2 ! i) = sum_list (map bv_len (rs ! i))"
    by (elim exE conjE)
  obtain bv bvs where bvs: "?bvs = bv # bvs" using assms(2) by (cases ?bvs) auto
  have rs: "rs = runs (iter_joins m (rel_page e s)) ?bvs"
    using iter_runs [of q "[bv]" bvs m "rel_page e s"] assms(10,12,19,20) bvs by (simp add: joined_def)
  have small: "sum_list (map bv_len ?bvs) < 2 ^ 32" using assms(5,18) by (simp add: nvfs_req_payload_supported_def)
  have ready: "iter_ready e s p m dev dm l ?bvs"
    unfolding iter_ready_def using assms(3,13-16,21) small by (auto simp flip: rs)
  have "nvfs_validate_gpu_request r = 0" using assms(4-6) by (simp add: nvfs_validate_gpu_request_def)
  from iter_segments_at [OF assms(1) this assms(22,23,2) ready rs assms(24)]
  have it: "iter_segments e r bios dev k di s =
      Some (1, map (run_segment e s m dm) rs, Some p, s\<lparr>mgroups := (mgroups s)(p \<mapsto> held (length rs) m1)\<rparr>)"
    unfolding m1_def marked_def .
  have "map (run_segment e s m dm) rs = map (\<lambda>g. (sg_dma_address g, sg_dma_len g)) (take (length rs) gs2)"
    using len ent by (intro nth_equalityI) (auto simp: run_segment_def)
  then show ?thesis using sg it by auto
qed

text \<open>The same request as before, with its vectors in two bios.\<close>

definition ex_bios :: "bio list" where
  "ex_bios = [\<lparr> bi_io_vec = take 1 (rq_bvecs ex_request), bi_iter = \<lparr> bi_size = 4096, bi_idx = 0, bi_bvec_done = 0 \<rparr> \<rparr>,
     \<lparr> bi_io_vec = rq_bvecs ex_request, bi_iter = \<lparr> bi_size = 8192, bi_idx = 1, bi_bvec_done = 0 \<rparr> \<rparr>]"

definition ex_dma_iter :: blk_dma_iter where
  "ex_dma_iter = \<lparr> di_iter = \<lparr> ri_bios = [], ri_iter = \<lparr> bi_size = 0, bi_idx = 0, bi_bvec_done = 0 \<rparr> \<rparr>, di_addr = 0, di_len = 0,
     di_status = BLK_STS_OK \<rparr>"

lemma ex_chain: "chain_vecs ex_bios [take 1 (rq_bvecs ex_request), drop 1 (rq_bvecs ex_request)]"
  by (simp add: chain_vecs_def ex_bios_def iter_vecs_def ex_request_def)

theorem iterator_equals_scatter_gather_witness:
  "\<exists>r' gs1 gs2 s1 s2. nvfs_blk_rq_map_sg_internal ex_env ex_blk (Some ex_request) (Some ex_sgl) ex_flight_state =
      Some (2, r', Some gs1, s1) \<and>
    nvfs_dma_map_sg_attrs_internal ex_env ex_blk ex_dev gs1 2 s1 = Some (2, gs2, s2) \<and>
    iter_segments ex_env ex_request ex_bios ex_dev 9 ex_dma_iter ex_flight_state =
      Some (1, map (\<lambda>g. (sg_dma_address g, sg_dma_len g)) (take 2 gs2), Some 100, s2)"
proof -
  let ?rs = "runs (joins ex_blk ex_flight_group (rel_page ex_env ex_flight_state)) (rq_bvecs ex_request)"
  have n: "length ?rs = 2" by (simp add: ex_runs)
  have j: "rel_page ex_env ex_flight_state 502 = 2" "rel_page ex_env ex_flight_state 503 = 3" "rel_page ex_env ex_flight_state 505 = 5"
    using ex_flight_page [of 2] ex_flight_page [of 3] ex_flight_page [of 5] by simp_all
  have bus: "\<forall>bv \<in> set (rq_bvecs ex_request). has_bus ex_flight_group ex_mapping (rel_page ex_env ex_flight_state (bv_page bv))"
    by (simp add: ex_request_def j has_bus_def bus_addr_def ex_mapping_def ex_flight_group_def zero_nvfs_io_def)
  have d: "dm_entries ex_mapping = length (dma_addresses ex_mapping)" "\<not> nvfs_peer_stats_enabled ex_env" "0 \<le> dma_ref ex_flight_group"
    "be_nvme ex_blk"
    by (simp_all add: ex_mapping_def ex_env_def ex_flight_group_def ex_ready_group_def ex_group_def ex_blk_def zero_mgroup_def)
  have x: "blk_rq_payload_bytes ex_request = sum_list (map bv_len (rq_bvecs ex_request))"
    "\<forall>bv \<in> set (butlast (rq_bvecs ex_request)). bv_len bv = 4096"
    "\<forall>bv \<in> set (rq_bvecs ex_request). gpu_addr ex_flight_group (rel_page ex_env ex_flight_state (bv_page bv)) \<noteq> 0"
    by (simp_all add: ex_request_def j gpu_addr_def ex_flight_group_def ex_ready_group_def ex_ready_gpu_def ex_page_table_def zero_nvfs_io_def)
  have a: "\<forall>run \<in> set ?rs. seg_accepted ex_flight_group ex_mapping N (rel_page ex_env ex_flight_state (bv_page (hd run)))
      (sum_list (map bv_len run))" for N
    by (simp add: ex_runs seg_accepted_def)
  note c = ex_request_ok
  have f: "sg_fits ex_blk 1 (length ?rs)" unfolding n by (simp add: sg_fits_def ex_blk_def)
  have k: "length ?rs \<le> Suc 9" unfolding n by simp
  have ch: "concat [take 1 (rq_bvecs ex_request), drop 1 (rq_bvecs ex_request)] = rq_bvecs ex_request" by simp
  from iterator_equals_scatter_gather [OF c(1-6) zero_less_one c(8,7) refl f d(4) ex_mapped_for d(1) bus d(2,3) x a ex_chain ch k,
      of ex_dma_iter]
  show ?thesis unfolding n by simp
qed

section \<open>Where the two differ\<close>

text \<open>
  Releasing the segments one by one gives back the references of the group, but not the DMA references, which the release
  of a scatter/gather list gives back too.
\<close>

fun unmap_pages :: "kenv \<Rightarrow> mptr \<Rightarrow> nat \<Rightarrow> kstate \<Rightarrow> kstate option" where
  "unmap_pages e p 0 s = Some s"
| "unmap_pages e p (Suc n) s = do { (ret, s1) \<leftarrow> nvfs_dma_unmap_page e (Some p) s; if ret = 0 then unmap_pages e p n s1 else None }"

lemma unmap_pages_keep_dma_refs:
  assumes "mgroups s p = Some (m\<lparr>mg_ref := mg_ref m + int n\<rparr>)" and "0 < mg_ref m"
  shows "unmap_pages e p n s = Some (s\<lparr>mgroups := (mgroups s)(p \<mapsto> m)\<rparr>)"
  using assms
proof (induction n arbitrary: s)
  case 0
  then show ?case by (simp add: fun_upd_idem)
next
  case (Suc n)
  let ?s = "s\<lparr>mgroups := (mgroups s)(p \<mapsto> m\<lparr>mg_ref := mg_ref m + int n\<rparr>)\<rparr>"
  have "nvfs_mgroup_put_dma e p s = Some ?s"
    using put_shared_effect [OF Suc.prems(1), of e True] Suc.prems(2) by (simp add: nvfs_mgroup_put_dma_def)
  moreover have "unmap_pages e p n ?s = Some (s\<lparr>mgroups := (mgroups s)(p \<mapsto> m)\<rparr>)"
    using Suc.IH [of ?s] Suc.prems(2) unfolding mgroups_upd_twice by simp
  ultimately show ?case by (simp add: nvfs_dma_unmap_page_def del: fun_upd_apply)
qed

text \<open>A host page in the middle of a request looks like its end: the call returns 0, without a status, in both cases.\<close>

lemma iter_next_cpu_page_looks_like_end:
  assumes "cursor_at (di_iter di) bvs" and "bvs = [] \<or> on_vec (di_iter di) \<and> cpu_page e s (hd bvs)"
  shows "nvfs_blk_rq_dma_map_iter_next e r dev di s = Some (0, di, s)"
proof (cases bvs)
  case Nil
  then show ?thesis
    using assms(1) map_next_end by (simp add: nvfs_blk_rq_dma_map_iter_next_def nvfs_map_next_gpu_segment_def)
next
  case (Cons bv bvs')
  then show ?thesis
    using assms peek_at [of "di_iter di" bv bvs'] from_cpu_page
    by (simp add: nvfs_blk_rq_dma_map_iter_next_def nvfs_map_next_gpu_segment_def)
qed

text \<open>A request that is refused is reported with 0 as well, as if it were one of host pages; only the status tells.\<close>

lemma iter_start_refusal_returns_zero:
  assumes "nvfs_blk_rq_check (Some r)" and "nvfs_validate_gpu_request r \<noteq> 0" and "chain_vecs bios (vs # vss)"
    and "hd vs = bv" and "\<forall>v \<in> set vs. 0 < bv_len v" and "mappable e s p m bv"
  shows "\<exists>di'. nvfs_blk_rq_dma_map_iter_start e (Some r) bios dev di s = Some (0, di', None, s) \<and> di_status di' = BLK_STS_IOERR"
proof -
  obtain b bs where b: "bios = b # bs" "vs \<noteq> []" "iter_vecs vs (bi_io_vec b) (bi_iter b)"
    using assms(3) by (auto simp: chain_vecs_Cons)
  then obtain vs' where vs: "vs = bv # vs'" using assms(4) by (cases vs) auto
  let ?it = "\<lparr> ri_bios = bios, ri_iter = bi_iter b \<rparr>"
  have "cursor_at \<lparr> ri_bios = [b], ri_iter = bi_iter b \<rparr> vs"
    using b(3) assms(5) by (fastforce simp: cursor_at_def chain_vecs_def)
  moreover have "bi_size (bi_iter b) \<noteq> 0" using b(2,3) assms(5) sum_lens_pos [of vs] by (simp add: iter_vecs_def)
  ultimately have pk: "nvfs_peek_next_bvec ?it = Some (Some bv)"
    using peek_at [of "\<lparr> ri_bios = [b], ri_iter = bi_iter b \<rparr>" bv vs'] vs b(1) by (simp add: nvfs_peek_next_bvec_def)
  have live: "mgroups s p = Some m" "0 < mg_ref m" using mappable_live [OF assms(6)] by simp_all
  have "nvfs_mgroup_put e p (s\<lparr>mgroups := (mgroups s)(p \<mapsto> m\<lparr>mg_ref := mg_ref m + 1\<rparr>)\<rparr>) = Some s"
    using put_visited [OF live, of "m\<lparr>mg_ref := mg_ref m + 1\<rparr>" e] live by (simp add: fun_upd_idem)
  then show ?thesis
    using assms(1,2) pk from_page_mappable [OF assms(6)] b(1)
    by (simp add: nvfs_blk_rq_dma_map_iter_start_def nvfs_map_next_gpu_segment_def)
qed

end
