(* ===== verification/Nvfs_Keeps.thy ===== *)
theory Nvfs_Keeps
  imports Nvfs_Ioctl Nvfs_Iter
begin

text \<open>
  What every operation of the driver keeps, on every path through it, errors included. A small calculus follows the
  shape of the definitions; the interface \<open>kept_property\<close> says what a property of the state has to survive, which is
  the few elementary changes the driver makes to its groups, and its lemmas carry the property through all
  operations that are called from outside.
\<close>

section \<open>The calculus\<close>

named_theorems nvfs_keeps \<open>rules that follow the shape of a definition\<close>

definition after :: "('a \<Rightarrow> bool) \<Rightarrow> 'a option \<Rightarrow> bool" where
  "after Q r \<longleftrightarrow> (\<forall>x. r = Some x \<longrightarrow> Q x)"

lemma after_D: "after Q r \<Longrightarrow> r = Some x \<Longrightarrow> Q x"
  by (simp add: after_def)

lemma after_I: "(\<And>x. r = Some x \<Longrightarrow> Q x) \<Longrightarrow> after Q r"
  by (simp add: after_def)

lemma after_None [nvfs_keeps]: "after Q None"
  by (simp add: after_def)

lemma after_read: "(\<And>x. r = Some x \<Longrightarrow> after Q (k x)) \<Longrightarrow> after Q (Option.bind r k)"
  by (auto simp: after_def bind_eq_Some_conv)

lemma after_seq: "after R r \<Longrightarrow> (\<And>x. R x \<Longrightarrow> after Q (k x)) \<Longrightarrow> after Q (Option.bind r k)"
  by (auto simp: after_def bind_eq_Some_conv)

lemma after_if [nvfs_keeps]: "(b \<Longrightarrow> after Q x) \<Longrightarrow> (\<not> b \<Longrightarrow> after Q y) \<Longrightarrow> after Q (if b then x else y)"
  by simp

lemma after_Let [nvfs_keeps]: "after Q (k x) \<Longrightarrow> after Q (Let x k)"
  by simp

lemma after_prod [nvfs_keeps]: "(\<And>a b. x = (a, b) \<Longrightarrow> after Q (k a b)) \<Longrightarrow> after Q (case x of (a, b) \<Rightarrow> k a b)"
  by (cases x) simp

lemma after_option [nvfs_keeps]:
  "(x = None \<Longrightarrow> after Q y) \<Longrightarrow> (\<And>a. x = Some a \<Longrightarrow> after Q (k a)) \<Longrightarrow> after Q (case x of None \<Rightarrow> y | Some a \<Rightarrow> k a)"
  by (cases x) simp_all

lemma after_errptr [nvfs_keeps]:
  "(\<And>a. x = Ptr a \<Longrightarrow> after Q (k a)) \<Longrightarrow> (x = NullPtr \<Longrightarrow> after Q y) \<Longrightarrow> (\<And>r. x = ErrPtr r \<Longrightarrow> after Q (h r)) \<Longrightarrow>
     after Q (case x of Ptr a \<Rightarrow> k a | NullPtr \<Rightarrow> y | ErrPtr r \<Rightarrow> h r)"
  by (cases x) simp_all

lemma after_sum [nvfs_keeps]:
  "(\<And>a. x = Inl a \<Longrightarrow> after Q (k a)) \<Longrightarrow> (\<And>a. x = Inr a \<Longrightarrow> after Q (h a)) \<Longrightarrow>
     after Q (case x of Inl a \<Rightarrow> k a | Inr a \<Rightarrow> h a)"
  by (cases x) simp_all

lemma after_list [nvfs_keeps]:
  "(x = [] \<Longrightarrow> after Q y) \<Longrightarrow> (\<And>a l. x = a # l \<Longrightarrow> after Q (k a l)) \<Longrightarrow> after Q (case x of [] \<Rightarrow> y | a # l \<Rightarrow> k a l)"
  by (cases x) simp_all

text \<open>The last component of a result is the state; these are the forms in which the model has it.\<close>

abbreviation (input) res1 :: "(kstate \<Rightarrow> bool) \<Rightarrow> kstate option \<Rightarrow> bool" where
  "res1 I \<equiv> after I"

abbreviation (input) res2 :: "(kstate \<Rightarrow> bool) \<Rightarrow> ('a \<times> kstate) option \<Rightarrow> bool" where
  "res2 I \<equiv> after (\<lambda>(a, s). I s)"

abbreviation (input) res3 :: "(kstate \<Rightarrow> bool) \<Rightarrow> ('a \<times> 'b \<times> kstate) option \<Rightarrow> bool" where
  "res3 I \<equiv> after (\<lambda>(a, b, s). I s)"

abbreviation (input) res4 :: "(kstate \<Rightarrow> bool) \<Rightarrow> ('a \<times> 'b \<times> 'c \<times> kstate) option \<Rightarrow> bool" where
  "res4 I \<equiv> after (\<lambda>(a, b, c, s). I s)"

lemma after_bind:
  "res1 I r1 \<Longrightarrow> (\<And>s. I s \<Longrightarrow> after Q (k1 s)) \<Longrightarrow> after Q (Option.bind r1 k1)"
  "res2 I r2 \<Longrightarrow> (\<And>a s. I s \<Longrightarrow> after Q (k2 a s)) \<Longrightarrow> after Q (Option.bind r2 (\<lambda>(a, s). k2 a s))"
  "res3 I r3 \<Longrightarrow> (\<And>a b s. I s \<Longrightarrow> after Q (k3 a b s)) \<Longrightarrow> after Q (Option.bind r3 (\<lambda>(a, b, s). k3 a b s))"
  "res4 I r4 \<Longrightarrow> (\<And>a b c s. I s \<Longrightarrow> after Q (k4 a b c s)) \<Longrightarrow> after Q (Option.bind r4 (\<lambda>(a, b, c, s). k4 a b c s))"
  by (auto simp: after_def bind_eq_Some_conv)

lemma after_Some:
  "I s \<Longrightarrow> res1 I (Some s)" "I s \<Longrightarrow> res2 I (Some (a, s))" "I s \<Longrightarrow> res3 I (Some (a, b, s))" "I s \<Longrightarrow> res4 I (Some (a, b, c, s))"
  by (simp_all add: after_def)

lemma after_ofold:
  assumes "\<And>x s. I s \<Longrightarrow> after I (f x s)" and "I s"
  shows "after I (ofold f xs s)"
  using assms(2)
proof (induction xs arbitrary: s)
  case Nil
  then show ?case by (simp add: after_def)
next
  case (Cons x xs)
  have "after I (f x s)" using assms(1) Cons.prems by simp
  then show ?case using Cons.IH by (auto simp: after_def bind_eq_Some_conv)
qed

section \<open>The shape of a group\<close>

text \<open>
  What stays with a group from \<^verbatim>\<open>mmap\<close> to its release: its index, its size, its pages and, in the block table,
  everything but the states of the blocks.
\<close>

definition same_block :: "nvfs_io_metadata \<Rightarrow> nvfs_io_metadata \<Rightarrow> bool" where
  "same_block b b' \<longleftrightarrow> nvfs_start_magic b' = nvfs_start_magic b \<and> md_page b' = md_page b"

abbreviation same_blocks :: "nvfs_io_metadata list \<Rightarrow> nvfs_io_metadata list \<Rightarrow> bool" where
  "same_blocks \<equiv> list_all2 same_block"

definition same_layout :: "nvfs_io_mgroup \<Rightarrow> nvfs_io_mgroup \<Rightarrow> bool" where
  "same_layout m m' \<longleftrightarrow> base_index m' = base_index m \<and> nvfs_blocks_count m' = nvfs_blocks_count m \<and>
     nvfs_ppages m' = nvfs_ppages m \<and> rel_option same_blocks (nvfs_metadata m) (nvfs_metadata m')"

definition same_shape :: "nvfs_io_mgroup \<Rightarrow> nvfs_io_mgroup \<Rightarrow> bool" where
  "same_shape m m' \<longleftrightarrow> same_layout m m' \<and> mg_ref m' = mg_ref m"

lemma same_block_refl [simp]: "same_block b b"
  by (simp add: same_block_def)

lemma same_block_set [simp]: "same_block b (set_blk st b') = same_block b b'"
  by (simp add: same_block_def)

lemma same_blocks_refl [simp]: "same_blocks md md"
  by (simp add: list_all2_refl)

lemma same_metadata_refl [simp]: "rel_option same_blocks d d"
  by (cases d) simp_all

lemma same_blocks_trans: "same_blocks a b \<Longrightarrow> same_blocks b c \<Longrightarrow> same_blocks a c"
  by (rule list_all2_trans [of same_block same_block same_block]) (simp_all add: same_block_def)

lemma same_blocks_nth: "same_blocks md md' \<Longrightarrow> i < length md \<Longrightarrow> same_block (md ! i) (md' ! i)"
  by (simp add: list_all2_nthD)

lemma same_blocks_upd:
  assumes "same_blocks md md'" and "arr_get md' i = Some b"
  shows "same_blocks md (md'[i := set_blk st b])"
proof -
  have b: "i < length md'" "b = md' ! i" using assms(2) by (auto simp: arr_get_def split: if_splits)
  have len: "length md' = length md" using assms(1) by (simp add: list_all2_lengthD)
  have "same_block (md ! j) (md'[i := set_blk st b] ! j)" if "j < length md" for j
    using same_blocks_nth [OF assms(1) that] that b len by (cases "j = i") (simp_all add: nth_list_update)
  then show ?thesis using len by (simp add: list_all2_conv_all_nth)
qed

lemma same_layout_refl [simp]: "same_layout m m"
  by (simp add: same_layout_def)

lemma same_layout_trans: "same_layout m m' \<Longrightarrow> same_layout m' m'' \<Longrightarrow> same_layout m m''"
  unfolding same_layout_def by (cases "nvfs_metadata m"; cases "nvfs_metadata m'"; cases "nvfs_metadata m''")
    (auto intro: same_blocks_trans)

lemma same_shape_upd [simp]:
  "same_shape m m" "same_shape m (m\<lparr>gpu_info := g\<rparr>)" "same_shape m (m\<lparr>nvfsio := io\<rparr>)" "same_shape m (m\<lparr>rdma_info := r\<rparr>)"
  "same_shape m (m\<lparr>cpu_base_vaddr := v\<rparr>)" "same_shape m (m\<lparr>dma_ref := n\<rparr>)" "same_shape m (m\<lparr>fault_injected := b\<rparr>)"
  by (simp_all add: same_shape_def same_layout_def)

lemma same_shape_md:
  "nvfs_metadata m = Some md \<Longrightarrow> same_blocks md md' \<Longrightarrow> same_shape m (m\<lparr>nvfs_metadata := Some md'\<rparr>)"
  "nvfs_metadata m = Some md \<Longrightarrow> same_blocks md md' \<Longrightarrow> same_shape m (m\<lparr>nvfs_metadata := Some md', nvfsio := io\<rparr>)"
  by (simp_all add: same_shape_def same_layout_def)

section \<open>Properties that survive every operation\<close>

text \<open>
  A property of the state that depends on groups, table and pages only, and survives a change that keeps the shape of a group, one
  more reference, and the dropping of a reference.
\<close>

locale kept_property =
  fixes I :: "kstate \<Rightarrow> bool"
  assumes same: "I s \<Longrightarrow> mgroups s' = mgroups s \<Longrightarrow> nvfs_io_mgroup_hash s' = nvfs_io_mgroup_hash s \<Longrightarrow> kpages s' = kpages s \<Longrightarrow> I s'"
    and upd: "I s \<Longrightarrow> mgroups s p = Some m \<Longrightarrow> same_shape m m' \<Longrightarrow> I (s\<lparr>mgroups := (mgroups s)(p \<mapsto> m')\<rparr>)"
    and get: "I s \<Longrightarrow> mgroups s p = Some m \<Longrightarrow> I (s\<lparr>mgroups := (mgroups s)(p \<mapsto> m\<lparr>mg_ref := mg_ref m + 1\<rparr>)\<rparr>)"
    and put: "I s \<Longrightarrow> nvfs_mgroup_put_internal e p from_dma s = Some s' \<Longrightarrow> I s'"
begin

lemmas sequence_kept [nvfs_keeps] = after_bind [where I = I] after_Some [where I = I]

text \<open>Elementary changes\<close>

lemma frame_kept [nvfs_keeps]:
  "I s \<Longrightarrow> I (kstat f s)" "I s \<Longrightarrow> I (klog_event ev s)" "I s \<Longrightarrow> I (get_page pg s)" "I s \<Longrightarrow> I (put_page pg s)"
  "I s \<Longrightarrow> I (nvfs_get_ops e s)" "I s \<Longrightarrow> I (nvfs_put_ops e s)" "I s \<Longrightarrow> I (unregister_dma_ops s)"
  "I s \<Longrightarrow> I (s\<lparr>kstats := st\<rparr>)" "I s \<Longrightarrow> I (s\<lparr>metapages := mp\<rparr>)" "I s \<Longrightarrow> I (s\<lparr>kmodules := ms, ksymtab := sy\<rparr>)"
  by (erule same; simp)+

lemma if_kept [nvfs_keeps]: "(b \<Longrightarrow> I s) \<Longrightarrow> (\<not> b \<Longrightarrow> I t) \<Longrightarrow> I (if b then s else t)"
  by simp

lemma fold_pages_kept [nvfs_keeps]: "I s \<Longrightarrow> I (fold get_page pgs s)" "I s \<Longrightarrow> I (fold put_page pgs s)"
  by (induction pgs arbitrary: s) (simp_all add: frame_kept)

lemma upd_mgroup_kept: "I s \<Longrightarrow> (\<And>m. mgroups s p = Some m \<Longrightarrow> same_shape m (f m)) \<Longrightarrow> res1 I (upd_mgroup p f s)"
  by (rule after_I) (auto simp: upd_mgroup_Some intro: upd)

lemma upd_kept [nvfs_keeps]:
  "I s \<Longrightarrow> res1 I (upd_gpu p f s)" "I s \<Longrightarrow> res1 I (upd_io p g s)" "I s \<Longrightarrow> res1 I (set_io_state p st s)"
  by (simp_all add: upd_defs upd_mgroup_kept)

lemma cmpxchg_kept [nvfs_keeps]: "I s \<Longrightarrow> res2 I (cmpxchg_io_state p old new s)"
  unfolding cmpxchg_io_state_def by (assumption | rule nvfs_keeps | rule after_read)+

text \<open>References\<close>

lemma get_ref_kept [nvfs_keeps]: "I s \<Longrightarrow> res1 I (nvfs_mgroup_get_ref p s)"
  by (rule after_I) (auto simp: nvfs_mgroup_get_ref_def upd_mgroup_Some intro: get)

lemma get_kept [nvfs_keeps]: "I s \<Longrightarrow> res2 I (nvfs_mgroup_get_unlocked b s)" "I s \<Longrightarrow> res2 I (nvfs_mgroup_get b s)"
  unfolding nvfs_mgroup_get_def nvfs_mgroup_get_unlocked_def by (assumption | rule nvfs_keeps | rule after_read)+

lemma put_kept [nvfs_keeps]:
  "I s \<Longrightarrow> res1 I (nvfs_mgroup_put e p s)" "I s \<Longrightarrow> res1 I (nvfs_mgroup_put_dma e p s)"
  "I s \<Longrightarrow> res1 I (nvfs_mgroup_unpin_shadow_pages e p s)"
  unfolding nvfs_mgroup_put_def nvfs_mgroup_put_dma_def nvfs_mgroup_unpin_shadow_pages_def
  by (rule after_I, erule (1) put)+

text \<open>The state machine and \<^verbatim>\<open>munmap\<close>\<close>

lemma transit_kept [nvfs_keeps]: "I s \<Longrightarrow> res2 I (nvfs_transit_state e p sync from to s)"
  unfolding nvfs_transit_state_def try_transit_def
  by (assumption | rule nvfs_keeps | rule upd_mgroup_kept | rule after_read | simp)+

lemma terminate_kept [nvfs_keeps]: "I s \<Longrightarrow> res2 I (nvfs_io_terminate_requested p callback s)"
  unfolding nvfs_io_terminate_requested_def by (assumption | rule nvfs_keeps | rule after_read)+

lemma vma_close_kept [nvfs_keeps]: "I s \<Longrightarrow> res2 I (nvfs_vma_close e vma s)"
  unfolding nvfs_vma_close_def vma_close_terminate_def by (assumption | rule nvfs_keeps | rule after_read)+

end

section \<open>The block table keeps its shape\<close>

lemma same_blocks_arr_upd:
  "same_blocks md md' \<Longrightarrow> arr_upd md' i (set_blk st) = Some md'' \<Longrightarrow> same_blocks md md''"
  by (auto simp: arr_upd_def split: if_splits intro: same_blocks_upd)

lemma same_blocks_range:
  "same_blocks md md' \<Longrightarrow> arr_upd_range md' i n (set_blk st) = Some md'' \<Longrightarrow> same_blocks md md''"
proof (induction n arbitrary: md' i)
  case (Suc n)
  then show ?case by (auto simp: bind_eq_Some_conv dest: same_blocks_arr_upd)
qed simp

lemma fill_block_shape: "same_blocks md md' \<Longrightarrow> fill_block bpp pps j md' = Some md'' \<Longrightarrow> same_blocks md md''"
  by (auto simp: fill_block_def nvfs_mgroup_fill_mpage_def bind_eq_Some_conv split: if_splits intro!: same_blocks_upd)

lemma fill_groups_shape:
  assumes "fill_groups e m n = Some (ret, m')"
  shows "same_shape m m'"
proof (cases "m' = m")
  case False
  then obtain off md md1 pps md2 md3 io where f: "nvfs_metadata m = Some md" "arr_upd_range md 0 off (set_blk NVFS_IO_INIT) = Some md1"
    "ofold (fill_block (nvfs_block_count_per_page (page_shift e)) pps) [off ..< off + n] md1 = Some md2"
    "arr_upd_range md2 (off + n) (nvfs_blocks_count m - (off + n)) (set_blk NVFS_IO_INIT) = Some md3"
    and m': "m' = m\<lparr>nvfs_metadata := Some md3, nvfsio := io\<rparr>"
    using assms by (auto simp: fill_groups_def Let_def bind_eq_Some_conv split: if_splits option.splits)
  have "same_blocks md md1" using same_blocks_range [OF _ f(2)] by simp
  then have "same_blocks md md2" using ofold_inv [OF f(3), of "same_blocks md"] fill_block_shape by blast
  then have "same_blocks md md3" using same_blocks_range [OF _ f(4)] by blast
  then show ?thesis unfolding m' by (rule same_shape_md(2) [OF f(1)])
qed simp

lemma cas_hole_md: "cas_hole start i sp c = Some c' \<Longrightarrow> c_md c' = c_md c"
  by (auto simp: cas_hole_def Let_def bind_eq_Some_conv split: if_splits)

lemma cas_done_md: "cas_done_block s m v l i st c = Some c' \<Longrightarrow> c_md c' = c_md c"
  by (auto simp: cas_done_block_def bind_eq_Some_conv split: if_splits option.splits dest!: cas_hole_md)

lemma cas_block_shape:
  assumes "same_blocks md (c_md c)" and "cas_block e s m state v l i c = Some c'"
  shows "same_blocks md (c_md c')"
proof -
  obtain b where b: "arr_get (c_md c) i = Some b" using assms(2) by (auto simp: cas_block_def bind_eq_Some_conv)
  have "c_md c' = c_md c \<or> c_md c' = (c_md c)[i := set_blk state b]"
    using assms(2) b by (auto simp: cas_block_def bind_eq_Some_conv Let_def split: if_splits dest!: cas_done_md)
  then show ?thesis using assms(1) same_blocks_upd [OF assms(1) b] by auto
qed

lemma cas_shape:
  assumes "cas_init s m md state v = Some c0" and "ofold (cas_block e s m state v l) xs c0 = Some c"
  shows "same_blocks md (c_md c)"
proof -
  have "c_md c0 = md" using assms(1) by (auto simp: cas_init_def bind_eq_Some_conv Let_def split: if_splits)
  then show ?thesis using ofold_inv [OF assms(2), of "\<lambda>c. same_blocks md (c_md c)"] cas_block_shape by fastforce
qed

lemma range_blocks_shape:
  "same_blocks md md' \<Longrightarrow> range_blocks e bpp pi bi ae cur is md' = Some (ok, md'') \<Longrightarrow> same_blocks md md''"
proof (induction "is" arbitrary: cur md')
  case (Cons i "is")
  have upd: "same_blocks md (md'[k := set_blk st (md' ! k)])" if "k < length md'" for k st
    using same_blocks_upd [OF Cons.prems(1)] that by simp
  show ?case using Cons.prems Cons.IH [OF upd]
    by (auto simp: Let_def bind_eq_Some_conv arr_upd_def split: if_splits option.splits intro: upd)
qed simp

lemma dma_state_shape:
  "same_blocks md md' \<Longrightarrow> dma_state_blocks is md' = Some (ok, md'') \<Longrightarrow> same_blocks md md''"
proof (induction "is" arbitrary: md')
  case (Cons i "is")
  obtain b where b: "arr_get md' i = Some b" using Cons.prems(2) by (auto simp: bind_eq_Some_conv)
  note upd = same_blocks_upd [OF Cons.prems(1) b]
  show ?case using Cons.prems(2) b upd Cons.IH [OF upd] by (auto split: if_splits)
qed simp

section \<open>Blocks and pages\<close>

context kept_property
begin

lemma upd_md_kept: "I s \<Longrightarrow> mgroups s p = Some m \<Longrightarrow> nvfs_metadata m = Some md \<Longrightarrow> same_blocks md md' \<Longrightarrow> res1 I (upd_md p (\<lambda>_. md') s)"
  unfolding upd_md_def by (rule upd_mgroup_kept) (auto intro: same_shape_md)

lemma fill_mpages_kept [nvfs_keeps]: "I s \<Longrightarrow> res2 I (nvfs_mgroup_fill_mpages e p n s)"
  by (rule after_I) (auto simp: nvfs_mgroup_fill_mpages_def bind_eq_Some_conv intro: upd fill_groups_shape)

lemma publish_kept: "I s \<Longrightarrow> res1 I (cas_publish m c s)"
  unfolding cas_publish_def nvfs_io_unmap_sparse_data_def
  by (assumption | rule nvfs_keeps | rule after_ofold [of I] | rule after_read)+

lemma publish_groups: "cas_publish m c s = Some s' \<Longrightarrow> mgroups s' = mgroups s"
proof -
  have "after (\<lambda>s'. mgroups s' = mgroups s) (cas_publish m c s)"
    unfolding cas_publish_def nvfs_io_unmap_sparse_data_def
    by (rule after_option after_Let after_read after_Some after_bind(1) [where I = "\<lambda>s'. mgroups s' = mgroups s"] after_ofold | simp)+
  then show "cas_publish m c s = Some s' \<Longrightarrow> mgroups s' = mgroups s" by (rule after_D)
qed

lemma check_and_set_kept [nvfs_keeps]: "I s \<Longrightarrow> res1 I (nvfs_mgroup_check_and_set e p st v u s)"
proof (rule after_I)
  fix s'
  assume I: "I s" and run: "nvfs_mgroup_check_and_set e p st v u s = Some s'"
  from run obtain m md c0 l c s1 where f: "mgroups s p = Some m" "nvfs_metadata m = Some md" "cas_init s m md st v = Some c0"
    "ofold (cas_block e s m st v l) (cas_range m st) c0 = Some c" "cas_publish m c s = Some s1"
    "upd_mgroup p (\<lambda>m. m\<lparr>nvfs_metadata := Some (c_md c), nvfsio := cas_io e st u c (nvfsio m)\<rparr>) s1 = Some s'"
    unfolding nvfs_mgroup_check_and_set_def by (auto simp: bind_eq_Some_conv Let_def)
  have "mgroups s1 p = Some m" "I s1" using publish_groups [OF f(5)] f(1) after_D [OF publish_kept [OF I] f(5)] by simp_all
  then have "res1 I (upd_mgroup p (\<lambda>m. m\<lparr>nvfs_metadata := Some (c_md c), nvfsio := cas_io e st u c (nvfsio m)\<rparr>) s1)"
    using same_shape_md(2) [OF f(2) cas_shape [OF f(3,4)]] by (intro upd_mgroup_kept) simp_all
  then show "I s'" using f(6) by (rule after_D)
qed

lemma from_page_raw_kept [nvfs_keeps]: "I s \<Longrightarrow> res2 I (nvfs_mgroup_from_page_raw e page chk s)"
  unfolding nvfs_mgroup_from_page_raw_def by (assumption | rule nvfs_keeps | rule after_read)+

lemma from_page_kept [nvfs_keeps]: "I s \<Longrightarrow> res2 I (nvfs_mgroup_from_page e page s)"
  unfolding nvfs_mgroup_from_page_def upd_md_def
  by (assumption | rule nvfs_keeps | rule upd_mgroup_kept | rule after_read |
      force intro: same_shape_md(1) same_blocks_upd)+

lemma from_page_range_kept [nvfs_keeps]: "I s \<Longrightarrow> res2 I (nvfs_mgroup_from_page_range e page n off s)"
  unfolding nvfs_mgroup_from_page_range_def
  by (assumption | rule nvfs_keeps | erule (2) upd_md_kept | rule after_read | erule range_blocks_shape [rotated] | simp)+

lemma set_dma_state_kept [nvfs_keeps]: "I s \<Longrightarrow> res2 I (nvfs_mgroup_metadata_set_dma_state e pg mg len off s)"
  unfolding nvfs_mgroup_metadata_set_dma_state_def
  by (assumption | rule nvfs_keeps | erule (2) upd_md_kept | rule after_read | erule dma_state_shape [rotated] | simp)+

lemma page_tests_kept [nvfs_keeps]:
  "I s \<Longrightarrow> res2 I (nvfs_is_gpu_page e page s)" "I s \<Longrightarrow> res2 I (nvfs_check_gpu_page_and_error e page s)"
  "I s \<Longrightarrow> res2 I (nvfs_gpu_index e page s)"
  unfolding nvfs_is_gpu_page_def nvfs_check_gpu_page_and_error_def nvfs_gpu_index_def
  by (assumption | rule nvfs_keeps | rule upd_mgroup_kept | rule after_read | simp)+

end

section \<open>Requests\<close>

text \<open>
  What a request leaves to others: the file system below, and the threads that run while the GPU driver's callback waits.
\<close>

definition fs_keeps :: "(kstate \<Rightarrow> bool) \<Rightarrow> fsenv \<Rightarrow> bool" where
  "fs_keeps I fs \<longleftrightarrow> (\<forall>op fd buf len pos s r s'. I s \<longrightarrow> call_iter fs op fd buf len pos s = Some (r, s') \<longrightarrow> I s')"

lemma fs_keeps_call: "fs_keeps I fs \<Longrightarrow> I s \<Longrightarrow> res2 I (call_iter fs op fd buf len pos s)"
  by (auto simp: fs_keeps_def after_def)

definition woken :: "(kstate \<Rightarrow> bool) \<Rightarrow> poll \<Rightarrow> bool" where
  "woken I w = (case w of Waiting \<Rightarrow> True | Woken s \<Rightarrow> I s)"

lemma after_woken: "I s \<Longrightarrow> after (woken I) (Some (Woken s))" "after (woken I) (Some Waiting)"
  by (simp_all add: after_def woken_def)

lemma after_poll:
  "woken I w \<Longrightarrow> (w = Waiting \<Longrightarrow> after Q y) \<Longrightarrow> (\<And>s. I s \<Longrightarrow> after Q (k s)) \<Longrightarrow> after Q (case w of Waiting \<Rightarrow> y | Woken s \<Rightarrow> k s)"
  by (cases w) (simp_all add: woken_def)

definition others_keep :: "(kstate \<Rightarrow> bool) \<Rightarrow> interference \<Rightarrow> bool" where
  "others_keep I others \<longleftrightarrow> (\<forall>k s. I s \<longrightarrow> I (others k s))"

context kept_property
begin

text \<open>Buffers by their address, and the map request\<close>

lemma gup_kept:
  "I s \<Longrightarrow> (\<And>r pgs t. I t \<Longrightarrow> after Q (k r pgs t)) \<Longrightarrow> after Q (case gup e a n s of (r, pgs, t) \<Rightarrow> k r pgs t)"
  "I s \<Longrightarrow> (\<And>r pgs t. I t \<Longrightarrow> after Q (k r pgs t)) \<Longrightarrow>
     after Q (case (if b then (r0, pgs0, s) else gup e a n s) of (r, pgs, t) \<Rightarrow> k r pgs t)"
  by (simp_all add: gup_def fold_pages_kept split: prod.split)

lemma vaddr_kept [nvfs_keeps]: "I s \<Longrightarrow> res2 I (nvfs_get_mgroup_from_vaddr e va s)"
  unfolding nvfs_get_mgroup_from_vaddr_def nvfs_get_mgroup_from_vaddr_internal_def
  by (assumption | rule gup_kept | rule nvfs_keeps | rule after_read)+

lemma pin_loop_kept [nvfs_keeps]: "I s \<Longrightarrow> res3 I (pin_pages_loop e n mg j pgs s)"
proof (induction pgs arbitrary: mg j s)
  case (Cons pg pgs)
  show ?case unfolding pin_pages_loop.simps
    by (rule Cons.prems Cons.IH nvfs_keeps | assumption | rule after_read)+
qed (simp add: after_def)

lemma pin_shadow_kept [nvfs_keeps]: "I s \<Longrightarrow> res2 I (nvfs_mgroup_pin_shadow_pages e va len s)"
  unfolding nvfs_mgroup_pin_shadow_pages_def
  by (assumption | rule gup_kept | rule nvfs_keeps | rule upd_mgroup_kept | rule after_read | simp)+

lemma unmap_buckets_kept [nvfs_keeps]: "I s \<Longrightarrow> res2 I (unmap_buckets e p bs s)"
proof (induction bs arbitrary: s)
  case (Cons b bs)
  show ?case unfolding unmap_buckets.simps by (rule Cons.prems Cons.IH nvfs_keeps | assumption | rule after_read)+
qed (simp add: after_def)

lemma unpin_kept [nvfs_keeps]: "I s \<Longrightarrow> res2 I (nvfs_unpin_gpu_pages e p s)"
  unfolding nvfs_unpin_gpu_pages_def by (assumption | rule nvfs_keeps | rule after_read)+

lemma put_endfence_kept [nvfs_keeps]: "I s \<Longrightarrow> res1 I (nvfs_free_put_endfence_page p s)"
  unfolding nvfs_free_put_endfence_page_def by (assumption | rule nvfs_keeps | rule after_read)+

lemma endfence_kept [nvfs_keeps]: "I s \<Longrightarrow> res2 I (nvfs_get_endfence_page e inp p s)"
  unfolding nvfs_get_endfence_page_def by (assumption | rule gup_kept | rule nvfs_keeps | rule after_read)+

lemma map_kept [nvfs_keeps]: "I s \<Longrightarrow> res2 I (nvfs_map e inp s)"
  unfolding nvfs_map_def nvfs_map_gpu_info_def nvfs_pin_gpu_pages_def pin_gpu_finish_def
  by (assumption | rule nvfs_keeps | rule after_read)+

text \<open>The callback of the GPU driver\<close>

lemma free_buckets_kept [nvfs_keeps]: "I s \<Longrightarrow> res1 I (free_buckets p bs s)"
proof (induction bs arbitrary: s)
  case (Cons b bs)
  show ?case unfolding free_buckets.simps by (rule Cons.prems Cons.IH nvfs_keeps | assumption | rule after_read)+
qed (simp add: after_def)

lemma callback_release_kept [nvfs_keeps]: "I s \<Longrightarrow> res1 I (callback_release e p s)"
  unfolding callback_release_def by (assumption | rule nvfs_keeps | rule after_read)+

lemma poll_kept: "others_keep I others \<Longrightarrow> I s \<Longrightarrow> after (woken I) (poll_io_state others goal p fuel k s)"
proof (induction fuel arbitrary: k s)
  case (Suc fuel)
  have "I (others k s)" using Suc.prems by (simp add: others_keep_def)
  with Suc show ?case by (auto simp: Let_def intro!: after_read after_if after_woken)
qed (simp add: after_woken)

lemma callback_kept:
  assumes "others_keep I others" and "I s"
  shows "after (woken I) (nvfs_get_pages_free_callback e others fuel p s)"
proof -
  have "after (woken I) (nvfs_io_terminate others fuel p True (kstat (nvfs_stat nvfs_n_callbacks) s))"
    unfolding nvfs_io_terminate_def by (rule assms poll_kept nvfs_keeps after_woken | assumption)+
  then show ?thesis
    unfolding nvfs_get_pages_free_callback_def
    by (rule after_seq) (rule assms poll_kept nvfs_keeps after_woken after_read after_poll | simp)+
qed

text \<open>DMA addresses\<close>

lemma dma_mapping_kept [nvfs_keeps]: "I s \<Longrightarrow> res3 I (nvfs_get_p2p_dma_mapping e peer p s)"
  unfolding nvfs_get_p2p_dma_mapping_def nvfs_get_dma_address_def by (assumption | rule nvfs_keeps | rule after_read)+

lemma get_dma_kept [nvfs_keeps]: "I s \<Longrightarrow> res3 I (nvfs_get_dma e peer page base len s)"
  unfolding nvfs_get_dma_def by (assumption | rule nvfs_keeps | rule upd_mgroup_kept | rule after_read | simp)+

text \<open>Reads and writes\<close>

lemma io_free_kept [nvfs_keeps]: "I s \<Longrightarrow> res1 I (nvfs_io_free e p res s)"
  unfolding nvfs_io_free_def by (assumption | rule nvfs_keeps | rule after_read)+

lemma io_complete_kept [nvfs_keeps]: "I s \<Longrightarrow> res1 I (nvfs_io_complete e fs p res s)"
  unfolding nvfs_io_complete_def by (assumption | rule nvfs_keeps | rule after_read)+

lemma io_ret_kept [nvfs_keeps]: "I s \<Longrightarrow> res2 I (nvfs_io_ret e fs p r s)"
  unfolding nvfs_io_ret_def by (assumption | rule nvfs_keeps | rule after_read)+

lemma io_init_kept [nvfs_keeps]: "I s \<Longrightarrow> res2 I (nvfs_io_init e fs op a s)"
  unfolding nvfs_io_init_def by (assumption | rule nvfs_keeps | rule after_read)+

lemma flush_kept [nvfs_keeps]: "I s \<Longrightarrow> res2 I (flush_dirty_pages f p s)"
  unfolding flush_dirty_pages_def by (assumption | rule nvfs_keeps | rule after_read)+

lemma prepare_write_kept [nvfs_keeps]: "I s \<Longrightarrow> res2 I (io_prepare_write e f p s)"
  unfolding io_prepare_write_def by (assumption | rule nvfs_keeps | rule after_read)+

lemma io_account_kept [nvfs_keeps]: "I s \<Longrightarrow> res2 I (io_account p n left d off ro ret s)"
  unfolding io_account_def by (assumption | rule nvfs_keeps | rule after_read)+

lemma io_finish_kept [nvfs_keeps]: "I s \<Longrightarrow> res2 I (io_finish e p freed ret n s)"
  unfolding io_finish_def by (assumption | rule nvfs_keeps | rule after_read)+

lemma io_turn_kept [nvfs_keeps]: "fs_keeps I fs \<Longrightarrow> I s \<Longrightarrow> res2 I (io_turn e fs f p left d off ro s)"
  unfolding io_turn_def io_issue_def nvfs_direct_io_def by (assumption | rule nvfs_keeps fs_keeps_call [of I] | rule after_read)+

lemma after_turn [nvfs_keeps]:
  "(\<And>l n off ro. t = NextPiece l n off ro \<Longrightarrow> after Q (k l n off ro)) \<Longrightarrow> (\<And>b r n. t = LoopExit b r n \<Longrightarrow> after Q (h b r n)) \<Longrightarrow>
     after Q (case t of NextPiece l n off ro \<Rightarrow> k l n off ro | LoopExit b r n \<Rightarrow> h b r n)"
  by (cases t) simp_all

lemma io_loop_kept [nvfs_keeps]:
  assumes "fs_keeps I fs" and "I s"
  shows "res4 I (io_loop e fs f p left d off ro s)"
proof (rule after_I)
  fix x
  let ?P = "\<lambda>e fs f p l d off ro s y. fs_keeps I fs \<longrightarrow> I s \<longrightarrow> (case y of (b, r, n, s') \<Rightarrow> I s')"
  assume run: "io_loop e fs f p left d off ro s = Some x"
  have "?P e fs f p left d off ro s x"
  proof (rule io_loop.raw_induct [of ?P, OF _ run], intro impI)
    fix loop :: "kenv \<Rightarrow> fsenv \<Rightarrow> kfile \<Rightarrow> mptr \<Rightarrow> int \<Rightarrow> int \<Rightarrow> int \<Rightarrow> nat \<Rightarrow> kstate \<Rightarrow> (bool \<times> int \<times> int \<times> kstate) option"
    fix e fs f p l d off ro s y
    assume IH: "\<And>e fs f p l d off ro s y. loop e fs f p l d off ro s = Some y \<Longrightarrow> ?P e fs f p l d off ro s y"
      and step: "Option.bind (io_turn e fs f p l d off ro s) (\<lambda>(t, s1). case t of
          NextPiece l' n off' ro' \<Rightarrow> loop e fs f p l' n off' ro' s1 | LoopExit freed ret n \<Rightarrow> Some (freed, ret, n, s1)) = Some y"
      and fs: "fs_keeps I fs" and s: "I s"
    have loop: "I t \<Longrightarrow> res4 I (loop e fs f p l d off ro t)" for l d off ro t
      using IH fs by (fastforce intro: after_I)
    show "case y of (b, r, n, s') \<Rightarrow> I s'"
      by (rule after_D [OF _ step]) (assumption | rule fs s loop nvfs_keeps)+
  qed
  then show "case x of (b, r, n, s') \<Rightarrow> I s'" using assms by blast
qed

lemma start_op_kept [nvfs_keeps]: "fs_keeps I fs \<Longrightarrow> I s \<Longrightarrow> res2 I (nvfs_io_start_op e fs p s)"
  unfolding nvfs_io_start_op_def by (assumption | rule nvfs_keeps | rule after_read)+

end

section \<open>The dispatcher\<close>

context kept_property
begin

lemma rdma_kept [nvfs_keeps]:
  "I s \<Longrightarrow> res2 I (nvfs_set_rdma_reg_info_to_mgroup e ra s)" "I s \<Longrightarrow> res2 I (nvfs_get_rdma_reg_info_from_mgroup e va s)"
  "I s \<Longrightarrow> res2 I (nvfs_clear_rdma_reg_info_in_mgroup e va s)"
  unfolding nvfs_set_rdma_reg_info_to_mgroup_def nvfs_get_rdma_reg_info_from_mgroup_def nvfs_clear_rdma_reg_info_in_mgroup_def
  by (assumption | rule nvfs_keeps | rule upd_mgroup_kept | rule after_read | simp)+

lemma batch_cleanup_kept [nvfs_keeps]: "I s \<Longrightarrow> res1 I (batch_cleanup e ps s)"
proof (induction ps arbitrary: s)
  case (Cons p ps)
  show ?case unfolding batch_cleanup.simps by (rule Cons.prems Cons.IH nvfs_keeps | assumption)+
qed (simp add: after_def)

lemma batch_fill_kept [nvfs_keeps]: "I s \<Longrightarrow> res2 I (batch_fill e fs xs ps s)"
proof (induction xs arbitrary: ps s)
  case (Cons x xs)
  show ?case unfolding batch_fill.simps by (rule Cons.prems Cons.IH nvfs_keeps | assumption)+
qed (simp add: after_def)

lemma batch_start_kept [nvfs_keeps]: "fs_keeps I fs \<Longrightarrow> I s \<Longrightarrow> res2 I (batch_start e fs ps started r s)"
proof (induction ps arbitrary: started r s)
  case (Cons p ps)
  show ?case unfolding batch_start.simps by (rule Cons.prems Cons.IH nvfs_keeps | assumption)+
qed (simp add: after_def frame_kept)

lemma ioctl_rw_kept [nvfs_keeps]: "fs_keeps I fs \<Longrightarrow> I s \<Longrightarrow> res3 I (ioctl_rw e fs u op a s)"
  unfolding ioctl_rw_def by (assumption | rule nvfs_keeps)+

lemma ioctl_batch_kept [nvfs_keeps]: "fs_keeps I fs \<Longrightarrow> I s \<Longrightarrow> res3 I (ioctl_batch e fs u n xs s)"
  unfolding ioctl_batch_def nvfs_io_batch_init_def nvfs_io_batch_submit_def by (assumption | rule nvfs_keeps)+

lemma ioctl_map_kept [nvfs_keeps]: "I s \<Longrightarrow> res3 I (ioctl_map e u inp s)"
  unfolding ioctl_map_def by (assumption | rule nvfs_keeps)+

lemma ioctl_rdma_kept [nvfs_keeps]:
  "I s \<Longrightarrow> res3 I (ioctl_set_rdma e ra s)" "I s \<Longrightarrow> res3 I (ioctl_get_rdma e u va s)" "I s \<Longrightarrow> res3 I (ioctl_clear_rdma e va s)"
  unfolding ioctl_set_rdma_def ioctl_get_rdma_def ioctl_clear_rdma_def by (assumption | rule nvfs_keeps)+

lemma ioctl_kept:
  assumes "fs_keeps I fs" and "I s"
  shows "res3 I (nvfs_ioctl e fs shutdown u cmd s)"
  using assms unfolding nvfs_ioctl_def
  by (cases cmd; simp only: ioctl_cmd.case; intro after_if nvfs_keeps)

lemma open_close_kept: "I s \<Longrightarrow> I (snd (nvfs_open e me shutdown s))" "I s \<Longrightarrow> I (snd (nvfs_close e s))"
  by (simp_all add: nvfs_open_def nvfs_close_def frame_kept split_def Let_def)

end

section \<open>The hooks of the storage drivers\<close>

context kept_property
begin

lemma new_segment_kept [nvfs_keeps]: "I s \<Longrightarrow> res3 I (new_segment q bv a sm s)"
  unfolding new_segment_def by (rule after_Let after_read after_prod | assumption | rule nvfs_keeps)+

lemma add_gpu_bvec_kept [nvfs_keeps]: "I s \<Longrightarrow> res3 I (add_gpu_bvec e q p bv sm s)"
  unfolding add_gpu_bvec_def by (assumption | rule nvfs_keeps | rule after_read)+

lemma map_bvec_kept [nvfs_keeps]: "I s \<Longrightarrow> res3 I (map_bvec e q r bv sm s)"
  unfolding map_bvec_def by (assumption | rule nvfs_keeps | rule after_read)+

lemma map_bvecs_kept [nvfs_keeps]: "I s \<Longrightarrow> res3 I (map_bvecs e q r bvs sm s)"
proof (induction bvs arbitrary: sm s)
  case (Cons bv bvs)
  show ?case unfolding map_bvecs.simps by (rule Cons.prems Cons.IH nvfs_keeps | assumption)+
qed (simp add: after_def)

lemma map_sg_kept: "I s \<Longrightarrow> res4 I (nvfs_blk_rq_map_sg_internal e q req sgl s)"
  unfolding nvfs_blk_rq_map_sg_internal_def by (assumption | rule nvfs_keeps | rule after_read)+

lemma sg_dma_kept [nvfs_keeps]: "I s \<Longrightarrow> res4 I (sg_dma e q dev g s)"
  unfolding sg_dma_def by (assumption | rule nvfs_keeps | rule after_read)+

lemma dma_map_entries_kept [nvfs_keeps]: "I s \<Longrightarrow> res4 I (dma_map_entries e q dev n c is sgl s)"
proof (induction "is" arbitrary: n c sgl s)
  case (Cons i "is")
  show ?case unfolding dma_map_entries.simps by (rule Cons.prems Cons.IH nvfs_keeps | assumption | rule after_read)+
qed (simp add: after_def)

lemma dma_map_sg_kept: "I s \<Longrightarrow> res3 I (nvfs_dma_map_sg_attrs_internal e q dev sgl n s)"
  unfolding nvfs_dma_map_sg_attrs_internal_def by (assumption | rule nvfs_keeps)+

lemma unmap_entries_kept [nvfs_keeps]: "I s \<Longrightarrow> res2 I (unmap_entries e sgl g c is s)"
proof (induction "is" arbitrary: g c s)
  case (Cons i "is")
  show ?case unfolding unmap_entries.simps by (rule Cons.prems Cons.IH nvfs_keeps | assumption | rule after_read)+
qed (simp add: after_def frame_kept)

lemma unmap_sg_kept: "I s \<Longrightarrow> res2 I (nvfs_dma_unmap_sg e sgl n s)"
  unfolding nvfs_dma_unmap_sg_def by (assumption | rule nvfs_keeps | rule after_read)+

lemma rdma_entries_kept [nvfs_keeps]: "I s \<Longrightarrow> res2 I (rdma_entries e sgl p sz t is s)"
proof (induction "is" arbitrary: t s)
  case (Cons i "is")
  show ?case unfolding rdma_entries.simps by (rule Cons.prems Cons.IH nvfs_keeps | assumption | rule after_read)+
qed (simp add: after_def)

lemma sglist_rdma_kept: "I s \<Longrightarrow> res3 I (nvfs_get_gpu_sglist_rdma_info e sgl n r s)"
  unfolding nvfs_get_gpu_sglist_rdma_info_def by (assumption | rule nvfs_keeps | rule after_read)+

lemma page_info_kept [nvfs_keeps]: "I s \<Longrightarrow> res4 I (nvfs_get_gpu_page_info e bv s)"
  unfolding nvfs_get_gpu_page_info_def by (assumption | rule nvfs_keeps | rule after_read)+

lemma coalesce_step_kept [nvfs_keeps]: "I s \<Longrightarrow> res2 I (coalesce_step e it n a s)"
  unfolding coalesce_step_def by (assumption | rule nvfs_keeps | rule after_read)+

lemma after_coalesce [nvfs_keeps]:
  "(\<And>it n i. t = Added it n i \<Longrightarrow> after Q (k it n i)) \<Longrightarrow> (\<And>it. t = Stopped it \<Longrightarrow> after Q (h it)) \<Longrightarrow>
     after Q (case t of Added it n i \<Rightarrow> k it n i | Stopped it \<Rightarrow> h it)"
  by (cases t) simp_all

lemma coalesce_kept [nvfs_keeps]:
  assumes "I s"
  shows "res4 I (nvfs_coalesce_gpu_pages e it n a i s)"
proof (rule after_I)
  fix x
  let ?P = "\<lambda>e it n a i s y. I s \<longrightarrow> (case y of (it', n', i', s') \<Rightarrow> I s')"
  assume run: "nvfs_coalesce_gpu_pages e it n a i s = Some x"
  have "?P e it n a i s x"
  proof (rule nvfs_coalesce_gpu_pages.raw_induct [of ?P, OF _ run], intro impI)
    fix loop :: "kenv \<Rightarrow> req_iterator \<Rightarrow> nat \<Rightarrow> u64 \<Rightarrow> nat \<Rightarrow> kstate \<Rightarrow> (req_iterator \<times> nat \<times> nat \<times> kstate) option"
    fix e it n a i s y
    assume IH: "\<And>e it n a i s y. loop e it n a i s = Some y \<Longrightarrow> ?P e it n a i s y"
      and step: "Option.bind (coalesce_step e it n a s) (\<lambda>(turn, s1). case turn of
          Added it' n' i' \<Rightarrow> loop e it' ((n + n') mod 2 ^ 32) a i' s1 | Stopped it' \<Rightarrow> Some (it', n, i, s1)) = Some y"
      and s: "I s"
    have loop: "I t \<Longrightarrow> res4 I (loop e it n a i t)" for it n i t
      using IH by (fastforce intro: after_I)
    show "case y of (it', n', i', s') \<Rightarrow> I s'"
      by (rule after_D [OF _ step]) (assumption | rule s loop nvfs_keeps)+
  qed
  then show "case x of (it', n', i', s') \<Rightarrow> I s'" using assms by blast
qed

lemma map_segment_kept [nvfs_keeps]: "I s \<Longrightarrow> res3 I (map_gpu_segment e dev p bv di s)"
  unfolding map_gpu_segment_def by (assumption | rule nvfs_keeps | rule after_read)+

lemma next_segment_kept [nvfs_keeps]: "I s \<Longrightarrow> res4 I (nvfs_map_next_gpu_segment e r dev di s)"
  unfolding nvfs_map_next_gpu_segment_def by (assumption | rule nvfs_keeps | rule after_read)+

lemma iter_kept:
  "I s \<Longrightarrow> res4 I (nvfs_blk_rq_dma_map_iter_start e req bios dev di s)" "I s \<Longrightarrow> res3 I (nvfs_blk_rq_dma_map_iter_next e r dev di s)"
  "I s \<Longrightarrow> res2 I (nvfs_dma_unmap_page e cookie s)"
  unfolding nvfs_blk_rq_dma_map_iter_start_def nvfs_blk_rq_dma_map_iter_next_def nvfs_dma_unmap_page_def
  by (assumption | rule nvfs_keeps | rule after_read)+

end

end
