(* ===== verification/Nvfs_System.thy ===== *)
theory Nvfs_System
  imports Nvfs_Keeps
begin

text \<open>
  The driver as a whole: all its entry points as steps of one transition system, in any order, by any number of threads, with any
  outcome, and what holds in every state it can reach.
\<close>

section \<open>The invariant\<close>

text \<open>
  Every page of a live group carries the index that leads back to it: the base index of the group and the number of the page in it.
\<close>

definition pages_indexed :: "kenv \<Rightarrow> kstate \<Rightarrow> nvfs_io_mgroup \<Rightarrow> bool" where
  "pages_indexed e s m \<longleftrightarrow> NVFS_MIN_BASE_INDEX \<le> base_index m \<and> (\<forall>pps. nvfs_ppages m = Some pps \<longrightarrow>
     length pps \<le> NVFS_MAX_SHADOW_PAGES (page_shift e) \<and>
     (\<forall>j < length pps. \<forall>pg. pps ! j = Some pg \<longrightarrow>
        kpages s pg = \<lparr> page_index = base_index m * NVFS_MAX_SHADOW_PAGES (page_shift e) + j, page_mapping = False \<rparr>))"

definition group_inv :: "kenv \<Rightarrow> kstate \<Rightarrow> nvfs_io_mgroup \<Rightarrow> bool" where
  "group_inv e s m \<longleftrightarrow> mgroup_wf e m \<and> pages_indexed e s m"

definition driver_inv :: "kenv \<Rightarrow> kstate \<Rightarrow> bool" where
  "driver_inv e s \<longleftrightarrow> hash_wf s \<and> (\<forall>p m. mgroups s p = Some m \<longrightarrow> group_inv e s m)"

lemma driver_invD: "driver_inv e s \<Longrightarrow> hash_wf s" "driver_inv e s \<Longrightarrow> mgroups s p = Some m \<Longrightarrow> group_inv e s m"
  by (auto simp: driver_inv_def)

lemma mgroup_wf_layout:
  assumes "same_layout m m'" and "mgroup_wf e m"
  shows "mgroup_wf e m'"
proof -
  obtain md pps where md: "nvfs_metadata m = Some md" "nvfs_ppages m = Some pps" "length md = nvfs_blocks_count m"
    "length pps = DIV_ROUND_UP (nvfs_blocks_count m) (nvfs_block_count_per_page (page_shift e))"
    "\<forall>j < length md. nvfs_start_magic (md ! j) = NVFS_START_MAGIC \<and>
       md_page (md ! j) = pps ! (j div nvfs_block_count_per_page (page_shift e)) \<and>
       pps ! (j div nvfs_block_count_per_page (page_shift e)) \<noteq> None"
    using assms(2) unfolding mgroup_wf_def by blast
  obtain md' where md': "nvfs_metadata m' = Some md'" "same_blocks md md'"
    using assms(1) md(1) by (cases "nvfs_metadata m'") (simp_all add: same_layout_def)
  have len: "length md' = length md" using md'(2) by (simp add: list_all2_lengthD)
  have "nvfs_start_magic (md' ! j) = nvfs_start_magic (md ! j) \<and> md_page (md' ! j) = md_page (md ! j)" if "j < length md" for j
    using same_blocks_nth [OF md'(2) that] by (simp add: same_block_def)
  then show ?thesis
    unfolding mgroup_wf_def using assms(1) md md'(1) len
    by (intro exI [of _ md'] exI [of _ pps]) (auto simp: same_layout_def)
qed

lemma group_inv_layout: "same_layout m m' \<Longrightarrow> group_inv e s m \<Longrightarrow> group_inv e s m'"
  unfolding group_inv_def using mgroup_wf_layout by (auto simp: pages_indexed_def same_layout_def)

lemma group_inv_pages: "kpages s' = kpages s \<Longrightarrow> group_inv e s' m = group_inv e s m"
  by (simp add: group_inv_def pages_indexed_def)

lemma same_layout_ref [simp]: "same_layout m (m\<lparr>mg_ref := n\<rparr>)"
  by (simp add: same_layout_def)

text \<open>The effect of dropping a reference on the groups.\<close>

lemma put_cases:
  assumes "nvfs_mgroup_put_internal e p from_dma s = Some s'"
  obtains (shared) m where "mgroups s p = Some m" "mgroups s' = (mgroups s)(p \<mapsto> m\<lparr>mg_ref := mg_ref m - 1\<rparr>)" "kpages s' = kpages s"
  | (last) m where "mgroups s p = Some m" "mgroups s' = (mgroups s)(p := None)" "kpages s' = kpages s"
proof (cases "mgroups s p")
  case None
  then show thesis using put_dead assms by simp
next
  case (Some m)
  show thesis
  proof (cases "mg_ref m = 1")
    case True
    then show thesis using put_last_effect [OF Some True assms] last Some by blast
  next
    case False
    then show thesis using put_shared_effect [OF Some False] assms shared Some by auto
  qed
qed

lemma driver_inv_upd:
  assumes "driver_inv e s" and "mgroups s p = Some m" and "same_layout m m'" and "0 < mg_ref m'"
  shows "driver_inv e (s\<lparr>mgroups := (mgroups s)(p \<mapsto> m')\<rparr>)"
proof -
  have "hash_wf (s\<lparr>mgroups := (mgroups s)(p \<mapsto> m')\<rparr>)"
    using hash_wf_upd [OF driver_invD(1) [OF assms(1)] assms(2) _ assms(4)] assms(3) by (simp add: same_layout_def)
  moreover have "group_inv e s m'" using group_inv_layout [OF assms(3) driver_invD(2) [OF assms(1,2)]] .
  ultimately show ?thesis
    using assms(1) group_inv_pages [of "s\<lparr>mgroups := (mgroups s)(p \<mapsto> m')\<rparr>" s e] by (auto simp: driver_inv_def)
qed

lemma driver_inv_positive: "driver_inv e s \<Longrightarrow> mgroups s p = Some m \<Longrightarrow> 0 < mg_ref m"
  by (auto simp: driver_inv_def hash_wf_def)

section \<open>Properties of one address\<close>

text \<open>A property that depends on what is at one address survives the making of a group at another, on every path through \<^verbatim>\<open>mmap\<close>.\<close>

locale kept_at = kept_property I for I +
  fixes q :: mptr
  assumes only: "I s \<Longrightarrow> mgroups s' q = mgroups s q \<Longrightarrow> I s'"
begin

lemma other_kept [nvfs_keeps]: "p \<noteq> q \<Longrightarrow> I s \<Longrightarrow> res1 I (upd_mgroup p f s)"
  by (rule after_I) (auto simp: upd_mgroup_Some elim!: only)

lemma insert_kept: "p \<noteq> q \<Longrightarrow> I s \<Longrightarrow> I (s\<lparr>mgroups := (mgroups s)(p \<mapsto> m), nvfs_io_mgroup_hash := h\<rparr>)"
  by (erule only) simp

lemma new_page_kept: "I s \<Longrightarrow> I (s\<lparr>kpages := k, page_refs := r\<rparr>)"
  by (erule only) simp

lemma base_index_kept [nvfs_keeps]: "p \<noteq> q \<Longrightarrow> I s \<Longrightarrow> res2 I (alloc_base_index e n k p s)"
proof (induction n arbitrary: k s)
  case (Suc n)
  show ?case unfolding alloc_base_index.simps by (rule Suc.prems Suc.IH insert_kept nvfs_keeps | assumption)+
qed (simp add: after_def)

lemma mmap_page_kept [nvfs_keeps]: "p \<noteq> q \<Longrightarrow> I s \<Longrightarrow> res2 I (mmap_page e p j s)"
  unfolding mmap_page_def mmap_fail_def by (assumption | rule new_page_kept nvfs_keeps | rule after_read)+

lemma mmap_blocks_kept [nvfs_keeps]: "p \<noteq> q \<Longrightarrow> I s \<Longrightarrow> res2 I (mmap_blocks e p is s)"
proof (induction "is" arbitrary: s)
  case (Cons i "is")
  show ?case unfolding mmap_blocks.simps by (rule Cons.prems Cons.IH nvfs_keeps | assumption | rule after_read)+
qed (simp add: after_def)

lemma mmap_populate_kept [nvfs_keeps]: "p \<noteq> q \<Longrightarrow> I s \<Longrightarrow> res3 I (mmap_populate e vma p s)"
  unfolding mmap_populate_def by (assumption | rule nvfs_keeps | rule after_read)+

lemma mmap_elsewhere: "kzalloc_mgroup e \<noteq> q \<Longrightarrow> I s \<Longrightarrow> res3 I (nvfs_mgroup_mmap e vma s)"
  unfolding nvfs_mgroup_mmap_def nvfs_mgroup_mmap_internal_def by (assumption | rule nvfs_keeps | rule after_read)+

end

section \<open>Three properties that every operation keeps\<close>

text \<open>
  The invariant; that an address without a group stays without one; and that a group, as long as it lives, keeps its
  index, its size, its pages and the identity of its blocks.
\<close>

interpretation inv: kept_property "driver_inv e"
  for e
proof
  fix s s' :: kstate
  assume "driver_inv e s" and "mgroups s' = mgroups s" "nvfs_io_mgroup_hash s' = nvfs_io_mgroup_hash s" "kpages s' = kpages s"
  then show "driver_inv e s'" using group_inv_pages [of s' s] hash_wf_same [of s s'] by (simp add: driver_inv_def)
next
  fix s p m m'
  assume "driver_inv e s" "mgroups s p = Some m" "same_shape m m'"
  then show "driver_inv e (s\<lparr>mgroups := (mgroups s)(p \<mapsto> m')\<rparr>)"
    using driver_inv_upd driver_inv_positive [of e s p m] by (simp add: same_shape_def)
next
  fix s p m
  assume "driver_inv e s" "mgroups s p = Some m"
  then show "driver_inv e (s\<lparr>mgroups := (mgroups s)(p \<mapsto> m\<lparr>mg_ref := mg_ref m + 1\<rparr>)\<rparr>)"
    using driver_inv_upd driver_inv_positive [of e s p m] by simp
next
  fix s e' p from_dma s'
  assume inv: "driver_inv e s" and put: "nvfs_mgroup_put_internal e' p from_dma s = Some s'"
  have "group_inv e s' n" if "mgroups s' q = Some n" for q n
    using put
  proof (cases rule: put_cases)
    case (shared m)
    then have "\<exists>n0. mgroups s q = Some n0 \<and> same_layout n0 n" using that by (cases "q = p") auto
    then show ?thesis using group_inv_layout driver_invD(2) [OF inv] group_inv_pages [OF shared(3)] by blast
  next
    case (last m)
    then have "mgroups s q = Some n" using that by (cases "q = p") auto
    then show ?thesis using driver_invD(2) [OF inv] group_inv_pages [OF last(3)] by blast
  qed
  then show "driver_inv e s'" using hash_wf_put [OF driver_invD(1) [OF inv] put] by (simp add: driver_inv_def)
qed

definition unallocated :: "mptr \<Rightarrow> kstate \<Rightarrow> bool" where
  "unallocated q s \<longleftrightarrow> mgroups s q = None"

interpretation gone: kept_at "unallocated q" q
  for q
  by unfold_locales (auto simp: unallocated_def fun_upd_def elim!: put_cases split: if_splits)

definition layout_of :: "mptr \<Rightarrow> nvfs_io_mgroup \<Rightarrow> kstate \<Rightarrow> bool" where
  "layout_of q m0 s \<longleftrightarrow> (\<forall>m. mgroups s q = Some m \<longrightarrow> same_layout m0 m)"

interpretation layout: kept_at "layout_of q m0" q
  for q m0
proof
  fix s p m m'
  assume "layout_of q m0 s" "mgroups s p = Some m" "same_shape m m'"
  then show "layout_of q m0 (s\<lparr>mgroups := (mgroups s)(p \<mapsto> m')\<rparr>)"
    using same_layout_trans by (auto simp: layout_of_def same_shape_def)
next
  fix s e p from_dma s'
  assume l: "layout_of q m0 s" and "nvfs_mgroup_put_internal e p from_dma s = Some s'"
  from this(2) show "layout_of q m0 s'"
    by (cases rule: put_cases) (use l same_layout_trans [OF _ same_layout_ref] in \<open>auto simp: layout_of_def\<close>)
qed (use same_layout_trans [OF _ same_layout_ref] in \<open>auto simp: layout_of_def\<close>)

section \<open>Mapping, on every path\<close>

text \<open>
  What the allocators of the kernel promise: the new group is not one that lives, no page is handed out twice, and none
  that belongs to a live group.
\<close>

definition fresh_memory :: "kenv \<Rightarrow> kstate \<Rightarrow> bool" where
  "fresh_memory e s \<longleftrightarrow> mgroups s (kzalloc_mgroup e) = None \<and>
     (\<forall>i j pg. alloc_page e i = Some pg \<longrightarrow> alloc_page e j = Some pg \<longrightarrow> i = j) \<and>
     (\<forall>j pg p m pps. alloc_page e j = Some pg \<longrightarrow> mgroups s p = Some m \<longrightarrow> nvfs_ppages m = Some pps \<longrightarrow> Some pg \<notin> set pps)"

text \<open>
  Half-way through the loop over the blocks: the groups of the state \<open>s0\<close> before, and the new one with its first blocks.
\<close>

definition page_record :: "kenv \<Rightarrow> nvfs_io_mgroup \<Rightarrow> nat \<Rightarrow> kpage" where
  "page_record e m j = \<lparr> page_index = base_index m * NVFS_MAX_SHADOW_PAGES (page_shift e) + j, page_mapping = False \<rparr>"

definition only_new_pages :: "kenv \<Rightarrow> kstate \<Rightarrow> kstate \<Rightarrow> bool" where
  "only_new_pages e s0 s \<longleftrightarrow> (\<forall>pg. (\<forall>j. alloc_page e j \<noteq> Some pg) \<longrightarrow> kpages s pg = kpages s0 pg)"

definition filling :: "kenv \<Rightarrow> mptr \<Rightarrow> nvfs_io_mgroup \<Rightarrow> nat \<Rightarrow> kstate \<Rightarrow> nat \<Rightarrow> kstate \<Rightarrow> bool" where
  "filling e p m0 blocks s0 i s \<longleftrightarrow> nvfs_io_mgroup_hash s = nvfs_io_mgroup_hash s0 \<and> only_new_pages e s0 s \<and>
     (\<exists>pps md. mgroups s = (mgroups s0)(p \<mapsto> m0\<lparr>nvfs_ppages := Some pps, nvfs_metadata := Some md\<rparr>) \<and>
        length pps = DIV_ROUND_UP blocks (nvfs_block_count_per_page (page_shift e)) \<and> length md = blocks \<and>
        (\<forall>j < length pps. \<forall>pg. pps ! j = Some pg \<longrightarrow> alloc_page e j = Some pg \<and> kpages s pg = page_record e m0 j) \<and>
        (\<forall>k < i. nvfs_start_magic (md ! k) = NVFS_START_MAGIC \<and>
           md_page (md ! k) = pps ! (k div nvfs_block_count_per_page (page_shift e)) \<and>
           pps ! (k div nvfs_block_count_per_page (page_shift e)) \<noteq> None))"

definition given_up :: "kenv \<Rightarrow> mptr \<Rightarrow> kstate \<Rightarrow> kstate \<Rightarrow> bool" where
  "given_up e p s0 s \<longleftrightarrow> mgroups s = (mgroups s0)(p := None) \<and>
     nvfs_io_mgroup_hash s = removeAll p (nvfs_io_mgroup_hash s0) \<and> only_new_pages e s0 s"

lemma put_gives_up:
  assumes "mgroups s p = Some m" and "mg_ref m = 1" and "nvfs_mgroup_put e p s = Some s'"
    and "mgroups s = (mgroups s0)(p \<mapsto> m)" and "nvfs_io_mgroup_hash s = nvfs_io_mgroup_hash s0" and "only_new_pages e s0 s"
  shows "given_up e p s0 s'"
  using put_last_effect [of s p m e False s'] assms by (simp add: given_up_def nvfs_mgroup_put_def only_new_pages_def)

lemma mmap_fail_gives_up:
  assumes "mmap_fail e p n s = Some (ret, s')" and "mgroups s = (mgroups s0)(p \<mapsto> m)" and "mg_ref m = 1"
    and "nvfs_io_mgroup_hash s = nvfs_io_mgroup_hash s0" and "only_new_pages e s0 s"
  shows "ret \<noteq> 0 \<and> given_up e p s0 s'"
proof -
  let ?m = "m\<lparr>nvfs_blocks_count := n\<rparr>"
  have "nvfs_mgroup_put e p (s\<lparr>mgroups := (mgroups s)(p \<mapsto> ?m)\<rparr>) = Some s'" "ret = - ENOMEM"
    using assms(1,2) by (auto simp: mmap_fail_def bind_eq_Some_conv)
  then show ?thesis
    using put_gives_up [of "s\<lparr>mgroups := (mgroups s)(p \<mapsto> ?m)\<rparr>" p ?m e s' s0] assms by (simp add: only_new_pages_def)
qed

lemma mmap_page_any:
  assumes fill: "filling e p m0 blocks s0 i s" and ref: "mg_ref m0 = 1"
    and inj: "\<forall>i j pg. alloc_page e i = Some pg \<longrightarrow> alloc_page e j = Some pg \<longrightarrow> i = j"
    and j: "j < DIV_ROUND_UP blocks (nvfs_block_count_per_page (page_shift e))"
    and empty: "the (nvfs_ppages (the (mgroups s p))) ! j = None"
    and run: "mmap_page e p j s = Some (ret, s')"
  shows "if ret = 0 then filling e p m0 blocks s0 i s' \<and> the (nvfs_ppages (the (mgroups s' p))) ! j \<noteq> None else given_up e p s0 s'"
proof -
  obtain pps md where g: "nvfs_io_mgroup_hash s = nvfs_io_mgroup_hash s0" "only_new_pages e s0 s"
    "mgroups s = (mgroups s0)(p \<mapsto> m0\<lparr>nvfs_ppages := Some pps, nvfs_metadata := Some md\<rparr>)"
    "length pps = DIV_ROUND_UP blocks (nvfs_block_count_per_page (page_shift e))" "length md = blocks"
    "\<forall>j < length pps. \<forall>pg. pps ! j = Some pg \<longrightarrow> alloc_page e j = Some pg \<and> kpages s pg = page_record e m0 j"
    "\<forall>k < i. nvfs_start_magic (md ! k) = NVFS_START_MAGIC \<and>
       md_page (md ! k) = pps ! (k div nvfs_block_count_per_page (page_shift e)) \<and>
       pps ! (k div nvfs_block_count_per_page (page_shift e)) \<noteq> None"
    using fill unfolding filling_def by blast
  let ?bpp = "nvfs_block_count_per_page (page_shift e)"
  let ?m = "m0\<lparr>nvfs_ppages := Some pps, nvfs_metadata := Some md\<rparr>"
  have none: "pps ! j = None" using empty g(3) by simp
  show ?thesis
  proof (cases "alloc_page e j")
    case None
    then have "mmap_fail e p (j * ?bpp) s = Some (ret, s')" using run g(3) by (simp add: mmap_page_def Let_def)
    then show ?thesis using mmap_fail_gives_up [OF _ g(3) _ g(1,2)] ref by simp
  next
    case (Some pg)
    let ?pps = "pps[j := Some pg]"
    let ?m1 = "m0\<lparr>nvfs_ppages := Some ?pps, nvfs_metadata := Some md\<rparr>"
    define s2 where "s2 = s\<lparr>mgroups := (mgroups s)(p \<mapsto> ?m1), kpages := (kpages s)(pg := page_record e m0 j),
      page_refs := (page_refs s)(pg := 1)\<rparr>"
    have new: "only_new_pages e s0 s2" using g(2) Some by (auto simp: only_new_pages_def s2_def)
    have m2: "mgroups s2 = (mgroups s0)(p \<mapsto> ?m1)" "nvfs_io_mgroup_hash s2 = nvfs_io_mgroup_hash s0"
      using g(1,3) by (simp_all add: s2_def)
    have "ret \<noteq> 0 \<and> mmap_fail e p ((j + 1) * ?bpp) s2 = Some (ret, s') \<or> ret = 0 \<and> s' = get_page pg s2"
    proof -
      let ?r = "if should_fail e (nvfs_vm_insert_page_error j) then - EFAULT else vm_insert_page e j"
      have *: "mmap_page e p j s = (if ?r \<noteq> 0 then mmap_fail e p ((j + 1) * ?bpp) s2 else Some (0, get_page pg s2))"
        using g(3) Some by (simp add: mmap_page_def Let_def s2_def page_record_def md_ppages_commute)
      show ?thesis
      proof (cases "?r = 0")
        case False
        then have f: "mmap_fail e p ((j + 1) * ?bpp) s2 = Some (ret, s')" using * run by metis
        then have "ret \<noteq> 0" by (auto simp: mmap_fail_def bind_eq_Some_conv)
        with f show ?thesis by blast
      qed (use * run in auto)
    qed
    then show ?thesis
    proof
      assume "ret \<noteq> 0 \<and> mmap_fail e p ((j + 1) * ?bpp) s2 = Some (ret, s')"
      then show ?thesis using mmap_fail_gives_up [OF _ m2(1) _ m2(2) new, of "(j + 1) * ?bpp" ret s'] ref by auto
    next
      assume ok: "ret = 0 \<and> s' = get_page pg s2"
      have "alloc_page e k = Some q \<and> kpages s2 q = page_record e m0 k" if k: "k < length ?pps" "?pps ! k = Some q" for k q
      proof (cases "k = j")
        case True
        then show ?thesis using k Some by (simp add: s2_def)
      next
        case False
        then have "alloc_page e k = Some q" "kpages s q = page_record e m0 k" using k g(6) by simp_all
        moreover from this(1) have "q \<noteq> pg" using inj Some False by blast
        ultimately show ?thesis by (simp add: s2_def)
      qed
      moreover have "?pps ! (k div ?bpp) = pps ! (k div ?bpp)" if "k < i" for k
        using g(7) none that by (metis nth_list_update_neq)
      ultimately have "filling e p m0 blocks s0 i s2"
        unfolding filling_def using m2 new g(4,5,7)
        by (intro conjI exI [of _ ?pps] exI [of _ md]) simp_all
      moreover have "the (nvfs_ppages (the (mgroups s2 p))) ! j \<noteq> None" using m2(1) j g(4) by simp
      ultimately show ?thesis using ok by (simp add: filling_def only_new_pages_def get_page_def)
    qed
  qed
qed

lemma mmap_blocks_any:
  assumes fill: "filling e p m0 blocks s0 i s" and ref: "mg_ref m0 = 1" and bpp: "0 < nvfs_block_count_per_page (page_shift e)"
    and inj: "\<forall>i j pg. alloc_page e i = Some pg \<longrightarrow> alloc_page e j = Some pg \<longrightarrow> i = j"
    and run: "mmap_blocks e p [i ..< blocks] s = Some (ret, s')" and i: "i \<le> blocks"
  shows "if ret = 0 then filling e p m0 blocks s0 blocks s' else given_up e p s0 s'"
  using fill run i
proof (induction "blocks - i" arbitrary: i s)
  case 0
  then show ?case by simp
next
  case (Suc n)
  let ?bpp = "nvfs_block_count_per_page (page_shift e)" and ?j = "i div nvfs_block_count_per_page (page_shift e)"
  have lt: "i < blocks" using Suc.hyps(2) by simp
  then have l: "[i ..< blocks] = i # [Suc i ..< blocks]" by (simp add: upt_conv_Cons)
  have j: "?j < DIV_ROUND_UP blocks ?bpp" using page_of_block [OF bpp lt] by simp
  obtain m pps r s1 where page: "mgroups s p = Some m" "nvfs_ppages m = Some pps"
    "(if pps ! ?j = None then mmap_page e p ?j s else Some (0, s)) = Some (r, s1)"
    and rest: "(if r \<noteq> 0 then Some (r, s1) else do {
            m1 \<leftarrow> mgroups s1 p; pps1 \<leftarrow> nvfs_ppages m1; q1 \<leftarrow> arr_get pps1 ?j; md \<leftarrow> nvfs_metadata m1;
            md' \<leftarrow> arr_upd md i (\<lambda>_. \<lparr> nvfs_start_magic = NVFS_START_MAGIC, nvfs_state = NVFS_IO_ALLOC, md_page = q1 \<rparr>);
            s2 \<leftarrow> upd_mgroup p (\<lambda>m. m\<lparr>nvfs_metadata := Some md'\<rparr>) s1;
            mmap_blocks e p [Suc i ..< blocks] s2 }) = Some (ret, s')"
    using Suc.prems(2) unfolding l by (auto simp: bind_eq_Some_conv Let_def)
  have one: "if r = 0 then filling e p m0 blocks s0 i s1 \<and> the (nvfs_ppages (the (mgroups s1 p))) ! ?j \<noteq> None else given_up e p s0 s1"
  proof (cases "pps ! ?j = None")
    case True
    then show ?thesis using mmap_page_any [OF Suc.prems(1) ref inj j, of r s1] page by simp
  next
    case False
    then have "r = 0" "s1 = s" using page(3) by (auto split: if_splits)
    then show ?thesis using page(1,2) Suc.prems(1) False by simp
  qed
  show ?case
  proof (cases "r = 0")
    case False
    then show ?thesis using rest one by auto
  next
    case True
    then obtain pps1 md where f: "nvfs_io_mgroup_hash s1 = nvfs_io_mgroup_hash s0" "only_new_pages e s0 s1"
      "mgroups s1 = (mgroups s0)(p \<mapsto> m0\<lparr>nvfs_ppages := Some pps1, nvfs_metadata := Some md\<rparr>)"
      "length pps1 = DIV_ROUND_UP blocks ?bpp" "length md = blocks"
      "\<forall>j < length pps1. \<forall>pg. pps1 ! j = Some pg \<longrightarrow> alloc_page e j = Some pg \<and> kpages s1 pg = page_record e m0 j"
      "\<forall>k < i. nvfs_start_magic (md ! k) = NVFS_START_MAGIC \<and> md_page (md ! k) = pps1 ! (k div ?bpp) \<and> pps1 ! (k div ?bpp) \<noteq> None"
      using one unfolding filling_def by auto
    have some: "pps1 ! ?j \<noteq> None" using one True f(3) by simp
    let ?md = "md[i := \<lparr> nvfs_start_magic = NVFS_START_MAGIC, nvfs_state = NVFS_IO_ALLOC, md_page = pps1 ! ?j \<rparr>]"
    let ?m2 = "m0\<lparr>nvfs_ppages := Some pps1, nvfs_metadata := Some ?md\<rparr>"
    let ?s2 = "s1\<lparr>mgroups := (mgroups s1)(p \<mapsto> ?m2)\<rparr>"
    have run: "mmap_blocks e p [Suc i ..< blocks] ?s2 = Some (ret, s')" using rest True f(3-5) j lt by simp
    have "filling e p m0 blocks s0 (Suc i) ?s2"
      unfolding filling_def using f lt some
      by (intro conjI exI [of _ pps1] exI [of _ ?md]) (auto simp: only_new_pages_def nth_list_update less_Suc_eq)
    then show ?thesis using Suc.hyps(1) [OF _ _ run] Suc.hyps(2) lt by simp
  qed
qed

lemma populate_any:
  assumes ps: "valid_page_shift (page_shift e)" and req: "mmap_request_ok e vma" and m0: "mgroups s p = Some m0" and ref: "mg_ref m0 = 1"
    and inj: "\<forall>i j pg. alloc_page e i = Some pg \<longrightarrow> alloc_page e j = Some pg \<longrightarrow> i = j"
    and run: "mmap_populate e vma p s = Some (ret, vma', s')"
  shows "if ret = 0 then \<exists>t m blocks g. filling e p m0 blocks s blocks t \<and> mgroups t p = Some m \<and>
      DIV_ROUND_UP blocks (nvfs_block_count_per_page (page_shift e)) \<le> NVFS_MAX_SHADOW_PAGES (page_shift e) \<and>
      mgroups s' = (mgroups t)(p \<mapsto> m\<lparr>nvfs_blocks_count := blocks, gpu_info := g\<rparr>) \<and>
      nvfs_io_mgroup_hash s' = nvfs_io_mgroup_hash t \<and> kpages s' = kpages t
    else given_up e p s s'"
proof -
  let ?bpp = "nvfs_block_count_per_page (page_shift e)"
  define len where "len = unat (vm_end vma - vm_start vma)"
  define blocks where "blocks = DIV_ROUND_UP len 4096"
  define np where "np = DIV_ROUND_UP len (PAGE_SIZE (page_shift e))"
  have bpp: "0 < ?bpp" using ps by simp
  have np: "np = DIV_ROUND_UP blocks ?bpp" "np \<le> NVFS_MAX_SHADOW_PAGES (page_shift e)"
    using request_blocks(2,3) [OF req ps len_def] by (simp_all add: np_def blocks_def)
  have up: "given_up e p s t'" if "nvfs_mgroup_put e p t = Some t'" "t = s\<lparr>mgroups := (mgroups s)(p \<mapsto> m)\<rparr>" "mg_ref m = 1" for t t' m
    using put_gives_up [of t p m e t' s] that by (simp add: only_new_pages_def)
  let ?m1 = "m0\<lparr>nvfs_ppages := Some (replicate np None)\<rparr>"
  let ?m2 = "m0\<lparr>nvfs_ppages := Some (replicate np None), nvfs_metadata := Some (replicate blocks zero_metadata)\<rparr>"
  let ?s2 = "s\<lparr>mgroups := (mgroups s)(p \<mapsto> ?m2)\<rparr>"
  consider (ppages) "\<not> kalloc_ok e AllocPpages" | (metadata) "kalloc_ok e AllocPpages" "\<not> kalloc_ok e AllocMetadata"
    | (loop) r s3 where "kalloc_ok e AllocPpages" "kalloc_ok e AllocMetadata" "mmap_blocks e p [0 ..< blocks] ?s2 = Some (r, s3)"
        "vm_private_data vma = None"
    using run m0 by (auto simp: mmap_populate_def Let_def bind_eq_Some_conv len_def [symmetric] np_def [symmetric] blocks_def [symmetric] split: if_splits)
  then show ?thesis
  proof cases
    case ppages
    then have "ret = - ENOMEM" "nvfs_mgroup_put e p s = Some s'"
      using run by (auto simp: mmap_populate_def Let_def bind_eq_Some_conv)
    then show ?thesis using up [of s s' m0] m0 ref by (simp add: fun_upd_idem)
  next
    case metadata
    then have "ret = - ENOMEM" "nvfs_mgroup_put e p (s\<lparr>mgroups := (mgroups s)(p \<mapsto> ?m1)\<rparr>) = Some s'"
      using run m0 by (auto simp: mmap_populate_def Let_def bind_eq_Some_conv len_def [symmetric] np_def [symmetric])
    then show ?thesis using up [of _ s' ?m1] ref by simp
  next
    case (loop r s3)
    have "filling e p m0 blocks s 0 ?s2"
      unfolding filling_def using np(1)
      by (intro conjI exI [of _ "replicate np None"] exI [of _ "replicate blocks zero_metadata"]) (simp_all add: only_new_pages_def)
    from mmap_blocks_any [OF this ref bpp inj loop(3)]
    have res: "if r = 0 then filling e p m0 blocks s blocks s3 else given_up e p s s3" by simp
    have rest: "(if r \<noteq> 0 then Some (r, vma\<lparr>vm_private_data := Some p\<rparr>, s3) else do {
         s4 \<leftarrow> upd_mgroup p (\<lambda>m. m\<lparr>nvfs_blocks_count := blocks, gpu_info := (gpu_info m)\<lparr>io_state := IO_FREE\<rparr>\<rparr>) s3;
         Some (0, vma\<lparr>vm_private_data := Some p\<rparr>, kstat (nvfs_stat64_add (int len) nvfs_n_active_shadow_buf_sz) s4) }) = Some (ret, vma', s')"
      using run m0 loop
      by (cases "r = 0") (simp_all add: mmap_populate_def Let_def len_def [symmetric] np_def [symmetric] blocks_def [symmetric])
    show ?thesis
    proof (cases "r = 0")
      case False
      then show ?thesis using rest res by auto
    next
      case True
      then have fill: "filling e p m0 blocks s blocks s3" using res by simp
      then obtain m where m: "mgroups s3 p = Some m" unfolding filling_def by auto
      have "ret = 0" "s' = kstat (nvfs_stat64_add (int len) nvfs_n_active_shadow_buf_sz) (s3\<lparr>mgroups := (mgroups s3)(p \<mapsto>
          m\<lparr>nvfs_blocks_count := blocks, gpu_info := (gpu_info m)\<lparr>io_state := IO_FREE\<rparr>\<rparr>)\<rparr>)"
        using rest True m by simp_all
      then show ?thesis using fill m np by auto
    qed
  qed
qed

lemma group_inv_new_pages:
  assumes "only_new_pages e' s s'" and "fresh_memory e' s" and "mgroups s q = Some n" and "group_inv e s n"
  shows "group_inv e s' n"
proof -
  have "kpages s' pg = kpages s pg" if "nvfs_ppages n = Some pps" "j < length pps" "pps ! j = Some pg" for pps j pg
  proof -
    have "Some pg \<in> set pps" using that(2,3) by (metis nth_mem)
    then have "alloc_page e' k \<noteq> Some pg" for k using assms(2,3) that(1) unfolding fresh_memory_def by blast
    then show ?thesis using assms(1) by (simp add: only_new_pages_def)
  qed
  then show ?thesis using assms(4) by (simp add: group_inv_def pages_indexed_def)
qed

lemma filled_inv:
  assumes "filling e p m0 blocks s0 blocks t" and "mgroups t p = Some m" and "NVFS_MIN_BASE_INDEX \<le> base_index m0"
    and "DIV_ROUND_UP blocks (nvfs_block_count_per_page (page_shift e)) \<le> NVFS_MAX_SHADOW_PAGES (page_shift e)"
  shows "group_inv e t (m\<lparr>nvfs_blocks_count := blocks, gpu_info := g\<rparr>)"
  using assms unfolding filling_def group_inv_def mgroup_wf_def pages_indexed_def page_record_def by fastforce

lemma driver_inv_cong: "page_shift e = page_shift e' \<Longrightarrow> driver_inv e s = driver_inv e' s"
  by (simp add: driver_inv_def group_inv_def mgroup_wf_def pages_indexed_def)

text \<open>What \<^verbatim>\<open>mmap\<close> does to the groups, whatever happens: nothing, or it enters one that satisfies the invariant.\<close>

lemma mmap_any:
  assumes inv: "driver_inv e s" and fresh: "fresh_memory e s" and ps: "valid_page_shift (page_shift e)"
    and run: "nvfs_mgroup_mmap e vma s = Some (ret, vma', s')"
  shows "only_new_pages e s s' \<and>
    (mgroups s' = mgroups s \<and> nvfs_io_mgroup_hash s' = nvfs_io_mgroup_hash s \<or>
     (\<exists>m. mgroups s' = (mgroups s)(kzalloc_mgroup e \<mapsto> m) \<and> nvfs_io_mgroup_hash s' = kzalloc_mgroup e # nvfs_io_mgroup_hash s \<and>
        \<not> index_used s (base_index m) \<and> mg_ref m = 1 \<and> group_inv e s' m))"
proof -
  let ?p = "kzalloc_mgroup e" and ?vma = "vma\<lparr>vm_flags := vm_flags vma OR vm_flags_to_set\<rparr>"
  define s0 where "s0 = kstat (nvfs_stat64 nvfs_n_mmap) s"
  have s0: "mgroups s0 = mgroups s" "nvfs_io_mgroup_hash s0 = nvfs_io_mgroup_hash s" "kpages s0 = kpages s" "hash_wf s0"
    "index_used s0 = index_used s"
    using driver_invD(1) [OF inv] by (simp_all add: s0_def)
  have p: "mgroups s ?p = None" "?p \<notin> set (nvfs_io_mgroup_hash s)"
    using fresh driver_invD(1) [OF inv] by (auto simp: fresh_memory_def hash_wf_def)
  have inj: "\<forall>i j pg. alloc_page e i = Some pg \<longrightarrow> alloc_page e j = Some pg \<longrightarrow> i = j" using fresh by (simp add: fresh_memory_def)
  show ?thesis
  proof (cases "vm_pgoff vma = 0 \<and> mmap_request_ok e vma \<and> kalloc_ok e AllocMgroup \<and> (\<exists>i < 10. \<not> index_used s (drawn e i))")
    case False
    have "mgroups s' = mgroups s \<and> nvfs_io_mgroup_hash s' = nvfs_io_mgroup_hash s \<and> kpages s' = kpages s"
      using run False alloc_base_index_spec [OF s0(4), of e 10 0 ?p] s0
      by (auto simp: nvfs_mgroup_mmap_def nvfs_mgroup_mmap_internal_def Let_def s0_def [symmetric] split: if_splits)
    then show ?thesis by (simp add: only_new_pages_def)
  next
    case True
    define b where "b = drawn e (LEAST i. \<not> index_used s (drawn e i))"
    have b: "\<not> index_used s b" "NVFS_MIN_BASE_INDEX \<le> b"
      using True LeastI_ex [of "\<lambda>i. \<not> index_used s (drawn e i)"] by (auto simp: b_def drawn_def)
    define s1 where "s1 = new_group_state ?p b s0"
    let ?m0 = "zero_mgroup\<lparr>base_index := b, mg_ref := 1\<rparr>"
    have s1: "mgroups s1 = (mgroups s)(?p \<mapsto> ?m0)" "nvfs_io_mgroup_hash s1 = ?p # nvfs_io_mgroup_hash s" "kpages s1 = kpages s"
      by (simp_all add: s1_def new_group_state_def s0)
    have al: "alloc_base_index e 10 0 ?p s0 = Some (True, s1)"
      using alloc_base_index_spec [OF s0(4), of e 10 0 ?p] True by (auto simp: b_def s1_def s0(5))
    obtain r vma2 s2 where pop: "mmap_populate e ?vma ?p s1 = Some (r, vma2, s2)"
      and s': "\<exists>f. s' = kstat f s2"
      using run True al by (auto simp: nvfs_mgroup_mmap_def nvfs_mgroup_mmap_internal_def Let_def s0_def [symmetric] bind_eq_Some_conv
          split: if_splits)
    have eq: "mgroups s' = mgroups s2" "nvfs_io_mgroup_hash s' = nvfs_io_mgroup_hash s2" "kpages s' = kpages s2" using s' by auto
    have req: "mmap_request_ok e ?vma" using True by (simp add: mmap_request_flags)
    have m0: "mgroups s1 ?p = Some ?m0" "mg_ref ?m0 = 1" using s1 by simp_all
    note res = populate_any [OF ps req m0 inj pop]
    show ?thesis
    proof (cases "r = 0")
      case False
      then show ?thesis using res p eq s1 by (auto simp: given_up_def only_new_pages_def fun_eq_iff)
    next
      case True
      then obtain t m blocks g where f: "filling e ?p ?m0 blocks s1 blocks t" "mgroups t ?p = Some m"
        "DIV_ROUND_UP blocks (nvfs_block_count_per_page (page_shift e)) \<le> NVFS_MAX_SHADOW_PAGES (page_shift e)"
        "mgroups s2 = (mgroups t)(?p \<mapsto> m\<lparr>nvfs_blocks_count := blocks, gpu_info := g\<rparr>)"
        "nvfs_io_mgroup_hash s2 = nvfs_io_mgroup_hash t" "kpages s2 = kpages t"
        using res by auto
      obtain pps md where t: "mgroups t = (mgroups s1)(?p \<mapsto> ?m0\<lparr>nvfs_ppages := Some pps, nvfs_metadata := Some md\<rparr>)"
        "nvfs_io_mgroup_hash t = nvfs_io_mgroup_hash s1" "only_new_pages e s1 t"
        using f(1) unfolding filling_def by blast
      let ?m = "m\<lparr>nvfs_blocks_count := blocks, gpu_info := g\<rparr>"
      have "group_inv e s' ?m" using filled_inv [OF f(1,2) _ f(3)] b(2) group_inv_pages [of s' t] eq(3) f(6) by simp
      moreover have "base_index ?m = b" "mg_ref ?m = 1" using f(2) t(1) by auto
      moreover have "mgroups s' = (mgroups s)(?p \<mapsto> ?m)" using eq(1) f(4) t(1) s1(1) by (simp add: fun_eq_iff)
      moreover have "only_new_pages e s s'" using t(3) s1(3) f(6) eq(3) by (simp add: only_new_pages_def)
      ultimately show ?thesis using eq(2) f(5) t(2) s1(2) b(1) by auto
    qed
  qed
qed

lemma mmap_keeps_inv:
  assumes "driver_inv e s" and "fresh_memory e s" and "valid_page_shift (page_shift e)"
    and "nvfs_mgroup_mmap e vma s = Some (ret, vma', s')"
  shows "driver_inv e s'"
proof -
  let ?p = "kzalloc_mgroup e"
  have old: "group_inv e s' n" if "mgroups s q = Some n" for q n
    using group_inv_new_pages [OF _ assms(2) that driver_invD(2) [OF assms(1) that]] mmap_any [OF assms] by blast
  from mmap_any [OF assms]
  consider (none) "mgroups s' = mgroups s" "nvfs_io_mgroup_hash s' = nvfs_io_mgroup_hash s"
    | (new) m where "mgroups s' = (mgroups s)(?p \<mapsto> m)" "nvfs_io_mgroup_hash s' = ?p # nvfs_io_mgroup_hash s"
      "\<not> index_used s (base_index m)" "mg_ref m = 1" "group_inv e s' m"
    by blast
  then show ?thesis
  proof cases
    case none
    then show ?thesis using old driver_invD(1) [OF assms(1)] hash_wf_same [of s s'] by (simp add: driver_inv_def)
  next
    case (new m)
    have "mgroups s ?p = None" using assms(2) by (simp add: fresh_memory_def)
    then have "hash_wf (new_group_state ?p (base_index m) s)" using hash_wf_new [OF driver_invD(1) [OF assms(1)]] new(3) by simp
    then have "hash_wf ((new_group_state ?p (base_index m) s)\<lparr>mgroups := (mgroups (new_group_state ?p (base_index m) s))(?p \<mapsto> m)\<rparr>)"
      by (rule hash_wf_upd [of _ ?p "zero_mgroup\<lparr>base_index := base_index m, mg_ref := 1\<rparr>"]) (simp_all add: new_group_state_def new(4))
    then have "hash_wf s'" by (rule hash_wf_same) (simp_all add: new new_group_state_def)
    moreover have "group_inv e s' n" if "mgroups s' q = Some n" for q n
      using that old new(1,5) by (cases "q = ?p") auto
    ultimately show ?thesis by (simp add: driver_inv_def)
  qed
qed

section \<open>The driver as a transition system\<close>

text \<open>
  A step is one call into the driver that returns, with whatever the kernel, the GPU driver and the file system answer: a mapping or an
  unmapping, any request, the completion of an asynchronous one, the callback of the GPU driver, a hook of a
  storage driver, the opening and closing of the device. While a request waits in the file system and while the callback
  waits for the I/O, other threads take any number of steps. The parameter \<open>A\<close> is a set of addresses at which no new group is
  allocated; it is empty unless such a group is followed.
\<close>

inductive driver_step :: "kenv \<Rightarrow> mptr set \<Rightarrow> kstate \<Rightarrow> kstate \<Rightarrow> bool" for e0 :: kenv and A :: "mptr set" where
  step_mmap: "page_shift e = page_shift e0 \<Longrightarrow> fresh_memory e s \<Longrightarrow> kzalloc_mgroup e \<notin> A \<Longrightarrow>
    nvfs_mgroup_mmap e vma s = Some (r, vma', s') \<Longrightarrow> driver_step e0 A s s'"
| step_munmap: "nvfs_vma_close e vma s = Some (vma', s') \<Longrightarrow> driver_step e0 A s s'"
| step_ioctl: "(\<And>op fd buf len pos t n t'. call_iter fs op fd buf len pos t = Some (n, t') \<Longrightarrow> (driver_step e0 A)\<^sup>*\<^sup>* t t') \<Longrightarrow>
    nvfs_ioctl e fs shutdown u cmd s = Some (r, out, s') \<Longrightarrow> driver_step e0 A s s'"
| step_complete: "nvfs_io_complete e fs p res s = Some s' \<Longrightarrow> driver_step e0 A s s'"
| step_callback: "(\<And>k t. (driver_step e0 A)\<^sup>*\<^sup>* t (others k t)) \<Longrightarrow>
    nvfs_get_pages_free_callback e others fuel p s = Some (Woken s') \<Longrightarrow> driver_step e0 A s s'"
| step_map_sg: "nvfs_blk_rq_map_sg_internal e q req sgl s = Some (r, req', sgl', s') \<Longrightarrow> driver_step e0 A s s'"
| step_dma_map: "nvfs_dma_map_sg_attrs_internal e q dev sg n s = Some (r, sg', s') \<Longrightarrow> driver_step e0 A s s'"
| step_dma_unmap: "nvfs_dma_unmap_sg e sgl k s = Some (r, s') \<Longrightarrow> driver_step e0 A s s'"
| step_iter_start: "nvfs_blk_rq_dma_map_iter_start e rq bios dev di s = Some (r, di', cookie, s') \<Longrightarrow> driver_step e0 A s s'"
| step_iter_next: "nvfs_blk_rq_dma_map_iter_next e rq' dev di s = Some (r, di', s') \<Longrightarrow> driver_step e0 A s s'"
| step_unmap_page: "nvfs_dma_unmap_page e cookie s = Some (r, s') \<Longrightarrow> driver_step e0 A s s'"
| step_rdma_info: "nvfs_get_gpu_sglist_rdma_info e sg k info s = Some (r, info', s') \<Longrightarrow> driver_step e0 A s s'"
| step_is_gpu_page: "nvfs_is_gpu_page e page s = Some (b, s') \<Longrightarrow> driver_step e0 A s s'"
| step_gpu_index: "nvfs_gpu_index e page s = Some (i, s') \<Longrightarrow> driver_step e0 A s s'"
| step_open: "nvfs_open e me shutdown s = (r, s') \<Longrightarrow> driver_step e0 A s s'"
| step_close: "nvfs_close e s = (r, s') \<Longrightarrow> driver_step e0 A s s'"

abbreviation driver_steps :: "kenv \<Rightarrow> mptr set \<Rightarrow> kstate \<Rightarrow> kstate \<Rightarrow> bool" where
  "driver_steps e0 A \<equiv> (driver_step e0 A)\<^sup>*\<^sup>*"

definition mmap_keeps :: "kenv \<Rightarrow> mptr set \<Rightarrow> (kstate \<Rightarrow> bool) \<Rightarrow> bool" where
  "mmap_keeps e0 A I \<longleftrightarrow> (\<forall>e vma s r vma' s'. page_shift e = page_shift e0 \<longrightarrow> fresh_memory e s \<longrightarrow> kzalloc_mgroup e \<notin> A \<longrightarrow>
     nvfs_mgroup_mmap e vma s = Some (r, vma', s') \<longrightarrow> I s \<longrightarrow> I s')"

context kept_property
begin

lemma rtranclp_kept: "(\<lambda>s s'. R s s' \<and> (I s \<longrightarrow> I s'))\<^sup>*\<^sup>* s s' \<Longrightarrow> I s \<Longrightarrow> I s'"
  by (induction rule: rtranclp_induct) auto

text \<open>With what \<^verbatim>\<open>mmap\<close> keeps, all steps keep it.\<close>

lemma step_kept:
  assumes "driver_step e0 A s s'" and mmap: "mmap_keeps e0 A I"
  shows "I s \<longrightarrow> I s'"
  using assms(1)
proof (induction rule: driver_step.induct)
  case (step_mmap e s vma r vma' s')
  then show ?case using mmap unfolding mmap_keeps_def by blast
next
  case (step_ioctl fs e shutdown u cmd s r out s')
  have "fs_keeps I fs" unfolding fs_keeps_def using step_ioctl(1) rtranclp_kept by blast
  then show ?case using after_D [OF ioctl_kept step_ioctl(2)] by auto
next
  case (step_callback others e fuel p s s')
  have "others_keep I others" unfolding others_keep_def using step_callback(1) rtranclp_kept by blast
  then show ?case using after_D [OF callback_kept step_callback(2)] by (auto simp: woken_def)
next
  case (step_open e me shutdown s r s')
  then show ?case using open_close_kept(1) [of s e me shutdown] by simp
next
  case (step_close e s r s')
  then show ?case using open_close_kept(2) [of s e] by simp
next
  case step_munmap
  then show ?case using after_D [OF vma_close_kept] by auto
next
  case step_complete
  then show ?case using after_D [OF io_complete_kept] by auto
next
  case step_map_sg
  then show ?case using after_D [OF map_sg_kept] by auto
next
  case step_dma_map
  then show ?case using after_D [OF dma_map_sg_kept] by auto
next
  case step_dma_unmap
  then show ?case using after_D [OF unmap_sg_kept] by auto
next
  case step_iter_start
  then show ?case using after_D [OF iter_kept(1)] by auto
next
  case step_iter_next
  then show ?case using after_D [OF iter_kept(2)] by auto
next
  case step_unmap_page
  then show ?case using after_D [OF iter_kept(3)] by auto
next
  case step_rdma_info
  then show ?case using after_D [OF sglist_rdma_kept] by auto
next
  case step_is_gpu_page
  then show ?case using after_D [OF page_tests_kept(1)] by auto
next
  case step_gpu_index
  then show ?case using after_D [OF page_tests_kept(3)] by auto
qed

lemma steps_kept: "driver_steps e0 A s s' \<Longrightarrow> mmap_keeps e0 A I \<Longrightarrow> I s \<Longrightarrow> I s'"
  by (induction rule: rtranclp_induct) (use step_kept in blast)+

end

context kept_at
begin

lemma steps_from: "driver_steps e0 {q} s s' \<Longrightarrow> I s \<Longrightarrow> I s'"
proof (erule steps_kept)
  show "mmap_keeps e0 {q} I" unfolding mmap_keeps_def using after_D [OF mmap_elsewhere] by fastforce
qed

end

section \<open>Reachable states\<close>

lemma reachable_inv:
  assumes "driver_steps e0 A s0 s" and "driver_inv e0 s0" and "valid_page_shift (page_shift e0)"
  shows "driver_inv e0 s"
proof -
  have "mmap_keeps e0 A (driver_inv e0)"
    unfolding mmap_keeps_def using mmap_keeps_inv driver_inv_cong assms(3) by metis
  then show ?thesis using inv.steps_kept [OF assms(1)] assms(2) by blast
qed

lemma no_groups_inv: "mgroups s = Map.empty \<Longrightarrow> nvfs_io_mgroup_hash s = [] \<Longrightarrow> driver_inv e s"
  by (simp add: driver_inv_def hash_wf_def)

text \<open>The pages of live groups.\<close>

definition shadow_page :: "kstate \<Rightarrow> pageid \<Rightarrow> bool" where
  "shadow_page s pg \<longleftrightarrow> (\<exists>p m pps. mgroups s p = Some m \<and> nvfs_ppages m = Some pps \<and> Some pg \<in> set pps)"

lemma find_page_block_iff:
  assumes "find_page_block md pg is = Some r" and "\<forall>i < length md. nvfs_start_magic (md ! i) = NVFS_START_MAGIC"
  shows "r \<longleftrightarrow> (\<exists>i \<in> set is. i < length md \<and> md_page (md ! i) = Some pg)"
  using assms(1)
proof (induction "is")
  case (Cons i "is")
  then show ?case using assms(2) by (auto simp: bind_eq_Some_conv split: if_splits)
qed simp

lemma is_gpu_page_hit:
  assumes "hash_wf s" and "mgroups s p = Some m" and "base_index m = page_base_index e s pg" and "nvfs_metadata m = Some md"
    and "\<not> page_mapping (kpages s pg)" and "NVFS_MIN_BASE_INDEX \<le> page_base_index e s pg"
  shows "nvfs_is_gpu_page e (Some pg) s = map_option (\<lambda>r. (r, s))
    (find_page_block md pg [rel_page e s pg * nvfs_block_count_per_page (page_shift e) ..<
       rel_page e s pg * nvfs_block_count_per_page (page_shift e) + nvfs_block_count_per_page (page_shift e)])"
    (is "_ = map_option _ ?found")
proof -
  let ?m1 = "m\<lparr>mg_ref := mg_ref m + 1\<rparr>" and ?s1 = "s\<lparr>mgroups := (mgroups s)(p \<mapsto> m\<lparr>mg_ref := mg_ref m + 1\<rparr>)\<rparr>"
  have "0 < mg_ref m" using assms(1,2) by (auto simp: hash_wf_def)
  then have put: "nvfs_mgroup_put e p ?s1 = Some s" using put_after_get [OF assms(2)] by (simp add: nvfs_mgroup_put_def)
  have rel: "rel_page e ?s1 pg = rel_page e s pg" by (simp add: rel_page_def NVFS_PAGE_INDEX_def)
  have get: "nvfs_mgroup_get (page_base_index e s pg) s = Some (Some p, ?s1)"
    using mgroup_get_hit [OF assms(1,2,3)] by (simp add: nvfs_mgroup_get_def)
  have raw: "nvfs_mgroup_from_page_raw e (Some pg) False s = do {
      v \<leftarrow> from_page_checks e ?s1 pg False ?m1;
      case v of Ptr _ \<Rightarrow> Some (Ptr p, ?s1) | NullPtr \<Rightarrow> Some (NullPtr, s) | ErrPtr err \<Rightarrow> Some (ErrPtr err, s) }"
    using assms(5,6) get put by (simp add: nvfs_mgroup_from_page_raw_def cong: errptr.case_cong)
  show ?thesis
  proof (cases ?found)
    case None
    then show ?thesis using assms(4) by (simp add: nvfs_is_gpu_page_def raw from_page_checks_def rel Let_def)
  next
    case (Some r)
    then show ?thesis using assms(4) put by (simp add: nvfs_is_gpu_page_def raw from_page_checks_def rel Let_def)
  qed
qed

lemma shadow_page_place:
  assumes "driver_inv e s" and "mgroups s p = Some m" and "nvfs_ppages m = Some pps" and "j < length pps" and "pps ! j = Some pg"
  shows "page_base_index e s pg = base_index m" "rel_page e s pg = j" "\<not> page_mapping (kpages s pg)"
    "NVFS_MIN_BASE_INDEX \<le> base_index m"
proof -
  have k: "kpages s pg = \<lparr> page_index = base_index m * NVFS_MAX_SHADOW_PAGES (page_shift e) + j, page_mapping = False \<rparr>"
    and j: "j < NVFS_MAX_SHADOW_PAGES (page_shift e)" and b: "NVFS_MIN_BASE_INDEX \<le> base_index m"
    using driver_invD(2) [OF assms(1,2)] assms(3-5) by (auto simp: group_inv_def pages_indexed_def)
  show "page_base_index e s pg = base_index m" "rel_page e s pg = j" "\<not> page_mapping (kpages s pg)" "NVFS_MIN_BASE_INDEX \<le> base_index m"
    using page_index_roundtrip [OF _ j, of s pg "base_index m"] k b by (simp_all add: NVFS_PAGE_INDEX_def)
qed

lemma is_gpu_page_exact:
  assumes "driver_inv e s" and "valid_page_shift (page_shift e)"
  shows "nvfs_is_gpu_page e (Some pg) s \<in> {None, Some (shadow_page s pg, s)} \<and>
    (shadow_page s pg \<or> page_mapping (kpages s pg) \<or> \<not> index_used s (page_base_index e s pg) \<longrightarrow> nvfs_is_gpu_page e (Some pg) s \<noteq> None)"
proof -
  let ?bpp = "nvfs_block_count_per_page (page_shift e)" and ?rel = "rel_page e s pg"
  have wf: "hash_wf s" using assms(1) by (rule driver_invD)
  have bpp: "0 < ?bpp" using assms(2) by simp
  have place: "page_base_index e s pg = base_index m \<and> ?rel = j \<and> \<not> page_mapping (kpages s pg) \<and> NVFS_MIN_BASE_INDEX \<le> base_index m"
    if "mgroups s p = Some m" "nvfs_ppages m = Some pps" "j < length pps" "pps ! j = Some pg" for p m pps j
    using shadow_page_place [OF assms(1) that] by simp
  show ?thesis
  proof (cases "page_mapping (kpages s pg) \<or> page_base_index e s pg < NVFS_MIN_BASE_INDEX \<or> \<not> index_used s (page_base_index e s pg)")
    case True
    then have "\<not> shadow_page s pg" using place by (fastforce simp: shadow_page_def in_set_conv_nth index_used_def)
    moreover have "nvfs_is_gpu_page e (Some pg) s = Some (False, s)"
      using True mgroup_get_miss [OF wf, of "page_base_index e s pg"]
      by (auto simp: nvfs_is_gpu_page_def nvfs_mgroup_from_page_raw_def nvfs_mgroup_get_def index_used_def)
    ultimately show ?thesis by simp
  next
    case False
    then obtain p m where m: "mgroups s p = Some m" "base_index m = page_base_index e s pg" by (auto simp: index_used_def)
    obtain md pps where md: "nvfs_metadata m = Some md" "nvfs_ppages m = Some pps" "length md = nvfs_blocks_count m"
      "length pps = DIV_ROUND_UP (nvfs_blocks_count m) ?bpp"
      "\<forall>j < length md. nvfs_start_magic (md ! j) = NVFS_START_MAGIC \<and> md_page (md ! j) = pps ! (j div ?bpp)"
      using driver_invD(2) [OF assms(1) m(1)] unfolding group_inv_def mgroup_wf_def by blast
    let ?blks = "[?rel * ?bpp ..< ?rel * ?bpp + ?bpp]"
    have test: "nvfs_is_gpu_page e (Some pg) s = map_option (\<lambda>r. (r, s)) (find_page_block md pg ?blks)"
      using is_gpu_page_hit [OF wf m md(1)] False by simp
    have magic: "\<forall>i < length md. nvfs_start_magic (md ! i) = NVFS_START_MAGIC" using md(5) by blast
    have found: "\<exists>is'. ?blks = ?rel * ?bpp # is' \<and> ?rel * ?bpp < length md \<and> md_page (md ! (?rel * ?bpp)) = Some pg" if "shadow_page s pg"
    proof -
      from that obtain p' m' pps' j where j: "mgroups s p' = Some m'" "nvfs_ppages m' = Some pps'" "j < length pps'" "pps' ! j = Some pg"
        by (auto simp: shadow_page_def in_set_conv_nth)
      then have "p' = p" using place [OF j] m wf unfolding hash_wf_def by metis
      then have "m' = m" "pps' = pps" using j m md(2) by simp_all
      then have rel: "?rel = j" "pps ! j = Some pg" "j < length pps" using place [OF j] j by simp_all
      have "?bpp * Suc j \<le> ?bpp * length pps" using rel(3) by (intro mult_le_mono2) simp
      then have "j * ?bpp < nvfs_blocks_count m" using DIV_ROUND_UP_bounds(2) [OF bpp, of "nvfs_blocks_count m"] md(4) by (simp add: mult.commute)
      then show ?thesis using md(3,5) rel bpp by (simp add: upt_conv_Cons)
    qed
    have conv: "shadow_page s pg" if "i \<in> set ?blks" "i < length md" "md_page (md ! i) = Some pg" for i
    proof -
      have "i div ?bpp < length pps" using page_of_block [OF bpp] that(2) md(3,4) by simp
      then have "Some pg \<in> set pps" using md(5) that by (metis nth_mem)
      then show ?thesis using m(1) md(2) by (auto simp: shadow_page_def)
    qed
    have "r = shadow_page s pg" if "find_page_block md pg ?blks = Some r" for r
      using find_page_block_iff [OF that magic] conv found by (metis list.set_intros(1))
    moreover have "find_page_block md pg ?blks \<noteq> None" if "shadow_page s pg" using found [OF that] magic by auto
    ultimately show ?thesis using test False by (cases "find_page_block md pg ?blks") auto
  qed
qed

section \<open>Properties\<close>

text \<open>A run for the examples: a buffer of one GPU page is mapped.\<close>

lemma ex_mapped:
  obtains s' m where "driver_step ex_env {} empty_kstate s'" "mgroups s' = [100 \<mapsto> m]" "nvfs_ppages m = Some (map (\<lambda>j. Some (500 + j)) [0 ..< 16])"
proof -
  let ?len = "unat (vm_end ex_new_vma - vm_start ex_new_vma)"
  have len: "?len = 65536" by (simp add: ex_new_vma_def ex_vma_def)
  have req: "mmap_request_ok ex_env ex_new_vma"
    unfolding mmap_request_ok_def len by (simp add: ex_new_vma_def ex_env_def nvfs_geom vm_bits Let_def)
  have e: "valid_page_shift (page_shift ex_env)" "\<forall>site. kalloc_ok ex_env site" "vm_pgoff ex_new_vma = 0"
    "vm_private_data ex_new_vma = None" "kzalloc_mgroup ex_env = 100" "hash_wf empty_kstate" "mgroups empty_kstate = Map.empty"
    "\<exists>i < 10. \<not> index_used empty_kstate (drawn ex_env i)" "alloc_page ex_env = (\<lambda>j. Some (500 + j))" "pages_available ex_env n" for n
    by (simp_all add: valid_page_shift_def ex_env_def ex_new_vma_def ex_vma_def empty_kstate_def hash_wf_def index_used_def
        pages_available_def) (rule exI [of _ 0], simp)
  have free: "mgroups empty_kstate (kzalloc_mgroup ex_env) = None" using e(7) by simp
  obtain vma' s' m b blocks np where run: "nvfs_mgroup_mmap ex_env ex_new_vma empty_kstate = Some (0, vma', s')"
    "m = (filled_group ex_env blocks np blocks np (zero_mgroup\<lparr>base_index := b, mg_ref := 1\<rparr>))\<lparr>nvfs_blocks_count := blocks,
      gpu_info := (gpu_info zero_mgroup)\<lparr>io_state := IO_FREE\<rparr>\<rparr>" "mgroups s' = (mgroups empty_kstate)(kzalloc_mgroup ex_env \<mapsto> m)"
    "blocks * 4096 = ?len" "np = DIV_ROUND_UP blocks (nvfs_block_count_per_page (page_shift ex_env))"
    using mmap_outcome [OF e(1,6) free e(3) req e(4,2) refl e(10,8)] by (elim exE conjE)
  have "fresh_memory ex_env empty_kstate" using e(5,7,9) by (simp add: fresh_memory_def)
  then have "driver_step ex_env {} empty_kstate s'" using step_mmap [of ex_env ex_env empty_kstate "{}"] run(1) by simp
  moreover have "np = 16" using run(4,5) len by (simp add: ex_env_def nvfs_geom DIV_ROUND_UP_def)
  ultimately show thesis using that run(2,3) e(5,7,9) by (simp add: filled_group_def)
qed

lemma ex_start: "mgroups empty_kstate = Map.empty" "nvfs_io_mgroup_hash empty_kstate = []" "valid_page_shift (page_shift ex_env)"
  by (simp_all add: empty_kstate_def valid_page_shift_def ex_env_def)

text \<open>
  C2. The invariant of the driver. From a state without groups, whatever calls are made to the driver, in whatever order, by
  however many threads and with whatever results, as long as the kernel's allocators hand out memory that is not in use: the
  table lists exactly the live groups, each once; no two have the same base index and all have references; every
  group has one block entry for each block and one page for each page, with the magic number and the page of each block in
  place; and every page of a group carries the index that leads back to the group and to its place in it.
\<close>

theorem driver_invariant:
  assumes "mgroups s0 = Map.empty" and "nvfs_io_mgroup_hash s0 = []" and "valid_page_shift (page_shift e0)"
    and "driver_steps e0 {} s0 s"
  shows "hash_wf s \<and> (\<forall>p m. mgroups s p = Some m \<longrightarrow> mgroup_wf e0 m \<and>
    (\<forall>pps j pg. nvfs_ppages m = Some pps \<longrightarrow> j < length pps \<longrightarrow> pps ! j = Some pg \<longrightarrow>
       page_base_index e0 s pg = base_index m \<and> rel_page e0 s pg = j \<and> \<not> page_mapping (kpages s pg)))"
proof -
  have inv: "driver_inv e0 s" using reachable_inv [OF assms(4)] no_groups_inv assms(1-3) by blast
  then show ?thesis using shadow_page_place [OF inv] by (auto simp: driver_inv_def group_inv_def)
qed

theorem driver_invariant_witness:
  "\<exists>s m. driver_steps ex_env {} empty_kstate s \<and> mgroups s 100 = Some m \<and> mgroup_wf ex_env m \<and> rel_page ex_env s 503 = 3"
proof -
  obtain s m where s: "driver_step ex_env {} empty_kstate s" "mgroups s = [100 \<mapsto> m]"
    "nvfs_ppages m = Some (map (\<lambda>j. Some (500 + j)) [0 ..< 16])" by (rule ex_mapped)
  have "driver_steps ex_env {} empty_kstate s" using s(1) by blast
  moreover have "mgroups s 100 = Some m" "3 < length (map (\<lambda>j. Some (500 + j)) [0 ..< 16])"
    "map (\<lambda>j. Some (500 + j)) [0 ..< 16] ! 3 = Some (503 :: pageid)"
    using s(2) by simp_all
  ultimately show ?thesis using driver_invariant [OF ex_start] s(3) by blast
qed

text \<open>
  C3. The test for GPU pages is exact in every state the driver reaches: when it returns, it says whether the page belongs to a live
  group, whatever that group is doing, and leaves the state as it was; and it does return for every page of a live group, and
  for every page with an address space of its own or an index that no live group has.
\<close>

theorem reachable_gpu_page_test:
  assumes "mgroups s0 = Map.empty" and "nvfs_io_mgroup_hash s0 = []" and "valid_page_shift (page_shift e0)"
    and "driver_steps e0 {} s0 s" and "page_shift e = page_shift e0"
  shows "nvfs_is_gpu_page e (Some pg) s \<in> {None, Some (shadow_page s pg, s)} \<and>
    (shadow_page s pg \<or> page_mapping (kpages s pg) \<or> \<not> index_used s (page_base_index e s pg) \<longrightarrow> nvfs_is_gpu_page e (Some pg) s \<noteq> None)"
proof -
  have "driver_inv e0 s" using reachable_inv [OF assms(4)] no_groups_inv assms(1-3) by blast
  then have "driver_inv e s" using driver_inv_cong [OF assms(5)] by simp
  then show ?thesis using is_gpu_page_exact assms(3,5) by simp
qed

theorem reachable_gpu_page_test_witness:
  "\<exists>s. driver_steps ex_env {} empty_kstate s \<and> nvfs_is_gpu_page ex_env (Some 503) s = Some (True, s)"
proof -
  obtain s m where s: "driver_step ex_env {} empty_kstate s" "mgroups s = [100 \<mapsto> m]"
    "nvfs_ppages m = Some (map (\<lambda>j. Some (500 + j)) [0 ..< 16])" by (rule ex_mapped)
  have "shadow_page s 503" using s(2,3) by (auto simp: shadow_page_def intro!: image_eqI [of _ _ 3])
  moreover have "driver_steps ex_env {} empty_kstate s" using s(1) by blast
  ultimately show ?thesis using reachable_gpu_page_test [OF ex_start _ refl, of s 503] by auto
qed

text \<open>
  C4. A group is what it was, or it is gone. As long as no new group is allocated at its address, and whatever else happens, a live
  group keeps its base index, its size, its pages and the identity of its blocks, and an address without a group stays without one.
\<close>

theorem group_identity:
  assumes "driver_steps e0 {p} s s'"
  shows "case mgroups s p of None \<Rightarrow> mgroups s' p = None
    | Some m \<Rightarrow> (case mgroups s' p of None \<Rightarrow> True | Some m' \<Rightarrow> same_layout m m')"
proof (cases "mgroups s p")
  case None
  then show ?thesis using gone.steps_from [OF assms] by (simp add: unallocated_def)
next
  case (Some m)
  then show ?thesis using layout.steps_from [OF assms, of m] by (simp add: layout_of_def split: option.split)
qed

theorem group_identity_witness:
  "\<exists>vma' s' m'. nvfs_vma_close ex_env ex_vma ex_busy_state = Some (vma', s') \<and> mgroups s' 100 = Some m' \<and>
     same_layout ((with_io_state IO_IN_PROGRESS ex_ready_group)\<lparr>mg_ref := 3\<rparr>) m'"
proof -
  let ?m = "(with_io_state IO_IN_PROGRESS ex_ready_group)\<lparr>mg_ref := 3\<rparr>"
  have m: "mgroups ex_busy_state 100 = Some ?m" by (simp add: ex_busy_state_def)
  obtain vma' s' m' where un: "nvfs_vma_close ex_env ex_vma ex_busy_state = Some (vma', s')" "mgroups s' 100 = Some m'"
    by (simp add: nvfs_vma_close_def vma_close_terminate_def terminate_requested_live [OF m] get_io_state_def ex_vma_def
        ex_ready_group_def ex_group_def zero_mgroup_def nvfs_mgroup_put_def nvfs_mgroup_put_internal_def nvfs_mgroup_put_ref_def m)
  then have "driver_steps ex_env {100} ex_busy_state s'" using step_munmap by blast
  from group_identity [OF this] un m show ?thesis by auto
qed

end
