(* ===== verification/Nvfs_Pci.thy ===== *)
theory Nvfs_Pci
  imports Nvfs_State "HOL-Library.Sublist"
begin

text \<open>
  The PCI topology (\<^verbatim>\<open>nvfs-pci.c\<close>, \<^verbatim>\<open>nvfs-pci.h\<close>): device identifiers with the attributes packed
  into them, the index tables of GPUs and peers, the bridge paths, and the rank matrix by
  which user space and the block layer choose the nearest peer of a GPU.

  The hash function of the kernel (\<^verbatim>\<open>jhash_2words\<close>) is a parameter; nothing is assumed about it.
\<close>

unbundle bit_operations_syntax

abbreviation (input) MAX_GPU_DEVS :: nat where "MAX_GPU_DEVS \<equiv> 64"
abbreviation (input) MAX_PEER_DEVS :: nat where "MAX_PEER_DEVS \<equiv> 64"
abbreviation (input) MAX_PCI_DEPTH :: nat where "MAX_PCI_DEPTH \<equiv> 16"
abbreviation (input) UINT_MAX :: nat where "UINT_MAX \<equiv> 4294967295"
abbreviation (input) PROC_LIMIT_PCI_DISTANCE_COMMONRP :: nat where "PROC_LIMIT_PCI_DISTANCE_COMMONRP \<equiv> 32"
abbreviation (input) BASE_PCI_DISTANCE_CROSSRP :: nat where "BASE_PCI_DISTANCE_CROSSRP \<equiv> 127"
abbreviation (input) PCI_NULL_DEV_NORP :: u64 where "PCI_NULL_DEV_NORP \<equiv> 0xfffffffe"

section \<open>Device identifiers\<close>

definition NVFS_PDEVINFO_INFO_MASK :: u64 where
  "NVFS_PDEVINFO_INFO_MASK = NOT 0xffff0000"

text \<open>A device on a bus carries its domain and bus, one without only its slot and function.\<close>

definition PCI_DEVID :: "u8 \<Rightarrow> u8 \<Rightarrow> u16" where
  "PCI_DEVID bus fn = push_bit 8 (ucast bus) OR ucast fn"

definition nvfs_pdevinfo :: "(u32 \<times> u8) option \<Rightarrow> u8 \<Rightarrow> u64" where
  "nvfs_pdevinfo bus fn =
     (case bus of
        Some (domain_nr, number) \<Rightarrow> push_bit 32 (ucast domain_nr) OR ucast (PCI_DEVID number fn)
      | None \<Rightarrow> ucast (PCI_DEVID 0 fn))"

definition nvfs_pdevinfo_set_acs :: "u64 \<Rightarrow> u64" where
  "nvfs_pdevinfo_set_acs v = v OR push_bit 16 1"

definition nvfs_pdevinfo_get_acs :: "u64 \<Rightarrow> bool" where
  "nvfs_pdevinfo_get_acs v \<longleftrightarrow> v AND push_bit 16 1 \<noteq> 0"

abbreviation (input) PCI_CLASS_DISPLAY_VGA :: nat where "PCI_CLASS_DISPLAY_VGA \<equiv> 0x300"
abbreviation (input) PCI_CLASS_DISPLAY_3D :: nat where "PCI_CLASS_DISPLAY_3D \<equiv> 0x302"
abbreviation (input) PCI_CLASS_NETWORK_ETHERNET :: nat where "PCI_CLASS_NETWORK_ETHERNET \<equiv> 0x200"
abbreviation (input) PCI_CLASS_NETWORK_INFINIBAND :: nat where "PCI_CLASS_NETWORK_INFINIBAND \<equiv> 0x207"
abbreviation (input) PCI_CLASS_STORAGE_EXPRESS :: nat where "PCI_CLASS_STORAGE_EXPRESS \<equiv> 0x10802"
abbreviation (input) PCI_VENDOR_ID_NVIDIA :: nat where "PCI_VENDOR_ID_NVIDIA \<equiv> 0x10de"

definition PCI_DEV_GPU :: "nat \<Rightarrow> nat \<Rightarrow> bool" where
  "PCI_DEV_GPU cls vendor \<longleftrightarrow> vendor = PCI_VENDOR_ID_NVIDIA \<and> (cls = PCI_CLASS_DISPLAY_VGA \<or> cls = PCI_CLASS_DISPLAY_3D)"

definition PCI_DEV_IB :: "nat \<Rightarrow> bool" where
  "PCI_DEV_IB cls \<longleftrightarrow> cls = PCI_CLASS_NETWORK_ETHERNET \<or> cls = PCI_CLASS_NETWORK_INFINIBAND"

definition PCI_DEV_NVME :: "nat \<Rightarrow> bool" where
  "PCI_DEV_NVME cls \<longleftrightarrow> cls = PCI_CLASS_STORAGE_EXPRESS"

definition nvfs_pdevinfo_set_class :: "nat \<Rightarrow> u64 \<Rightarrow> u64" where
  "nvfs_pdevinfo_set_class dev_class v =
     (if PCI_DEV_IB (dev_class div 256) then v OR push_bit 18 1
      else if PCI_DEV_NVME dev_class then v OR push_bit 17 1
      else v)"

definition nvfs_pdevinfo_get_class_name :: "u64 \<Rightarrow> string" where
  "nvfs_pdevinfo_get_class_name v =
     (if v AND push_bit 18 1 \<noteq> 0 then ''network''
      else if v AND push_bit 17 1 \<noteq> 0 then ''nvme'' else ''x'')"

text \<open>
  The tables of link speeds and widths, with all generations that the kernel may define; a value is
  stored as the first index at which the table has it.
\<close>

definition nvfs_pcie_link_speed_table :: "nat list" where
  "nvfs_pcie_link_speed_table =
     [0xff, 0x14, 0x15, 0x16, 0x17, 0x18, 0x19, 0xff, 0xff, 0xff, 0xff, 0xff, 0xff, 0xff, 0xff, 0xff]"

definition nvfs_pcie_link_width_table :: "nat list" where
  "nvfs_pcie_link_width_table =
     [0, 1, 2, 4, 8, 12, 16, 32, 0xff, 0xff, 0xff, 0xff, 0xff, 0xff, 0xff, 0xff]"

fun table_index :: "nat list \<Rightarrow> nat \<Rightarrow> nat \<Rightarrow> nat option" where
  "table_index [] i v = None"
| "table_index (x # xs) i v = (if v = x then Some i else table_index xs (i + 1) v)"

definition nvfs_pdevinfo_set_link_speed :: "nat \<Rightarrow> u64 \<Rightarrow> u64" where
  "nvfs_pdevinfo_set_link_speed link_speed v =
     (case table_index nvfs_pcie_link_speed_table 0 link_speed of
        None \<Rightarrow> v | Some i \<Rightarrow> v OR push_bit 23 (of_nat i))"

definition nvfs_pdevinfo_get_link_speed :: "u64 \<Rightarrow> nat" where
  "nvfs_pdevinfo_get_link_speed v = unat (drop_bit 23 (ucast v :: u32) AND 0xf)"

definition nvfs_pdevinfo_set_link_width :: "nat \<Rightarrow> u64 \<Rightarrow> u64" where
  "nvfs_pdevinfo_set_link_width link_width v =
     (case table_index nvfs_pcie_link_width_table 0 link_width of
        None \<Rightarrow> v | Some i \<Rightarrow> v OR push_bit 27 (of_nat i))"

definition nvfs_pdevinfo_get_link_width :: "u64 \<Rightarrow> nat" where
  "nvfs_pdevinfo_get_link_width v =
     nvfs_pcie_link_width_table ! unat (drop_bit 27 (ucast v :: u32) AND 0xf)"

section \<open>Index tables\<close>

text \<open>
  Linear probing from the hash of the identifier: for an empty slot when a device is entered,
  for the device itself, without its attributes, when it is looked up.
\<close>

fun probe :: "(u64 \<Rightarrow> bool) \<Rightarrow> u64 list \<Rightarrow> nat \<Rightarrow> nat \<Rightarrow> nat" where
  "probe P index_table idx 0 = UINT_MAX"
| "probe P index_table idx (Suc n) =
     (if P (index_table ! idx) then idx
      else probe P index_table ((idx + 1) mod length index_table) n)"

definition create_index_entry :: "(u64 \<Rightarrow> nat) \<Rightarrow> u64 \<Rightarrow> u64 list \<Rightarrow> nat" where
  "create_index_entry hashfn pcidevinfo index_table =
     probe (\<lambda>x. x = 0) index_table (hashfn pcidevinfo mod length index_table) (length index_table)"

definition lookup_index_entry :: "(u64 \<Rightarrow> nat) \<Rightarrow> u64 \<Rightarrow> u64 list \<Rightarrow> nat" where
  "lookup_index_entry hashfn pcidevinfo index_table =
     probe (\<lambda>x. x AND NVFS_PDEVINFO_INFO_MASK = pcidevinfo) index_table
       (hashfn pcidevinfo mod length index_table) (length index_table)"

record rank_data =
  rd_rank :: u32
  rd_cross :: bool
  rd_pci_dist :: u16
  rd_bw_index :: u16
  rd_count :: u64

record pci_tables =
  gpu_bdf_map :: "u64 list list"
  peer_bdf_map :: "u64 list list"
  gpu_info_table :: "u64 list"
  peer_info_table :: "u64 list"
  gpu_rank_matrix :: "rank_data list list"

definition nvfs_create_gpu_hash_entry :: "(u64 \<Rightarrow> nat) \<Rightarrow> u64 \<Rightarrow> pci_tables \<Rightarrow> nat" where
  "nvfs_create_gpu_hash_entry h pdinfo t =
     (if pdinfo = 0 then UINT_MAX else create_index_entry h pdinfo (gpu_info_table t))"

definition nvfs_create_peer_hash_entry :: "(u64 \<Rightarrow> nat) \<Rightarrow> u64 \<Rightarrow> pci_tables \<Rightarrow> nat" where
  "nvfs_create_peer_hash_entry h pdinfo t =
     (if pdinfo = 0 then UINT_MAX else create_index_entry h pdinfo (peer_info_table t))"

definition nvfs_get_gpu_hash_index :: "(u64 \<Rightarrow> nat) \<Rightarrow> u64 \<Rightarrow> pci_tables \<Rightarrow> nat" where
  "nvfs_get_gpu_hash_index h pdinfo t = lookup_index_entry h pdinfo (gpu_info_table t)"

definition nvfs_get_peer_hash_index :: "(u64 \<Rightarrow> nat) \<Rightarrow> u64 \<Rightarrow> pci_tables \<Rightarrow> nat" where
  "nvfs_get_peer_hash_index h pdinfo t = lookup_index_entry h pdinfo (peer_info_table t)"

definition nvfs_lookup_gpu_hash_index_entry :: "nat \<Rightarrow> pci_tables \<Rightarrow> u64" where
  "nvfs_lookup_gpu_hash_index_entry index t = (if index < MAX_GPU_DEVS then gpu_info_table t ! index else 0)"

definition nvfs_lookup_peer_hash_index_entry :: "nat \<Rightarrow> pci_tables \<Rightarrow> u64" where
  "nvfs_lookup_peer_hash_index_entry index t = (if index < MAX_PEER_DEVS then peer_info_table t ! index else 0)"

section \<open>Devices and their paths\<close>

text \<open>
  A device as the kernel shows it: its class and vendor, its place, whether its bus is a root bus,
  the link status register (\<open>None\<close> when it cannot be read), and the chain of its upstream
  bridges. A bridge has a place and the two words of its ACS capability, if it has one.
\<close>

record pci_bridge =
  br_bus :: "(u32 \<times> u8) option"
  br_devfn :: u8
  br_acs :: "(u16 \<times> u16) option"

record pci_device =
  pd_class :: nat
  pd_vendor :: nat
  pd_bus :: "(u32 \<times> u8) option"
  pd_devfn :: u8
  pd_on_root_bus :: bool
  pd_lnksta :: "u16 option"
  pd_upstream :: "pci_bridge list"

definition nvfs_pcie_acs_enabled :: "pci_bridge \<Rightarrow> bool" where
  "nvfs_pcie_acs_enabled b =
     (case br_acs b of None \<Rightarrow> False | Some (cap, ctrl) \<Rightarrow> cap \<noteq> 0 \<and> ctrl AND 0x7f \<noteq> 0)"

definition nvfs_get_next_acs_device :: "pci_bridge list \<Rightarrow> pci_bridge option" where
  "nvfs_get_next_acs_device bridges = find nvfs_pcie_acs_enabled bridges"

text \<open>The bandwidth, and the speed and width that are reported with it when it is not 0.\<close>

definition nvfs_pcie_bw_available :: "pci_device \<Rightarrow> nat \<times> nat \<times> nat" where
  "nvfs_pcie_bw_available pdev =
     (case pd_lnksta pdev of
        None \<Rightarrow> (0, 0, 0)
      | Some lnksta \<Rightarrow>
          let lnk_width = unat (drop_bit 4 (lnksta AND 0x3f0));
              lnk_speed_idx = unat (lnksta AND 0xf)
          in (lnk_width * lnk_speed_idx, nvfs_pcie_link_speed_table ! lnk_speed_idx, lnk_width))"

fun bridge_path :: "pci_bridge list \<Rightarrow> nat \<Rightarrow> u64 list" where
  "bridge_path [] depth = []"
| "bridge_path (b # bs) depth =
     (let v = nvfs_pdevinfo (br_bus b) (br_devfn b);
          v' = (if nvfs_pcie_acs_enabled b then nvfs_pdevinfo_set_acs v else v)
      in v' # (if depth + 1 \<ge> MAX_PCI_DEPTH \<or> br_bus b = None then [] else bridge_path bs (depth + 1)))"

definition device_path :: "pci_device \<Rightarrow> u64 list" where
  "device_path pdev = (if pd_on_root_bus pdev then [PCI_NULL_DEV_NORP] else bridge_path (pd_upstream pdev) 0)"

text \<open>The row of a path table after a path has been written over its beginning.\<close>

definition write_path :: "u64 list \<Rightarrow> u64 list \<Rightarrow> u64 list" where
  "write_path path row = path @ drop (length path) row"

definition leaf_info :: "pci_device \<Rightarrow> u64" where
  "leaf_info pdev =
     (let v = nvfs_pdevinfo (pd_bus pdev) (pd_devfn pdev);
          (bw, speed, width) = nvfs_pcie_bw_available pdev
      in if bw \<noteq> 0 then nvfs_pdevinfo_set_link_speed speed (nvfs_pdevinfo_set_link_width width v) else v)"

text \<open>
  The loop over the devices of a class, with the number of devices entered so far. A device of
  another class ends it, as does a full table.
\<close>

fun find_device_paths :: "(u64 \<Rightarrow> nat) \<Rightarrow> nat \<Rightarrow> nat \<Rightarrow> pci_device list \<Rightarrow> nat \<Rightarrow> pci_tables \<Rightarrow> pci_tables" where
  "find_device_paths h max_devices cls [] count t = t"
| "find_device_paths h max_devices cls (pdev # pdevs) count t =
     (if pd_bus pdev = None then find_device_paths h max_devices cls pdevs count t
      else if pd_class pdev \<noteq> cls then t
      else let pdinfo = leaf_info pdev in
        if PCI_DEV_GPU (cls div 256) (pd_vendor pdev) then
          let idx = nvfs_create_gpu_hash_entry h pdinfo t in
          if idx = UINT_MAX then t
          else let t' = t\<lparr>gpu_info_table := (gpu_info_table t)[idx := pdinfo],
                         gpu_bdf_map := (gpu_bdf_map t)[idx := write_path (device_path pdev) (gpu_bdf_map t ! idx)]\<rparr>
               in if count + 1 \<ge> max_devices then t'
                  else find_device_paths h max_devices cls pdevs (count + 1) t'
        else if PCI_DEV_IB (cls div 256) \<or> PCI_DEV_NVME cls then
          let idx = nvfs_create_peer_hash_entry h pdinfo t in
          if idx = UINT_MAX then t
          else let t' = t\<lparr>peer_info_table := (peer_info_table t)[idx := nvfs_pdevinfo_set_class cls pdinfo],
                         peer_bdf_map := (peer_bdf_map t)[idx := write_path (device_path pdev) (peer_bdf_map t ! idx)]\<rparr>
               in if count + 1 \<ge> max_devices then t'
                  else find_device_paths h max_devices cls pdevs (count + 1) t'
        else find_device_paths h max_devices cls pdevs count t)"

section \<open>Distances and ranks\<close>

definition nvfs_gpu2peer_islocal :: "(u64 \<Rightarrow> int) \<Rightarrow> (int \<Rightarrow> int \<Rightarrow> nat) \<Rightarrow> u64 \<Rightarrow> u64 \<Rightarrow> bool" where
  "nvfs_gpu2peer_islocal numa_node node_distance gpu peer =
     (let na = numa_node (gpu AND NVFS_PDEVINFO_INFO_MASK);
          nb = numa_node (peer AND NVFS_PDEVINFO_INFO_MASK);
          d = (if na < 0 \<and> nb < 0 then 10
               else if na < 0 \<or> nb < 0 then 20
               else node_distance na nb)
      in d = 10)"

text \<open>
  The scan of the GPU path for its highest bridge: its index, from the top. The depth of the path is one more.
\<close>

primrec gpu_top :: "u64 list \<Rightarrow> nat \<Rightarrow> nat option" where
  "gpu_top g 0 = None"
| "gpu_top g (Suc i) = (if g ! i = 0 then gpu_top g i else Some i)"

text \<open>The scan of the peer path for that bridge, from the bottom: whether it is there, and the depth.\<close>

fun peer_scan :: "u64 list \<Rightarrow> u64 \<Rightarrow> nat \<Rightarrow> nat \<Rightarrow> bool \<times> nat" where
  "peer_scan p pdinfo j 0 = (False, 0)"
| "peer_scan p pdinfo j (Suc n) =
     (if p ! j = 0 then (False, j)
      else if p ! j = pdinfo then (True, j + 1)
      else peer_scan p pdinfo (j + 1) n)"

text \<open>
  The walk down from the common bridge: \<open>gdepth\<close> and \<open>pdepth\<close> are one more than the indices \<^verbatim>\<open>i\<close> and
  \<^verbatim>\<open>j\<close> of the code throughout. The index of the lowest common bridge, and the distance.
\<close>

fun lca_scan :: "u64 list \<Rightarrow> u64 list \<Rightarrow> nat \<Rightarrow> nat \<Rightarrow> int \<times> nat \<Rightarrow> int \<times> nat" where
  "lca_scan g p (Suc i) (Suc j) r = (if g ! i = p ! j then lca_scan g p i j (int i, i + j + 1) else r)"
| "lca_scan g p _ _ r = r"

text \<open>
  The distance of two paths. For a GPU without root port the walk would start at index 0 with depth 0,
  so that it ends after one step with the depth of the peer less one.
\<close>

definition gpu2peer_rows :: "bool \<Rightarrow> u64 list \<Rightarrow> u64 list \<Rightarrow> nat" where
  "gpu2peer_rows islocal g p =
     (if g ! 0 = 0 \<or> p ! 0 = 0 then UINT_MAX
      else let top = (if g ! 0 = PCI_NULL_DEV_NORP then None else gpu_top g MAX_PCI_DEPTH);
               gdepth = (case top of None \<Rightarrow> 0 | Some i \<Rightarrow> i + 1);
               pdinfo = (if g ! 0 = PCI_NULL_DEV_NORP then PCI_NULL_DEV_NORP
                           else case top of None \<Rightarrow> 0 | Some i \<Rightarrow> g ! i);
               (common, pdepth) = (if p ! 0 = PCI_NULL_DEV_NORP then (False, 0) else peer_scan p pdinfo 0 MAX_PCI_DEPTH)
           in if pdinfo = 0 then UINT_MAX
              else if \<not> common then
                (if islocal then BASE_PCI_DISTANCE_CROSSRP else 2 * BASE_PCI_DISTANCE_CROSSRP) + gdepth + pdepth + 1
              else if top = None then pdepth - 1
              else let (lowest_common, pci_dist) = lca_scan g p gdepth pdepth (- 1, UINT_MAX)
                   in if lowest_common > 0 \<and> nvfs_pdevinfo_get_acs (g ! nat lowest_common)
                      then pci_dist + (gdepth - 1 - nat lowest_common) else pci_dist)"

definition nvfs_gpu2peer_pci_distance ::
    "(u64 \<Rightarrow> int) \<Rightarrow> (int \<Rightarrow> int \<Rightarrow> nat) \<Rightarrow> pci_tables \<Rightarrow> nat \<Rightarrow> nat \<Rightarrow> nat" where
  "nvfs_gpu2peer_pci_distance numa_node node_distance t gpu_index peer_index =
     (if gpu_index \<ge> MAX_GPU_DEVS \<or> peer_index \<ge> MAX_PEER_DEVS then UINT_MAX
      else gpu2peer_rows
        (nvfs_gpu2peer_islocal numa_node node_distance (gpu_info_table t ! gpu_index) (peer_info_table t ! peer_index))
        (gpu_bdf_map t ! gpu_index) (peer_bdf_map t ! peer_index))"

abbreviation (input) MAX_PCIE_BW_INDEX :: nat where "MAX_PCIE_BW_INDEX \<equiv> 160"

definition rank_entry :: "nat \<Rightarrow> u64 \<Rightarrow> rank_data" where
  "rank_entry pci_dist peerinfo =
     (let bw = min (nvfs_pdevinfo_get_link_width peerinfo * nvfs_pdevinfo_get_link_speed peerinfo) MAX_PCIE_BW_INDEX
      in \<lparr> rd_rank = of_nat (MAX_PCIE_BW_INDEX - bw) OR push_bit 16 (of_nat pci_dist),
           rd_cross = (pci_dist \<ge> BASE_PCI_DISTANCE_CROSSRP),
           rd_pci_dist = of_nat pci_dist, rd_bw_index = of_nat bw, rd_count = 0 \<rparr>)"

definition nvfs_get_pci_gpu2peer_distance ::
    "(u64 \<Rightarrow> int) \<Rightarrow> (int \<Rightarrow> int \<Rightarrow> nat) \<Rightarrow> pci_tables \<Rightarrow> pci_tables" where
  "nvfs_get_pci_gpu2peer_distance numa_node node_distance t =
     t\<lparr>gpu_rank_matrix := map (\<lambda>i. map (\<lambda>j. rank_entry (nvfs_gpu2peer_pci_distance numa_node node_distance t i j)
          (nvfs_lookup_peer_hash_index_entry j t)) [0 ..< MAX_PEER_DEVS]) [0 ..< MAX_GPU_DEVS]\<rparr>"

text \<open>The devices of a class, in the order in which the kernel enumerates them, are a parameter.\<close>

definition nvfs_fill_gpu2peer_distance_table_once ::
    "(u64 \<Rightarrow> nat) \<Rightarrow> (u64 \<Rightarrow> int) \<Rightarrow> (int \<Rightarrow> int \<Rightarrow> nat) \<Rightarrow> (nat \<Rightarrow> pci_device list) \<Rightarrow> pci_tables \<Rightarrow> pci_tables" where
  "nvfs_fill_gpu2peer_distance_table_once h numa_node node_distance pci_get_class t =
     (let t0 = t\<lparr>gpu_bdf_map := replicate MAX_GPU_DEVS (replicate MAX_PCI_DEPTH 0),
                peer_bdf_map := replicate MAX_PEER_DEVS (replicate MAX_PCI_DEPTH 0),
                gpu_info_table := replicate MAX_GPU_DEVS 0, peer_info_table := replicate MAX_PEER_DEVS 0\<rparr>;
          find_all = (\<lambda>max cls. find_device_paths h max cls (pci_get_class cls) 0);
          t1 = find_all MAX_GPU_DEVS (PCI_CLASS_DISPLAY_3D * 256) t0;
          t2 = find_all MAX_GPU_DEVS (PCI_CLASS_DISPLAY_VGA * 256) t1;
          t3 = find_all MAX_PEER_DEVS (PCI_CLASS_NETWORK_INFINIBAND * 256) t2;
          t4 = find_all MAX_PEER_DEVS (PCI_CLASS_NETWORK_ETHERNET * 256) t3;
          t5 = find_all MAX_PEER_DEVS PCI_CLASS_STORAGE_EXPRESS t4
      in nvfs_get_pci_gpu2peer_distance numa_node node_distance t5)"

definition nvfs_get_gpu2peer_distance :: "(u64 \<Rightarrow> nat) \<Rightarrow> pci_dev \<Rightarrow> nat \<Rightarrow> pci_tables \<Rightarrow> u32" where
  "nvfs_get_gpu2peer_distance h pdev gpu_index t =
     (if pci_bus pdev = None then of_nat UINT_MAX
      else if gpu_index \<ge> MAX_GPU_DEVS then of_nat UINT_MAX
      else let peer_index = nvfs_get_peer_hash_index h (nvfs_pdevinfo (pci_bus pdev) (devfn pdev)) t
           in if peer_index \<ge> MAX_PEER_DEVS then of_nat UINT_MAX
              else rd_rank (gpu_rank_matrix t ! gpu_index ! peer_index))"

section \<open>Usage of the peers\<close>

definition nvfs_update_peer_usage :: "(u64 \<Rightarrow> nat) \<Rightarrow> nat \<Rightarrow> u64 \<Rightarrow> pci_tables \<Rightarrow> pci_tables" where
  "nvfs_update_peer_usage h gpu_index peer_pdevinfo t =
     (let peer_index = nvfs_get_peer_hash_index h peer_pdevinfo t
      in if gpu_index \<ge> MAX_GPU_DEVS \<or> peer_index \<ge> MAX_PEER_DEVS then t
         else let row = gpu_rank_matrix t ! gpu_index
              in t\<lparr>gpu_rank_matrix := (gpu_rank_matrix t)[gpu_index :=
                    row[peer_index := (row ! peer_index)\<lparr>rd_count := rd_count (row ! peer_index) + 1\<rparr>]]\<rparr>)"

definition nvfs_aggregate_peer_usage_by_distance :: "nat \<Rightarrow> nat \<Rightarrow> pci_tables \<Rightarrow> u64" where
  "nvfs_aggregate_peer_usage_by_distance gpu_index pci_dist t =
     (if gpu_index \<ge> MAX_GPU_DEVS then 0
      else sum_list (map rd_count (filter
        (\<lambda>r. if pci_dist \<ge> BASE_PCI_DISTANCE_CROSSRP then unat (rd_pci_dist r) \<ge> pci_dist else unat (rd_pci_dist r) = pci_dist)
        (gpu_rank_matrix t ! gpu_index))))"

definition nvfs_aggregate_cross_peer_usage :: "nat \<Rightarrow> pci_tables \<Rightarrow> u32" where
  "nvfs_aggregate_cross_peer_usage gpu_index t =
     (let rows = (if gpu_index \<ge> MAX_GPU_DEVS then [] else gpu_rank_matrix t ! gpu_index);
          net = sum_list (map rd_count rows);
          count = sum_list (map rd_count (filter rd_cross rows))
      in if net \<noteq> 0 then ucast ((100 * count) div net) else 0)"

definition nvfs_reset_peer_affinity_stats :: "pci_tables \<Rightarrow> pci_tables" where
  "nvfs_reset_peer_affinity_stats t =
     t\<lparr>gpu_rank_matrix := map (map (\<lambda>r. r\<lparr>rd_count := 0\<rparr>)) (gpu_rank_matrix t)\<rparr>"

section \<open>The distance is the distance in the tree of bridges\<close>

text \<open>
  The reference: two paths, from the device upwards, meet in the bridges of their longest common end. The
  distance counts the bridges below on both sides, and the meeting bridge.
\<close>

definition common_bridges :: "u64 list \<Rightarrow> u64 list \<Rightarrow> nat" where
  "common_bridges xs ys = length (longest_common_prefix (rev xs) (rev ys))"

definition tree_distance :: "u64 list \<Rightarrow> u64 list \<Rightarrow> nat" where
  "tree_distance xs ys = (length xs - common_bridges xs ys) + (length ys - common_bridges xs ys) + 1"

definition path_ok :: "u64 list \<Rightarrow> bool" where
  "path_ok xs \<longleftrightarrow> xs \<noteq> [] \<and> length xs \<le> MAX_PCI_DEPTH \<and> 0 \<notin> set xs \<and> PCI_NULL_DEV_NORP \<notin> set xs"

abbreviation path_row :: "u64 list \<Rightarrow> u64 list" where
  "path_row xs \<equiv> xs @ replicate (MAX_PCI_DEPTH - length xs) 0"

lemma gpu_top_row: "0 \<notin> set xs \<Longrightarrow> xs \<noteq> [] \<Longrightarrow> gpu_top (xs @ replicate k 0) (length xs + k) = Some (length xs - 1)"
proof (induction k)
  case 0
  then obtain n where "length xs = Suc n" by (cases "length xs") auto
  moreover from this have "xs ! n \<noteq> 0" using 0 by (metis lessI nth_mem)
  ultimately show ?case by simp
next
  case (Suc k)
  have "gpu_top (xs @ replicate (Suc k) 0) n = gpu_top (xs @ replicate k 0) n" if "n \<le> length xs + k" for n
    using that by (induction n) (auto simp: nth_append simp del: replicate_Suc)
  then have "gpu_top (xs @ replicate (Suc k) 0) (length xs + k) = gpu_top (xs @ replicate k 0) (length xs + k)" by simp
  then show ?case using Suc by (simp add: nth_append del: replicate_Suc)
qed

lemma peer_scan_row:
  assumes "0 \<notin> set ys" and "j \<le> length ys"
  shows "peer_scan (ys @ replicate k 0) v j (length ys + k - j) =
    (if v \<in> set (drop j ys) then (True, j + length (takeWhile (\<lambda>y. y \<noteq> v) (drop j ys)) + 1)
     else if k = 0 then (False, 0) else (False, length ys))"
  using assms(2)
proof (induction "length ys - j" arbitrary: j)
  case 0
  then show ?case by (cases k) (simp_all add: nth_append)
next
  case (Suc n)
  then have j: "j < length ys" by simp
  then have "drop j ys = ys ! j # drop (Suc j) ys" by (simp add: Cons_nth_drop_Suc)
  moreover have "length ys + k - j = Suc (length ys + k - Suc j)" using j by simp
  moreover have "ys ! j \<noteq> 0" using assms(1) j by (metis nth_mem)
  moreover have "(ys @ replicate k 0) ! j = ys ! j" using j by (simp add: nth_append)
  moreover have "n = length ys - Suc j" using Suc.hyps(2) by simp
  ultimately show ?case using Suc.hyps(1) [of "Suc j"] j by (cases "k = 0") auto
qed

lemma lca_scan_common:
  assumes "a \<le> length xs" and "b \<le> length ys"
  shows "lca_scan (xs @ zs) (ys @ zs') a b r =
    (let c = length (longest_common_prefix (rev (take a xs)) (rev (take b ys)))
     in if c = 0 then r else (int (a - c), (a - c) + (b - c) + 1))"
  using assms
proof (induction "xs @ zs" "ys @ zs'" a b r rule: lca_scan.induct)
  case (1 i j r)
  then have "take (Suc i) xs = take i xs @ [xs ! i]" "take (Suc j) ys = take j ys @ [ys ! j]"
    by (simp_all add: take_Suc_conv_app_nth)
  moreover have "(xs @ zs) ! i = xs ! i" "(ys @ zs') ! j = ys ! j" using 1 by (simp_all add: nth_append)
  moreover have "length (longest_common_prefix (rev (take i xs)) (rev (take j ys))) \<le> min i j"
    using 1 longest_common_prefix_prefix1 [of "rev (take i xs)" "rev (take j ys)"]
      longest_common_prefix_prefix2 [of "rev (take i xs)" "rev (take j ys)"]
    by (auto dest!: prefix_length_le)
  ultimately show ?case using 1 by (auto simp: Let_def)
qed auto

text \<open>
  C35. The distance between a GPU and a peer is the distance in the tree of bridges. When the paths end in the
  same root port, the distance is the reference: the bridges of both paths below their lowest common one,
  and one more; if that bridge redirects traffic upwards (ACS) and is not the first bridge of the GPU, the way up
  to the root port is added. When the GPU's root port is not on the path of the peer, the
  distance is the sum of both depths and one, on top of a base that depends on whether both are on the same
  NUMA node (127 or 254), as long as the path of the peer does not fill its row. This is the code; the comment above
  it and the documents say other things: that upper bits of the result are set across nodes, that the distance of two
  devices behind two bridges each is the base and 3 (it is the base and 5), that the whole distance is doubled on another
  NUMA node (only the base is), and that the cost of crossing root ports is 127 throughout.
\<close>

theorem pci_distance_is_tree_distance:
  assumes "path_ok xs" and "path_ok ys" and "distinct ys"
    and "g = path_row xs" and "p = path_row ys" and "c = common_bridges xs ys"
  shows "(last xs = last ys \<longrightarrow> gpu2peer_rows islocal g p =
      tree_distance xs ys + (if c < length xs \<and> nvfs_pdevinfo_get_acs (xs ! (length xs - c)) then c - 1 else 0)) \<and>
    (last xs \<notin> set ys \<and> length ys < 16 \<longrightarrow> gpu2peer_rows islocal g p =
      (if islocal then 127 else 254) + length xs + length ys + 1)"
proof -
  have xs: "xs \<noteq> []" "length xs \<le> 16" "0 \<notin> set xs" "g ! 0 \<noteq> 0" "g ! 0 \<noteq> 0xfffffffe"
    and ys: "ys \<noteq> []" "length ys \<le> 16" "0 \<notin> set ys" "p ! 0 \<noteq> 0" "p ! 0 \<noteq> 0xfffffffe"
    using assms(1,2,4,5) by (auto simp: path_ok_def nth_append) (metis length_greater_0_conv nth_mem)+
  have top: "gpu_top g 16 = Some (length xs - 1)"
    using gpu_top_row [OF xs(3,1), of "16 - length xs"] xs(2) assms(4) by simp
  have "last xs \<noteq> 0" using xs(1,3) by (metis last_in_set)
  moreover have "g ! (length xs - 1) = last xs" using xs(1) assms(4) by (simp add: nth_append last_conv_nth)
  ultimately have lx: "g ! (length xs - 1) = last xs" "last xs \<noteq> 0" by simp_all
  have scan: "peer_scan p (last xs) 0 16 = (if last xs \<in> set ys
      then (True, length (takeWhile (\<lambda>y. y \<noteq> last xs) ys) + 1)
      else if length ys = 16 then (False, 0) else (False, length ys))"
    using peer_scan_row [OF ys(3), of 0 "16 - length ys" "last xs"] ys(2) assms(5) by auto
  show ?thesis
  proof (intro conjI impI)
    assume eq: "last xs = last ys"
    define zs z where "zs = butlast ys" and "z = last ys"
    have z: "ys = zs @ [z]" using ys(1) by (simp add: zs_def z_def)
    then have "z \<notin> set zs" "last xs = z" using assms(3) eq by simp_all
    then have "takeWhile (\<lambda>y. y \<noteq> last xs) ys = zs"
      unfolding z by (subst takeWhile_append2) auto
    then have "length (takeWhile (\<lambda>y. y \<noteq> last xs) ys) = length ys - 1" using z by simp
    then have s: "peer_scan p (last xs) 0 16 = (True, length ys)" using scan eq ys(1) by simp
    obtain x xs' y ys' where r: "rev xs = x # xs'" "rev ys = y # ys'" using xs(1) ys(1) by (meson list.exhaust rev_is_Nil_conv)
    then have "x = y" using eq xs(1) ys(1) by (metis hd_rev list.sel(1))
    then have c: "0 < c" using r assms(6) by (simp add: common_bridges_def)
    have cl: "c \<le> length xs" "c \<le> length ys"
      using assms(6) longest_common_prefix_prefix1 [of "rev xs" "rev ys"] longest_common_prefix_prefix2 [of "rev xs" "rev ys"]
      by (auto simp: common_bridges_def dest!: prefix_length_le)
    have l: "lca_scan g p (length xs) (length ys) (- 1, 4294967295) =
        (int (length xs - c), (length xs - c) + (length ys - c) + 1)"
      using lca_scan_common [of "length xs" xs "length ys" ys] c assms(4-6) by (simp add: common_bridges_def Let_def)
    obtain lo lp where lo: "length xs = lo + c" "length ys = lp + c"
      using cl by (metis le_add_diff_inverse2)
    obtain k where k: "c = Suc k" using c by (cases c) auto
    have gl: "g ! lo = xs ! lo" using c lo(1) assms(4) by (simp add: nth_append)
    have l': "lca_scan g p (length xs) (length ys) (- 1, 4294967295) = (int lo, lo + lp + 1)" using l lo by simp
    have "gpu2peer_rows islocal g p =
        lo + lp + 1 + (if 0 < lo \<and> nvfs_pdevinfo_get_acs (xs ! lo) then lo + c - 1 - lo else 0)"
      using xs(1,4,5) ys(4,5) top lx s l' gl lo(1) k by (simp add: gpu2peer_rows_def Let_def)
    then show "gpu2peer_rows islocal g p =
      tree_distance xs ys + (if c < length xs \<and> nvfs_pdevinfo_get_acs (xs ! (length xs - c)) then c - 1 else 0)"
      using lo assms(6) by (simp add: tree_distance_def)
  next
    assume "last xs \<notin> set ys \<and> length ys < 16"
    then show "gpu2peer_rows islocal g p = (if islocal then 127 else 254) + length xs + length ys + 1"
      using xs ys top lx scan by (simp add: gpu2peer_rows_def Let_def)
  qed
qed

theorem pci_distance_is_tree_distance_witness:
  "gpu2peer_rows True (path_row [0x50, 0x30, 0x10]) (path_row [0x70, 0x30, 0x10]) = 3 \<and>
   gpu2peer_rows True (path_row [0x200, 0x100]) (path_row [0x8200, 0x8100]) = 127 + 5 \<and>
   gpu2peer_rows False (path_row [0x200, 0x100]) (path_row [0x8200, 0x8100]) = 254 + 5"
  using pci_distance_is_tree_distance [of "[0x50, 0x30, 0x10]" "[0x70, 0x30, 0x10]" _ _ _ True]
    pci_distance_is_tree_distance [of "[0x200, 0x100]" "[0x8200, 0x8100]" _ _ _ True]
    pci_distance_is_tree_distance [of "[0x200, 0x100]" "[0x8200, 0x8100]" _ _ _ False]
  by (simp add: path_ok_def tree_distance_def common_bridges_def nvfs_pdevinfo_get_acs_def)

text \<open>
  A path of a peer that fills its row has no terminating zero, so that the scan ends without
  setting the depth, and the peer counts as if it had no bridges at all.
\<close>

lemma full_path_counts_as_empty:
  assumes "path_ok xs" and "path_ok ys" and "length ys = 16" and "last xs \<notin> set ys"
  shows "peer_scan (path_row ys) (last xs) 0 16 = (False, 0)"
  using peer_scan_row [of ys 0 0 "last xs"] assms by (simp add: path_ok_def)

section \<open>Index tables find what is entered\<close>

lemma probe_cases:
  assumes "idx < length T"
  shows "(\<exists>k < n. P (T ! ((idx + k) mod length T)) \<and> probe P T idx n = (idx + k) mod length T) \<or>
    (\<forall>k < n. \<not> P (T ! ((idx + k) mod length T))) \<and> probe P T idx n = 4294967295"
  using assms
proof (induction n arbitrary: idx)
  case (Suc n)
  let ?next = "(idx + 1) mod length T"
  have lt: "?next < length T" using Suc.prems by (metis mod_less_divisor not_less_zero gr0I)
  have shift: "(?next + k) mod length T = (idx + Suc k) mod length T" for k by (simp add: mod_add_left_eq)
  show ?case
  proof (cases "P (T ! idx)")
    case True
    then show ?thesis using Suc.prems by (auto intro!: exI [of _ 0])
  next
    case False
    then have no0: "\<not> P (T ! ((idx + 0) mod length T))" using Suc.prems by simp
    consider (found) k where "k < n" "P (T ! ((idx + Suc k) mod length T))" "probe P T ?next n = (idx + Suc k) mod length T"
      | (none) "\<forall>k < n. \<not> P (T ! ((idx + Suc k) mod length T))" "probe P T ?next n = 4294967295"
      using Suc.IH [OF lt] unfolding shift by blast
    then show ?thesis
    proof cases
      case found
      then show ?thesis using False by (intro disjI1 exI [of _ "Suc k"]) simp
    next
      case none
      have "\<not> P (T ! ((idx + k) mod length T))" if "k < Suc n" for k
        using that none(1) no0 by (cases k) auto
      then show ?thesis using False none(2) by (intro disjI2) simp
    qed
  qed
qed simp

lemma probe_all:
  assumes "length T = 64"
  shows "if \<exists>i < 64. P (T ! i) then \<exists>i < 64. P (T ! i) \<and> probe P T (h mod 64) 64 = i
    else probe P T (h mod 64) 64 = 4294967295"
proof -
  have cover: "\<exists>k < 64. (h mod 64 + k) mod 64 = i" if "i < 64" for i :: nat
  proof (cases "h mod 64 \<le> i")
    case True
    then show ?thesis using that by (intro exI [of _ "i - h mod 64"]) simp
  next
    case False
    then show ?thesis using that by (intro exI [of _ "64 + i - h mod 64"]) simp
  qed
  have "h mod 64 < length T" using assms by simp
  then consider (found) k where "P (T ! ((h mod 64 + k) mod 64))" "probe P T (h mod 64) 64 = (h mod 64 + k) mod 64"
    | (none) "\<forall>k < 64. \<not> P (T ! ((h mod 64 + k) mod 64))" "probe P T (h mod 64) 64 = 4294967295"
    using probe_cases [of "h mod 64" T 64 P] unfolding assms by blast
  then show ?thesis
  proof cases
    case found
    moreover have "(h mod 64 + k) mod 64 < 64" by simp
    ultimately have "\<exists>i < 64. P (T ! i) \<and> probe P T (h mod 64) 64 = i" by blast
    then show ?thesis by auto
  next
    case none
    then have "\<not> (\<exists>i < 64. P (T ! i))" using cover by metis
    then show ?thesis using none(2) by simp
  qed
qed

lemma probe_cong: "(\<And>i. i < length T \<Longrightarrow> P (T ! i) = Q (T' ! i)) \<Longrightarrow> length T' = length T \<Longrightarrow> idx < length T \<Longrightarrow>
  probe P T idx n = probe Q T' idx n"
proof (induction n arbitrary: idx)
  case (Suc n)
  have "(idx + 1) mod length T < length T" using Suc.prems(3) by (metis mod_less_divisor not_less_zero gr0I)
  then show ?case using Suc by simp
qed simp

text \<open>
  A device that is entered into an index table is found again. As long as the table is not full, entering
  gives an empty slot, and afterwards the lookup of the device, by its identifier without attributes, gives
  this slot, whatever attributes are stored with it and wherever the hash function sends it; the lookup of
  every other device is unchanged. A full table, and only a full table, is refused.
\<close>

theorem index_entry_found:
  assumes "length T = 64" and "v AND NVFS_PDEVINFO_INFO_MASK = b" and "b \<noteq> 0"
    and "\<forall>i < 64. T ! i AND NVFS_PDEVINFO_INFO_MASK \<noteq> b"
  shows "(if \<exists>i < 64. T ! i = 0 then create_index_entry h x T < 64 \<and> T ! create_index_entry h x T = 0 \<and>
        lookup_index_entry h b (T[create_index_entry h x T := v]) = create_index_entry h x T \<and>
        (\<forall>b'. b' \<noteq> b \<and> b' \<noteq> 0 \<longrightarrow>
          lookup_index_entry h b' (T[create_index_entry h x T := v]) = lookup_index_entry h b' T)
      else create_index_entry h x T = 4294967295) \<and>
    lookup_index_entry h b T = 4294967295"
proof -
  let ?i = "create_index_entry h x T"
  have none: "lookup_index_entry h b T = 4294967295"
    using probe_all [OF assms(1), of "\<lambda>x. x AND NVFS_PDEVINFO_INFO_MASK = b"] assms(1,4)
    by (simp add: lookup_index_entry_def split: if_splits)
  have create: "if \<exists>i < 64. T ! i = 0 then ?i < 64 \<and> T ! ?i = 0 else ?i = 4294967295"
    using probe_all [OF assms(1), of "\<lambda>x. x = 0" "h x"] assms(1) by (auto simp: create_index_entry_def split: if_splits)
  have "lookup_index_entry h b (T[?i := v]) = ?i \<and>
      (\<forall>b'. b' \<noteq> b \<and> b' \<noteq> 0 \<longrightarrow> lookup_index_entry h b' (T[?i := v]) = lookup_index_entry h b' T)"
    if i: "?i < 64" "T ! ?i = 0"
  proof (intro conjI allI impI)
    let ?T = "T[?i := v]"
    have "?T ! j AND NVFS_PDEVINFO_INFO_MASK = b \<longleftrightarrow> j = ?i" if "j < 64" for j
      using that assms(1,2,4) i(1) by (simp add: nth_list_update)
    then show "lookup_index_entry h b ?T = ?i"
      using probe_all [of ?T "\<lambda>x. x AND NVFS_PDEVINFO_INFO_MASK = b" "h b"] assms(1) i(1)
      by (auto simp: lookup_index_entry_def split: if_splits)
    fix b' assume b': "b' \<noteq> b \<and> b' \<noteq> 0"
    show "lookup_index_entry h b' ?T = lookup_index_entry h b' T"
      unfolding lookup_index_entry_def length_list_update
      by (rule probe_cong) (use b' i assms(1,2) in \<open>auto simp: nth_list_update\<close>)
  qed
  then show ?thesis using none create by (auto split: if_splits)
qed

theorem index_entry_found_witness:
  "create_index_entry (\<lambda>_. 70) 0x300 (replicate 64 0) < 64 \<and>
   lookup_index_entry (\<lambda>_. 70) 0x300 ((replicate 64 0)[create_index_entry (\<lambda>_. 70) 0x300 (replicate 64 0) := 0x20300]) =
     create_index_entry (\<lambda>_. 70) 0x300 (replicate 64 0)"
proof -
  have "\<exists>i < 64. replicate 64 (0 :: u64) ! i = 0" by (intro exI [of _ 0]) simp
  then show ?thesis
    using index_entry_found [of "replicate 64 0" "0x20300" "0x300" "\<lambda>_. 70" "0x300"]
    by (simp add: NVFS_PDEVINFO_INFO_MASK_def)
qed

section \<open>Attributes in the device identifier\<close>

lemma info_mask_bits: "NVFS_PDEVINFO_INFO_MASK = NOT (push_bit 16 (mask 16))"
  by (simp add: NVFS_PDEVINFO_INFO_MASK_def mask_eq_exp_minus_1 push_bit_eq_mult)

lemma pdinfo_bits: "bit (nvfs_pdevinfo bus fn) n \<Longrightarrow> n < 16 \<or> 32 \<le> n"
  by (auto simp: nvfs_pdevinfo_def PCI_DEVID_def bit_simps split: option.splits prod.splits)

lemma bit_small: "j < 16 \<Longrightarrow> bit (j :: nat) n \<Longrightarrow> n < 4"
proof -
  assume j: "j < 16" and b: "bit j n"
  then have "2 ^ n \<le> j" by (simp add: bit_iff_odd) (metis div_less odd_pos not_less neq0_conv)
  then have "(2 :: nat) ^ n < 2 ^ 4" using j by simp
  then show "n < 4" by (simp only: power_strict_increasing_iff one_less_numeral_iff semiring_norm(76))
qed

lemma table_index_Some: "table_index xs i v = Some k \<Longrightarrow> i \<le> k \<and> k < i + length xs \<and> xs ! (k - i) = v"
proof (induction xs i v rule: table_index.induct)
  case (2 x xs i v)
  then show ?case
    by (cases "v = x") (auto simp: nth_Cons' less_Suc_eq_le)
qed simp

lemma table_index_mem: "v \<in> set xs \<Longrightarrow> \<exists>k. table_index xs i v = Some k"
  by (induction xs i v rule: table_index.induct) auto

text \<open>An identifier with the indices of width and speed, and one of the class bits.\<close>

lemma packed_fields:
  fixes v :: u64
  assumes "\<forall>n. bit v n \<longrightarrow> n < 16 \<or> 32 \<le> n" and "j < 16" and "k < 16" and "c = 17 \<or> c = 18"
    and "i = v OR push_bit 27 (of_nat j) OR push_bit 23 (of_nat k) OR push_bit c 1"
  shows "i AND NVFS_PDEVINFO_INFO_MASK = v" "drop_bit 27 (ucast i :: u32) AND 0xf = of_nat j"
    "drop_bit 23 (ucast i :: u32) AND 0xf = of_nat k" "bit i 17 \<longleftrightarrow> c = 17" "bit i 18 \<longleftrightarrow> c = 18" "\<not> bit i 16"
proof -
  have f: "(0xf :: u32) = mask 4" by (simp add: mask_eq_exp_minus_1)
  have v: "\<not> bit v n" if "16 \<le> n" "n < 32" for n using assms(1) that by auto
  note jk = bit_small [OF assms(2)] bit_small [OF assms(3)]
  have b: "bit i n \<longleftrightarrow> bit v n \<or> (27 \<le> n \<and> n < 31 \<and> bit j (n - 27)) \<or> (23 \<le> n \<and> n < 27 \<and> bit k (n - 23)) \<or> n = c"
    if "n < 64" for n
    using that assms(4) jk(1) [of "n - 27"] jk(2) [of "n - 23"]
    unfolding assms(5) by (auto simp: bit_simps)
  show "i AND NVFS_PDEVINFO_INFO_MASK = v"
    unfolding info_mask_bits
  proof (rule bit_word_eqI)
    fix n assume "n < LENGTH(64)"
    then show "bit (i AND NOT (push_bit 16 (mask 16))) n = bit v n"
      using b [of n] assms(1) [rule_format, of n] assms(4) by (auto simp: bit_simps)
  qed
  show "drop_bit 27 (ucast i :: u32) AND 0xf = of_nat j"
    unfolding f
  proof (rule bit_word_eqI)
    fix n assume "n < LENGTH(32)"
    then show "bit (drop_bit 27 (ucast i :: u32) AND mask 4) n = bit (of_nat j :: u32) n"
      using b [of "27 + n"] v [of "27 + n"] jk(1) [of n] assms(4) by (auto simp: bit_simps)
  qed
  show "drop_bit 23 (ucast i :: u32) AND 0xf = of_nat k"
    unfolding f
  proof (rule bit_word_eqI)
    fix n assume "n < LENGTH(32)"
    then show "bit (drop_bit 23 (ucast i :: u32) AND mask 4) n = bit (of_nat k :: u32) n"
      using b [of "23 + n"] v [of "23 + n"] jk(2) [of n] assms(4) by (auto simp: bit_simps)
  qed
  show "bit i 17 \<longleftrightarrow> c = 17" "bit i 18 \<longleftrightarrow> c = 18" "\<not> bit i 16"
    using b [of 17] b [of 18] b [of 16] v assms(4) by auto
qed

lemma and_bit: "v AND push_bit n 1 \<noteq> 0 \<longleftrightarrow> bit (v :: u64) n"
  by (simp add: bit_iff_and_push_bit_not_eq_0)

text \<open>
  The attributes packed into a device identifier do not disturb each other. For a peer with a link
  width and speed of the tables, the stored identifier gives back the width, the first index of
  the speed, the name of the class and, masked, the identifier of the device; it has no ACS mark
  unless that is set, and setting it changes no other bit.
\<close>

theorem pdevinfo_attributes_roundtrip:
  assumes "width \<in> set nvfs_pcie_link_width_table" and "speed \<in> set nvfs_pcie_link_speed_table"
    and "cls = 0x20000 \<or> cls = 0x20700 \<or> cls = 0x10802"
    and "i = nvfs_pdevinfo_set_class cls (nvfs_pdevinfo_set_link_speed speed
      (nvfs_pdevinfo_set_link_width width (nvfs_pdevinfo bus fn)))"
  shows "i AND NVFS_PDEVINFO_INFO_MASK = nvfs_pdevinfo bus fn \<and> nvfs_pdevinfo_get_link_width i = width \<and>
    table_index nvfs_pcie_link_speed_table 0 speed = Some (nvfs_pdevinfo_get_link_speed i) \<and>
    nvfs_pdevinfo_get_class_name i = (if cls = 0x10802 then ''nvme'' else ''network'') \<and>
    \<not> nvfs_pdevinfo_get_acs i \<and> nvfs_pdevinfo_get_acs (nvfs_pdevinfo_set_acs i) \<and>
    nvfs_pdevinfo_set_acs i AND NVFS_PDEVINFO_INFO_MASK = nvfs_pdevinfo bus fn"
proof -
  obtain j where j: "table_index nvfs_pcie_link_width_table 0 width = Some j" using table_index_mem [OF assms(1)] by blast
  obtain k where k: "table_index nvfs_pcie_link_speed_table 0 speed = Some k" using table_index_mem [OF assms(2)] by blast
  have jk: "j < 16" "nvfs_pcie_link_width_table ! j = width" "k < 16"
    using table_index_Some [OF j] table_index_Some [OF k]
    by (auto simp: nvfs_pcie_link_width_table_def nvfs_pcie_link_speed_table_def)
  define c :: nat where "c = (if cls = 0x10802 then 17 else 18)"
  have i: "i = nvfs_pdevinfo bus fn OR push_bit 27 (of_nat j) OR push_bit 23 (of_nat k) OR push_bit c 1"
    using assms(3) j k
    by (auto simp: assms(4) c_def nvfs_pdevinfo_set_class_def nvfs_pdevinfo_set_link_speed_def
        nvfs_pdevinfo_set_link_width_def PCI_DEV_IB_def PCI_DEV_NVME_def or.assoc)
  have c: "c = 17 \<or> c = 18" by (simp add: c_def)
  have v: "\<forall>n. bit (nvfs_pdevinfo bus fn) n \<longrightarrow> n < 16 \<or> 32 \<le> n" using pdinfo_bits by blast
  note p = packed_fields [OF v jk(1,3) c i]
  have u: "unat (of_nat j :: u32) = j" "unat (of_nat k :: u32) = k" using jk by (simp_all add: unat_of_nat)
  have "nvfs_pdevinfo_set_acs i AND NVFS_PDEVINFO_INFO_MASK = i AND NVFS_PDEVINFO_INFO_MASK"
    by (simp add: nvfs_pdevinfo_set_acs_def NVFS_PDEVINFO_INFO_MASK_def bit.conj_disj_distrib2)
  moreover have "nvfs_pdevinfo_get_acs (nvfs_pdevinfo_set_acs i)"
    unfolding nvfs_pdevinfo_get_acs_def nvfs_pdevinfo_set_acs_def and_bit by (simp add: bit_or_iff)
  moreover have "nvfs_pdevinfo_get_link_width i = width"
    "table_index nvfs_pcie_link_speed_table 0 speed = Some (nvfs_pdevinfo_get_link_speed i)"
    unfolding nvfs_pdevinfo_get_link_width_def nvfs_pdevinfo_get_link_speed_def p(2,3) u using jk(2) k by simp_all
  moreover have "nvfs_pdevinfo_get_class_name i = (if cls = 0x10802 then ''nvme'' else ''network'')" "\<not> nvfs_pdevinfo_get_acs i"
    unfolding nvfs_pdevinfo_get_class_name_def nvfs_pdevinfo_get_acs_def and_bit using p(4-6) by (simp_all add: c_def)
  ultimately show ?thesis using p(1) by simp
qed

theorem pdevinfo_attributes_roundtrip_witness:
  "nvfs_pdevinfo_get_link_width (nvfs_pdevinfo_set_class 0x10802 (nvfs_pdevinfo_set_link_speed 0x17
      (nvfs_pdevinfo_set_link_width 16 (nvfs_pdevinfo (Some (1, 0x81)) 0x08)))) = 16"
  using pdevinfo_attributes_roundtrip [of 16 "0x17" "0x10802" _ "Some (1, 0x81)" "0x08", OF _ _ _ refl]
  by (simp add: nvfs_pcie_link_width_table_def nvfs_pcie_link_speed_table_def)

section \<open>Ranks\<close>

definition peer_bw :: "u64 \<Rightarrow> nat" where
  "peer_bw peerinfo = min (nvfs_pdevinfo_get_link_width peerinfo * nvfs_pdevinfo_get_link_speed peerinfo) 160"

lemma rank_value:
  assumes "d < 65536"
  shows "unat (rd_rank (rank_entry d peer)) = d * 65536 + (160 - peer_bw peer)"
proof -
  let ?b = "160 - peer_bw peer"
  have b: "?b < 65536" by simp
  have "(of_nat ?b :: u32) AND push_bit 16 (of_nat d) = 0"
  proof (rule bit_word_eqI)
    fix n assume "n < LENGTH(32)"
    have "\<not> bit ?b n" if "16 \<le> n"
    proof -
      have "(2 :: nat) ^ 16 \<le> 2 ^ n" using that by (rule power_increasing) simp
      then show ?thesis using b by (simp add: bit_iff_odd)
    qed
    then show "bit ((of_nat ?b :: u32) AND push_bit 16 (of_nat d)) n = bit 0 n" by (auto simp: bit_simps)
  qed
  then have "rd_rank (rank_entry d peer) = of_nat ?b + push_bit 16 (of_nat d)"
    by (simp add: rank_entry_def peer_bw_def Let_def disjunctive_add_eq_or)
  also have "\<dots> = of_nat (d * 65536 + ?b)" by (simp add: push_bit_eq_mult)
  finally have "rd_rank (rank_entry d peer) = of_nat (d * 65536 + ?b)" .
  moreover have "d * 65536 + ?b < 2 ^ 32" using assms b by simp
  ultimately show ?thesis by (simp only: unat_of_nat) simp
qed

text \<open>
  The rank orders peers by distance first, and by bandwidth among peers at the same distance: for
  distances that fit 16 bits, one rank is smaller than another exactly if its distance is smaller, or
  equal with a larger bandwidth index.
\<close>

theorem rank_orders_by_distance_then_bandwidth:
  assumes "d < 65536" and "d' < 65536"
  shows "rd_rank (rank_entry d peer) < rd_rank (rank_entry d' peer') \<longleftrightarrow>
    d < d' \<or> d = d' \<and> peer_bw peer' < peer_bw peer"
proof -
  have bw: "peer_bw peer \<le> 160" "peer_bw peer' \<le> 160" by (simp_all add: peer_bw_def)
  show ?thesis
    unfolding word_less_nat_alt rank_value [OF assms(1)] rank_value [OF assms(2)]
    using bw by (cases "d = d'") auto
qed

theorem rank_orders_by_distance_then_bandwidth_witness:
  "rd_rank (rank_entry 3 0) < rd_rank (rank_entry 4 0)"
  using rank_orders_by_distance_then_bandwidth [of 3 4 0 0] by simp

text \<open>The share of cross traffic is a percentage, as long as the counts stay below a hundredth of their range.\<close>

lemma cross_usage_percent:
  assumes "gpu_index < 64" and "100 * sum_list (map (unat \<circ> rd_count) (gpu_rank_matrix t ! gpu_index)) < 2 ^ 64"
  shows "unat (nvfs_aggregate_cross_peer_usage gpu_index t) \<le> 100"
proof -
  let ?row = "gpu_rank_matrix t ! gpu_index"
  let ?net = "sum_list (map rd_count ?row)" and ?cross = "sum_list (map rd_count (filter rd_cross ?row))"
  have sum: "unat (sum_list (map rd_count rs)) = sum_list (map (unat \<circ> rd_count) rs)"
    if "sum_list (map (unat \<circ> rd_count) rs) < 2 ^ 64" for rs
    using that
  proof (induction rs)
    case (Cons r rs)
    then show ?case by (simp add: unat_word_ariths)
  qed simp
  have le: "sum_list (map (unat \<circ> rd_count) (filter rd_cross rs)) \<le> sum_list (map (unat \<circ> rd_count) rs)" for rs
    by (induction rs) auto
  have n: "unat ?net = sum_list (map (unat \<circ> rd_count) ?row)" using sum [of ?row] assms(2) by simp
  have c: "unat ?cross \<le> unat ?net" using sum [of "filter rd_cross ?row"] le [of ?row] n assms(2) by simp
  have "unat (100 * ?cross) = 100 * unat ?cross" using c n assms(2) by (simp add: unat_word_ariths)
  then have "unat ((100 * ?cross) div ?net) = 100 * unat ?cross div unat ?net" by (simp add: unat_div)
  also have "\<dots> \<le> 100"
  proof (cases "unat ?net = 0")
    case False
    have "100 * unat ?cross div unat ?net \<le> 100 * unat ?net div unat ?net" using c by (intro div_le_mono) simp
    then show ?thesis using False by simp
  qed simp
  finally have d: "unat ((100 * ?cross) div ?net) \<le> 100" .
  have "unat (ucast ((100 * ?cross) div ?net) :: u32) \<le> unat ((100 * ?cross) div ?net)"
    by (simp add: unsigned_ucast_eq)
  with d have "unat (ucast ((100 * ?cross) div ?net) :: u32) \<le> 100" by (rule order.trans [rotated])
  then show ?thesis using assms(1) by (simp add: nvfs_aggregate_cross_peer_usage_def Let_def)
qed

end
