(* ===== verification/Nvfs_Ops.thy ===== *)
theory Nvfs_Ops
  imports Nvfs_Iter Nvfs_Pci
begin

text \<open>
  The tables of hooks that the driver hands to the storage modules (\<^verbatim>\<open>nvfs-dma.c\<close> and \<^verbatim>\<open>nvfs-dma.h\<close>): the hooks with the feature
  bits that announce them, in the two versions of the interface. The registration goes through untyped
  pointers, so the table and the function that receives it are shown to agree in their types.
\<close>

section \<open>The hooks\<close>

definition nvfs_dma_map_sg_attrs_nvme where
  "nvfs_dma_map_sg_attrs_nvme e q = nvfs_dma_map_sg_attrs_internal e (q\<lparr>be_nvme := True\<rparr>)"

definition nvfs_dma_map_sg_attrs where
  "nvfs_dma_map_sg_attrs e q = nvfs_dma_map_sg_attrs_internal e (q\<lparr>be_nvme := False\<rparr>)"

definition nvfs_device_priority :: "(u64 \<Rightarrow> nat) \<Rightarrow> pci_dev \<Rightarrow> nat \<Rightarrow> pci_tables \<Rightarrow> u32" where
  "nvfs_device_priority h dev gi t = nvfs_get_gpu2peer_distance h dev gi t"

type_synonym blk_rq_map_sg_fn =
  "kenv \<Rightarrow> blkenv \<Rightarrow> request option \<Rightarrow> scatterlist list option \<Rightarrow> kstate \<Rightarrow>
     (int \<times> request option \<times> scatterlist list option \<times> kstate) option"
type_synonym dma_map_sg_fn =
  "kenv \<Rightarrow> blkenv \<Rightarrow> pci_dev \<Rightarrow> scatterlist list \<Rightarrow> nat \<Rightarrow> kstate \<Rightarrow> (int \<times> scatterlist list \<times> kstate) option"
type_synonym rdma_info_fn =
  "kenv \<Rightarrow> scatterlist list \<Rightarrow> int \<Rightarrow> nvfs_rdma_info option \<Rightarrow> kstate \<Rightarrow> (int \<times> nvfs_rdma_info option \<times> kstate) option"

text \<open>A hook that is not set is a null pointer. The three hooks on pages and devices are common to both versions.\<close>

record page_hooks =
  ft_bmap :: u64
  op_is_gpu_page :: "(kenv \<Rightarrow> pageid option \<Rightarrow> kstate \<Rightarrow> (bool \<times> kstate) option) option"
  op_gpu_index :: "(kenv \<Rightarrow> pageid option \<Rightarrow> kstate \<Rightarrow> (u32 \<times> kstate) option) option"
  op_device_priority :: "((u64 \<Rightarrow> nat) \<Rightarrow> pci_dev \<Rightarrow> nat \<Rightarrow> pci_tables \<Rightarrow> u32) option"
  op_sglist_rdma_info :: "rdma_info_fn option"

record nvfs_dma_rw_table = page_hooks +
  op_blk_rq_map_sg :: "blk_rq_map_sg_fn option"
  op_dma_map_sg :: "dma_map_sg_fn option"
  op_dma_unmap_sg :: "(kenv \<Rightarrow> scatterlist list option \<Rightarrow> int \<Rightarrow> kstate \<Rightarrow> (int \<times> kstate) option) option"

record nvfs_dma_rw_blk_iter_table = page_hooks +
  op_map_iter_start :: "(kenv \<Rightarrow> request option \<Rightarrow> bio list \<Rightarrow> pci_dev \<Rightarrow> blk_dma_iter \<Rightarrow> kstate \<Rightarrow>
     (int \<times> blk_dma_iter \<times> mptr option \<times> kstate) option) option"
  op_map_iter_next :: "(kenv \<Rightarrow> request \<Rightarrow> pci_dev \<Rightarrow> blk_dma_iter \<Rightarrow> kstate \<Rightarrow> (int \<times> blk_dma_iter \<times> kstate) option) option"
  op_unmap_page :: "(kenv \<Rightarrow> mptr option \<Rightarrow> kstate \<Rightarrow> (int \<times> kstate) option) option"

section \<open>Features\<close>

datatype ft_bits =
    nvfs_ft_prep_sglist | nvfs_ft_map_sglist | nvfs_ft_is_gpu_page | nvfs_ft_device_priority
  | nvfs_ft_get_gpu_sglist_rdma_info | nvfs_ft_blk_dma_map_iter_start | nvfs_ft_blk_dma_map_iter_next

fun ft_value :: "ft_bits \<Rightarrow> u64" where
  "ft_value nvfs_ft_prep_sglist = push_bit 0 1"
| "ft_value nvfs_ft_map_sglist = push_bit 1 1"
| "ft_value nvfs_ft_is_gpu_page = push_bit 2 1"
| "ft_value nvfs_ft_device_priority = push_bit 3 1"
| "ft_value nvfs_ft_get_gpu_sglist_rdma_info = push_bit 4 1"
| "ft_value nvfs_ft_blk_dma_map_iter_start = push_bit 5 1"
| "ft_value nvfs_ft_blk_dma_map_iter_next = push_bit 6 1"

text \<open>The checks \<^verbatim>\<open>NVIDIA_FS_CHECK_FT_*\<close> by which a storage module decides which hooks to call.\<close>

definition NVIDIA_FS_CHECK_FT :: "ft_bits \<Rightarrow> 'a page_hooks_scheme \<Rightarrow> bool" where
  "NVIDIA_FS_CHECK_FT ft t \<longleftrightarrow> ft_bmap t AND ft_value ft \<noteq> 0"

definition NVIDIA_FS_SET_FT_ALL :: u64 where
  "NVIDIA_FS_SET_FT_ALL = ft_value nvfs_ft_prep_sglist OR ft_value nvfs_ft_map_sglist OR ft_value nvfs_ft_is_gpu_page OR
     ft_value nvfs_ft_device_priority OR ft_value nvfs_ft_get_gpu_sglist_rdma_info"

definition NVIDIA_FS_SET_BLK_DMA_MAP_ITER_FT_ALL :: u64 where
  "NVIDIA_FS_SET_BLK_DMA_MAP_ITER_FT_ALL = ft_value nvfs_ft_is_gpu_page OR ft_value nvfs_ft_device_priority OR
     ft_value nvfs_ft_blk_dma_map_iter_start OR ft_value nvfs_ft_blk_dma_map_iter_next"

section \<open>The tables\<close>

definition SET_DEFAULT_OPS :: "mod_env \<Rightarrow> nvfs_dma_rw_table" where
  "SET_DEFAULT_OPS e = \<lparr> ft_bmap = NVIDIA_FS_SET_FT_ALL, op_is_gpu_page = Some nvfs_is_gpu_page, op_gpu_index = Some nvfs_gpu_index,
     op_device_priority = Some nvfs_device_priority,
     op_sglist_rdma_info = (if kern_rdma e then Some nvfs_get_gpu_sglist_rdma_info else None),
     op_blk_rq_map_sg = Some nvfs_blk_rq_map_sg, op_dma_map_sg = Some nvfs_dma_map_sg_attrs, op_dma_unmap_sg = Some nvfs_dma_unmap_sg \<rparr>"

definition SET_DEFAULT_OPS_V2 :: "mod_env \<Rightarrow> nvfs_dma_rw_blk_iter_table" where
  "SET_DEFAULT_OPS_V2 e = \<lparr> ft_bmap = NVIDIA_FS_SET_BLK_DMA_MAP_ITER_FT_ALL, op_is_gpu_page = Some nvfs_is_gpu_page,
     op_gpu_index = Some nvfs_gpu_index, op_device_priority = Some nvfs_device_priority,
     op_sglist_rdma_info = (if kern_rdma e then Some nvfs_get_gpu_sglist_rdma_info else None),
     op_map_iter_start = None, op_map_iter_next = None, op_unmap_page = None \<rparr>"

text \<open>The objects behind the pointers of the module table. Two of them exist only under a build option.\<close>

datatype ops_object = OpsV1 nvfs_dma_rw_table | OpsV2 nvfs_dma_rw_blk_iter_table

definition nvme_hooks :: "nvfs_dma_rw_table \<Rightarrow> nvfs_dma_rw_table" where
  "nvme_hooks t = t\<lparr>op_blk_rq_map_sg := Some nvfs_nvme_blk_rq_map_sg, op_dma_map_sg := Some nvfs_dma_map_sg_attrs_nvme\<rparr>"

fun ops_table :: "mod_env \<Rightarrow> dma_ops \<Rightarrow> ops_object option" where
  "ops_table e nvfs_dev_dma_rw_ops = Some (OpsV1 (SET_DEFAULT_OPS e))"
| "ops_table e nvfs_nvme_dma_rw_ops = Some (OpsV1 (nvme_hooks (SET_DEFAULT_OPS e)))"
| "ops_table e nvfs_sfxv_dma_rw_ops = Some (OpsV1 (nvme_hooks (SET_DEFAULT_OPS e)))"
| "ops_table e nvfs_nvmesh_dma_rw_ops = Some (OpsV1 (nvme_hooks (SET_DEFAULT_OPS e)))"
| "ops_table e nvfs_ibm_scale_rdma_ops = (if kern_rdma e
     then Some (OpsV1 ((SET_DEFAULT_OPS e)\<lparr>op_sglist_rdma_info := Some nvfs_get_gpu_sglist_rdma_info\<rparr>)) else None)"
| "ops_table e nvfs_nvme_dma_rw_blk_iter_ops = (if iter_api e
     then Some (OpsV2 ((SET_DEFAULT_OPS_V2 e)\<lparr>op_map_iter_start := Some nvfs_blk_rq_dma_map_iter_start,
       op_map_iter_next := Some nvfs_blk_rq_dma_map_iter_next, op_unmap_page := Some nvfs_dma_unmap_page\<rparr>)) else None)"

section \<open>Announced hooks exist\<close>

text \<open>What a storage module may call once it has seen the feature bit.\<close>

fun v1_hook_set :: "nvfs_dma_rw_table \<Rightarrow> ft_bits \<Rightarrow> bool" where
  "v1_hook_set t nvfs_ft_prep_sglist = (op_blk_rq_map_sg t \<noteq> None)"
| "v1_hook_set t nvfs_ft_map_sglist = (op_dma_map_sg t \<noteq> None \<and> op_dma_unmap_sg t \<noteq> None)"
| "v1_hook_set t nvfs_ft_is_gpu_page = (op_is_gpu_page t \<noteq> None)"
| "v1_hook_set t nvfs_ft_device_priority = (op_gpu_index t \<noteq> None \<and> op_device_priority t \<noteq> None)"
| "v1_hook_set t nvfs_ft_get_gpu_sglist_rdma_info = (op_sglist_rdma_info t \<noteq> None)"
| "v1_hook_set t nvfs_ft_blk_dma_map_iter_start = False"
| "v1_hook_set t nvfs_ft_blk_dma_map_iter_next = False"

fun v2_hook_set :: "nvfs_dma_rw_blk_iter_table \<Rightarrow> ft_bits \<Rightarrow> bool" where
  "v2_hook_set t nvfs_ft_prep_sglist = False"
| "v2_hook_set t nvfs_ft_map_sglist = False"
| "v2_hook_set t nvfs_ft_is_gpu_page = (op_is_gpu_page t \<noteq> None)"
| "v2_hook_set t nvfs_ft_device_priority = (op_gpu_index t \<noteq> None \<and> op_device_priority t \<noteq> None)"
| "v2_hook_set t nvfs_ft_get_gpu_sglist_rdma_info = (op_sglist_rdma_info t \<noteq> None)"
| "v2_hook_set t nvfs_ft_blk_dma_map_iter_start = (op_map_iter_start t \<noteq> None \<and> op_unmap_page t \<noteq> None)"
| "v2_hook_set t nvfs_ft_blk_dma_map_iter_next = (op_map_iter_next t \<noteq> None)"

definition backed :: "ops_object \<Rightarrow> ft_bits \<Rightarrow> bool" where
  "backed t ft = (case t of OpsV1 t1 \<Rightarrow> NVIDIA_FS_CHECK_FT ft t1 \<longrightarrow> v1_hook_set t1 ft
     | OpsV2 t2 \<Rightarrow> NVIDIA_FS_CHECK_FT ft t2 \<longrightarrow> v2_hook_set t2 ft)"

definition is_OpsV2 :: "ops_object \<Rightarrow> bool" where
  "is_OpsV2 t = (case t of OpsV1 _ \<Rightarrow> False | OpsV2 _ \<Rightarrow> True)"

lemma ft_all_bits:
  "NVIDIA_FS_SET_FT_ALL AND ft_value ft = 0 \<longleftrightarrow> ft \<in> {nvfs_ft_blk_dma_map_iter_start, nvfs_ft_blk_dma_map_iter_next}"
  "NVIDIA_FS_SET_BLK_DMA_MAP_ITER_FT_ALL AND ft_value ft = 0 \<longleftrightarrow> ft \<notin> {nvfs_ft_is_gpu_page, nvfs_ft_device_priority,
     nvfs_ft_blk_dma_map_iter_start, nvfs_ft_blk_dma_map_iter_next}"
  by (cases ft; simp add: NVIDIA_FS_SET_FT_ALL_def NVIDIA_FS_SET_BLK_DMA_MAP_ITER_FT_ALL_def)+

declare ft_value.simps [simp del]

lemmas table_defs = SET_DEFAULT_OPS_def SET_DEFAULT_OPS_V2_def nvme_hooks_def NVIDIA_FS_CHECK_FT_def

lemma v1_backed:
  assumes "ops_table e d = Some (OpsV1 t)"
  shows "NVIDIA_FS_CHECK_FT ft t \<and> \<not> v1_hook_set t ft \<longleftrightarrow> ft = nvfs_ft_get_gpu_sglist_rdma_info \<and> \<not> kern_rdma e"
  using assms by (cases d; cases ft; auto simp: table_defs ft_all_bits split: if_splits)

lemma v2_backed:
  assumes "ops_table e d = Some (OpsV2 t)"
  shows "NVIDIA_FS_CHECK_FT ft t \<longrightarrow> v2_hook_set t ft"
  using assms by (cases d; cases ft; auto simp: table_defs ft_all_bits split: if_splits)

text \<open>
  C23. The registration with the storage modules is well typed. Every row of the module table that is registered at all points to a table that the build
  contains; the registration function is called in its second version exactly if that table is one of the second version; and if the
  build has RDMA support, every feature that the table announces is backed by the hooks that a storage module may then call.
\<close>

theorem registration_well_typed:
  assumes "row \<in> set (modules_list e)" and "mod_ops row = Some d"
  shows "\<exists>t. ops_table e d = Some t \<and> fst (call_reg_func e row reg st) = register_ret e reg (is_OpsV2 t) (Some d) \<and>
    (kern_rdma e \<longrightarrow> (\<forall>ft. backed t ft))"
proof -
  have "\<exists>t. ops_table e d = Some t \<and> is_OpsV2 t = (iter_api e \<and> mod_name row = ''nvme'')"
    using assms by (auto simp: modules_list_def mod_row_def is_OpsV2_def split: if_splits)
  then obtain t where t: "ops_table e d = Some t" "is_OpsV2 t = (iter_api e \<and> mod_name row = ''nvme'')" by blast
  have "backed t ft" if "kern_rdma e" for ft
    using that t(1) v1_backed v2_backed by (cases t) (auto simp: backed_def)
  with t assms(2) show ?thesis by (auto simp: call_reg_func_def Let_def)
qed

definition ex_mod_build :: mod_env where
  "ex_mod_build = \<lparr> iter_api = True, kern_rdma = True, symbol_exists = (\<lambda>_. True), register_ret = (\<lambda>_ v2 _. if v2 then 0 else - 22) \<rparr>"

theorem registration_well_typed_witness:
  "fst (call_reg_func ex_mod_build (hd (modules_list ex_mod_build)) ''nvme_v2_register_nvfs_dma_ops''
     \<lparr> symrefs = (\<lambda>_. 0), registered = (\<lambda>_. None) \<rparr>) = 0 \<and>
   (\<exists>t. ops_table ex_mod_build nvfs_nvme_dma_rw_blk_iter_ops = Some t \<and> (\<forall>ft. backed t ft))"
proof -
  have row: "hd (modules_list ex_mod_build) \<in> set (modules_list ex_mod_build)"
    "mod_ops (hd (modules_list ex_mod_build)) = Some nvfs_nvme_dma_rw_blk_iter_ops"
    by (simp_all add: modules_list_def ex_mod_build_def mod_row_def)
  have "is_OpsV2 t" if "ops_table ex_mod_build nvfs_nvme_dma_rw_blk_iter_ops = Some t" for t
    using that by (auto simp: is_OpsV2_def split: if_splits)
  with registration_well_typed [OF row] show ?thesis by (fastforce simp: ex_mod_build_def)
qed

text \<open>Without RDMA support a table of the first version announces a hook that is a null pointer.\<close>

lemma rdma_feature_without_hook:
  assumes "\<not> kern_rdma e"
  shows "NVIDIA_FS_CHECK_FT nvfs_ft_get_gpu_sglist_rdma_info (SET_DEFAULT_OPS e) \<and> op_sglist_rdma_info (SET_DEFAULT_OPS e) = None"
  using v1_backed [of e nvfs_dev_dma_rw_ops "SET_DEFAULT_OPS e" nvfs_ft_get_gpu_sglist_rdma_info] assms by simp

end
