(* ===== verification/Nvfs_Text.thy ===== *)
theory Nvfs_Text
  imports Nvfs_Prelude
begin

text \<open>
  Text that the driver writes for user space under \<^verbatim>\<open>/proc\<close> and reads from the GPU driver: the number formats of
  \<^verbatim>\<open>seq_printf\<close> that the sources use, and readers that recover what was written.
\<close>

section \<open>Numbers\<close>

function radix_digits :: "nat \<Rightarrow> nat \<Rightarrow> nat list" where
  "radix_digits b n = (if n < b \<or> b < 2 then [n] else radix_digits b (n div b) @ [n mod b])"
  by pat_completeness auto

termination radix_digits
  by (relation "measure snd") auto

declare radix_digits.simps [simp del]

definition digit_chars :: string where "digit_chars = ''0123456789abcdef''"

text \<open>\<open>fmt b w n\<close>: the number \<open>n\<close> in base \<open>b\<close> with at least \<open>w\<close> digits.\<close>

definition fmt :: "nat \<Rightarrow> nat \<Rightarrow> nat \<Rightarrow> string" where
  "fmt b w n = (let ds = map ((!) digit_chars) (radix_digits b n) in replicate (w - length ds) (CHR ''0'') @ ds)"

abbreviation fmt_x :: "nat \<Rightarrow> nat \<Rightarrow> string" where "fmt_x w n \<equiv> fmt 16 w n"
abbreviation fmt_dec :: "nat \<Rightarrow> string" where "fmt_dec n \<equiv> fmt 10 0 n"

text \<open>The conversions for 32-bit and 64-bit unsigned numbers and for signed ones.\<close>

definition fmt_u :: "int \<Rightarrow> string" where "fmt_u i = fmt_dec (nat (i mod 2 ^ 32))"
definition fmt_lu :: "int \<Rightarrow> string" where "fmt_lu i = fmt_dec (nat (i mod 2 ^ 64))"
definition fmt_d :: "int \<Rightarrow> string" where "fmt_d i = (if i < 0 then CHR ''-'' # fmt_dec (nat (- i)) else fmt_dec (nat i))"

definition char_value :: "char \<Rightarrow> nat" where
  "char_value c = length (takeWhile (\<lambda>d. d \<noteq> c) digit_chars)"

definition read_num :: "nat \<Rightarrow> string \<Rightarrow> nat" where
  "read_num b cs = foldl (\<lambda>a c. a * b + char_value c) 0 cs"

lemma radix_digits_range: "2 \<le> b \<Longrightarrow> \<forall>d \<in> set (radix_digits b n). d < b"
proof (induction b n rule: radix_digits.induct)
  case (1 b n)
  then show ?case by (subst radix_digits.simps) (auto split: if_splits)
qed

lemma radix_digits_value: "2 \<le> b \<Longrightarrow> foldl (\<lambda>a d. a * b + d) 0 (radix_digits b n) = n"
proof (induction b n rule: radix_digits.induct)
  case (1 b n)
  then show ?case by (subst radix_digits.simps) (auto split: if_splits)
qed

lemma digit_chars_value:
  assumes "d < 16"
  shows "char_value (digit_chars ! d) = d"
proof -
  have "\<forall>d \<in> set [0 ..< 16]. char_value (digit_chars ! d) = d" by code_simp
  then show ?thesis using assms by simp
qed

lemma read_digits:
  assumes "\<forall>d \<in> set ds. d < 16"
  shows "foldl (\<lambda>a c. a * b + char_value c) x (map ((!) digit_chars) ds) = foldl (\<lambda>a d. a * b + d) x ds"
  using assms by (induction ds arbitrary: x) (simp_all add: digit_chars_value)

lemma zero_value: "char_value (CHR ''0'') = 0"
  by (simp add: char_value_def digit_chars_def)

lemma read_zeros: "foldl (\<lambda>a c. a * b + char_value c) 0 (replicate k (CHR ''0'')) = 0"
  by (induction k) (simp_all add: zero_value)

lemma read_fmt:
  assumes "2 \<le> b" and "b \<le> 16"
  shows "read_num b (fmt b w n) = n"
proof -
  have r: "\<forall>d \<in> set (radix_digits b n). d < 16" using radix_digits_range [OF assms(1), of n] assms(2) by auto
  show ?thesis
    using read_digits [OF r] radix_digits_value [OF assms(1), of n] by (simp add: read_num_def fmt_def Let_def read_zeros)
qed

lemmas read_fmt_simps [simp] = read_fmt [of 16] read_fmt [of 10]

lemma fmt_chars:
  assumes "2 \<le> b" and "b \<le> 16"
  shows "set (fmt b w n) \<subseteq> set digit_chars"
proof -
  have "length digit_chars = 16" by (simp add: digit_chars_def)
  then have "digit_chars ! d \<in> set digit_chars" if "d \<in> set (radix_digits b n)" for d
    using radix_digits_range [OF assms(1), of n] assms(2) that by (intro nth_mem) fastforce
  moreover have "CHR ''0'' \<in> set digit_chars" by (simp add: digit_chars_def)
  ultimately show ?thesis by (auto simp: fmt_def Let_def)
qed

text \<open>Characters that no number contains.\<close>

lemma not_in_fmt:
  assumes "c \<notin> set digit_chars" and "2 \<le> b" and "b \<le> 16"
  shows "c \<notin> set (fmt b w n)"
  using fmt_chars [OF assms(2,3)] assms(1) by blast

section \<open>Fields\<close>

text \<open>A text cut at a separator.\<close>

fun cut_at :: "'a \<Rightarrow> 'a list \<Rightarrow> 'a list list" where
  "cut_at sep [] = [[]]"
| "cut_at sep (c # cs) = (if c = sep then [] # cut_at sep cs else case cut_at sep cs of [] \<Rightarrow> [] | f # fs \<Rightarrow> (c # f) # fs)"

lemma cut_at_none: "sep \<notin> set xs \<Longrightarrow> cut_at sep xs = [xs]"
  by (induction xs) auto

lemma cut_at_first: "sep \<notin> set xs \<Longrightarrow> cut_at sep (xs @ sep # ys) = xs # cut_at sep ys"
  by (induction xs) auto

text \<open>Lines, each with its end, and their reader.\<close>

definition lines_of :: "string list \<Rightarrow> string" where
  "lines_of ls = concat (map (\<lambda>l. l @ [CHR 0x0A]) ls)"

definition read_lines :: "string \<Rightarrow> string list" where
  "read_lines cs = butlast (cut_at (CHR 0x0A) cs)"

lemma cut_at_not_Nil [simp]: "cut_at sep xs \<noteq> []"
  by (induction xs) (auto split: list.splits)

lemma read_lines_of:
  assumes "\<forall>l \<in> set ls. CHR 0x0A \<notin> set l"
  shows "read_lines (lines_of ls) = ls"
proof -
  have "cut_at (CHR 0x0A) (lines_of ls) = ls @ [[]]"
    using assms by (induction ls) (simp_all add: lines_of_def cut_at_first)
  then show ?thesis by (simp add: read_lines_def)
qed

section \<open>Places of devices\<close>

text \<open>Domain, bus, slot and function, as \<^verbatim>\<open>%04x:%02x:%02x.%u\<close>.\<close>

definition fmt_bdf :: "nat \<times> nat \<times> nat \<times> nat \<Rightarrow> string" where
  "fmt_bdf = (\<lambda>(domain, bus, slot, func). fmt_x 4 domain @ '':'' @ fmt_x 2 bus @ '':'' @ fmt_x 2 slot @ ''.'' @ fmt_dec func)"

definition read_bdf :: "string \<Rightarrow> (nat \<times> nat \<times> nat \<times> nat) option" where
  "read_bdf cs =
     (case cut_at (CHR '':'') cs of
        [domain, bus, r] \<Rightarrow>
          (case cut_at (CHR ''.'') r of
             [slot, func] \<Rightarrow> Some (read_num 16 domain, read_num 16 bus, read_num 16 slot, read_num 10 func)
           | _ \<Rightarrow> None)
      | _ \<Rightarrow> None)"

lemma read_fmt_bdf [simp]: "read_bdf (fmt_bdf x) = Some x"
proof -
  obtain domain bus slot func where x: "x = (domain, bus, slot, func)" by (cases x)
  have c: "CHR '':'' \<notin> set (fmt b w n)" "CHR ''.'' \<notin> set (fmt b w n)" if "b = 16 \<or> b = 10" for b w n
    using that not_in_fmt [of "CHR '':''" b] not_in_fmt [of "CHR ''.''" b] by (auto simp: digit_chars_def)
  have "cut_at (CHR '':'') (fmt_bdf x) = [fmt_x 4 domain, fmt_x 2 bus, fmt_x 2 slot @ ''.'' @ fmt_dec func]"
    using c by (simp add: x fmt_bdf_def cut_at_first cut_at_none)
  moreover have "cut_at (CHR ''.'') (fmt_x 2 slot @ ''.'' @ fmt_dec func) = [fmt_x 2 slot, fmt_dec func]"
    using c by (simp add: cut_at_first cut_at_none)
  ultimately show ?thesis by (simp add: read_bdf_def x)
qed

lemma fmt_bdf_chars:
  assumes "c \<notin> set digit_chars" and "c \<noteq> CHR '':''" and "c \<noteq> CHR ''.''"
  shows "c \<notin> set (fmt_bdf x)"
  using assms not_in_fmt [of c] by (auto simp: fmt_bdf_def split: prod.splits)

section \<open>Reading a number\<close>

text \<open>
  \<^verbatim>\<open>kstrtoint\<close> in base ten: a sign, at least one digit, at most one newline, and nothing else before the end of the
  string. \<open>None\<close> is an error, also for numbers out of range.
\<close>

definition is_digit :: "char \<Rightarrow> bool" where
  "is_digit c \<longleftrightarrow> c \<in> set (take 10 digit_chars)"

definition kstrtoint :: "string \<Rightarrow> int option" where
  "kstrtoint str =
     (let cs = takeWhile (\<lambda>c. c \<noteq> CHR 0x00) str;
          neg = (cs \<noteq> [] \<and> hd cs = CHR ''-'');
          ds = (if cs \<noteq> [] \<and> hd cs \<in> {CHR ''-'', CHR ''+''} then tl cs else cs);
          num = takeWhile is_digit ds;
          v = (if neg then - int (read_num 10 num) else int (read_num 10 num))
      in if num = [] \<or> dropWhile is_digit ds \<notin> {[], [CHR 0x0A]} \<or> v \<notin> {- (2 ^ 31) .. 2 ^ 31 - 1} then None else Some v)"

end
