(* ===== verification/Nvfs_Init.thy ===== *)
theory Nvfs_Init
  imports Nvfs_Text Nvfs_Mgroup Nvfs_Pci
begin

text \<open>
  Loading and unloading the module (\<^verbatim>\<open>nvfs_init\<close> and \<^verbatim>\<open>nvfs_exit\<close> of \<^verbatim>\<open>nvfs-core.c\<close>), with the version of the GPU
  driver, the entries under \<^verbatim>\<open>/proc\<close> (\<^verbatim>\<open>nvfs-proc.c\<close>) and the fault points in the debug file system
  (\<^verbatim>\<open>nvfs-fault.c\<close>).
\<close>

section \<open>The version of the GPU driver\<close>

text \<open>The file \<^verbatim>\<open>/sys/module/nvidia/version\<close>: it cannot be opened or read, or it has contents. Three characters of it are read.\<close>

datatype version_file = OpenError | ReadError | Contents string

definition get_nvidia_driver_version :: "version_file \<Rightarrow> int" where
  "get_nvidia_driver_version f =
     (case f of
        OpenError \<Rightarrow> - 1
      | ReadError \<Rightarrow> - 1
      | Contents cs \<Rightarrow> (case kstrtoint (take 3 cs @ [CHR 0x00]) of None \<Rightarrow> - 1 | Some v \<Rightarrow> v))"

text \<open>A version whose first part has three digits is recognised by it.\<close>

lemma driver_version_major:
  assumes "a < 10" and "b < 10" and "c < 10"
  shows "get_nvidia_driver_version (Contents (map ((!) digit_chars) [a, b, c] @ rest)) = int (100 * a + 10 * b + c)"
proof -
  have d: "is_digit (digit_chars ! k)" "digit_chars ! k \<noteq> CHR 0x00" "digit_chars ! k \<noteq> CHR ''-''" "digit_chars ! k \<noteq> CHR ''+''"
    if "k < 10" for k
  proof -
    have "\<forall>k \<in> set [0 ..< 10]. is_digit (digit_chars ! k) \<and> digit_chars ! k \<notin> {CHR 0x00, CHR ''-'', CHR ''+''}" by code_simp
    then show "is_digit (digit_chars ! k)" "digit_chars ! k \<noteq> CHR 0x00" "digit_chars ! k \<noteq> CHR ''-''" "digit_chars ! k \<noteq> CHR ''+''"
      using that by auto
  qed
  then show ?thesis
    using assms d [of a] d [of b] d [of c] digit_chars_value [of a] digit_chars_value [of b] digit_chars_value [of c]
    by (simp add: get_nvidia_driver_version_def kstrtoint_def read_num_def Let_def)
qed

section \<open>Entries under /proc and fault points\<close>

abbreviation (input) PROC_DIR_ENTRIES :: "string list" where
  "PROC_DIR_ENTRIES \<equiv> [''devcount'', ''version'', ''bridges'', ''modules'', ''stats'', ''peer_affinity'', ''peer_distance'']"

text \<open>
  What the module registers with the kernel: the character device, the device class, the
  devices of the class, the directory under \<^verbatim>\<open>/proc\<close> with its entries and the one with the fault points; and its global
  variables. The module parameter \<open>legacy_p2p\<close> is a number. \<open>drv_state\<close> holds the table of groups and the statistics, \<open>drv_pci\<close> the
  PCI tables. The calls that can fail are parameters, and so are the devices on the PCI buses and the build option \<^verbatim>\<open>CONFIG_FAULT_INJECTION\<close>. Statistics are configured.
\<close>

datatype class_state = NoClass | ClassLive | ClassDestroyed

record driver =
  chrdev_registered :: bool
  nvfs_class :: class_state
  nvfs_devices :: "nat list"
  nvfs_curr_devices :: nat
  nvfs_shutdown :: bool
  legacy_p2p :: nat
  proc_dir :: "string list option"
  dbgfs_root :: "string list option"
  drv_state :: kstate
  drv_pci :: pci_tables

record init_env =
  nvidia_version :: version_file
  bare_metal_x86 :: bool
  register_chrdev :: int
  class_create :: int
  device_create :: "nat \<Rightarrow> int"
  nvfs_max_devices :: nat
  proc_mkdir_ok :: bool
  proc_create_ok :: "string \<Rightarrow> bool"
  fault_injection :: bool
  debugfs_dir_ok :: bool
  pci_hash :: "u64 \<Rightarrow> nat"
  numa_node_of :: "u64 \<Rightarrow> int"
  node_distance :: "int \<Rightarrow> int \<Rightarrow> nat"
  pci_class_devices :: "nat \<Rightarrow> pci_device list"

text \<open>The entries are made in order; if one cannot be made, the whole directory is removed.\<close>

fun proc_create_all :: "init_env \<Rightarrow> string list \<Rightarrow> string list \<Rightarrow> int \<times> string list option" where
  "proc_create_all ie made [] = (0, Some made)"
| "proc_create_all ie made (name # names) =
     (if \<not> proc_create_ok ie name then (- ENOMEM, None) else proc_create_all ie (made @ [name]) names)"

definition nvfs_proc_init :: "init_env \<Rightarrow> int \<times> string list option" where
  "nvfs_proc_init ie = (if \<not> proc_mkdir_ok ie then (- ENOMEM, None) else proc_create_all ie [] PROC_DIR_ENTRIES)"

definition nvfs_proc_cleanup :: "driver \<Rightarrow> driver" where
  "nvfs_proc_cleanup d = d\<lparr>proc_dir := None\<rparr>"

definition nvfs_init_debugfs :: "init_env \<Rightarrow> driver \<Rightarrow> driver" where
  "nvfs_init_debugfs ie d =
     (if \<not> debugfs_dir_ok ie then d\<lparr>dbgfs_root := None\<rparr>
      else d\<lparr>dbgfs_root := Some [''dma_error'', ''rw_verify_area_error'', ''end_fence_get_user_pages_fast_error'',
        ''invalid_p2p_get_page'', ''io_transit_state_fail'', ''pin_shadow_pages_error'', ''vm_insert_page_error'']\<rparr>)"

definition nvfs_free_debugfs :: "driver \<Rightarrow> driver" where
  "nvfs_free_debugfs d = (if dbgfs_root d = None then d else d\<lparr>dbgfs_root := None\<rparr>)"

section \<open>Loading and unloading\<close>

abbreviation MAX_NVFS_DEVICES :: nat where "MAX_NVFS_DEVICES \<equiv> 16"
abbreviation NVIDIA_MIN_DRIVER_FOR_VGPU :: int where "NVIDIA_MIN_DRIVER_FOR_VGPU \<equiv> 555"

definition nvfs_set_device_count :: "nat \<Rightarrow> nat" where
  "nvfs_set_device_count max_devices_param =
     (let n = min max_devices_param MAX_NVFS_DEVICES in if n = 0 then MAX_NVFS_DEVICES else n)"

text \<open>The devices are readable and writable for all; the kernel may ask without a place for the mode.\<close>

definition nvfs_devnode :: "nat option \<Rightarrow> nat option" where
  "nvfs_devnode mode = (case mode of None \<Rightarrow> None | Some _ \<Rightarrow> Some 0x1B6)"

text \<open>Destroying a device looks it up in its class, which must not be gone.\<close>

definition device_destroy :: "nat \<Rightarrow> driver \<Rightarrow> driver option" where
  "device_destroy i d = (if nvfs_class d = ClassLive then Some (d\<lparr>nvfs_devices := removeAll i (nvfs_devices d)\<rparr>) else None)"

text \<open>The loop that creates the devices, and the clean-up of the error path.\<close>

primrec destroy_devices :: "nat list \<Rightarrow> driver \<Rightarrow> driver option" where
  "destroy_devices [] d = Some d"
| "destroy_devices (i # is) d = do { d1 \<leftarrow> device_destroy i d; destroy_devices is d1 }"

primrec create_devices :: "init_env \<Rightarrow> nat list \<Rightarrow> driver \<Rightarrow> (int \<times> driver) option" where
  "create_devices ie [] d = Some (0, d)"
| "create_devices ie (i # is) d =
     (if device_create ie i < 0
      then do { d1 \<leftarrow> destroy_devices (rev [0 ..< i]) (d\<lparr>nvfs_class := ClassDestroyed, chrdev_registered := False\<rparr>);
                Some (- 1, d1) }
      else create_devices ie is (d\<lparr>nvfs_devices := nvfs_devices d @ [i]\<rparr>))"

definition nvfs_init :: "init_env \<Rightarrow> driver \<Rightarrow> (int \<times> driver) option" where
  "nvfs_init ie d =
     (let legacy = (if NVIDIA_MIN_DRIVER_FOR_VGPU \<le> get_nvidia_driver_version (nvidia_version ie) then 0 else legacy_p2p d);
          d1 = d\<lparr>legacy_p2p := (if legacy = 1 \<and> bare_metal_x86 ie then 0 else legacy)\<rparr>;
          n = nvfs_set_device_count (nvfs_max_devices ie)
      in if register_chrdev ie < 0 then Some (register_chrdev ie, d1)
         else if class_create ie < 0 then Some (class_create ie, d1)
         else do {
           (ret, d2) \<leftarrow> create_devices ie [0 ..< n]
             (d1\<lparr>chrdev_registered := True, nvfs_class := ClassLive, nvfs_curr_devices := n\<rparr>);
           if ret \<noteq> 0 then Some (ret, d2)
           else do {
             let d3 = d2\<lparr>drv_state := nvfs_mgroup_init (drv_state d2), nvfs_shutdown := False, proc_dir := snd (nvfs_proc_init ie)\<rparr>;
             let d4 = (if fault_injection ie then nvfs_init_debugfs ie d3 else d3);
             Some (0, d4\<lparr>drv_state := kstat nvfs_stat_init (drv_state d4), drv_pci := nvfs_fill_gpu2peer_distance_table_once (pci_hash ie)
               (numa_node_of ie) (node_distance ie) (pci_class_devices ie) (drv_pci d4)\<rparr>) } })"

text \<open>
  The wait of the unloading: \<open>count i\<close> is the number of operations that the \<open>i\<close>th evaluation of the
  loop condition finds. It ends only when the number is 0.
\<close>

partial_function (option) exit_wait :: "(nat \<Rightarrow> int) \<Rightarrow> nat \<Rightarrow> nat option" where
  "exit_wait count i = (if count i = 0 then Some i else exit_wait count (i + 1))"

definition nvfs_exit :: "init_env \<Rightarrow> (nat \<Rightarrow> int) \<Rightarrow> driver \<Rightarrow> driver option" where
  "nvfs_exit ie count d =
     do { let d0 = d\<lparr>nvfs_shutdown := True\<rparr>;
          _ \<leftarrow> exit_wait count 0;
          let d0 = nvfs_proc_cleanup d0;
          let d0 = (if fault_injection ie then nvfs_free_debugfs d0 else d0);
          let d0 = d0\<lparr>drv_state := kstat nvfs_stat_destroy (drv_state d0)\<rparr>;
          d1 \<leftarrow> destroy_devices [0 ..< nvfs_curr_devices d0] d0;
          Some (d1\<lparr>nvfs_class := ClassDestroyed, chrdev_registered := False\<rparr>) }"

lemma create_devices_ok:
  assumes "\<forall>i < k + n. 0 \<le> device_create ie i" and "nvfs_devices d = [0 ..< k]"
  shows "create_devices ie [k ..< k + n] d = Some (0, d\<lparr>nvfs_devices := [0 ..< k + n]\<rparr>)"
  using assms
proof (induction n arbitrary: k d)
  case (Suc n)
  have "[k ..< k + Suc n] = k # [Suc k ..< Suc k + n]" by (simp add: upt_conv_Cons)
  moreover have "\<not> device_create ie k < 0" using Suc.prems(1) by (simp add: not_less)
  moreover have "d\<lparr>nvfs_devices := nvfs_devices d @ [k]\<rparr> = d\<lparr>nvfs_devices := [0 ..< Suc k]\<rparr>" using Suc.prems(2) by simp
  ultimately show ?case
    using Suc.prems Suc.IH [of "Suc k" "d\<lparr>nvfs_devices := [0 ..< Suc k]\<rparr>"]
    by (simp only: create_devices.simps if_False) simp
qed simp

lemma create_devices_fail:
  assumes "\<forall>i < k. 0 \<le> device_create ie i" and "device_create ie k < 0" and "j \<le> k" and "k < n"
  shows "\<exists>d'. create_devices ie [j ..< n] d = do { d1 \<leftarrow> destroy_devices (rev [0 ..< k])
      (d'\<lparr>nvfs_class := ClassDestroyed, chrdev_registered := False\<rparr>); Some (- 1, d1) }"
  using assms(3)
proof (induction "k - j" arbitrary: j d)
  case 0
  then show ?case using assms(2,4) by (auto simp: upt_conv_Cons)
next
  case (Suc x)
  then have "[j ..< n] = j # [Suc j ..< n]" "0 \<le> device_create ie j" "x = k - Suc j" "Suc j \<le> k"
    using assms(1,4) by (auto simp: upt_conv_Cons)
  then show ?case using Suc.hyps(1) [of "Suc j"] by simp
qed

lemma destroy_devices_live:
  "nvfs_class d = ClassLive \<Longrightarrow> destroy_devices is d = Some (d\<lparr>nvfs_devices := filter (\<lambda>i. i \<notin> set is) (nvfs_devices d)\<rparr>)"
proof (induction "is" arbitrary: d)
  case (Cons i "is")
  have "filter (\<lambda>j. j \<notin> set is) (removeAll i xs) = filter (\<lambda>j. j \<noteq> i \<and> j \<notin> set is) xs" for xs
    by (induction xs) auto
  with Cons show ?case by (simp add: device_destroy_def)
qed simp

lemma exit_wait_ends: "count (i + k) = 0 \<Longrightarrow> \<exists>j. exit_wait count i = Some j"
proof (induction k arbitrary: i)
  case 0
  then show ?case by (subst exit_wait.simps) simp
next
  case (Suc k)
  then show ?case by (subst exit_wait.simps) (auto simp: Suc.IH [of "i + 1"])
qed

lemma exit_wait_Some:
  assumes "exit_wait count i = Some j"
  shows "count j = 0"
proof (rule exit_wait.raw_induct [of "\<lambda>count i j. count j = 0", OF _ assms])
  fix wait :: "(nat \<Rightarrow> int) \<Rightarrow> nat \<Rightarrow> nat option" and count :: "nat \<Rightarrow> int" and i y
  assume "\<And>count i y. wait count i = Some y \<Longrightarrow> count y = 0"
    and "(if count i = 0 then Some i else wait count (i + 1)) = Some y"
  then show "count y = 0" by (auto split: if_splits)
qed

lemma device_count_range: "1 \<le> nvfs_set_device_count n \<and> nvfs_set_device_count n \<le> MAX_NVFS_DEVICES"
  by (auto simp: nvfs_set_device_count_def Let_def)

lemma proc_create_all_outcome:
  "proc_create_all ie made names = (if \<forall>n \<in> set names. proc_create_ok ie n then (0, Some (made @ names)) else (- ENOMEM, None))"
  by (induction names arbitrary: made) auto

lemma free_debugfs_None: "nvfs_free_debugfs d = d\<lparr>dbgfs_root := None\<rparr>"
  by (cases d) (simp add: nvfs_free_debugfs_def)

text \<open>
  C36. Loading and unloading. When the kernel grants the device numbers, the class and the devices, loading creates between one and
  sixteen devices and opens the driver, with no group, no GPU in the statistics and the distance table filled in; the legacy interface of the GPU
  driver stays chosen only for an old driver outside bare-metal x86; the directory under \<^verbatim>\<open>/proc\<close> has all its entries or is not there. Unloading ends exactly when the count of operations
  is seen to be 0 at some point; then it removes all devices, the class, the character
  device, both directories and the GPUs in the statistics.
\<close>

theorem load_unload:
  assumes "0 \<le> register_chrdev ie" and "0 \<le> class_create ie" and "\<forall>i. 0 \<le> device_create ie i"
    and "nvfs_devices d = []" and "dbgfs_root d = None"
  shows "\<exists>d1. nvfs_init ie d = Some (0, d1) \<and> nvfs_devices d1 = [0 ..< nvfs_set_device_count (nvfs_max_devices ie)] \<and>
    nvfs_devices d1 \<noteq> [] \<and> length (nvfs_devices d1) \<le> 16 \<and> \<not> nvfs_shutdown d1 \<and>
    nvfs_io_mgroup_hash (drv_state d1) = [] \<and> gpu_stat_hash (kstats (drv_state d1)) = [] \<and>
    drv_pci d1 = nvfs_fill_gpu2peer_distance_table_once (pci_hash ie) (numa_node_of ie) (node_distance ie) (pci_class_devices ie) (drv_pci d) \<and>
    (legacy_p2p d = 1 \<longrightarrow> legacy_p2p d1 = (if 555 \<le> get_nvidia_driver_version (nvidia_version ie) \<or> bare_metal_x86 ie then 0 else 1)) \<and>
    proc_dir d1 = (if proc_mkdir_ok ie \<and> (\<forall>n \<in> set PROC_DIR_ENTRIES. proc_create_ok ie n) then Some PROC_DIR_ENTRIES else None) \<and>
    (nvfs_exit ie count d1 \<noteq> None \<longleftrightarrow> (\<exists>i. count i = 0)) \<and>
    (\<forall>d2. nvfs_exit ie count d1 = Some d2 \<longrightarrow> nvfs_devices d2 = [] \<and> nvfs_class d2 = ClassDestroyed \<and>
       \<not> chrdev_registered d2 \<and> proc_dir d2 = None \<and> dbgfs_root d2 = None \<and> nvfs_shutdown d2 \<and>
       gpu_stat_hash (kstats (drv_state d2)) = [])"
proof -
  let ?n = "nvfs_set_device_count (nvfs_max_devices ie)"
  let ?l1 = "if 555 \<le> get_nvidia_driver_version (nvidia_version ie) then 0 else legacy_p2p d"
  let ?legacy = "if ?l1 = 1 \<and> bare_metal_x86 ie then 0 else ?l1"
  let ?pci = "nvfs_fill_gpu2peer_distance_table_once (pci_hash ie) (numa_node_of ie) (node_distance ie) (pci_class_devices ie) (drv_pci d)"
  define d1 where "d1 = d\<lparr>legacy_p2p := ?legacy, chrdev_registered := True, nvfs_class := ClassLive, nvfs_curr_devices := ?n,
      nvfs_devices := [0 ..< ?n], nvfs_shutdown := False, proc_dir := snd (nvfs_proc_init ie),
      dbgfs_root := (if fault_injection ie then dbgfs_root (nvfs_init_debugfs ie d) else dbgfs_root d),
      drv_state := kstat nvfs_stat_init (nvfs_mgroup_init (drv_state d)), drv_pci := ?pci\<rparr>"
  have init: "nvfs_init ie d = Some (0, d1)"
    using create_devices_ok [of 0 ?n ie] assms by (simp add: nvfs_init_def Let_def not_less d1_def nvfs_init_debugfs_def)
  have wait: "exit_wait count 0 \<noteq> None \<longleftrightarrow> (\<exists>i. count i = 0)"
    using exit_wait_ends [of count 0] exit_wait_Some [of count 0] by auto
  have unload: "nvfs_exit ie count d1 = (case exit_wait count 0 of None \<Rightarrow> None
      | Some _ \<Rightarrow> Some (d1\<lparr>nvfs_shutdown := True, proc_dir := None, dbgfs_root := None,
          drv_state := kstat nvfs_stat_destroy (drv_state d1), nvfs_devices := [],
          nvfs_class := ClassDestroyed, chrdev_registered := False\<rparr>))"
    using assms(5) by (simp add: nvfs_exit_def destroy_devices_live d1_def nvfs_proc_cleanup_def free_debugfs_None split: option.splits)
  have proc: "proc_dir d1 = (if proc_mkdir_ok ie \<and> (\<forall>n \<in> set PROC_DIR_ENTRIES. proc_create_ok ie n) then Some PROC_DIR_ENTRIES else None)"
    by (simp add: d1_def nvfs_proc_init_def proc_create_all_outcome)
  show ?thesis
    using init wait unload proc device_count_range [of "nvfs_max_devices ie"]
    by (intro exI [of _ d1]) (auto simp: d1_def nvfs_mgroup_init_def nvfs_stat_init_def nvfs_stat_destroy_def kstat_def split: option.splits)
qed

definition ex_init :: init_env where
  "ex_init = \<lparr> nvidia_version = Contents ''550.54.15'', bare_metal_x86 = True, register_chrdev = 240, class_create = 0,
     device_create = (\<lambda>_. 0), nvfs_max_devices = 2, proc_mkdir_ok = True, proc_create_ok = (\<lambda>_. True),
     fault_injection = True, debugfs_dir_ok = True, pci_hash = (\<lambda>_. 0), numa_node_of = (\<lambda>_. 0), node_distance = (\<lambda>_ _. 10),
     pci_class_devices = (\<lambda>_. []) \<rparr>"

definition ex_driver :: driver where
  "ex_driver = \<lparr> chrdev_registered = False, nvfs_class = NoClass, nvfs_devices = [], nvfs_curr_devices = 0,
     nvfs_shutdown = True, legacy_p2p = 1, proc_dir = None, dbgfs_root = None, drv_state = empty_kstate,
     drv_pci = \<lparr> gpu_bdf_map = [], peer_bdf_map = [], gpu_info_table = [], peer_info_table = [], gpu_rank_matrix = [] \<rparr> \<rparr>"

theorem load_unload_witness:
  "\<exists>d1. nvfs_init ex_init ex_driver = Some (0, d1) \<and> nvfs_devices d1 = [0, 1] \<and> proc_dir d1 = Some PROC_DIR_ENTRIES \<and>
     nvfs_exit ex_init (\<lambda>i. if i < 3 then 1 else 0) d1 \<noteq> None"
proof -
  have "nvfs_set_device_count (nvfs_max_devices ex_init) = 2" by (simp add: nvfs_set_device_count_def ex_init_def)
  moreover have "[0 ..< 2] = [0, 1 :: nat]" by (simp add: upt_rec)
  moreover have "\<exists>i. (if i < (3 :: nat) then 1 else 0) = (0 :: int)" by (intro exI [of _ 3]) simp
  ultimately show ?thesis
    using load_unload [of ex_init ex_driver "\<lambda>i. if i < 3 then 1 else 0"] by (auto simp: ex_init_def ex_driver_def)
qed

text \<open>
  A failed load uses the class it has destroyed. When the creation of a device other than the
  first fails, the class is destroyed before the devices already created, so that their
  removal looks them up in a class that is gone.
\<close>

theorem failed_load_uses_destroyed_class:
  assumes "0 \<le> register_chrdev ie" and "0 \<le> class_create ie" and "0 < k"
    and "k < nvfs_set_device_count (nvfs_max_devices ie)"
    and "\<forall>i < k. 0 \<le> device_create ie i" and "device_create ie k < 0"
  shows "nvfs_init ie d = None"
proof -
  have "rev [0 ..< k] \<noteq> []" using assms(3) by simp
  then obtain i "is" where "rev [0 ..< k] = i # is" by (meson list.exhaust)
  then have gone: "destroy_devices (rev [0 ..< k]) (d'\<lparr>nvfs_class := ClassDestroyed, chrdev_registered := False\<rparr>) = None" for d'
    by (simp add: device_destroy_def)
  show ?thesis
    using create_devices_fail [OF assms(5,6) le0 assms(4)] gone assms(1,2)
    by (auto simp: nvfs_init_def Let_def not_less split: bind_splits)
qed

theorem failed_load_uses_destroyed_class_witness:
  "nvfs_init (ex_init\<lparr>device_create := (\<lambda>i. if i = 1 then - 12 else 0)\<rparr>) ex_driver = None"
  by (rule failed_load_uses_destroyed_class [of _ 1]) (auto simp: ex_init_def nvfs_set_device_count_def)

end
