(* ===== verification/Nvfs_Proc.thy ===== *)
theory Nvfs_Proc
  imports Nvfs_Init Nvfs_Mod Nvfs_Pci
begin

text \<open>
  What user space reads under \<^verbatim>\<open>/proc/driver/nvidia-fs\<close> (\<^verbatim>\<open>nvfs-proc.c\<close>, and the listings of \<^verbatim>\<open>nvfs-stat.c\<close> and
  \<^verbatim>\<open>nvfs-pci.c\<close>): every file as the text that its \<^verbatim>\<open>show\<close> function writes. The user-space library reads some of them, so the
  tables are shown to be recoverable from the text.
\<close>

abbreviation (input) tab :: string where "tab \<equiv> [CHR 0x09]"
abbreviation (input) nl :: string where "nl \<equiv> [CHR 0x0A]"

section \<open>Modules, version, devices\<close>

text \<open>A null string is printed as \<^verbatim>\<open>(null)\<close>.\<close>

definition fmt_s :: "string option \<Rightarrow> string" where
  "fmt_s s = (case s of None \<Rightarrow> ''(null)'' | Some cs \<Rightarrow> cs)"

definition nvfs_modules_show :: "module_entry list \<Rightarrow> string" where
  "nvfs_modules_show mods = concat (map (\<lambda>m. if found m then mod_name m @ '': '' @ fmt_s (mod_version m) @ nl else []) mods)"

definition nvfs_driver_version :: u32 where
  "nvfs_driver_version = push_bit 16 2 OR 28"

definition nvfs_major_version :: "u32 \<Rightarrow> u16" where
  "nvfs_major_version version = ucast (drop_bit 16 version)"

definition nvfs_minor_version :: "u32 \<Rightarrow> u16" where
  "nvfs_minor_version version = ucast version"

definition nvfs_version_show :: string where
  "nvfs_version_show = ''version: '' @ fmt_u (uint (nvfs_major_version nvfs_driver_version)) @ ''.'' @
     fmt_u (uint (nvfs_minor_version nvfs_driver_version)) @ nl"

definition nvfs_devices_show :: "driver \<Rightarrow> string" where
  "nvfs_devices_show d = fmt_u (int (nvfs_curr_devices d)) @ nl"

section \<open>Bridges\<close>

text \<open>Slot and function of a device number.\<close>

definition PCI_SLOT :: "u8 \<Rightarrow> nat" where "PCI_SLOT fn = unat (drop_bit 3 fn AND 0x1f)"
definition PCI_FUNC :: "u8 \<Rightarrow> nat" where "PCI_FUNC fn = unat (fn AND 0x07)"

text \<open>
  The loop over the bridges with access control: the bridges after the current one are left. A bridge without a bus
  would be a null pointer.
\<close>

function bridge_show :: "pci_bridge list \<Rightarrow> string list option" where
  "bridge_show bs =
     (case nvfs_get_next_acs_device bs of
        None \<Rightarrow> Some []
      | Some b \<Rightarrow> do {
          (domain, number) \<leftarrow> br_bus b;
          rest \<leftarrow> bridge_show (tl (dropWhile (\<lambda>b. \<not> nvfs_pcie_acs_enabled b) bs));
          Some (fmt_bdf (unat domain, unat number, PCI_SLOT (br_devfn b), PCI_FUNC (br_devfn b)) # rest) })"
  by pat_completeness auto

lemma next_acs_shorter:
  "nvfs_get_next_acs_device bs = Some b \<Longrightarrow> length (tl (dropWhile (\<lambda>b. \<not> nvfs_pcie_acs_enabled b) bs)) < length bs"
proof (induction bs)
  case (Cons x bs)
  then show ?case by (auto simp: nvfs_get_next_acs_device_def split: if_splits)
qed (simp add: nvfs_get_next_acs_device_def)

termination bridge_show
  by (relation "measure length") (auto dest: next_acs_shorter)

declare bridge_show.simps [simp del]

definition nvfs_bridge_show :: "pci_bridge list \<Rightarrow> string option" where
  "nvfs_bridge_show bs = map_option lines_of (bridge_show bs)"

section \<open>Peers of the GPUs\<close>

text \<open>The place of a device in its identifier, and its form in the listings.\<close>

definition PCI_INFO_ARGS :: "u64 \<Rightarrow> nat \<times> nat \<times> nat \<times> nat" where
  "PCI_INFO_ARGS v = (unat (drop_bit 32 v), unat (drop_bit 8 (ucast v :: u16)), PCI_SLOT (ucast v), PCI_FUNC (ucast v))"

definition PCI_INFO :: "u64 \<Rightarrow> string" where
  "PCI_INFO v = fmt_bdf (PCI_INFO_ARGS v) @ '' ''"

definition distance_line :: "(u64 \<Rightarrow> int) \<Rightarrow> u64 \<Rightarrow> u64 \<Rightarrow> rank_data \<Rightarrow> string" where
  "distance_line numa_node gpu peerinfo r =
     PCI_INFO gpu @ tab @ PCI_INFO peerinfo @ tab @ ''0x'' @ fmt_x 8 (unat (rd_rank r)) @ tab @
     ''0x'' @ fmt_x 4 (unat (rd_pci_dist r)) @ tab @ ''0x'' @ fmt_x 2 (nvfs_pdevinfo_get_link_width peerinfo) @ tab @
     ''0x'' @ fmt_x 2 (nvfs_pdevinfo_get_link_speed peerinfo) @ tab @
     ''0x'' @ fmt_x 2 (nat (numa_node (peerinfo AND NVFS_PDEVINFO_INFO_MASK) mod 2 ^ 32)) @ tab @
     fmt_dec (unat (rd_count r)) @ tab @ nvfs_pdevinfo_get_class_name peerinfo"

definition distance_header :: string where
  "distance_header = ''gpu'' @ tab @ tab @ ''peer'' @ tab @ tab @ ''peerrank'' @ tab @ ''p2pdist'' @ tab @ ''link'' @ tab @
     ''gen'' @ tab @ ''numa'' @ tab @ ''np2p'' @ tab @ ''class''"

text \<open>The pairs of a GPU and a peer that are in the tables, with their entry of the rank matrix.\<close>

definition table_pairs :: "pci_tables \<Rightarrow> (u64 \<times> u64 \<times> rank_data) list" where
  "table_pairs t = concat (map (\<lambda>i.
     let gpu = nvfs_lookup_gpu_hash_index_entry i t
     in if gpu = 0 then []
        else concat (map (\<lambda>j.
          let peerinfo = nvfs_lookup_peer_hash_index_entry j t
          in if peerinfo = 0 then [] else [(gpu, peerinfo, gpu_rank_matrix t ! i ! j)]) [0 ..< MAX_PEER_DEVS])) [0 ..< MAX_GPU_DEVS])"

definition nvfs_peer_distance_show :: "(u64 \<Rightarrow> int) \<Rightarrow> pci_tables \<Rightarrow> string" where
  "nvfs_peer_distance_show numa_node t =
     lines_of (distance_header # map (\<lambda>(gpu, peerinfo, r). distance_line numa_node gpu peerinfo r) (table_pairs t))"

definition affinity_line :: "pci_tables \<Rightarrow> nat \<Rightarrow> u64 \<Rightarrow> string" where
  "affinity_line t i gpu = ''GPU :'' @ PCI_INFO gpu @ '':'' @
     concat (map (\<lambda>j. fmt_dec (unat (nvfs_aggregate_peer_usage_by_distance i j t)) @ '' '') [1 ..< PROC_LIMIT_PCI_DISTANCE_COMMONRP + 1]) @
     fmt_dec (unat (nvfs_aggregate_peer_usage_by_distance i BASE_PCI_DISTANCE_CROSSRP t))"

definition nvfs_peer_affinity_show :: "bool \<Rightarrow> pci_tables \<Rightarrow> string" where
  "nvfs_peer_affinity_show peer_stats_enabled t =
     (if \<not> peer_stats_enabled then []
      else lines_of ([''GPU P2P DMA distribution based on pci-distance'', '''', ''(last column indicates p2p via root complex)''] @
        concat (map (\<lambda>i. let gpu = nvfs_lookup_gpu_hash_index_entry i t
                         in if gpu = 0 then [] else [affinity_line t i gpu]) [0 ..< MAX_GPU_DEVS])))"

section \<open>Statistics\<close>

text \<open>
  What the listing depends on besides the counters: the version the driver was built with, if any, whether the kernel has
  PeerDirect, the module parameters and the number of devices. The table of GPUs has the identity of a \<^verbatim>\<open>uuid\<close>;
  \<open>uuid_bytes\<close> are its sixteen bytes.
\<close>

record stat_env =
  GDS_VERSION :: "string option"
  peer_direct :: bool
  rw_stats_enabled :: bool
  peer_stats_enabled :: bool
  dbg_enabled :: bool
  info_enabled :: bool
  device_count :: nat
  uuid_bytes :: "u64 \<Rightarrow> nat list"

definition fmt_uuid :: "nat list \<Rightarrow> string" where
  "fmt_uuid bs = (let x = (\<lambda>i j. concat (map (fmt_x 2) (take (j - i) (drop i bs))))
     in x 0 4 @ ''-'' @ x 4 6 @ ''-'' @ x 6 8 @ ''-'' @ x 8 10 @ ''-'' @ x 10 16)"

definition gpu_line :: "stat_env \<Rightarrow> pci_tables \<Rightarrow> nvfs_gpu_stat \<Rightarrow> string" where
  "gpu_line se t g =
     ''GPU '' @ PCI_INFO (nvfs_lookup_gpu_hash_index_entry (unat (gs_gpu_index g)) t) @ '' uuid:'' @ fmt_uuid (uuid_bytes se (gs_uuid g)) @
     '' : Registered_MiB='' @ fmt_lu (BYTES_TO_MB (active_bar_memory_pinned g)) @
     '' Cache_MiB='' @ fmt_lu (BYTES_TO_MB (active_bounce_buffer_memory g)) @
     '' max_pinned_MiB='' @ fmt_lu (BYTES_TO_MB (max_bar_memory_pinned g)) @ '' '' @
     (if peer_stats_enabled se then ''cross_root_port(%)='' @ fmt_dec (unat (nvfs_aggregate_cross_peer_usage (unat (gs_gpu_index g)) t)) else [])"

definition nvfs_print_gpuinfo :: "stat_env \<Rightarrow> pci_tables \<Rightarrow> nvfs_stats \<Rightarrow> string list" where
  "nvfs_print_gpuinfo se t s = map (gpu_line se t) (gpu_stat_hash s)"

text \<open>A counter of 32 bits and one of 64 bits after its label, and one in MiB.\<close>

definition c32 :: "nvfs_stats \<Rightarrow> string \<Rightarrow> nvfs_counter \<Rightarrow> string" where
  "c32 s label c = label @ ''='' @ fmt_u (counter s c)"

definition c64 :: "nvfs_stats \<Rightarrow> string \<Rightarrow> nvfs_counter \<Rightarrow> string" where
  "c64 s label c = label @ ''='' @ fmt_lu (counter s c)"

definition cmb :: "nvfs_stats \<Rightarrow> string \<Rightarrow> nvfs_counter \<Rightarrow> string" where
  "cmb s label c = label @ ''='' @ fmt_lu (BYTES_TO_MB (counter s c))"

fun words_of :: "string list \<Rightarrow> string" where
  "words_of [] = []"
| "words_of [w] = w"
| "words_of (w # ws) = w @ '' '' @ words_of ws"

definition stat_head :: "stat_env \<Rightarrow> string list" where
  "stat_head se =
     (case GDS_VERSION se of None \<Rightarrow> [] | Some v \<Rightarrow> [''GDS Version: '' @ v @ '' '']) @
     [''NVFS statistics(ver: '' @ fmt_d 4 @ ''.0)'',
      ''NVFS Driver(version: '' @ fmt_u (uint (nvfs_major_version nvfs_driver_version)) @ ''.'' @
        fmt_u (uint (nvfs_minor_version nvfs_driver_version)) @ ''.'' @ fmt_u 2 @ '')'',
      ''Mellanox PeerDirect Supported: '' @ (if peer_direct se then ''True'' else ''False''),
      ''IO stats: '' @ (if rw_stats_enabled se then ''Enabled'' else ''Disabled'') @ '', peer IO stats: '' @
        (if peer_stats_enabled se then ''Enabled'' else ''Disabled''),
      ''Logging level: '' @ (if dbg_enabled se then ''debug'' else if info_enabled se then ''info'' else ''warn''), []]"

definition ops_line :: "nvfs_stats \<Rightarrow> string" where
  "ops_line s = ''Ops'' @ tab @ tab @ tab @ tab @ '': '' @
     words_of [c32 s ''Read'' nvfs_n_op_reads, c32 s ''Write'' nvfs_n_op_writes, c32 s ''BatchIO'' nvfs_n_op_batches]"

definition rw_lines :: "bool \<Rightarrow> nvfs_stats \<Rightarrow> string list" where
  "rw_lines rw s =
     (if rw then
        [''Batches'' @ tab @ tab @ tab @ tab @ '': '' @ words_of [c64 s ''n'' nvfs_n_batches, c64 s ''ok'' nvfs_n_batches_ok,
           c32 s ''err'' nvfs_n_batch_err, c32 s ''Avg-Submit-Latency(usec)'' nvfs_batch_submit_avg_latency],
         ''Reads'' @ tab @ tab @ tab @ tab @ '': '' @ words_of [c64 s ''n'' nvfs_n_reads, c64 s ''ok'' nvfs_n_reads_ok,
           c32 s ''err'' nvfs_n_read_err, cmb s ''readMiB'' nvfs_n_read_bytes, c32 s ''io_state_err'' nvfs_n_read_iostate_err],
         ''Reads'' @ tab @ tab @ tab @ tab @ '': '' @ words_of [c32 s ''Bandwidth(MiB/s)'' nvfs_read_throughput,
           c32 s ''Avg-Latency(usec)'' nvfs_avg_read_latency]]
      else
        [''Reads'' @ tab @ tab @ tab @ tab @ '': '' @ words_of [c32 s ''err'' nvfs_n_read_err,
           c32 s ''io_state_err'' nvfs_n_read_iostate_err]]) @
     [''Sparse Reads'' @ tab @ tab @ ''        : '' @ words_of [c64 s ''n'' nvfs_n_reads_sparse_files, c64 s ''io'' nvfs_n_reads_sparse_io,
        c64 s ''holes'' nvfs_n_reads_sparse_region, c64 s ''pages'' nvfs_n_reads_sparse_pages, []]] @
     (if rw then
        [''Writes'' @ tab @ tab @ tab @ tab @ '': '' @ words_of [c64 s ''n'' nvfs_n_writes, c64 s ''ok'' nvfs_n_writes_ok,
           c32 s ''err'' nvfs_n_write_err, cmb s ''writeMiB'' nvfs_n_write_bytes, c32 s ''io_state_err'' nvfs_n_write_iostate_err,
           c32 s ''pg-cache'' nvfs_n_pg_cache, c32 s ''pg-cache-fail'' nvfs_n_pg_cache_fail, c32 s ''pg-cache-eio'' nvfs_n_pg_cache_eio],
         ''Writes'' @ tab @ tab @ tab @ tab @ '': '' @ words_of [c32 s ''Bandwidth(MiB/s)'' nvfs_write_throughput,
           c32 s ''Avg-Latency(usec)'' nvfs_avg_write_latency]]
      else
        [''Writes'' @ tab @ tab @ tab @ tab @ '': '' @ words_of [c32 s ''err'' nvfs_n_write_err,
           c32 s ''io_state_err'' nvfs_n_write_iostate_err, c32 s ''pg-cache'' nvfs_n_pg_cache,
           c32 s ''pg-cache-fail'' nvfs_n_pg_cache_fail, c32 s ''pg-cache-eio'' nvfs_n_pg_cache_eio]])"

text \<open>The quotient of the active processes is one of unsigned numbers; it does not exist for 0 devices.\<close>

definition nvfs_stats_show :: "stat_env \<Rightarrow> pci_tables \<Rightarrow> nvfs_stats \<Rightarrow> string option" where
  "nvfs_stats_show se t s =
     (if device_count se = 0 then None
      else Some (lines_of (stat_head se @
        [''Active Shadow-Buffer (MiB): '' @ fmt_lu (BYTES_TO_MB (counter s nvfs_n_active_shadow_buf_sz)),
         ''Active Process: '' @ fmt_u (counter s nvfs_n_op_process mod 2 ^ 32 div int (device_count se))] @
        rw_lines (rw_stats_enabled se) s @
        [''Mmap'' @ tab @ tab @ tab @ tab @ '': '' @ words_of [c64 s ''n'' nvfs_n_mmap, c64 s ''ok'' nvfs_n_mmap_ok,
           c32 s ''err'' nvfs_n_mmap_err, c64 s ''munmap'' nvfs_n_munmap],
         ''Bar1-map'' @ tab @ tab @ tab @ '': '' @ words_of [c64 s ''n'' nvfs_n_maps, c64 s ''ok'' nvfs_n_maps_ok,
           c32 s ''err'' nvfs_n_map_err, c64 s ''free'' nvfs_n_free, c32 s ''callbacks'' nvfs_n_callbacks,
           c32 s ''active'' nvfs_n_op_maps, c64 s ''delay-frees'' nvfs_n_delayed_frees],
         ''Error'' @ tab @ tab @ tab @ tab @ '': '' @ words_of [c32 s ''cpu-gpu-pages'' nvfs_n_err_mix_cpu_gpu,
           c32 s ''sg-ext'' nvfs_n_err_sg_err, c32 s ''dma-map'' nvfs_n_err_dma_map, c32 s ''dma-ref'' nvfs_n_err_dma_ref],
         ops_line s] @
        nvfs_print_gpuinfo se t s)))"

text \<open>Writing anything to the file resets the statistics, those of the peers included, and counts as written.\<close>

definition nvfs_stats_clear :: "nat \<Rightarrow> nvfs_stats \<times> pci_tables \<Rightarrow> int \<times> nvfs_stats \<times> pci_tables" where
  "nvfs_stats_clear n = (\<lambda>(s, t). (int n, nvfs_stats_reset s, nvfs_reset_peer_affinity_stats t))"

section \<open>The listings can be read back\<close>

lemma bridge_show_all:
  assumes "\<forall>b \<in> set bs. nvfs_pcie_acs_enabled b \<longrightarrow> br_bus b \<noteq> None"
  shows "bridge_show bs = Some (map (\<lambda>b. fmt_bdf (unat (fst (the (br_bus b))), unat (snd (the (br_bus b))),
    PCI_SLOT (br_devfn b), PCI_FUNC (br_devfn b))) (filter nvfs_pcie_acs_enabled bs))"
  using assms
proof (induction bs)
  case (Cons b bs)
  show ?case
  proof (cases "nvfs_pcie_acs_enabled b")
    case True
    then show ?thesis using Cons by (subst bridge_show.simps) (auto simp: nvfs_get_next_acs_device_def)
  next
    case False
    then have "dropWhile (\<lambda>b. \<not> nvfs_pcie_acs_enabled b) (b # bs) = dropWhile (\<lambda>b. \<not> nvfs_pcie_acs_enabled b) bs"
      "nvfs_get_next_acs_device (b # bs) = nvfs_get_next_acs_device bs"
      by (simp_all add: nvfs_get_next_acs_device_def)
    then have "bridge_show (b # bs) = bridge_show bs" by (subst (1 2) bridge_show.simps) (simp only:)
    then show ?thesis using Cons False by simp
  qed
qed (subst bridge_show.simps, simp add: nvfs_get_next_acs_device_def)

text \<open>The readers: a line of the distance table has nine fields, the places end with a space and the hexadecimal numbers begin with \<^verbatim>\<open>0x\<close>.\<close>

definition read_bridges :: "string \<Rightarrow> (nat \<times> nat \<times> nat \<times> nat) list option" where
  "read_bridges cs = those (map read_bdf (read_lines cs))"

fun read_distance_line :: "string list \<Rightarrow> ((nat \<times> nat \<times> nat \<times> nat) \<times> (nat \<times> nat \<times> nat \<times> nat) \<times> nat list \<times> string) option" where
  "read_distance_line [g, p, rank, dist, link, gen, numa, np2p, cls] =
     do { gpu \<leftarrow> read_bdf (butlast g);
          peer \<leftarrow> read_bdf (butlast p);
          Some (gpu, peer, map (read_num 16 \<circ> drop 2) [rank, dist, link, gen, numa] @ [read_num 10 np2p], cls) }"
| "read_distance_line _ = None"

definition read_distances :: "string \<Rightarrow> ((nat \<times> nat \<times> nat \<times> nat) \<times> (nat \<times> nat \<times> nat \<times> nat) \<times> nat list \<times> string) list option" where
  "read_distances cs = those (map (read_distance_line \<circ> cut_at (CHR 0x09)) (tl (read_lines cs)))"

lemma those_map_Some: "\<forall>x \<in> set xs. f x = Some (g x) \<Longrightarrow> those (map f xs) = Some (map g xs)"
  by (induction xs) auto

lemma plain_chars:
  assumes "c = CHR 0x09 \<or> c = CHR 0x0A"
  shows "c \<notin> set (fmt_x w n)" "c \<notin> set (fmt_dec n)" "c \<notin> set (PCI_INFO v)" "c \<notin> set (nvfs_pdevinfo_get_class_name v)"
proof -
  have c: "c \<notin> set digit_chars" "c \<noteq> CHR '':''" "c \<noteq> CHR ''.''" "c \<noteq> CHR '' ''" using assms by (auto simp: digit_chars_def)
  show "c \<notin> set (fmt_x w n)" "c \<notin> set (fmt_dec n)" using not_in_fmt [OF c(1)] by simp_all
  show "c \<notin> set (PCI_INFO v)" using fmt_bdf_chars [OF c(1-3)] c(4) by (simp add: PCI_INFO_def)
  show "c \<notin> set (nvfs_pdevinfo_get_class_name v)" using assms by (auto simp: nvfs_pdevinfo_get_class_name_def)
qed

lemma distance_line_cut:
  "cut_at (CHR 0x09) (distance_line numa gpu peer r) =
     [PCI_INFO gpu, PCI_INFO peer, ''0x'' @ fmt_x 8 (unat (rd_rank r)), ''0x'' @ fmt_x 4 (unat (rd_pci_dist r)),
      ''0x'' @ fmt_x 2 (nvfs_pdevinfo_get_link_width peer), ''0x'' @ fmt_x 2 (nvfs_pdevinfo_get_link_speed peer),
      ''0x'' @ fmt_x 2 (nat (numa (peer AND NVFS_PDEVINFO_INFO_MASK) mod 2 ^ 32)), fmt_dec (unat (rd_count r)),
      nvfs_pdevinfo_get_class_name peer]"
proof -
  note p = plain_chars [of "CHR 0x09", OF disjI1, OF refl]
  have f: "cut_at (CHR 0x09) (x @ CHR 0x09 # ys) = x # cut_at (CHR 0x09) ys" if "CHR 0x09 \<notin> set x" for x ys
    using that by (rule cut_at_first)
  have z: "CHR 0x09 \<notin> set (''0x'' @ fmt_x w n)" for w n using p by simp
  have app: "distance_line numa gpu peer r =
      PCI_INFO gpu @ CHR 0x09 # (PCI_INFO peer @ CHR 0x09 # ((''0x'' @ fmt_x 8 (unat (rd_rank r))) @ CHR 0x09 #
      ((''0x'' @ fmt_x 4 (unat (rd_pci_dist r))) @ CHR 0x09 # ((''0x'' @ fmt_x 2 (nvfs_pdevinfo_get_link_width peer)) @ CHR 0x09 #
      ((''0x'' @ fmt_x 2 (nvfs_pdevinfo_get_link_speed peer)) @ CHR 0x09 #
      ((''0x'' @ fmt_x 2 (nat (numa (peer AND NVFS_PDEVINFO_INFO_MASK) mod 2 ^ 32))) @ CHR 0x09 #
      (fmt_dec (unat (rd_count r)) @ CHR 0x09 # nvfs_pdevinfo_get_class_name peer)))))))"
    by (simp add: distance_line_def)
  show ?thesis unfolding app by (simp only: f z p cut_at_none not_False_eq_True)
qed

text \<open>
  C38. The two tables that the user-space library reads can be read back from their text. The lines of the bridges are, in order, the
  places of all bridges with access control. The distance table has, after its header, one line for every pair of a GPU and
  a peer in the tables; from each line the places of both, the rank, the distance, width and speed of the link, the node, the number of
  transfers and the class are recovered exactly, whatever their values.
\<close>

theorem proc_tables_readable:
  assumes "\<forall>b \<in> set bs. nvfs_pcie_acs_enabled b \<longrightarrow> br_bus b \<noteq> None"
  shows "(\<exists>txt. nvfs_bridge_show bs = Some txt \<and> read_bridges txt = Some (map (\<lambda>b. (unat (fst (the (br_bus b))),
      unat (snd (the (br_bus b))), PCI_SLOT (br_devfn b), PCI_FUNC (br_devfn b))) (filter nvfs_pcie_acs_enabled bs))) \<and>
    read_distances (nvfs_peer_distance_show numa t) = Some (map (\<lambda>(gpu, peer, r). (PCI_INFO_ARGS gpu, PCI_INFO_ARGS peer,
      [unat (rd_rank r), unat (rd_pci_dist r), nvfs_pdevinfo_get_link_width peer, nvfs_pdevinfo_get_link_speed peer,
       nat (numa (peer AND NVFS_PDEVINFO_INFO_MASK) mod 2 ^ 32), unat (rd_count r)], nvfs_pdevinfo_get_class_name peer)) (table_pairs t))"
proof
  have "CHR 0x0A \<notin> set (fmt_bdf x)" for x by (intro fmt_bdf_chars) (simp_all add: digit_chars_def)
  then show "\<exists>txt. nvfs_bridge_show bs = Some txt \<and> read_bridges txt = Some (map (\<lambda>b. (unat (fst (the (br_bus b))),
      unat (snd (the (br_bus b))), PCI_SLOT (br_devfn b), PCI_FUNC (br_devfn b))) (filter nvfs_pcie_acs_enabled bs))"
    using bridge_show_all [OF assms]
    by (auto simp: nvfs_bridge_show_def read_bridges_def read_lines_of o_def intro!: those_map_Some)
  note p = plain_chars [of "CHR 0x0A", OF disjI2, OF refl]
  have "CHR 0x0A \<notin> set (distance_line numa gpu peer r)" for gpu peer r using p by (simp add: distance_line_def)
  then have lines: "tl (read_lines (nvfs_peer_distance_show numa t)) = map (\<lambda>(gpu, peer, r). distance_line numa gpu peer r) (table_pairs t)"
    unfolding nvfs_peer_distance_show_def by (subst read_lines_of) (auto simp: distance_header_def)
  have line: "read_distance_line (cut_at (CHR 0x09) (distance_line numa gpu peer r)) = Some (PCI_INFO_ARGS gpu, PCI_INFO_ARGS peer,
      [unat (rd_rank r), unat (rd_pci_dist r), nvfs_pdevinfo_get_link_width peer, nvfs_pdevinfo_get_link_speed peer,
       nat (numa (peer AND NVFS_PDEVINFO_INFO_MASK) mod 2 ^ 32), unat (rd_count r)], nvfs_pdevinfo_get_class_name peer)" for gpu peer r
    unfolding distance_line_cut by (simp add: PCI_INFO_def)
  show "read_distances (nvfs_peer_distance_show numa t) = Some (map (\<lambda>(gpu, peer, r). (PCI_INFO_ARGS gpu, PCI_INFO_ARGS peer,
      [unat (rd_rank r), unat (rd_pci_dist r), nvfs_pdevinfo_get_link_width peer, nvfs_pdevinfo_get_link_speed peer,
       nat (numa (peer AND NVFS_PDEVINFO_INFO_MASK) mod 2 ^ 32), unat (rd_count r)], nvfs_pdevinfo_get_class_name peer)) (table_pairs t))"
    unfolding read_distances_def lines using line by (auto simp: o_def split_beta intro!: those_map_Some)
qed

theorem proc_tables_readable_witness:
  "\<exists>txt. nvfs_bridge_show [\<lparr> br_bus = Some (0, 0x3a), br_devfn = 8, br_acs = Some (13, 29) \<rparr>, \<lparr> br_bus = None, br_devfn = 0, br_acs = None \<rparr>] =
     Some txt \<and> read_bridges txt = Some [(0, 58, 1, 0)]"
proof -
  let ?bs = "[\<lparr> br_bus = Some (0, 0x3a), br_devfn = 8, br_acs = Some (13, 29) \<rparr>, \<lparr> br_bus = None, br_devfn = 0, br_acs = None \<rparr>]"
  have acs: "map nvfs_pcie_acs_enabled ?bs = [True, False]" by code_simp
  have place: "PCI_SLOT 8 = 1" "PCI_FUNC 8 = 0" by code_simp+
  have "\<forall>b \<in> set ?bs. nvfs_pcie_acs_enabled b \<longrightarrow> br_bus b \<noteq> None" using acs by simp
  from proc_tables_readable [OF this] show ?thesis using acs place by simp
qed

lemma counter_reset_fold: "counter (fold nvfs_stat64_reset cs s) c = (if c \<in> set cs then 0 else counter s c)"
  by (induction cs arbitrary: s) (simp_all add: nvfs_stat64_reset_def)

lemma counter_stats_reset: "counter (nvfs_stats_reset s) c = (if c \<in> set reset_counters then 0 else counter s c)"
  by (simp add: nvfs_stats_reset_def nvfs_reset_gpuinfo_stats_def counter_reset_fold)

text \<open>
  A reset while a batch runs leaves its counter at 0, and the end of the batch then shows 4294967295 batches.
\<close>

lemma reset_during_batch_shows_garbage:
  "ops_line (nvfs_stat_d nvfs_n_op_batches (nvfs_stats_reset s)) =
     ''Ops'' @ tab @ tab @ tab @ tab @ '': Read='' @ fmt_u (counter s nvfs_n_op_reads) @
     '' Write='' @ fmt_u (counter s nvfs_n_op_writes) @ '' BatchIO='' @ fmt_dec 4294967295"
proof -
  have batches: "nvfs_n_op_batches \<in> set reset_counters" by (simp add: reset_counters_def)
  have others: "nvfs_n_op_reads \<notin> set reset_counters" "nvfs_n_op_writes \<notin> set reset_counters"
    by (simp_all add: reset_counters_def)
  have "s32 (0 - 1) = - 1" by code_simp
  moreover have "fmt_u (- 1) = fmt_dec 4294967295" by (simp add: fmt_u_def)
  ultimately show ?thesis
    by (simp add: ops_line_def c32_def nvfs_stat_d_def counter_stats_reset batches others)
qed

end
