(* ===== verification/Spec2Isabelle.thy ===== *)
theory Spec2Isabelle
  imports Nvfs_Life Nvfs_Machine Nvfs_Async Nvfs_System Nvfs_Ops Nvfs_Proc
begin

text \<open>
  A verification development for \<^verbatim>\<open>nvidia-fs\<close>, the kernel driver of GPUDirect Storage (\<^verbatim>\<open>src/src/nvfs-*.c\<close> and \<^verbatim>\<open>.h\<close>).

  \<^bold>\<open>The program.\<close> User space maps a \<^emph>\<open>shadow buffer\<close> of ordinary pages (\<^verbatim>\<open>mmap\<close>), ties it to a range of GPU memory (the map request)
  and then reads and writes files into it. The pages of the shadow buffer never carry data: they are stand-ins that travel
  through the file system and the block layer, and when a storage driver is about to program its DMA engine, the hooks of
  \<^verbatim>\<open>nvidia-fs\<close> replace them by the bus addresses of the GPU memory they stand for. Everything hangs on one structure per buffer, the
  \<^verbatim>\<open>nvfs_io_mgroup\<close>: a reference count, an I/O state, a table with the state of every 4 KiB block, the pinned GPU pages, and the
  request in progress. Four parties work on it at once: the thread that does I/O, the thread that unmaps the buffer, the GPU
  driver that takes its pages back by a callback, and the storage driver.

  \<^bold>\<open>The model.\<close> A kernel operation is a function from the environment (\<open>kenv\<close>, \<open>fsenv\<close>: what the kernel, the GPU driver and the
  file system answer) and the state (\<open>kstate\<close>) to an option: \<open>Some\<close> is a return to the caller, error numbers included; \<open>None\<close> is the
  death of the kernel (a \<^verbatim>\<open>BUG_ON\<close>, the use of freed memory or of a null pointer) or a wait that does not end. Groups live in a map from addresses, so that the use
  of a freed group is visible. Words keep their width where the code shifts, masks or wraps; reference counts and statistics
  are integers, wrapped at their width where they are stored.

  \<^bold>\<open>The theories\<close>, in the order of their imports, with the code each of them models:

  \<^item> \<open>Nvfs_Prelude\<close>: word types, error numbers, page geometry, pointers that may carry an error number; the generic lemmas on array updates, rounding
    and words; the interface \<open>keyed_table\<close>.
  \<^item> \<open>Nvfs_Types\<close>: the enumerations and structures of \<^verbatim>\<open>nvfs-mmap.h\<close> and \<^verbatim>\<open>nvfs-core.h\<close>.
  \<^item> \<open>Nvfs_Stat\<close>: \<^verbatim>\<open>nvfs-stat.c\<close> and \<^verbatim>\<open>nvfs-stat.h\<close>: counters, one-second windows, the table of GPUs. The windows share the interface
    \<open>latency_window\<close>, interpreted three times.
  \<^item> \<open>Nvfs_Mod\<close>: \<^verbatim>\<open>nvfs-mod.c\<close> and the table of \<^verbatim>\<open>nvfs-dma.c\<close>: probing of the storage modules and its undoing.
  \<^item> \<open>Nvfs_State\<close>: \<open>kstate\<close> and \<open>kenv\<close>, the operation counts of \<^verbatim>\<open>nvfs-core.c\<close>.
  \<^item> \<open>Nvfs_Mgroup\<close>: \<^verbatim>\<open>nvfs_mgroup_get\<close>, \<^verbatim>\<open>nvfs_mgroup_put\<close>, the hash table and the release of a group (\<^verbatim>\<open>nvfs-mmap.c\<close>, \<^verbatim>\<open>nvfs-core.c\<close>). The interface \<open>refcounted_store\<close>
    is interpreted on both ways of dropping a reference.
  \<^item> \<open>Nvfs_IoState\<close>: \<^verbatim>\<open>nvfs_transit_state\<close>, \<^verbatim>\<open>nvfs_io_terminate_requested\<close>, \<^verbatim>\<open>nvfs_vma_close\<close> and the other operations of a mapping. Shown: the chain of
    compare-and-exchange operations equals its table; unmapping an idle buffer releases everything, unmapping a busy one defers.
  \<^item> \<open>Nvfs_Machine\<close>: the same two routines one atomic operation at a time, and the interleavings of I/O, unmapping and callbacks as a step relation over these
    operations. Shown: run alone they are the routines of \<open>Nvfs_IoState\<close>; the invariant of the reachable states; that a request to end a buffer is
    told to wait exactly if an I/O runs, and that the buffer then ends; and the interleaving in which an I/O that ends during a request hides the buffer from it.
  \<^item> \<open>Nvfs_Blocks\<close>, \<open>Nvfs_Sparse\<close>: the block table (\<^verbatim>\<open>nvfs_mgroup_fill_mpages\<close>, \<^verbatim>\<open>nvfs_mgroup_check_and_set\<close>, \<^verbatim>\<open>nvfs_mgroup_from_page\<close>). Shown: a
    request queues exactly its blocks or is refused; the holes of a sparse file are reported exactly as long as the table has room.
  \<^item> \<open>Nvfs_Mmap\<close>, \<open>Nvfs_Pin\<close>: \<^verbatim>\<open>nvfs_mgroup_mmap\<close> and the lookup of a buffer by its user address (\<^verbatim>\<open>nvfs-mmap.c\<close>).
  \<^item> \<open>Nvfs_Gpu\<close>: \<^verbatim>\<open>nvfs_map\<close>, \<^verbatim>\<open>nvfs_pin_gpu_pages\<close>, \<^verbatim>\<open>nvfs_get_pages_free_callback\<close> (\<^verbatim>\<open>nvfs-core.c\<close>).
  \<^item> \<open>Nvfs_Dma\<close>: \<^verbatim>\<open>nvfs_get_p2p_dma_mapping\<close>, \<^verbatim>\<open>nvfs_get_dma\<close>: the bus address is that of the GPU memory the page stands for.
  \<^item> \<open>Nvfs_Io\<close>, \<open>Nvfs_IoRun\<close>: \<^verbatim>\<open>nvfs_io_init\<close>, \<^verbatim>\<open>nvfs_io_start_op\<close>, \<^verbatim>\<open>nvfs_direct_io\<close>, completion and release of a request. Shown: set-up takes all or nothing and stays within the
    GPU buffer; the loop over the pieces ends with all bytes transferred and everything given back.
  \<^item> \<open>Nvfs_Rdma\<close>, \<open>Nvfs_Batch\<close>, \<open>Nvfs_Ioctl\<close>: \<^verbatim>\<open>nvfs-rdma.c\<close>, \<^verbatim>\<open>nvfs-batch.c\<close> and the dispatch of \<^verbatim>\<open>nvfs_ioctl\<close>.
  \<^item> \<open>Nvfs_Async\<close>: asynchronous requests, from their submission to the completion that arrives later, also on a buffer that was unmapped
    meanwhile, and what happens when the file system answers one at once.
  \<^item> \<open>Nvfs_Sg\<close>: the scatter/gather hooks of \<^verbatim>\<open>nvfs-dma.c\<close>. Shown: the list is the division of the request into maximal runs of
    GPU memory; mapping and unmapping it gives every piece the right bus address and keeps the references balanced.
  \<^item> \<open>Nvfs_Iter\<close>: the iterator hooks of \<^verbatim>\<open>nvfs-dma.c\<close> for newer kernels, shown to hand out the very segments of the scatter/gather list.
  \<^item> \<open>Nvfs_Ops\<close>: the tables of hooks and feature bits of \<^verbatim>\<open>nvfs-dma.c\<close> and \<^verbatim>\<open>nvfs-dma.h\<close>. Shown: each module gets a table of the version it expects, and announced hooks exist.
  \<^item> \<open>Nvfs_Pci\<close>: \<^verbatim>\<open>nvfs-pci.c\<close> and \<^verbatim>\<open>nvfs-pci.h\<close>: identifiers, index tables, paths, distances and ranks. Shown: the computed distance is the distance in the tree of bridges.
  \<^item> \<open>Nvfs_Text\<close>, \<open>Nvfs_Init\<close>, \<open>Nvfs_Proc\<close>: number formats, loading and unloading (\<^verbatim>\<open>nvfs_init\<close>, \<^verbatim>\<open>nvfs_exit\<close>, \<^verbatim>\<open>nvfs-fault.c\<close>), and the files under \<^verbatim>\<open>/proc\<close> (\<^verbatim>\<open>nvfs-proc.c\<close>,
    \<^verbatim>\<open>nvfs-vers.h\<close>). Shown: the tables that the user-space library reads can be read back.
  \<^item> \<open>Nvfs_Keeps\<close>: the interface \<open>kept_property\<close>, with four laws on a property of the state, and from them, once and for all, that every operation of the driver
    keeps such a property on every path, errors included. Operations are compositions of others, and so are the lemmas, in the collection \<open>nvfs_keeps\<close>.
  \<^item> \<open>Nvfs_System\<close>: the driver as a transition system. A step is one call of any entry point, with any answers of the kernel, the GPU driver and the file
    system; while a request is in the file system or a callback waits, other threads take any number of steps. The extension \<open>kept_at\<close> adds
    what a property of one address needs. Three interpretations (the invariant \<open>driver_inv\<close>, the absence of a group, the layout of a group) give: the
    table and the pages are consistent in all reachable states, the test for GPU pages is exact there, and a group stays what it is
    until it is freed. The one promise asked of the kernel is \<open>fresh_memory\<close>: allocators hand out memory that is not in use. Apart
    from these two places a call is undivided here; two calls that interleave between their atomic operations are the subject of \<open>Nvfs_Machine\<close> and of the
    lemma \<open>get_during_last_put\<close>, by which a lookup inside the last put hands out a group that is then freed.
  \<^item> \<open>Nvfs_Life\<close> and this theory: the life of one buffer from \<^verbatim>\<open>mmap\<close> over the map request and any number of requests to \<^verbatim>\<open>munmap\<close>, composed of the
    outcomes that the component theories prove (\<open>mmap_outcome\<close>, \<open>map_outcome\<close>, \<open>ioctl_request_effect\<close>, \<open>munmap_outcome\<close>).

  \<^bold>\<open>Bounds and fuel.\<close> Loops are structural recursion or have a termination proof; those that wait for another thread are partial functions whose
  value is \<open>None\<close> when the wait does not end (unloading, the callback), with the waiting proved to end once the other thread has stopped. The
  scatter/gather lists obey the 127 entries of the NVMe driver, bridge paths the 16 rows and the tables the 64 GPUs and peers of the
  code. The theorems on DMA addresses and on the hooks are for pages of 4 KiB (\<open>page_shift e = 12\<close>); the others hold for every page size
  that divides a GPU page. The number of calls of the iterator is a parameter, and any number at least that of the segments is enough.

  \<^bold>\<open>Not modelled.\<close> Code under \<^verbatim>\<open>TEST_DISCONTIG_ADDR\<close>, \<^verbatim>\<open>NVFS_TEST_GPFS_CALLBACK\<close>, \<^verbatim>\<open>SIMULATE_*\<close> and the branches for builds without statistics;
  messages to the kernel log; the tables that hand functions to the kernel (\<^verbatim>\<open>file_operations\<close>, \<^verbatim>\<open>proc_ops\<close>, \<^verbatim>\<open>vm_operations_struct\<close>); \<^verbatim>\<open>nvfs-p2p.h\<close>, which only renames functions of the GPU driver; the kernel, the GPU
  driver, the file systems and the storage drivers themselves, whose answers are parameters.
\<close>

section \<open>The life of a buffer\<close>

text \<open>
  C1. A buffer leaves nothing behind. User space maps a buffer of whole GPU pages, ties it to GPU memory, does any number of synchronous reads
  and writes on it and unmaps it. With memory available, an unused index, a co-operating GPU driver and a file system that transfers
  what it is asked for, every call returns: mapping and map request succeed, each request transfers all its bytes or is refused with
  \<^verbatim>\<open>-EINVAL\<close>, and \<^verbatim>\<open>munmap\<close> frees the group. Afterwards the groups are those from before, the table of groups is well formed, the count of
  operations is what it was, the driver's reference to each of its pages is gone (one reference is left, that of the
  user's mapping, which the kernel drops), all other pages, the completion page among them, have the references they had, and the GPU pages
  were asked for once and given back once.
\<close>

theorem buffer_life_cycle:
  assumes "buffer_setup e vma inp s" and "gpu_setup e inp fp pt" and "copy_from_user u = 0" and "copy_to_user u = 0"
    and "\<forall>cmd \<in> set cmds. sync_request e fs (kzalloc_mgroup e) (map_cpuvaddr inp) cmd"
  shows "\<exists>vma1 s1 s2 rs s3 vma4 s4. nvfs_mgroup_mmap e vma s = Some (0, vma1, s1) \<and>
    nvfs_ioctl e fs False u (NVFS_IOCTL_MAP inp) s1 = Some (0, NoOut, s2) \<and>
    ioctl_seq e fs u cmds s2 = Some (rs, s3) \<and> list_all2 request_result cmds rs \<and>
    nvfs_vma_close e vma1 s3 = Some (vma4, s4) \<and> vm_private_data vma4 = None \<and>
    mgroups s4 = mgroups s \<and> hash_wf s4 \<and> ops_total e s4 = ops_total e s \<and>
    page_refs s4 = (\<lambda>pg. if \<exists>k < buffer_pages e vma. alloc_page e k = Some pg then 1 else page_refs s pg) \<and>
    filter (\<lambda>ev. \<not> io_event ev) (klog s4) =
      put_pages_event e inp # get_pages_event e inp # filter (\<lambda>ev. \<not> io_event ev) (klog s)"
proof -
  let ?p = "kzalloc_mgroup e" and ?n = "buffer_pages e vma"
  have su: "mgroups s ?p = None" "\<forall>site. kalloc_ok e site" "cpus_ok e" "pages_available e ?n" "unat (sbuf_block inp) mod 16 = 0"
    "sbuf_block inp \<noteq> 0" "pin_user_pages_fast e (map_cpuvaddr inp) 1 = (1, [the (alloc_page e 0)])"
    using assms(1) by (simp_all add: buffer_setup_def)
  obtain vma1 s1 m where mmap: "nvfs_mgroup_mmap e vma s = Some (0, vma1, s1)" "vm_private_data vma1 = Some ?p"
    "shadow_ok e inp s1 ?p m" "mgroups s1 = (mgroups s)(?p \<mapsto> m)" "mg_ref m = 1" "io_state (gpu_info m) = IO_FREE"
    "\<not> fault_injected m" "\<not> use_legacy_p2p_allocation (gpu_info m)" "page_of_group e s1 ?p m 0 (the (alloc_page e 0))"
    "nvfs_ppages m = Some (map (alloc_page e) [0 ..< ?n])" "nvfs_blocks_count m = unat (sbuf_block inp)"
    "nvfs_n_ops s1 = nvfs_n_ops s" "klog s1 = klog s"
    "page_refs s1 = (\<lambda>pg. if \<exists>k < ?n. alloc_page e k = Some pg then 2 else page_refs s pg)"
    by (rule mmap_for_map [OF assms(1) refl])
  obtain s2 m2 where map: "nvfs_ioctl e fs False u (NVFS_IOCTL_MAP inp) s1 = Some (0, NoOut, s2)"
    "mgroups s2 = (mgroups s1)(?p \<mapsto> m2)" "at_vaddr e s2 (map_cpuvaddr inp) ?p m2" "io_state (gpu_info m2) = IO_READY" "settled m2"
    "mg_ref m2 = mg_ref m + 1" "nvfs_blocks_count m2 = nvfs_blocks_count m" "nvfs_ppages m2 = nvfs_ppages m"
    "fault_injected m2 = fault_injected m" "gpu_releasable e (kstats s2) (gpu_info m2)" "end_fence_page (gpu_info m2) = Some fp"
    "gpuvaddr (gpu_info m2) = map_gpuvaddr inp" "gpu_buf_len (gpu_info m2) = map_size inp" "buckets (gpu_info m2) = []"
    "use_legacy_p2p_allocation (gpu_info m2) = (nvfs_use_legacy_p2p_allocation e \<or> use_legacy_p2p_allocation (gpu_info m))"
    "page_refs s2 = (page_refs s1)(fp := page_refs s1 fp + 1)" "klog s2 = get_pages_event e inp # klog s1" "ops_total e s2 = ops_total e s1 + 1"
    by (rule map_for_requests [OF mmap(3) assms(2) mmap(6) su(2,7) mmap(9) assms(3,4)])
  obtain b where b: "nvfs_blocks_count m2 = b * 16" "0 < b"
    using su(5,6) map(7) mmap(11) by (metis gr0I mod_0_imp_dvd dvdE mult.commute mult_0 unat_eq_zero)
  obtain rs s3 m3 where seq: "ioctl_seq e fs u cmds s2 = Some (rs, s3)" "list_all2 request_result cmds rs" "request_done ?p m2 m3 s2 s3"
    "at_vaddr e s3 (map_cpuvaddr inp) ?p m3"
    using ioctl_seq_runs [OF assms(5,3,4) map(3-5) b] assms(2) map(12,13) by (auto simp: gpu_setup_def)
  have ref: "mg_ref m2 = 2" "\<not> fault_injected m2" using map(6,9) mmap(5,7) by simp_all
  obtain vma4 s4 where un: "nvfs_vma_close e vma1 s3 = Some (vma4, s4)" "vm_private_data vma4 = None"
    "mgroups s4 = (mgroups s2)(?p := None)" "hash_wf s4" "ops_total e s4 = ops_total e s2 - 1"
    "page_refs s4 = (\<lambda>pg. page_refs s2 pg - group_page_uses m2 pg)"
    "filter (\<lambda>ev. \<not> io_event ev) (klog s4) = filter (\<lambda>ev. \<not> io_event ev) (release_log (gpu_info m2) @ klog s2)"
    by (rule munmap_after_requests [OF seq(3,4) mmap(2) map(4) ref su(3) map(10)])
  have "mgroups s4 = mgroups s" using un(3) map(2) mmap(4) su(1) by (auto simp: fun_eq_iff)
  moreover have "ops_total e s4 = ops_total e s" using un(5) map(18) mmap(12) by (simp add: ops_total_def)
  moreover have "page_refs s4 = (\<lambda>pg. if \<exists>k < ?n. alloc_page e k = Some pg then 1 else page_refs s pg)"
    unfolding un(6) map(16) mmap(14) by (auto simp: group_page_uses_def map(8,11) mmap(10) buffer_page_uses [OF su(4)] fun_eq_iff)
  moreover have "filter (\<lambda>ev. \<not> io_event ev) (klog s4) =
      put_pages_event e inp # get_pages_event e inp # filter (\<lambda>ev. \<not> io_event ev) (klog s)"
    unfolding un(7) map(17) mmap(13) by (simp add: release_log_def map(12,14,15) mmap(8) put_pages_event_def get_pages_event_def
        io_event_def pin_request_def)
  ultimately show ?thesis using mmap(1) map(1) seq(1,2) un(1,2,4) by blast
qed

lemma ex_buffer_setup: "buffer_setup ex_env ex_new_vma ex_map empty_kstate" "buffer_pages ex_env ex_new_vma = 16"
proof -
  let ?len = "unat (vm_end ex_new_vma - vm_start ex_new_vma)"
  have len: "?len = 65536" by (simp add: ex_new_vma_def ex_vma_def)
  show n: "buffer_pages ex_env ex_new_vma = 16"
    unfolding buffer_pages_def len by (simp add: ex_env_def nvfs_geom DIV_ROUND_UP_def)
  have "mmap_request_ok ex_env ex_new_vma"
    unfolding mmap_request_ok_def len by (simp add: ex_new_vma_def ex_env_def nvfs_geom vm_bits Let_def)
  moreover have "pages_available ex_env 16" by (simp add: pages_available_def ex_env_def)
  moreover have "hash_wf empty_kstate" "mgroups empty_kstate = Map.empty" "\<not> index_used empty_kstate b" for b
    by (simp_all add: empty_kstate_def hash_wf_def index_used_def)
  moreover have "valid_page_shift (page_shift ex_env)" "\<forall>site. kalloc_ok ex_env site" "vm_pgoff ex_new_vma = 0" "vm_private_data ex_new_vma = None"
    by (simp_all add: valid_page_shift_def ex_env_def ex_new_vma_def ex_vma_def)
  moreover have "pin_user_pages_fast ex_env (map_cpuvaddr ex_map) k = (int k, map (\<lambda>j. the (alloc_page ex_env j)) [0 ..< k])" for k
    by (simp add: ex_env_def ex_map_def)
  ultimately show "buffer_setup ex_env ex_new_vma ex_map empty_kstate"
    unfolding buffer_setup_def n len using ex_no_faults ex_env_cpus by (auto simp: ex_map_def intro: exI [of _ 0])
qed

lemma ex_gpu_setup: "gpu_setup ex_env ex_map 500 ex_page_table"
  using ex_fence_ok ex_gpu_request by (simp add: gpu_setup_def ex_map_def ex_page_table_def GPU_PAGE_MASK_def)

lemma ex_sync_request: "sync_request ex_env ex_fs (kzalloc_mgroup ex_env) (map_cpuvaddr ex_map) (NVFS_IOCTL_READ ex_args)"
  unfolding sync_request_def
  by (rule exI [of _ READ], rule exI [of _ ex_args], rule exI [of _ ex_file])
    (use ex_args_ok ex_run_env in \<open>simp add: ex_args_def ex_map_def ex_env_def\<close>)

theorem buffer_life_cycle_witness:
  "\<exists>vma1 s1 s2 rs s3 vma4 s4. nvfs_mgroup_mmap ex_env ex_new_vma empty_kstate = Some (0, vma1, s1) \<and>
     nvfs_ioctl ex_env ex_fs False \<lparr> copy_from_user = 0, copy_to_user = 0 \<rparr> (NVFS_IOCTL_MAP ex_map) s1 = Some (0, NoOut, s2) \<and>
     ioctl_seq ex_env ex_fs \<lparr> copy_from_user = 0, copy_to_user = 0 \<rparr> [NVFS_IOCTL_READ ex_args, NVFS_IOCTL_READ ex_args] s2 = Some (rs, s3) \<and>
     nvfs_vma_close ex_env vma1 s3 = Some (vma4, s4) \<and> mgroups s4 = Map.empty \<and> page_refs s4 503 = 1 \<and>
     filter (\<lambda>ev. \<not> io_event ev) (klog s4) = [EvPutPages 0x20000, EvGetPages 0x20000 0x10000]"
proof -
  let ?u = "\<lparr> copy_from_user = 0, copy_to_user = 0 \<rparr> :: ucopy"
  have u: "copy_from_user ?u = 0" "copy_to_user ?u = 0" by simp_all
  have req: "\<forall>cmd \<in> set [NVFS_IOCTL_READ ex_args, NVFS_IOCTL_READ ex_args].
      sync_request ex_env ex_fs (kzalloc_mgroup ex_env) (map_cpuvaddr ex_map) cmd"
    using ex_sync_request by simp
  have "mgroups empty_kstate = Map.empty" "klog empty_kstate = []" by (simp_all add: empty_kstate_def)
  moreover have "\<exists>k < buffer_pages ex_env ex_new_vma. alloc_page ex_env k = Some 503"
    unfolding ex_buffer_setup(2) by (rule exI [of _ 3]) (simp add: ex_env_def)
  moreover have "put_pages_event ex_env ex_map = EvPutPages 0x20000" "get_pages_event ex_env ex_map = EvGetPages 0x20000 0x10000"
    by (simp_all add: put_pages_event_def get_pages_event_def ex_gpu_request ex_env_def)
  ultimately show ?thesis
    using buffer_life_cycle [OF ex_buffer_setup(1) ex_gpu_setup u req] by (elim exE conjE, intro exI conjI) (assumption | simp)+
qed

end
